(* ===== verification/Prelude.thy ===== *)
theory Prelude
  imports Main "HOL-Library.Word"
begin

text \<open>
  Shared vocabulary of the development: the machine types of the Go sources, the
  collections of facts that the component theories extend, and the generic lemmas on
  lists, separators, maps and words that more than one component uses.

  A Go byte slice and a Go string are both sequences of bytes; Isabelle's characters are
  exactly the 256 bytes, so both are a \<open>bytes = char list\<close> and the protocol literals
  of the code can be written as string literals.
\<close>

unbundle bit_operations_syntax

section \<open>Types\<close>

type_synonym bytes = "char list"
type_synonym u8 = "8 word"
type_synonym u16 = "16 word"
type_synonym u32 = "32 word"
type_synonym u64 = "64 word"

text \<open>Instants and durations are Go's nanosecond counts.\<close>

type_synonym time = int
type_synonym duration = int

section \<open>Collections of facts\<close>

named_theorems scan_defs \<open>definitions of the byte scanners\<close>
named_theorems frame \<open>what an operation leaves unchanged\<close>
named_theorems bounds \<open>bounds kept by the operations\<close>

section \<open>Lists\<close>

abbreviation byte_of :: "char \<Rightarrow> nat" where
  "byte_of c \<equiv> of_char c"

definition has_prefix :: "'a list \<Rightarrow> 'a list \<Rightarrow> bool" where
  "has_prefix s p \<longleftrightarrow> take (length p) s = p"

lemma has_prefix_Nil [simp]: "has_prefix s []"
  by (simp add: has_prefix_def)

lemma has_prefix_Cons [simp]:
  "has_prefix s (p # ps) \<longleftrightarrow> (case s of [] \<Rightarrow> False | c # cs \<Rightarrow> c = p \<and> has_prefix cs ps)"
  by (cases s) (auto simp: has_prefix_def)

lemma has_prefix_conv: "has_prefix s p \<longleftrightarrow> (\<exists>t. s = p @ t)"
  by (metis append_eq_conv_conj append_take_drop_id has_prefix_def)

lemma has_prefix_length: "has_prefix s p \<Longrightarrow> length p \<le> length s"
  by (auto simp: has_prefix_conv)

lemma has_prefix_append: "has_prefix s p \<Longrightarrow> has_prefix (s @ t) p"
  by (auto simp: has_prefix_conv)

lemma has_prefix_appendD:
  "has_prefix (s @ t) p \<Longrightarrow> length p \<le> length s \<Longrightarrow> has_prefix s p"
  by (simp add: has_prefix_def)

lemma has_prefix_nth:
  "has_prefix s p \<longleftrightarrow> length p \<le> length s \<and> (\<forall>i < length p. s ! i = p ! i)"
  by (auto simp: has_prefix_def list_eq_iff_nth_eq)

lemma split_at_sep:
  "c \<notin> set xs \<Longrightarrow> c \<notin> set ys \<Longrightarrow>
    xs @ c # xs' = ys @ c # ys' \<longleftrightarrow> xs = ys \<and> xs' = ys'"
proof (induction xs arbitrary: ys)
  case Nil
  then show ?case by (cases ys) auto
next
  case (Cons x xs)
  then show ?case by (cases ys) auto
qed

lemma split_at_last_sep:
  assumes "c \<notin> set xs'" "c \<notin> set ys'"
  shows "xs @ c # xs' = ys @ c # ys' \<longleftrightarrow> xs = ys \<and> xs' = ys'"
proof
  assume "xs @ c # xs' = ys @ c # ys'"
  then have "rev (xs @ c # xs') = rev (ys @ c # ys')" by simp
  then have "rev xs' @ c # rev xs = rev ys' @ c # rev ys" by simp
  with assms show "xs = ys \<and> xs' = ys'" by (simp add: split_at_sep)
qed simp

section \<open>Words\<close>

text \<open>The value a Go \<open>int64\<close> holds after an addition: two's complement wrap-around.\<close>

definition int64 :: "int \<Rightarrow> int" where
  "int64 x = sint (word_of_int x :: u64)"

lemma int64_id [simp]: "- (2 ^ 63) \<le> x \<Longrightarrow> x < 2 ^ 63 \<Longrightarrow> int64 x = x"
  unfolding int64_def by (subst signed_of_int) (simp add: signed_take_bit_int_eq_self)

lemma int64_max: "int64 (2 ^ 63) = - (2 ^ 63)"
  by (simp add: int64_def)

section \<open>Machines\<close>

text \<open>
  Every long-running part of the program is a state that a step function updates per input.
  Three contracts are shared: an invariant that every step keeps, a measure that every input
  moves by an amount of its own, and a relation to another machine that corresponding inputs keep
  as long as a guard holds of the first one.
\<close>

locale step_invariant =
  fixes step :: "'i \<Rightarrow> 's \<Rightarrow> 's"
    and I :: "'s \<Rightarrow> bool"
  assumes keeps: "I s \<Longrightarrow> I (step i s)"
begin

lemma run_keeps: "I s \<Longrightarrow> I (fold step is s)"
  by (induction "is" arbitrary: s) (auto intro: keeps)

end

locale step_counter =
  fixes step :: "'i \<Rightarrow> 's \<Rightarrow> 's"
    and count :: "'s \<Rightarrow> 'n::comm_monoid_add"
    and weight :: "'i \<Rightarrow> 'n"
  assumes counts: "count (step i s) = count s + weight i"
begin

lemma run_counts: "count (fold step is s) = count s + sum_list (map weight is)"
  by (induction "is" arbitrary: s) (auto simp: counts add.assoc)

end

locale step_simulation =
  fixes stepA :: "'i \<Rightarrow> 'a \<Rightarrow> 'a"
    and stepB :: "'j \<Rightarrow> 'b \<Rightarrow> 'b"
    and R :: "'a \<Rightarrow> 'b \<Rightarrow> bool"
    and corresponds :: "'i \<Rightarrow> 'j \<Rightarrow> bool"
    and guard :: "'i \<Rightarrow> 'a \<Rightarrow> bool"
  assumes simulates: "R a b \<Longrightarrow> corresponds i j \<Longrightarrow> guard i a \<Longrightarrow> R (stepA i a) (stepB j b)"
begin

lemma run_simulates:
  "list_all2 corresponds is js \<Longrightarrow> R a b \<Longrightarrow> (\<And>n. n < length is \<Longrightarrow> guard (is ! n) (fold stepA (take n is) a)) \<Longrightarrow>
     R (fold stepA is a) (fold stepB js b)"
proof (induction arbitrary: a b rule: list_all2_induct)
  case (Cons i "is" j js)
  have "R (stepA i a) (stepB j b)" using simulates Cons.hyps(1) Cons.prems(1) Cons.prems(2) [of 0] by simp
  moreover have "guard (is ! n) (fold stepA (take n is) (stepA i a))" if "n < length is" for n
    using Cons.prems(2) [of "Suc n"] that by simp
  ultimately show ?case using Cons.IH by simp
qed simp

end

end
