(* ===== verification/GoLib.thy ===== *)
theory GoLib
  imports Prelude
begin

text \<open>
  The parts of Go's standard library that the tracer's logic rests on, as executable
  functions on bytes: searching (\<open>bytes.Index\<close>), trimming and splitting, decimal
  formatting and parsing, hexadecimal, UTF-8 validity and standard base64. The laws proved
  here (least match, inverse formatting, base64 round trip) carry the component proofs.
\<close>

section \<open>Searching\<close>

text \<open>\<open>bytes.Index\<close>: the first position at which \<open>sep\<close> occurs, or \<open>-1\<close>.\<close>

fun bytes_index :: "bytes \<Rightarrow> bytes \<Rightarrow> int" where
  "bytes_index [] sep = (if sep = [] then 0 else - 1)"
| "bytes_index (c # cs) sep =
     (if has_prefix (c # cs) sep then 0
      else let i = bytes_index cs sep in if i < 0 then - 1 else i + 1)"

definition contains :: "bytes \<Rightarrow> bytes \<Rightarrow> bool" where
  "contains s sep \<longleftrightarrow> 0 \<le> bytes_index s sep"

definition has_suffix :: "bytes \<Rightarrow> bytes \<Rightarrow> bool" where
  "has_suffix s p \<longleftrightarrow> has_prefix (rev s) (rev p)"

text \<open>\<open>occurs_at s sep i\<close>: the separator stands at position \<open>i\<close>.\<close>

definition occurs_at :: "bytes \<Rightarrow> bytes \<Rightarrow> nat \<Rightarrow> bool" where
  "occurs_at s sep i \<longleftrightarrow> i + length sep \<le> length s \<and> has_prefix (drop i s) sep"

lemma occurs_at_0: "occurs_at s sep 0 \<longleftrightarrow> has_prefix s sep"
  by (auto simp: occurs_at_def dest: has_prefix_length)

lemma occurs_at_Suc: "occurs_at (c # s) sep (Suc i) \<longleftrightarrow> occurs_at s sep i"
  by (simp add: occurs_at_def)

lemma occurs_at_Nil: "occurs_at [] sep i \<longleftrightarrow> sep = [] \<and> i = 0"
  by (auto simp: occurs_at_def)

lemma bytes_index_ge: "- 1 \<le> bytes_index s sep"
  by (induction s) (auto simp: Let_def)

lemma bytes_index_found:
  "bytes_index s sep = int i \<longleftrightarrow> occurs_at s sep i \<and> (\<forall>j < i. \<not> occurs_at s sep j)"
proof (induction s arbitrary: i)
  case Nil
  then show ?case by (auto simp: occurs_at_Nil)
next
  case (Cons c cs)
  have IH: "\<And>i. bytes_index cs sep = int i \<longleftrightarrow>
      occurs_at cs sep i \<and> (\<forall>j < i. \<not> occurs_at cs sep j)" by (rule Cons.IH)
  show ?case
  proof (cases "has_prefix (c # cs) sep")
    case True
    then have "occurs_at (c # cs) sep 0" by (simp add: occurs_at_0)
    moreover from True have "bytes_index (c # cs) sep = 0" by simp
    ultimately show ?thesis by (cases i) auto
  next
    case False
    then have n0: "\<not> occurs_at (c # cs) sep 0" by (simp add: occurs_at_0)
    show ?thesis
    proof (cases i)
      case 0
      with False n0 show ?thesis by (simp add: Let_def del: has_prefix_Cons)
    next
      case (Suc k)
      have "bytes_index (c # cs) sep = int (Suc k) \<longleftrightarrow> bytes_index cs sep = int k"
        using False by (auto simp: Let_def simp del: has_prefix_Cons)
      also have "\<dots> \<longleftrightarrow> occurs_at (c # cs) sep (Suc k) \<and>
          (\<forall>j < k. \<not> occurs_at (c # cs) sep (Suc j))"
        by (simp add: IH occurs_at_Suc)
      also have "\<dots> \<longleftrightarrow> occurs_at (c # cs) sep (Suc k) \<and>
          (\<forall>j < Suc k. \<not> occurs_at (c # cs) sep j)"
        using n0 by (metis Suc_less_eq gr0_conv_Suc less_Suc_eq_0_disj)
      finally show ?thesis by (simp add: Suc)
    qed
  qed
qed

lemma bytes_index_none: "bytes_index s sep = - 1 \<longleftrightarrow> (\<forall>i. \<not> occurs_at s sep i)"
proof (induction s)
  case Nil
  then show ?case by (auto simp: occurs_at_Nil)
next
  case (Cons c cs)
  have "(\<forall>i. \<not> occurs_at (c # cs) sep i) \<longleftrightarrow>
      \<not> has_prefix (c # cs) sep \<and> (\<forall>i. \<not> occurs_at cs sep i)"
    by (metis not0_implies_Suc occurs_at_0 occurs_at_Suc)
  moreover have "bytes_index (c # cs) sep = - 1 \<longleftrightarrow>
      \<not> has_prefix (c # cs) sep \<and> bytes_index cs sep = - 1"
    using bytes_index_ge [of cs sep] by (auto simp: Let_def simp del: has_prefix_Cons)
  ultimately show ?case using Cons.IH by simp
qed

lemma bytes_index_cases:
  obtains (none) "bytes_index s sep = - 1" | (found) i where "bytes_index s sep = int i"
  using bytes_index_ge [of s sep] by (cases "bytes_index s sep") auto

lemma bytes_index_nonneg: "0 \<le> bytes_index s sep \<longleftrightarrow> (\<exists>i. occurs_at s sep i)"
  using bytes_index_ge [of s sep] bytes_index_none [of s sep] by force

lemma contains_conv: "contains s sep \<longleftrightarrow> (\<exists>us vs. s = us @ sep @ vs)"
proof -
  have "(\<exists>i. occurs_at s sep i) \<longleftrightarrow> (\<exists>us vs. s = us @ sep @ vs)"
  proof
    assume "\<exists>i. occurs_at s sep i"
    then obtain i where "has_prefix (drop i s) sep" by (auto simp: occurs_at_def)
    then obtain t where "drop i s = sep @ t" by (auto simp: has_prefix_conv)
    then have "s = take i s @ sep @ t" by (metis append_take_drop_id)
    then show "\<exists>us vs. s = us @ sep @ vs" by blast
  next
    assume "\<exists>us vs. s = us @ sep @ vs"
    then obtain us vs where "s = us @ sep @ vs" by blast
    then have "occurs_at s sep (length us)" by (simp add: occurs_at_def has_prefix_def)
    then show "\<exists>i. occurs_at s sep i" ..
  qed
  then show ?thesis by (simp add: contains_def bytes_index_nonneg)
qed

section \<open>Trimming, splitting, folding of case\<close>

text \<open>
  \<open>strings.TrimSpace\<close> removes Unicode white space: the six ASCII blanks and the UTF-8
  encodings of U+0085, U+00A0, U+1680, U+2000 to U+200A, U+2028, U+2029, U+202F, U+205F
  and U+3000.
\<close>

definition ascii_spaces :: "bytes list" where
  "ascii_spaces = [[CHR 0x09], [CHR 0x0A], [CHR 0x0B], [CHR 0x0C], [CHR 0x0D], [CHR 0x20]]"

definition wide_spaces :: "bytes list" where
  "wide_spaces =
    [[CHR 0xC2, CHR 0x85], [CHR 0xC2, CHR 0xA0], [CHR 0xE1, CHR 0x9A, CHR 0x80],
     [CHR 0xE2, CHR 0x80, CHR 0x80], [CHR 0xE2, CHR 0x80, CHR 0x81], [CHR 0xE2, CHR 0x80, CHR 0x82],
     [CHR 0xE2, CHR 0x80, CHR 0x83], [CHR 0xE2, CHR 0x80, CHR 0x84], [CHR 0xE2, CHR 0x80, CHR 0x85],
     [CHR 0xE2, CHR 0x80, CHR 0x86], [CHR 0xE2, CHR 0x80, CHR 0x87], [CHR 0xE2, CHR 0x80, CHR 0x88],
     [CHR 0xE2, CHR 0x80, CHR 0x89], [CHR 0xE2, CHR 0x80, CHR 0x8A], [CHR 0xE2, CHR 0x80, CHR 0xA8],
     [CHR 0xE2, CHR 0x80, CHR 0xA9], [CHR 0xE2, CHR 0x80, CHR 0xAF], [CHR 0xE2, CHR 0x81, CHR 0x9F],
     [CHR 0xE3, CHR 0x80, CHR 0x80]]"

definition go_spaces :: "bytes list" where
  "go_spaces = ascii_spaces @ wide_spaces"

function trim_with :: "bytes list \<Rightarrow> bytes \<Rightarrow> bytes" where
  "trim_with cuts s =
     (case find (\<lambda>c. c \<noteq> [] \<and> has_prefix s c) cuts of
        None \<Rightarrow> s
      | Some c \<Rightarrow> trim_with cuts (drop (length c) s))"
  by pat_completeness auto
termination
proof (relation "measure (\<lambda>(cuts, s). length s)", goal_cases)
  case 1
  then show ?case by simp
next
  case (2 cuts s c)
  then have "c \<noteq> []" "has_prefix s c" by (auto simp: find_Some_iff)
  then show ?case using has_prefix_length [of s c] by (cases c; cases s) auto
qed

declare trim_with.simps [simp del]

definition reversed_spaces :: "bytes list" where
  "reversed_spaces = map rev go_spaces"

definition trim_space_right :: "bytes \<Rightarrow> bytes" where
  "trim_space_right s = rev (trim_with reversed_spaces (rev s))"

definition trim_space :: "bytes \<Rightarrow> bytes" where
  "trim_space s = trim_space_right (trim_with go_spaces s)"

definition trim_right_char :: "char \<Rightarrow> bytes \<Rightarrow> bytes" where
  "trim_right_char c s = rev (dropWhile (\<lambda>x. x = c) (rev s))"

fun split_on :: "char \<Rightarrow> bytes \<Rightarrow> bytes list" where
  "split_on c [] = [[]]"
| "split_on c (x # xs) =
     (if x = c then [] # split_on c xs
      else (case split_on c xs of [] \<Rightarrow> [[x]] | p # ps \<Rightarrow> (x # p) # ps))"

lemma split_on_nonempty [simp]: "split_on c s \<noteq> []"
  by (induction s) (auto split: list.splits)

lemma split_on_no_sep: "c \<notin> set s \<Longrightarrow> split_on c s = [s]"
  by (induction s) auto

lemma split_on_append: "c \<notin> set p \<Longrightarrow> split_on c (p @ c # s) = p # split_on c s"
  by (induction p) auto

text \<open>\<open>strings.EqualFold\<close> against an ASCII string: simple Unicode folding relates the
  Kelvin sign to the letter k and the long s to the letter s.\<close>

definition lower_ascii :: "char \<Rightarrow> char" where
  "lower_ascii c = (if 65 \<le> byte_of c \<and> byte_of c \<le> (90::nat) then char_of (byte_of c + 32 :: nat) else c)"

definition kelvin :: bytes where "kelvin = [CHR 0xE2, CHR 0x84, CHR 0xAA]"
definition long_s :: bytes where "long_s = [CHR 0xC5, CHR 0xBF]"

fun equal_fold :: "bytes \<Rightarrow> bytes \<Rightarrow> bool" where
  "equal_fold s [] = (s = [])"
| "equal_fold s (t # ts) =
     (if lower_ascii t = CHR ''k'' \<and> has_prefix s kelvin then equal_fold (drop 3 s) ts
      else if lower_ascii t = CHR ''s'' \<and> has_prefix s long_s then equal_fold (drop 2 s) ts
      else (case s of [] \<Rightarrow> False | c # cs \<Rightarrow> lower_ascii c = lower_ascii t \<and> equal_fold cs ts))"

lemma equal_fold_refl [simp]: "equal_fold s s"
proof (induction s)
  case (Cons c s)
  have "\<not> (lower_ascii c = CHR ''k'' \<and> has_prefix (c # s) kelvin)"
    by (auto simp: kelvin_def lower_ascii_def)
  moreover have "\<not> (lower_ascii c = CHR ''s'' \<and> has_prefix (c # s) long_s)"
    by (auto simp: long_s_def lower_ascii_def)
  ultimately show ?case using Cons by (auto simp del: has_prefix_Cons)
qed simp

text \<open>The variadic \<open>firstNonEmpty\<close> of the workers.\<close>

fun firstNonEmpty :: "bytes list \<Rightarrow> bytes" where
  "firstNonEmpty [] = []"
| "firstNonEmpty (v # vs) = (if v \<noteq> [] then v else firstNonEmpty vs)"

lemma firstNonEmpty_find: "firstNonEmpty vs = (case find (\<lambda>v. v \<noteq> []) vs of None \<Rightarrow> [] | Some v \<Rightarrow> v)"
  by (induction vs) auto

section \<open>Decimal and hexadecimal numbers\<close>

text \<open>\<open>%d\<close> of an unsigned and of a signed integer.\<close>

definition digit_char :: "nat \<Rightarrow> char" where
  "digit_char d = char_of (48 + d)"

fun show_nat :: "nat \<Rightarrow> bytes" where
  "show_nat n = (if n < 10 then [digit_char n] else show_nat (n div 10) @ [digit_char (n mod 10)])"

declare show_nat.simps [simp del]

definition show_int :: "int \<Rightarrow> bytes" where
  "show_int i = (if i < 0 then CHR ''-'' # show_nat (nat (- i)) else show_nat (nat i))"

definition is_digit :: "char \<Rightarrow> bool" where
  "is_digit c \<longleftrightarrow> 48 \<le> byte_of c \<and> byte_of c \<le> (57::nat)"

definition digits_value :: "bytes \<Rightarrow> nat" where
  "digits_value s = foldl (\<lambda>n c. 10 * n + (byte_of c - 48)) 0 s"

lemma digit_char [simp]:
  assumes "d < 10"
  shows "is_digit (digit_char d)" "byte_of (digit_char d) - 48 = d"
  using assms by (auto simp: is_digit_def digit_char_def)

lemma show_nat_digits: "list_all is_digit (show_nat n)"
proof (induction n rule: show_nat.induct)
  case (1 n)
  then show ?case by (subst show_nat.simps) (simp add: list_all_append)
qed

lemma show_nat_nonempty [simp]: "show_nat n \<noteq> []"
  by (subst show_nat.simps) simp

lemma digits_value_snoc: "digits_value (s @ [c]) = 10 * digits_value s + (byte_of c - 48)"
  by (simp add: digits_value_def)

lemma digits_value_show_nat [simp]: "digits_value (show_nat n) = n"
proof (induction n rule: show_nat.induct)
  case (1 n)
  show ?case
  proof (cases "n < 10")
    case True
    then show ?thesis by (subst show_nat.simps) (simp add: digits_value_def)
  next
    case False
    with 1 show ?thesis by (subst show_nat.simps) (simp add: digits_value_snoc)
  qed
qed

lemma show_nat_inject [simp]: "show_nat m = show_nat n \<longleftrightarrow> m = n"
  by (metis digits_value_show_nat)

lemma show_nat_no_sep: "\<not> is_digit c \<Longrightarrow> c \<notin> set (show_nat n)"
  using show_nat_digits [of n] by (auto simp: list_all_iff)

lemma show_int_inject [simp]: "show_int i = show_int j \<longleftrightarrow> i = j"
proof
  assume eq: "show_int i = show_int j"
  have dash: "\<not> is_digit CHR ''-''" by (simp add: is_digit_def)
  have hd: "\<And>n. hd (show_nat n) \<noteq> CHR ''-''"
    using show_nat_no_sep [OF dash] by (metis hd_in_set show_nat_nonempty)
  then have ne: "\<And>m n. show_nat n \<noteq> CHR ''-'' # show_nat m" by (metis list.sel(1))
  then have "\<And>m n. CHR ''-'' # show_nat m \<noteq> show_nat n" by metis
  with eq ne show "i = j" by (auto simp: show_int_def split: if_splits)
qed simp

lemma show_int_no_sep: "\<not> is_digit c \<Longrightarrow> c \<noteq> CHR ''-'' \<Longrightarrow> c \<notin> set (show_int i)"
  by (auto simp: show_int_def show_nat_no_sep)

text \<open>\<open>strconv.ParseUint(s, 10, bits)\<close>: \<open>None\<close> is the error return.\<close>

definition parse_uint :: "nat \<Rightarrow> bytes \<Rightarrow> nat option" where
  "parse_uint bits s =
     (if s \<noteq> [] \<and> list_all is_digit s \<and> int (digits_value s) < 2 ^ bits then Some (digits_value s) else None)"

lemma parse_uint_show_nat: "n < 2 ^ bits \<Longrightarrow> parse_uint bits (show_nat n) = Some n"
  using of_nat_less_iff [of n "2 ^ bits", where 'a = int] by (simp add: parse_uint_def show_nat_digits)

text \<open>\<open>strconv.Atoi\<close>: an optional sign, then digits, within \<open>int\<close> (64 bits).\<close>

definition atoi :: "bytes \<Rightarrow> int option" where
  "atoi s =
     (let neg = has_prefix s ''-''; s' = (if neg \<or> has_prefix s ''+'' then drop 1 s else s)
      in if s' = [] \<or> \<not> list_all is_digit s' then None
         else if neg then (if int (digits_value s') \<le> 2 ^ 63 then Some (- int (digits_value s')) else None)
         else (if int (digits_value s') < 2 ^ 63 then Some (int (digits_value s')) else None))"

text \<open>Lower-case hexadecimal: \<open>hex.EncodeToString\<close> and \<open>%024x\<close>.\<close>

definition hex_char :: "nat \<Rightarrow> char" where
  "hex_char d = (if d < 10 then char_of (48 + d) else char_of (87 + d))"

definition hex_encode :: "bytes \<Rightarrow> bytes" where
  "hex_encode s = concat (map (\<lambda>c. [hex_char (byte_of c div 16), hex_char (byte_of c mod 16)]) s)"

fun hex_nat :: "nat \<Rightarrow> bytes" where
  "hex_nat n = (if n < 16 then [hex_char n] else hex_nat (n div 16) @ [hex_char (n mod 16)])"

declare hex_nat.simps [simp del]

lemma length_hex_encode [simp]: "length (hex_encode s) = 2 * length s"
  by (induction s) (auto simp: hex_encode_def)

section \<open>UTF-8\<close>

text \<open>\<open>utf8.Valid\<close>: shortest-form encodings, no surrogates, nothing above U+10FFFF.\<close>

definition cont :: "char \<Rightarrow> bool" where
  "cont c \<longleftrightarrow> 128 \<le> byte_of c \<and> byte_of c \<le> (191::nat)"

definition in_range :: "nat \<Rightarrow> nat \<Rightarrow> char \<Rightarrow> bool" where
  "in_range lo hi c \<longleftrightarrow> lo \<le> byte_of c \<and> byte_of c \<le> hi"

text \<open>The length of the valid encoding that starts the input, 0 if there is none.\<close>

definition utf8_size :: "bytes \<Rightarrow> nat" where
  "utf8_size s =
     (case s of [] \<Rightarrow> 0 | a # r1 \<Rightarrow>
       if byte_of a < (128::nat) then 1 else
       (case r1 of [] \<Rightarrow> 0 | b # r2 \<Rightarrow>
         if in_range 194 223 a then (if cont b then 2 else 0) else
         (case r2 of [] \<Rightarrow> 0 | c # r3 \<Rightarrow>
           if in_range 224 239 a then
             (if (if byte_of a = (224::nat) then in_range 160 191 b
                  else if byte_of a = (237::nat) then in_range 128 159 b else cont b) \<and> cont c
              then 3 else 0)
           else (case r3 of [] \<Rightarrow> 0 | d # _ \<Rightarrow>
             if in_range 240 244 a \<and>
                (if byte_of a = (240::nat) then in_range 144 191 b
                 else if byte_of a = (244::nat) then in_range 128 143 b else cont b) \<and> cont c \<and> cont d
             then 4 else 0))))"

function utf8_valid :: "bytes \<Rightarrow> bool" where
  "utf8_valid s =
     (if s = [] then True
      else if utf8_size s = 0 then False
      else utf8_valid (drop (utf8_size s) s))"
  by pat_completeness auto
termination
  by (relation "measure length") (auto simp: length_greater_0_conv)

declare utf8_valid.simps [simp del]

lemma utf8_valid_Nil [simp]: "utf8_valid []"
  by (simp add: utf8_valid.simps)

lemma utf8_valid_ascii: "list_all (\<lambda>c. byte_of c < (128::nat)) s \<Longrightarrow> utf8_valid s"
proof (induction s)
  case (Cons c s)
  then have "utf8_size (c # s) = 1" by (simp add: utf8_size_def)
  with Cons show ?case by (subst utf8_valid.simps) simp
qed simp

end
