(* ===== verification/Model.thy ===== *)
theory Model
  imports GoLib
begin

text \<open>
  The data model of the worker, \<^verbatim>\<open>cmd/worker/model.go\<close>: the raw network event read from
  Kafka, the metadata it carries, the per-flow stream state, the session store, the counters
  and the conversation that is emitted. Integers keep their Go width: unsigned event fields
  are words, \<open>int\<close> fields are integers. The mutex fields are left out; each operation
  that the code runs under a mutex is one function here.
\<close>

section \<open>Constants\<close>

definition requestStartProbeWindow :: nat where "requestStartProbeWindow = 16"
definition responseStartProbeWindow :: nat where "responseStartProbeWindow = 16"

definition eventTypeData :: u8 where "eventTypeData = 0"
definition eventTypeClose :: u8 where "eventTypeClose = 1"
definition directionRead :: u8 where "directionRead = 0"
definition directionWrite :: u8 where "directionWrite = 1"

definition outputSinkStdout :: bytes where "outputSinkStdout = ''stdout''"
definition outputSinkHTTP :: bytes where "outputSinkHTTP = ''http''"
definition outputSinkKafka :: bytes where "outputSinkKafka = ''kafka''"

datatype payloadKind = payloadUnknown | payloadRequest | payloadResponse

fun payloadKind_String :: "payloadKind \<Rightarrow> bytes" where
  "payloadKind_String payloadRequest = ''request''"
| "payloadKind_String payloadResponse = ''response''"
| "payloadKind_String payloadUnknown = ''unknown''"

section \<open>Metadata\<close>

record ConnectionMetadata =
  conn_SrcIP :: bytes
  conn_SrcPort :: int
  conn_DstIP :: bytes
  conn_DstPort :: int
  conn_Protocol :: bytes
  conn_Family :: bytes
  conn_Role :: bytes

record ProcessMetadata =
  proc_PID :: u32
  proc_Name :: bytes
  proc_Exe :: bytes

record ContainerMetadata =
  cont_ID :: bytes
  cont_Name :: bytes
  cont_Image :: bytes
  cont_Namespace :: bytes
  cont_Pod :: bytes
  cont_Node :: bytes
  cont_Runtime :: bytes
  cont_PodUID :: bytes

record LossMetadata =
  loss_Truncated :: bool
  loss_OriginalSize :: u32
  loss_CapturedSize :: u32
  loss_Reason :: bytes
  loss_SequenceGap :: bool
  loss_ExpectedNextSeq :: u32
  loss_ActualSeq :: u32

text \<open>Go's zero values of these structs.\<close>

definition noConnection :: ConnectionMetadata where
  "noConnection = \<lparr>conn_SrcIP = [], conn_SrcPort = 0, conn_DstIP = [], conn_DstPort = 0,
     conn_Protocol = [], conn_Family = [], conn_Role = []\<rparr>"

definition noProcess :: ProcessMetadata where
  "noProcess = \<lparr>proc_PID = 0, proc_Name = [], proc_Exe = []\<rparr>"

definition noContainer :: ContainerMetadata where
  "noContainer = \<lparr>cont_ID = [], cont_Name = [], cont_Image = [], cont_Namespace = [],
     cont_Pod = [], cont_Node = [], cont_Runtime = [], cont_PodUID = []\<rparr>"

definition noLoss :: LossMetadata where
  "noLoss = \<lparr>loss_Truncated = False, loss_OriginalSize = 0, loss_CapturedSize = 0, loss_Reason = [],
     loss_SequenceGap = False, loss_ExpectedNextSeq = 0, loss_ActualSeq = 0\<rparr>"

section \<open>Events\<close>

record ApiEvent =
  ev_SchemaVersion :: bytes
  ev_CaptureSource :: bytes
  ev_CaptureMode :: bytes
  ev_Timestamp :: u64
  ev_PID :: u32
  ev_TID :: u32
  ev_FD :: u32
  ev_Generation :: u32
  ev_Seq :: u32
  ev_ChunkIndex :: u16
  ev_ChunkCount :: u16
  ev_Direction :: u8
  ev_EventType :: u8
  ev_Flags :: u8
  ev_OriginalSize :: u32
  ev_Size :: u32
  ev_Payload :: bytes
  ev_Connection :: ConnectionMetadata
  ev_Process :: ProcessMetadata
  ev_Container :: ContainerMetadata
  ev_Loss :: LossMetadata

definition zeroEvent :: ApiEvent where
  "zeroEvent = \<lparr>ev_SchemaVersion = [], ev_CaptureSource = [], ev_CaptureMode = [], ev_Timestamp = 0,
     ev_PID = 0, ev_TID = 0, ev_FD = 0, ev_Generation = 0, ev_Seq = 0, ev_ChunkIndex = 0,
     ev_ChunkCount = 0, ev_Direction = 0, ev_EventType = 0, ev_Flags = 0, ev_OriginalSize = 0,
     ev_Size = 0, ev_Payload = [], ev_Connection = noConnection, ev_Process = noProcess,
     ev_Container = noContainer, ev_Loss = noLoss\<rparr>"

section \<open>HTTP messages\<close>

text \<open>
  The parts of \<open>http.Request\<close> and \<open>http.Response\<close> that the worker reads. A header
  maps a canonical name to its values, here as an association list, so that requests can be
  compared; \<open>Header.Get\<close> is the first value or the empty
  string. The two URL fields are the results of \<open>URL.RequestURI()\<close> and of \<open>URL.Path\<close>.
\<close>

type_synonym http_header = "(bytes \<times> bytes list) list"

definition header_Get :: "http_header \<Rightarrow> bytes \<Rightarrow> bytes" where
  "header_Get h k = (case map_of h k of Some (v # _) \<Rightarrow> v | _ \<Rightarrow> [])"

record http_request =
  req_Method :: bytes
  req_Host :: bytes
  req_Header :: http_header
  req_RequestURI :: bytes
  req_URLPath :: bytes

record http_response =
  resp_StatusCode :: int
  resp_Status :: bytes
  resp_Header :: http_header
  resp_ContentLength :: int
  resp_TransferEncoding :: "bytes list"

section \<open>Emitted conversations\<close>

record NormalizedHTTPRequest =
  nreq_Method :: bytes
  nreq_URL :: bytes
  nreq_Host :: bytes
  nreq_Path :: bytes
  nreq_Headers :: http_header
  nreq_Body :: bytes

record NormalizedHTTPResponse =
  nresp_Status :: bytes
  nresp_StatusCode :: int
  nresp_Headers :: http_header
  nresp_Body :: bytes

record HTTPExchange =
  ex_Request :: NormalizedHTTPRequest
  ex_Response :: NormalizedHTTPResponse

record NormalizedConversation =
  nc_ID :: bytes
  nc_SchemaVersion :: bytes
  nc_AgentID :: bytes
  nc_CaptureSource :: bytes
  nc_CaptureMode :: bytes
  nc_CapturedAt :: bytes
  nc_Connection :: ConnectionMetadata
  nc_Process :: ProcessMetadata
  nc_Container :: ContainerMetadata
  nc_Loss :: LossMetadata
  nc_HTTP :: HTTPExchange

record HttpMessage =
  msg_Headers :: http_header
  msg_Body :: bytes
  msg_Status :: bytes

record HttpConversation =
  hc_ID :: bytes
  hc_SchemaVersion :: bytes
  hc_CaptureSource :: bytes
  hc_CaptureMode :: bytes
  hc_CreatedAt :: bytes
  hc_Connection :: ConnectionMetadata
  hc_Process :: ProcessMetadata
  hc_Container :: ContainerMetadata
  hc_Loss :: LossMetadata
  hc_Request :: HttpMessage
  hc_Response :: HttpMessage
  hc_Method :: bytes
  hc_URL :: bytes
  hc_Host :: bytes
  hc_Path :: bytes
  hc_ReqHeaders :: http_header
  hc_ReqBody :: bytes
  hc_RespStatus :: bytes
  hc_RespBody :: bytes

section \<open>Stream state and session store\<close>

record parsedRequest =
  pr_req :: http_request
  pr_body :: bytes
  pr_capturedAt :: time
  pr_captureSource :: bytes
  pr_captureMode :: bytes
  pr_connection :: ConnectionMetadata
  pr_process :: ProcessMetadata
  pr_container :: ContainerMetadata
  pr_loss :: LossMetadata

record StreamState =
  st_ReqData :: bytes
  st_RespData :: bytes
  st_PendingReqs :: "parsedRequest list"
  st_LastSeq :: u32
  st_HasLastSeq :: bool
  st_CaptureSource :: bytes
  st_CaptureMode :: bytes
  st_Connection :: ConnectionMetadata
  st_Process :: ProcessMetadata
  st_Container :: ContainerMetadata
  st_Loss :: LossMetadata
  st_LastActive :: time

record sessionStore =
  ss_sessions :: "bytes \<rightharpoonup> StreamState"
  ss_ttl :: duration

section \<open>Counters\<close>

record workerStats =
  ws_received :: u64
  ws_decoded :: u64
  ws_droppedMalformed :: u64
  ws_droppedNoise :: u64
  ws_outOfOrder :: u64
  ws_routedReq :: u64
  ws_routedResp :: u64
  ws_routedUnknown :: u64
  ws_requestParsed :: u64
  ws_responseParsed :: u64
  ws_requestParsePending :: u64
  ws_responseParsePending :: u64
  ws_droppedNoReqStart :: u64
  ws_droppedNoRespInit :: u64
  ws_droppedReqOverflow :: u64
  ws_droppedRespOverflow :: u64
  ws_parsed :: u64
  ws_closedSessions :: u64
  ws_kafkaErrors :: u64
  ws_expiredSessions :: u64

definition zeroStats :: workerStats where
  "zeroStats = \<lparr>ws_received = 0, ws_decoded = 0, ws_droppedMalformed = 0, ws_droppedNoise = 0,
     ws_outOfOrder = 0, ws_routedReq = 0, ws_routedResp = 0, ws_routedUnknown = 0,
     ws_requestParsed = 0, ws_responseParsed = 0, ws_requestParsePending = 0,
     ws_responseParsePending = 0, ws_droppedNoReqStart = 0, ws_droppedNoRespInit = 0,
     ws_droppedReqOverflow = 0, ws_droppedRespOverflow = 0, ws_parsed = 0, ws_closedSessions = 0,
     ws_kafkaErrors = 0, ws_expiredSessions = 0\<rparr>"

section \<open>Configuration\<close>

record config =
  cfg_bootstrapServers :: bytes
  cfg_topic :: bytes
  cfg_groupID :: bytes
  cfg_offsetReset :: bytes
  cfg_sessionTTL :: duration
  cfg_statsInterval :: duration
  cfg_maxBodyBytes :: int
  cfg_maxStreamBytes :: int
  cfg_prettyOutput :: bool
  cfg_debugPayload :: bool
  cfg_outputContract :: bytes
  cfg_outputSink :: bytes
  cfg_backendURL :: bytes
  cfg_agentToken :: bytes
  cfg_ingestURL :: bytes
  cfg_accountToken :: bytes
  cfg_agentID :: bytes
  cfg_httpTimeout :: duration
  cfg_httpMaxRetries :: int
  cfg_httpRetryDelay :: duration
  cfg_deadLetterFile :: bytes
  cfg_outputTopic :: bytes
  cfg_outputBootstrap :: bytes
  cfg_sink :: bool

end
