(* ===== verification/Framing.thy ===== *)
theory Framing
  imports Model
begin

text \<open>
  Finding message boundaries in captured bytes, \<^verbatim>\<open>cmd/worker/processing.go\<close>: the
  classification of a chunk by the first request method or status line in it, and the
  resynchronisation of the request and response buffers, which drops bytes before the first
  marker and, when there is none, all but a probe window at the end. The two buffers share
  one contract, the locale \<open>stream_sync\<close>; its lemmas say that resynchronising never loses a
  marker, not even one that later bytes complete, and that it does not matter at which chunk
  boundaries it is run.
\<close>

section \<open>Definitions\<close>

definition httpMethods :: "bytes list" where
  "httpMethods =
     [''GET '', ''POST '', ''PUT '', ''PATCH '', ''DELETE '', ''HEAD '', ''OPTIONS '', ''TRACE '',
      ''CONNECT '']"

fun earliest_from :: "bytes \<Rightarrow> int \<Rightarrow> bytes list \<Rightarrow> int" where
  "earliest_from chunk best [] = best"
| "earliest_from chunk best (method # methods) =
     (let idx = bytes_index chunk method
      in earliest_from chunk (if 0 \<le> idx \<and> (best = - 1 \<or> idx < best) then idx else best) methods)"

definition earliestMethodIndex :: "bytes \<Rightarrow> int" where
  "earliestMethodIndex chunk = earliest_from chunk (- 1) httpMethods"

definition statusMarker :: bytes where
  "statusMarker = ''HTTP/1.''"

definition classifyPayload :: "bytes \<Rightarrow> payloadKind" where
  "classifyPayload chunk =
     (let reqIdx = earliestMethodIndex chunk; respIdx = bytes_index chunk statusMarker
      in if 0 \<le> reqIdx \<and> (respIdx < 0 \<or> reqIdx < respIdx) then payloadRequest
         else if 0 \<le> respIdx then payloadResponse
         else payloadUnknown)"

definition syncRequestBuffer :: "bytes \<Rightarrow> bytes \<times> nat" where
  "syncRequestBuffer data =
     (if length data = 0 then (data, 0)
      else let idx = earliestMethodIndex data
        in if 0 < idx then (drop (nat idx) data, nat idx)
           else if idx = - 1 \<and> requestStartProbeWindow < length data
             then (let dropped = length data - requestStartProbeWindow in (drop dropped data, dropped))
           else (data, 0))"

definition syncResponseBuffer :: "bytes \<Rightarrow> bytes \<times> nat" where
  "syncResponseBuffer data =
     (if length data = 0 then (data, 0)
      else let idx = bytes_index data statusMarker
        in if 0 < idx then (drop (nat idx) data, nat idx)
           else if idx = - 1 \<and> responseStartProbeWindow < length data
             then (let dropped = length data - responseStartProbeWindow in (drop dropped data, dropped))
           else (data, 0))"

lemmas [scan_defs] = earliestMethodIndex_def statusMarker_def classifyPayload_def
  syncRequestBuffer_def syncResponseBuffer_def httpMethods_def requestStartProbeWindow_def
  responseStartProbeWindow_def Let_def

section \<open>Occurrences and concatenation\<close>

lemma occurs_at_append: "occurs_at d m i \<Longrightarrow> occurs_at (d @ e) m i"
  by (auto simp: occurs_at_def has_prefix_append)

lemma occurs_at_appendD: "occurs_at (d @ e) m i \<Longrightarrow> i + length m \<le> length d \<Longrightarrow> occurs_at d m i"
  by (auto simp: occurs_at_def dest: has_prefix_appendD)

lemma occurs_at_drop: "k \<le> length d \<Longrightarrow> occurs_at (drop k d) m i \<longleftrightarrow> occurs_at d m (k + i)"
  by (auto simp: occurs_at_def add.commute)

lemma occurs_at_inner:
  assumes "occurs_at d m i" "occurs_at d m' j" "j \<le> i" "i + length m \<le> j + length m'"
  shows "has_prefix (drop (i - j) m') m"
proof -
  obtain t where t: "drop j d = m' @ t" using assms(2) by (auto simp: occurs_at_def has_prefix_conv)
  have "drop i d = drop (i - j) (drop j d)" using assms(3) by simp
  also have "\<dots> = drop (i - j) m' @ t" using t assms(3,4) by simp
  finally have "has_prefix (drop (i - j) m' @ t) m" using assms(1) by (simp add: occurs_at_def)
  then show ?thesis by (rule has_prefix_appendD) (use assms(3,4) in simp)
qed

section \<open>The contract of a resynchronised stream\<close>

locale marker_scan =
  fixes markers :: "bytes list" and idx :: "bytes \<Rightarrow> int" and window :: nat
  assumes idx_found: "idx d = int i \<longleftrightarrow>
      (\<exists>m \<in> set markers. occurs_at d m i) \<and> (\<forall>j < i. \<forall>m \<in> set markers. \<not> occurs_at d m j)"
    and idx_none: "idx d = - 1 \<longleftrightarrow> (\<forall>i. \<forall>m \<in> set markers. \<not> occurs_at d m i)"
    and idx_ge: "- 1 \<le> idx d"
    and marker_size: "m \<in> set markers \<Longrightarrow> m \<noteq> [] \<and> length m \<le> Suc window"
    and window_pos: "0 < window"
    and no_inner: "m \<in> set markers \<Longrightarrow> m' \<in> set markers \<Longrightarrow> 0 < k \<Longrightarrow>
      has_prefix (drop k m') m \<Longrightarrow> k + length m = length m'"
begin

lemma idx_cases:
  obtains (none) "idx d = - 1" | (found) i where "idx d = int i"
  using idx_ge [of d] by (cases "idx d") auto

lemma idx_less:
  assumes "idx d = int i"
  shows "i < length d"
proof -
  from assms [unfolded idx_found] obtain m where m: "m \<in> set markers" "occurs_at d m i" by blast
  then have "0 < length m" "i + length m \<le> length d"
    using marker_size [of m] by (simp_all add: occurs_at_def)
  then show ?thesis by linarith
qed

lemma idx_append_found:
  assumes "idx d = int i"
  shows "idx (d @ e) = int i"
proof -
  note found = assms [unfolded idx_found]
  then obtain m where m: "m \<in> set markers" "occurs_at d m i" by blast
  have least: "\<And>j m. j < i \<Longrightarrow> m \<in> set markers \<Longrightarrow> \<not> occurs_at d m j" using found by blast
  have "\<not> occurs_at (d @ e) m' j" if "j < i" "m' \<in> set markers" for j m'
  proof
    assume occ: "occurs_at (d @ e) m' j"
    have "\<not> occurs_at d m' j" using least that by blast
    then have long: "length d < j + length m'" using occurs_at_appendD [OF occ] by linarith
    have "i + length m \<le> length d" using m(2) by (simp add: occurs_at_def)
    with long have le: "i + length m < j + length m'" by simp
    have "has_prefix (drop (i - j) m') m"
      by (rule occurs_at_inner [OF occurs_at_append [OF m(2)] occ]) (use that(1) le in simp_all)
    then have "i - j + length m = length m'"
      using no_inner m(1) that by simp
    with le that(1) show False by simp
  qed
  then have "\<forall>j < i. \<forall>m \<in> set markers. \<not> occurs_at (d @ e) m j" by blast
  moreover have "\<exists>m \<in> set markers. occurs_at (d @ e) m i"
    using m(1) occurs_at_append [OF m(2)] by (rule bexI [rotated])
  ultimately show ?thesis unfolding idx_found by (rule conjI [rotated])
qed

lemma idx_append_late:
  assumes "idx d = - 1" "m \<in> set markers" "occurs_at (d @ e) m j"
  shows "length d - window \<le> j"
  using assms marker_size occurs_at_appendD [of d e m j] by (fastforce simp: idx_none)

lemma idx_drop:
  assumes "k \<le> length d" "\<And>j m. j < k \<Longrightarrow> m \<in> set markers \<Longrightarrow> \<not> occurs_at d m j"
  shows "idx (drop k d) = (if idx d = - 1 then - 1 else idx d - int k)"
proof (cases rule: idx_cases [of d])
  case none
  then show ?thesis using assms(1) by (simp add: idx_none occurs_at_drop)
next
  case (found i)
  then have fnd: "\<exists>m \<in> set markers. occurs_at d m i"
    and least: "\<forall>j < i. \<forall>m \<in> set markers. \<not> occurs_at d m j" by (auto simp: idx_found)
  have "k \<le> i" using fnd assms(2) by (meson not_le)
  then have "idx (drop k d) = int (i - k)"
    unfolding idx_found using fnd least assms(1) by (simp add: occurs_at_drop)
  with found \<open>k \<le> i\<close> show ?thesis by simp
qed

end

locale stream_sync = marker_scan +
  fixes sync :: "bytes \<Rightarrow> bytes \<times> nat"
  assumes sync_eq: "sync d =
     (if 0 < idx d then (drop (nat (idx d)) d, nat (idx d))
      else if idx d = - 1 \<and> window < length d then (drop (length d - window) d, length d - window)
      else (d, 0))"
begin

lemma sync_fst: "fst (sync d) = drop (snd (sync d)) d"
  by (simp add: sync_eq)

lemma sync_snd: "snd (sync d) \<le> length d"
  using idx_less [of d] by (cases rule: idx_cases [of d]) (auto simp: sync_eq intro: less_imp_le)

lemma sync_length: "length (fst (sync d)) + snd (sync d) = length d"
  using sync_snd [of d] by (simp add: sync_fst)

lemma sync_at_marker: "idx d = 0 \<Longrightarrow> sync d = (d, 0)"
  by (simp add: sync_eq)

text \<open>No byte that belongs to a marker of the stream, present or still to be completed, is dropped.\<close>

lemma sync_safe:
  assumes "j < snd (sync d)" "m \<in> set markers"
  shows "\<not> occurs_at (d @ e) m j"
proof (cases rule: idx_cases [of d])
  case none
  with assms have "j < length d - window" by (auto simp: sync_eq split: if_splits)
  with none assms(2) idx_append_late show ?thesis by (meson not_le)
next
  case (found i)
  with assms have "j < i" by (auto simp: sync_eq split: if_splits)
  with idx_append_found [OF found, of e] assms(2) show ?thesis by (simp add: idx_found)
qed

lemma sync_nonempty: "d \<noteq> [] \<Longrightarrow> fst (sync d) \<noteq> []"
  using window_pos idx_less [of d]
  by (cases rule: idx_cases [of d]) (auto simp: sync_eq split: if_splits)

lemma sync_append_count:
  "snd (sync d) + snd (sync (fst (sync d) @ e)) = snd (sync (d @ e))"
proof -
  let ?t = "snd (sync d)"
  have le: "?t \<le> length d" by (rule sync_snd)
  have eq: "fst (sync d) @ e = drop ?t (d @ e)" using le by (simp add: sync_fst)
  have moved: "idx (fst (sync d) @ e) = (if idx (d @ e) = - 1 then - 1 else idx (d @ e) - int ?t)"
    unfolding eq using le by (intro idx_drop sync_safe) auto
  show ?thesis
  proof (cases rule: idx_cases [of "d @ e"])
    case none
    then have "idx d = - 1" using idx_append_found [of d _ e] by (cases rule: idx_cases [of d]) auto
    then have t: "?t = (if window < length d then length d - window else 0)" by (simp add: sync_eq)
    have "idx (fst (sync d) @ e) = - 1" using moved none by simp
    moreover have "length (fst (sync d) @ e) = length d - ?t + length e"
      using sync_length [of d] by simp
    ultimately have "snd (sync (fst (sync d) @ e)) = length d - ?t + length e - window"
      by (simp add: sync_eq [of "fst (sync d) @ e"])
    moreover have "snd (sync (d @ e)) = length d + length e - window"
      using none by (auto simp: sync_eq)
    ultimately show ?thesis using t by auto
  next
    case (found n)
    then obtain m where "m \<in> set markers" "occurs_at (d @ e) m n" by (auto simp: idx_found)
    then have "?t \<le> n" using sync_safe by (meson not_le)
    with moved found have "idx (fst (sync d) @ e) = int (n - ?t)" by simp
    then have "snd (sync (fst (sync d) @ e)) = n - ?t"
      by (auto simp: sync_eq [of "fst (sync d) @ e"])
    moreover have "snd (sync (d @ e)) = n" using found by (auto simp: sync_eq)
    ultimately show ?thesis using \<open>?t \<le> n\<close> by simp
  qed
qed

lemma sync_append: "fst (sync (fst (sync d) @ e)) = fst (sync (d @ e))"
proof -
  let ?x = "fst (sync d) @ e"
  have x: "?x = drop (snd (sync d)) (d @ e)" using sync_snd [of d] by (subst sync_fst) simp
  have "fst (sync ?x) = drop (snd (sync ?x)) ?x" by (rule sync_fst)
  also have "\<dots> = drop (snd (sync ?x)) (drop (snd (sync d)) (d @ e))" by (rule arg_cong [OF x])
  also have "\<dots> = drop (snd (sync d) + snd (sync ?x)) (d @ e)"
    by (simp only: drop_drop add.commute)
  also have "\<dots> = fst (sync (d @ e))"
    by (simp only: sync_append_count sync_fst [of "d @ e"])
  finally show ?thesis .
qed

lemma sync_idem: "sync (fst (sync d)) = (fst (sync d), 0)"
  using sync_append_count [of d "[]"] sync_fst [of "fst (sync d)"]
  by (simp add: prod_eq_iff)

lemma sync_finds: "0 \<le> idx d \<Longrightarrow> idx (fst (sync d)) = 0"
proof -
  assume "0 \<le> idx d"
  then obtain i where i: "idx d = int i" using nonneg_int_cases by blast
  then have "snd (sync d) = i" by (auto simp: sync_eq)
  then show ?thesis
    using i idx_drop [of i d] idx_less [OF i] by (simp add: sync_fst i [unfolded idx_found])
qed

end

section \<open>The two buffers of a stream\<close>

lemma earliest_from_none:
  "best = - 1 \<or> 0 \<le> best \<Longrightarrow> earliest_from chunk best ms = - 1 \<longleftrightarrow>
      best = - 1 \<and> (\<forall>m \<in> set ms. bytes_index chunk m = - 1)"
proof (induction ms arbitrary: best)
  case (Cons m ms)
  then show ?case
    by (cases rule: bytes_index_cases [of chunk m]) (auto simp: Let_def)
qed auto

lemma earliest_from_some:
  "best = - 1 \<or> 0 \<le> best \<Longrightarrow> earliest_from chunk best ms = int i \<longleftrightarrow>
      (int i = best \<or> (\<exists>m \<in> set ms. bytes_index chunk m = int i)) \<and>
      (best = - 1 \<or> int i \<le> best) \<and>
      (\<forall>m \<in> set ms. bytes_index chunk m = - 1 \<or> int i \<le> bytes_index chunk m)"
proof (induction ms arbitrary: best)
  case (Cons m ms)
  show ?case
  proof (cases rule: bytes_index_cases [of chunk m])
    case none
    then have "earliest_from chunk best (m # ms) = earliest_from chunk best ms"
      by (simp add: Let_def)
    with none Cons.IH [OF Cons.prems] show ?thesis by simp
  next
    case (found k)
    show ?thesis
    proof (cases "best = - 1 \<or> int k < best")
      case True
      with found have "earliest_from chunk best (m # ms) = earliest_from chunk (int k) ms"
        by (simp add: Let_def)
      with found True Cons.IH [of "int k"] show ?thesis by auto
    next
      case False
      with found have "earliest_from chunk best (m # ms) = earliest_from chunk best ms"
        by (simp add: Let_def)
      with found False Cons.IH [OF Cons.prems] show ?thesis by auto
    qed
  qed
qed auto

lemma earliestMethodIndex_none:
  "earliestMethodIndex d = - 1 \<longleftrightarrow> (\<forall>i. \<forall>m \<in> set httpMethods. \<not> occurs_at d m i)"
  unfolding earliestMethodIndex_def by (subst earliest_from_none) (auto simp: bytes_index_none)

lemma earliestMethodIndex_found:
  "earliestMethodIndex d = int i \<longleftrightarrow>
    (\<exists>m \<in> set httpMethods. occurs_at d m i) \<and> (\<forall>j < i. \<forall>m \<in> set httpMethods. \<not> occurs_at d m j)"
  (is "_ \<longleftrightarrow> ?least")
proof -
  have "earliestMethodIndex d = int i \<longleftrightarrow> (\<exists>m \<in> set httpMethods. bytes_index d m = int i) \<and>
      (\<forall>m \<in> set httpMethods. bytes_index d m = - 1 \<or> int i \<le> bytes_index d m)"
    unfolding earliestMethodIndex_def
    by (subst earliest_from_some) (auto simp: image_iff eq_commute [of "int i"])
  also have "\<dots> \<longleftrightarrow> ?least"
  proof safe
    fix m assume "m \<in> set httpMethods" "bytes_index d m = int i"
    then show "\<exists>m \<in> set httpMethods. occurs_at d m i" by (auto simp: bytes_index_found)
  next
    fix j m
    assume le: "\<forall>m \<in> set httpMethods. bytes_index d m = - 1 \<or> int i \<le> bytes_index d m"
      and m: "j < i" "m \<in> set httpMethods" "occurs_at d m j"
    obtain k where k: "bytes_index d m = int k" using m(3)
      by (cases rule: bytes_index_cases [of d m]) (auto simp: bytes_index_none)
    then have "k \<le> j" using m(3) by (metis bytes_index_found not_le)
    with k le m show False by auto
  next
    fix m assume m: "m \<in> set httpMethods" "occurs_at d m i"
      and least: "\<forall>j < i. \<forall>m \<in> set httpMethods. \<not> occurs_at d m j"
    then have "bytes_index d m = int i" by (auto simp: bytes_index_found)
    with m show "\<exists>m \<in> set httpMethods. bytes_index d m = int i" by blast
  next
    fix m assume least: "\<forall>j < i. \<forall>m \<in> set httpMethods. \<not> occurs_at d m j"
      and m: "m \<in> set httpMethods" "\<not> int i \<le> bytes_index d m"
    show "bytes_index d m = - 1"
    proof (cases rule: bytes_index_cases [of d m])
      case (found k)
      with least m show ?thesis by (auto simp: bytes_index_found)
    qed
  qed
  finally show ?thesis .
qed

lemma earliestMethodIndex_ge: "- 1 \<le> earliestMethodIndex d"
proof -
  have "- 1 \<le> best \<Longrightarrow> - 1 \<le> earliest_from d best ms" for best ms
    by (induction ms arbitrary: best) (auto simp: Let_def)
  then show ?thesis by (simp add: earliestMethodIndex_def)
qed

text \<open>No marker occurs inside another one short of its end: checked on the literals.\<close>

definition markers_apart :: "bytes list \<Rightarrow> bool" where
  "markers_apart ms \<longleftrightarrow> list_all (\<lambda>m. list_all (\<lambda>m'. list_all (\<lambda>k.
     \<not> has_prefix (drop k m') m \<or> k + length m = length m') [1 ..< length m']) ms) ms"

lemma markers_apartD:
  assumes "markers_apart ms" "m \<in> set ms" "m' \<in> set ms" "0 < k" "has_prefix (drop k m') m" "m \<noteq> []"
  shows "k + length m = length m'"
proof -
  have "k < length m'" using has_prefix_length [OF assms(5)] assms(6) by (cases m) auto
  with assms show ?thesis by (fastforce simp: markers_apart_def list_all_iff)
qed

lemma httpMethods_apart: "markers_apart httpMethods"
  by code_simp

lemma statusMarker_apart: "markers_apart [statusMarker]"
  by code_simp

lemma httpMethods_size: "m \<in> set httpMethods \<Longrightarrow> m \<noteq> [] \<and> length m \<le> 8"
  by (auto simp: httpMethods_def)

interpretation req_stream: stream_sync httpMethods earliestMethodIndex requestStartProbeWindow syncRequestBuffer
proof unfold_locales
  fix m m' :: bytes and k
  assume "m \<in> set httpMethods" "m' \<in> set httpMethods" "0 < k" "has_prefix (drop k m') m"
  then show "k + length m = length m'"
    using markers_apartD [OF httpMethods_apart] httpMethods_size by blast
next
  fix m assume "m \<in> set httpMethods"
  then show "m \<noteq> [] \<and> length m \<le> Suc requestStartProbeWindow"
    using httpMethods_size by (fastforce simp: requestStartProbeWindow_def)
next
  fix d
  have "earliestMethodIndex [] = - 1" by (auto simp: earliestMethodIndex_none httpMethods_def occurs_at_def)
  then show "syncRequestBuffer d =
     (if 0 < earliestMethodIndex d then (drop (nat (earliestMethodIndex d)) d, nat (earliestMethodIndex d))
      else if earliestMethodIndex d = - 1 \<and> requestStartProbeWindow < length d
        then (drop (length d - requestStartProbeWindow) d, length d - requestStartProbeWindow)
      else (d, 0))"
    by (cases d) (auto simp: syncRequestBuffer_def Let_def)
qed (use earliestMethodIndex_found earliestMethodIndex_none earliestMethodIndex_ge in
  \<open>auto simp: requestStartProbeWindow_def\<close>)

interpretation resp_stream: stream_sync "[statusMarker]" "\<lambda>d. bytes_index d statusMarker"
  responseStartProbeWindow syncResponseBuffer
proof unfold_locales
  fix m m' :: bytes and k
  assume "m \<in> set [statusMarker]" "m' \<in> set [statusMarker]" "0 < k" "has_prefix (drop k m') m"
  moreover have "statusMarker \<noteq> []" by (simp add: statusMarker_def)
  ultimately show "k + length m = length m'"
    using markers_apartD [OF statusMarker_apart] by auto
next
  fix d show "syncResponseBuffer d =
     (if 0 < bytes_index d statusMarker then (drop (nat (bytes_index d statusMarker)) d, nat (bytes_index d statusMarker))
      else if bytes_index d statusMarker = - 1 \<and> responseStartProbeWindow < length d
        then (drop (length d - responseStartProbeWindow) d, length d - responseStartProbeWindow)
      else (d, 0))"
    by (cases d) (auto simp: syncResponseBuffer_def Let_def statusMarker_def)
qed (auto simp: bytes_index_found bytes_index_none bytes_index_ge responseStartProbeWindow_def statusMarker_def)

lemma bytes_index_beyond:
  "bytes_index d m = - 1 \<or> int i < bytes_index d m \<longleftrightarrow> (\<forall>j \<le> i. \<not> occurs_at d m j)"
proof (cases rule: bytes_index_cases [of d m])
  case none
  then show ?thesis by (simp add: bytes_index_none)
next
  case (found k)
  then have k: "occurs_at d m k" "\<And>j. j < k \<Longrightarrow> \<not> occurs_at d m j"
    unfolding bytes_index_found by blast+
  have "i < k \<longleftrightarrow> (\<forall>j \<le> i. \<not> occurs_at d m j)"
  proof
    assume "i < k"
    then show "\<forall>j \<le> i. \<not> occurs_at d m j" by (simp add: k(2))
  next
    assume "\<forall>j \<le> i. \<not> occurs_at d m j"
    with k(1) have "\<not> k \<le> i" by blast
    then show "i < k" by simp
  qed
  with found show ?thesis by simp
qed

section \<open>Properties\<close>

text \<open>C7. Resynchronisation does not depend on where the captured stream was cut into chunks:
  trimming a request or a response buffer, appending the next bytes and trimming again leaves
  the same buffer as trimming the whole, and the dropped bytes add up. In particular no
  request line or status line is lost because it arrived split over two events.\<close>

theorem sync_chunking:
  "fst (syncRequestBuffer (fst (syncRequestBuffer d) @ e)) = fst (syncRequestBuffer (d @ e)) \<and>
   snd (syncRequestBuffer d) + snd (syncRequestBuffer (fst (syncRequestBuffer d) @ e)) =
     snd (syncRequestBuffer (d @ e)) \<and>
   fst (syncResponseBuffer (fst (syncResponseBuffer d) @ e)) = fst (syncResponseBuffer (d @ e)) \<and>
   snd (syncResponseBuffer d) + snd (syncResponseBuffer (fst (syncResponseBuffer d) @ e)) =
     snd (syncResponseBuffer (d @ e))"
  by (simp add: req_stream.sync_append req_stream.sync_append_count resp_stream.sync_append
      resp_stream.sync_append_count)

text \<open>A chunk is classified by what comes first in it: a request when a method token stands
  before every status marker, a response when a status marker stands before every method token,
  unknown when it contains neither.\<close>

theorem classifyPayload_spec:
  "(classifyPayload chunk = payloadRequest \<longleftrightarrow>
     (\<exists>i. (\<exists>m \<in> set httpMethods. occurs_at chunk m i) \<and> (\<forall>j \<le> i. \<not> occurs_at chunk statusMarker j))) \<and>
   (classifyPayload chunk = payloadUnknown \<longleftrightarrow>
     (\<forall>i. \<not> occurs_at chunk statusMarker i \<and> (\<forall>m \<in> set httpMethods. \<not> occurs_at chunk m i)))"
  (is "?req \<and> ?unk")
proof
  have ge: "- 1 \<le> bytes_index chunk statusMarker" by (rule bytes_index_ge)
  show ?req
  proof (cases rule: req_stream.idx_cases [of chunk])
    case none
    then have "classifyPayload chunk \<noteq> payloadRequest" by (simp add: classifyPayload_def Let_def)
    with none [unfolded earliestMethodIndex_none] show ?thesis by blast
  next
    case (found i)
    then have occ: "\<exists>m \<in> set httpMethods. occurs_at chunk m i"
      and least: "\<And>j m. m \<in> set httpMethods \<Longrightarrow> occurs_at chunk m j \<Longrightarrow> i \<le> j"
      by (auto simp: earliestMethodIndex_found not_less)
    have "classifyPayload chunk = payloadRequest \<longleftrightarrow>
        bytes_index chunk statusMarker = - 1 \<or> int i < bytes_index chunk statusMarker"
      using found ge by (auto simp: classifyPayload_def Let_def)
    also have "\<dots> \<longleftrightarrow> (\<forall>j \<le> i. \<not> occurs_at chunk statusMarker j)"
      by (rule bytes_index_beyond)
    also have "\<dots> \<longleftrightarrow> (\<exists>i. (\<exists>m \<in> set httpMethods. occurs_at chunk m i) \<and>
        (\<forall>j \<le> i. \<not> occurs_at chunk statusMarker j))"
    proof
      assume "\<forall>j \<le> i. \<not> occurs_at chunk statusMarker j"
      with occ show "\<exists>i. (\<exists>m \<in> set httpMethods. occurs_at chunk m i) \<and>
        (\<forall>j \<le> i. \<not> occurs_at chunk statusMarker j)" by blast
    next
      assume "\<exists>i. (\<exists>m \<in> set httpMethods. occurs_at chunk m i) \<and>
        (\<forall>j \<le> i. \<not> occurs_at chunk statusMarker j)"
      then obtain i' where "i \<le> i'" "\<forall>j \<le> i'. \<not> occurs_at chunk statusMarker j"
        using least by blast
      then show "\<forall>j \<le> i. \<not> occurs_at chunk statusMarker j" by simp
    qed
    finally show ?thesis .
  qed
  have "classifyPayload chunk = payloadUnknown \<longleftrightarrow>
      bytes_index chunk statusMarker = - 1 \<and> earliestMethodIndex chunk = - 1"
    using ge earliestMethodIndex_ge [of chunk] by (auto simp: classifyPayload_def Let_def)
  then show ?unk unfolding bytes_index_none earliestMethodIndex_none by blast
qed

theorem classifyPayload_spec_witness:
  "classifyPayload ''GET / HTTP/1.1'' = payloadRequest \<and>
   (\<exists>i. (\<exists>m \<in> set httpMethods. occurs_at ''GET / HTTP/1.1'' m i) \<and>
        (\<forall>j \<le> i. \<not> occurs_at ''GET / HTTP/1.1'' statusMarker j))"
proof -
  have "classifyPayload ''GET / HTTP/1.1'' = payloadRequest" by code_simp
  then show ?thesis using classifyPayload_spec [of "''GET / HTTP/1.1''"] by blast
qed

end
