(* ===== verification/World.thy ===== *)
theory World
  imports Model
begin

text \<open>
  What the worker obtains from outside its own code. A \<open>runtime\<close> holds the library
  functions that the model takes as parameters: Go's HTTP/1 message readers, its JSON
  encoder and indenter, and the RFC 3339 time formatter. A \<open>world\<close> holds the clock, the
  random source and the output: the \<open>n\<close>-th call of \<open>time.Now\<close> reads the \<open>n\<close>-th value of
  the clock, and what the worker writes is appended to \<open>w_out\<close> in order.
\<close>

section \<open>Library parameters\<close>

text \<open>
  A message read from a byte buffer: the message, its body, and what is left unread. The
  body is \<open>None\<close> for a nil \<open>Body\<close>; otherwise it maps the limit of an
  \<open>io.LimitReader\<close> to the bytes that \<open>io.ReadAll\<close> returns, or to \<open>None\<close> when that
  read fails. \<open>pm_unread limit\<close> is \<open>source.Len() + reader.Buffered()\<close> after the body
  was read with that limit and closed.
\<close>

record 'm parsed =
  pm_message :: 'm
  pm_body :: "(int \<Rightarrow> bytes option) option"
  pm_unread :: "int \<Rightarrow> nat"

datatype payload =
    Normalized NormalizedConversation
  | Legacy HttpConversation
  | Both NormalizedConversation HttpConversation

record runtime =
  lib_readRequest :: "bytes \<Rightarrow> http_request parsed option"
  lib_readResponse :: "bytes \<Rightarrow> http_request \<Rightarrow> http_response parsed option"
  lib_jsonIndent :: "bytes \<Rightarrow> bytes option"
  lib_marshal :: "payload \<Rightarrow> bytes option"
  lib_marshalIndent :: "payload \<Rightarrow> bytes option"
  lib_rfc3339 :: "time \<Rightarrow> bytes"

section \<open>The world\<close>

text \<open>One call of \<open>sink.Emit\<close>, or one line printed on the output.\<close>

datatype emission = SinkEmit bytes | Line bytes

record world =
  w_clock :: "nat \<Rightarrow> time"
  w_clockReads :: nat
  w_random :: "nat \<Rightarrow> bytes option"
  w_randomReads :: nat
  w_out :: "emission list"

definition timeNow :: "world \<Rightarrow> time \<times> world" where
  "timeNow w = (w_clock w (w_clockReads w), w\<lparr>w_clockReads := Suc (w_clockReads w)\<rparr>)"

text \<open>\<open>rand.Read\<close> of twelve bytes; \<open>None\<close> is its error.\<close>

definition randRead :: "world \<Rightarrow> bytes option \<times> world" where
  "randRead w = (w_random w (w_randomReads w), w\<lparr>w_randomReads := Suc (w_randomReads w)\<rparr>)"

definition emit :: "emission list \<Rightarrow> world \<Rightarrow> world" where
  "emit es w = w\<lparr>w_out := w_out w @ es\<rparr>"

lemma timeNow_frame [frame, simp]:
  "w_out (snd (timeNow w)) = w_out w" "w_random (snd (timeNow w)) = w_random w"
  "w_clock (snd (timeNow w)) = w_clock w" "w_randomReads (snd (timeNow w)) = w_randomReads w"
  by (simp_all add: timeNow_def)

lemma randRead_frame [frame, simp]:
  "w_out (snd (randRead w)) = w_out w" "w_clock (snd (randRead w)) = w_clock w"
  "w_random (snd (randRead w)) = w_random w"
  by (simp_all add: randRead_def)

lemma emit_out [simp]: "w_out (emit es w) = w_out w @ es"
  by (simp add: emit_def)

end
