(* ===== verification/Base64.thy ===== *)
theory Base64
  imports GoLib
begin

text \<open>
  \<open>base64.StdEncoding\<close> of the Go library, as the body renderer and the disk spool use it:
  \<open>EncodeToString\<close>, and \<open>DecodeString\<close> with the partial output it returns beside an
  error. The main fact is the round trip.
\<close>

definition b64_char :: "nat \<Rightarrow> char" where
  "b64_char n =
     (if n < 26 then char_of (n + 65) else if n < 52 then char_of (n + 71)
      else if n < 62 then char_of (n - 4) else if n = 62 then CHR ''+'' else CHR ''/'')"

definition b64_value :: "char \<Rightarrow> nat option" where
  "b64_value c =
     (let n = byte_of c in
      if 65 \<le> n \<and> n \<le> 90 then Some (n - 65) else if 97 \<le> n \<and> n \<le> 122 then Some (n - 71)
      else if 48 \<le> n \<and> n \<le> 57 then Some (n + 4)
      else if c = CHR ''+'' then Some 62 else if c = CHR ''/'' then Some 63 else None)"

abbreviation pad :: char where "pad \<equiv> CHR ''=''"

lemma b64_value_char [simp]: "n < 64 \<Longrightarrow> b64_value (b64_char n) = Some n"
  by (auto simp: b64_value_def b64_char_def Let_def)

lemma b64_char_not_special [simp]:
  "b64_char n \<noteq> pad" "b64_char n \<noteq> CHR 0x0D" "b64_char n \<noteq> CHR 0x0A"
  by (auto simp: b64_char_def of_char_eq_iff [symmetric, where ?'a = nat] simp del: of_char_eq_iff)

fun b64_encode :: "bytes \<Rightarrow> bytes" where
  "b64_encode [] = []"
| "b64_encode [a] = [b64_char (byte_of a div 4), b64_char (byte_of a mod 4 * 16), pad, pad]"
| "b64_encode [a, b] =
     [b64_char (byte_of a div 4), b64_char (byte_of a mod 4 * 16 + byte_of b div 16),
      b64_char (byte_of b mod 16 * 4), pad]"
| "b64_encode (a # b # c # s) =
     b64_char (byte_of a div 4) # b64_char (byte_of a mod 4 * 16 + byte_of b div 16) #
     b64_char (byte_of b mod 16 * 4 + byte_of c div 64) # b64_char (byte_of c mod 64) # b64_encode s"

text \<open>
  \<open>Decode\<close> works by quanta of four characters. A quantum that ends in padding is the
  last one; anything after it is an error reported beside the bytes it decoded. Any other
  error yields the bytes of the quanta before it.
\<close>

definition dec1 :: "nat \<Rightarrow> nat \<Rightarrow> char" where "dec1 x y = char_of (x * 4 + y div 16)"
definition dec2 :: "nat \<Rightarrow> nat \<Rightarrow> char" where "dec2 y z = char_of (y mod 16 * 16 + z div 4)"
definition dec3 :: "nat \<Rightarrow> nat \<Rightarrow> char" where "dec3 z w = char_of (z mod 4 * 64 + w)"

fun b64_quanta :: "bytes \<Rightarrow> bytes \<times> bool" where
  "b64_quanta [] = ([], True)"
| "b64_quanta (a # b # c # d # s) =
     (case (b64_value a, b64_value b) of
        (Some x, Some y) \<Rightarrow>
          if c = pad then (if d = pad then ([dec1 x y], s = []) else ([], False))
          else (case b64_value c of
            None \<Rightarrow> ([], False)
          | Some z \<Rightarrow>
              if d = pad then ([dec1 x y, dec2 y z], s = [])
              else (case b64_value d of
                None \<Rightarrow> ([], False)
              | Some w \<Rightarrow>
                  (let (out, ok) = b64_quanta s in (dec1 x y # dec2 y z # dec3 z w # out, ok))))
      | _ \<Rightarrow> ([], False))"
| "b64_quanta _ = ([], False)"

definition b64_decode :: "bytes \<Rightarrow> bytes \<times> bool" where
  "b64_decode s = b64_quanta (filter (\<lambda>c. c \<noteq> CHR 0x0D \<and> c \<noteq> CHR 0x0A) s)"

lemma sextet_split:
  fixes x y :: nat
  shows "y < 16 \<Longrightarrow> (x * 16 + y) div 16 = x" "y < 16 \<Longrightarrow> (x * 16 + y) mod 16 = y"
    "y < 4 \<Longrightarrow> (x * 4 + y) div 4 = x" "y < 4 \<Longrightarrow> (x * 4 + y) mod 4 = y"
  by simp_all

lemma sextet_parts:
  "byte_of c div 4 < (64::nat)" "byte_of c div 16 < (16::nat)" "byte_of c div 64 < (4::nat)"
  by (simp_all add: less_mult_imp_div_less)

lemma sextet_join:
  fixes x y :: nat
  shows "x < 4 \<Longrightarrow> y < 16 \<Longrightarrow> x * 16 + y < 64" "x < 16 \<Longrightarrow> y < 4 \<Longrightarrow> x * 4 + y < 64"
    "x < 4 \<Longrightarrow> x * 16 < 64" "x < 16 \<Longrightarrow> x * 4 < 64"
  by simp_all

lemmas sextets = sextet_split sextet_parts sextet_join

lemma dec_inverse:
  "dec1 (byte_of a div 4) (byte_of a mod 4 * 16 + byte_of b div 16) = a"
  "dec2 (byte_of a mod 4 * 16 + byte_of b div 16) (byte_of b mod 16 * 4 + byte_of c div 64) = b"
  "dec3 (byte_of b mod 16 * 4 + byte_of c div 64) (byte_of c mod 64) = c"
  "dec1 (byte_of a div 4) (byte_of a mod 4 * 16) = a"
  "dec2 (byte_of a mod 4 * 16 + byte_of b div 16) (byte_of b mod 16 * 4) = b"
  by (simp_all add: dec1_def dec2_def dec3_def sextets mult.commute [of _ 4] mult.commute [of _ 16]
      mult.commute [of _ 64])

lemma b64_quanta_encode: "b64_quanta (b64_encode s) = (s, True)"
proof (induction s rule: b64_encode.induct)
  case (2 a)
  then show ?case
    by (simp add: sextets dec_inverse)
next
  case (3 a b)
  then show ?case
    by (simp add: sextets dec_inverse)
next
  case (4 a b c s)
  then show ?case
    by (simp add: sextets dec_inverse)
qed simp

lemma b64_encode_clean: "filter (\<lambda>c. c \<noteq> CHR 0x0D \<and> c \<noteq> CHR 0x0A) (b64_encode s) = b64_encode s"
  by (induction s rule: b64_encode.induct) auto

text \<open>Decoding what was encoded gives the bytes back, without an error.\<close>

lemma b64_decode_encode [simp]: "b64_decode (b64_encode s) = (s, True)"
  by (simp add: b64_decode_def b64_encode_clean b64_quanta_encode)

lemma length_b64_encode: "length (b64_encode s) = 4 * ((length s + 2) div 3)"
proof (induction s rule: b64_encode.induct)
  case (4 a b c s)
  have "(length (a # b # c # s) + 2) div 3 = Suc ((length s + 2) div 3)" by simp
  with 4 show ?case by simp
qed auto

lemma b64_encode_Nil_iff [simp]: "b64_encode s = [] \<longleftrightarrow> s = []"
  by (cases s rule: b64_encode.cases) auto

end
