(* ===== verification/HttpParse.thy ===== *)
theory HttpParse
  imports World Base64
begin

text \<open>
  Reading one HTTP message off a buffer, \<^verbatim>\<open>cmd/worker/processing.go\<close>: the request and the
  response reader, the rule for responses whose body ends only with the connection, and the
  rendering of a body as text (pretty-printed JSON, raw text or base64, cut at
  \<open>maxBodyBytes\<close>). Also the helpers of \<^verbatim>\<open>cmd/worker/output.go\<close> that these use.
  \<open>None\<close> stands for the code's \<open>ok = false\<close>. Go's message readers are the parameters
  \<open>lib_readRequest\<close> and \<open>lib_readResponse\<close> of the runtime.
\<close>

section \<open>Bodies\<close>

definition prettyMaybeJSON :: "runtime \<Rightarrow> bytes \<Rightarrow> bytes" where
  "prettyMaybeJSON rt body =
     (let trimmed = trim_space body in
      case trimmed of
        [] \<Rightarrow> body
      | first # _ \<Rightarrow>
          if first \<noteq> CHR ''{'' \<and> first \<noteq> CHR ''['' then body
          else (case lib_jsonIndent rt trimmed of None \<Rightarrow> body | Some pretty \<Rightarrow> pretty))"

definition truncatedMark :: bytes where
  "truncatedMark = CHR 0x0A # ''[truncated]''"

definition renderBody :: "runtime \<Rightarrow> bytes \<Rightarrow> bool \<Rightarrow> bytes" where
  "renderBody rt data truncated =
     (let text = (if utf8_valid data then prettyMaybeJSON rt data else ''base64:'' @ b64_encode data)
      in if truncated then text @ truncatedMark else text)"

text \<open>The limit \<open>maxBodyBytes + 1\<close> is computed in \<open>int64\<close>.\<close>

definition readBodyStringComplete :: "runtime \<Rightarrow> (int \<Rightarrow> bytes option) option \<Rightarrow> int \<Rightarrow> bytes option" where
  "readBodyStringComplete rt body maxBodyBytes =
     (case body of
        None \<Rightarrow> Some []
      | Some read \<Rightarrow>
          (case read (int64 (maxBodyBytes + 1)) of
             None \<Rightarrow> None
           | Some data \<Rightarrow>
               if int (length data) > maxBodyBytes
               then Some (renderBody rt (take (nat maxBodyBytes) data) True)
               else Some (renderBody rt data False)))"

section \<open>Message boundaries\<close>

definition hasChunkedTransfer :: "bytes list \<Rightarrow> bool" where
  "hasChunkedTransfer transferEncoding =
     list_ex (\<lambda>encoding. equal_fold (trim_space encoding) ''chunked'') transferEncoding"

definition responseHasNoBody :: "http_request \<Rightarrow> http_response \<Rightarrow> bool" where
  "responseHasNoBody req resp =
     (if equal_fold (req_Method req) ''HEAD'' then True
      else if 100 \<le> resp_StatusCode resp \<and> resp_StatusCode resp < 200 then True
      else resp_StatusCode resp = 204 \<or> resp_StatusCode resp = 304)"

definition responseNeedsConnectionCloseBoundary :: "http_request \<Rightarrow> http_response \<Rightarrow> bool" where
  "responseNeedsConnectionCloseBoundary req resp =
     (if responseHasNoBody req resp then False
      else if 0 \<le> resp_ContentLength resp then False
      else \<not> hasChunkedTransfer (resp_TransferEncoding resp))"

section \<open>One message\<close>

text \<open>The last step of both readers: a message counts when it consumed at least one byte.\<close>

definition finishParse ::
  "runtime \<Rightarrow> bytes \<Rightarrow> int \<Rightarrow> 'm parsed \<Rightarrow> ('m \<times> bytes \<times> nat) option" where
  "finishParse rt data maxBodyBytes p =
     (case readBodyStringComplete rt (pm_body p) maxBodyBytes of
        None \<Rightarrow> None
      | Some body \<Rightarrow>
          (let consumed = int (length data) - int (pm_unread p (int64 (maxBodyBytes + 1)))
           in if consumed \<le> 0 then None else Some (pm_message p, body, nat consumed)))"

definition parseOneRequest ::
  "runtime \<Rightarrow> bytes \<Rightarrow> int \<Rightarrow> (http_request \<times> bytes \<times> nat) option" where
  "parseOneRequest rt data maxBodyBytes =
     (if length data = 0 then None
      else case lib_readRequest rt data of
        None \<Rightarrow> None
      | Some p \<Rightarrow> finishParse rt data maxBodyBytes p)"

definition parseOneResponse ::
  "runtime \<Rightarrow> bytes \<Rightarrow> http_request \<Rightarrow> int \<Rightarrow> bool \<Rightarrow> (http_response \<times> bytes \<times> nat) option" where
  "parseOneResponse rt data req maxBodyBytes allowCloseDelimited =
     (if length data = 0 then None
      else case lib_readResponse rt data req of
        None \<Rightarrow> None
      | Some p \<Rightarrow>
          if \<not> allowCloseDelimited \<and> responseNeedsConnectionCloseBoundary req (pm_message p) then None
          else finishParse rt data maxBodyBytes p)"

section \<open>Facts\<close>

lemma finishParse_consumed:
  "finishParse rt data m p = Some (msg, body, n) \<Longrightarrow> 0 < n \<and> n \<le> length data"
  by (auto simp: finishParse_def Let_def split: option.splits if_splits)

lemma parseOneRequest_consumed:
  "parseOneRequest rt data m = Some (req, body, n) \<Longrightarrow> 0 < n \<and> n \<le> length data"
  by (auto simp: parseOneRequest_def dest: finishParse_consumed split: option.splits if_splits)

lemma parseOneResponse_consumed:
  "parseOneResponse rt data req m close = Some (resp, body, n) \<Longrightarrow> 0 < n \<and> n \<le> length data"
  by (auto simp: parseOneResponse_def dest: finishParse_consumed split: option.splits if_splits)

lemma parseOneRequest_Nil [simp]: "parseOneRequest rt [] m = None"
  by (simp add: parseOneRequest_def)

lemma parseOneResponse_Nil [simp]: "parseOneResponse rt [] req m close = None"
  by (simp add: parseOneResponse_def)

lemma parseOneResponse_close:
  assumes "parseOneResponse rt data req m False = Some (resp, body, n)"
  shows "parseOneResponse rt data req m True = Some (resp, body, n)"
    "\<not> responseNeedsConnectionCloseBoundary req resp"
  using assms
  by (auto simp: parseOneResponse_def finishParse_def Let_def split: option.splits if_splits)

lemma needsBoundary_iff:
  "responseNeedsConnectionCloseBoundary req resp \<longleftrightarrow>
     \<not> responseHasNoBody req resp \<and> resp_ContentLength resp < 0 \<and>
     \<not> hasChunkedTransfer (resp_TransferEncoding resp)"
  by (auto simp: responseNeedsConnectionCloseBoundary_def)

end
