(* ===== verification/Output.thy ===== *)
theory Output
  imports HttpParse
begin

text \<open>
  Emitting one conversation, \<^verbatim>\<open>cmd/worker/output.go\<close>: the normalized record, the legacy
  record, the choice between them by the output contract, and the lines printed or the
  payload handed to the sink. Logging is left out: it changes no state.
\<close>

section \<open>Small helpers\<close>

definition isCounterNoise :: "bytes \<Rightarrow> bool" where
  "isCounterNoise payload =
     (if length payload \<noteq> 8 then False
      else if payload ! 0 \<noteq> CHR 0x01 \<and> payload ! 0 \<noteq> CHR 0x02 then False
      else list_all (\<lambda>i. payload ! i = CHR 0x00) [1 ..< 8])"

definition boundedLen :: "int \<Rightarrow> int \<Rightarrow> int \<Rightarrow> int" where
  "boundedLen n lo hi = (if n < lo then lo else if n > hi then hi else n)"

definition directionName :: "u8 \<Rightarrow> bytes" where
  "directionName direction =
     (if direction = directionRead then ''read''
      else if direction = directionWrite then ''write''
      else ''unknown('' @ show_nat (unat direction) @ '')'')"

definition routeName :: "bool \<Rightarrow> bytes" where
  "routeName request = (if request then ''request'' else ''response'')"

text \<open>Twelve random bytes in hexadecimal, or the clock when the random source fails.\<close>

definition hex24 :: "nat \<Rightarrow> bytes" where
  "hex24 n = (let h = hex_nat n in replicate (24 - length h) CHR ''0'' @ h)"

definition newOID :: "world \<Rightarrow> bytes \<times> world" where
  "newOID w =
     (let (b, w') = randRead w in
      case b of
        Some bs \<Rightarrow> (hex_encode bs, w')
      | None \<Rightarrow> (let (now, w'') = timeNow w' in (hex24 (nat now), w'')))"

section \<open>The emitted record\<close>

definition conversationHost :: "parsedRequest \<Rightarrow> bytes" where
  "conversationHost pr =
     (if req_Host (pr_req pr) = [] then header_Get (req_Header (pr_req pr)) ''Host''
      else req_Host (pr_req pr))"

definition conversationPath :: "parsedRequest \<Rightarrow> bytes" where
  "conversationPath pr =
     (if req_RequestURI (pr_req pr) = [] then req_URLPath (pr_req pr) else req_RequestURI (pr_req pr))"

definition normalizedConversation ::
  "runtime \<Rightarrow> config \<Rightarrow> bytes \<Rightarrow> parsedRequest \<Rightarrow> http_response \<Rightarrow> bytes \<Rightarrow> NormalizedConversation" where
  "normalizedConversation rt cfg oid pr resp respBody =
     (let host = conversationHost pr; path = conversationPath pr in
      \<lparr>nc_ID = oid,
       nc_SchemaVersion = ''http.conversation.v1'',
       nc_AgentID = cfg_agentID cfg,
       nc_CaptureSource = firstNonEmpty [pr_captureSource pr, ''ebpf''],
       nc_CaptureMode = pr_captureMode pr,
       nc_CapturedAt = lib_rfc3339 rt (pr_capturedAt pr),
       nc_Connection = pr_connection pr,
       nc_Process = pr_process pr,
       nc_Container = pr_container pr,
       nc_Loss = pr_loss pr,
       nc_HTTP =
         \<lparr>ex_Request =
            \<lparr>nreq_Method = req_Method (pr_req pr),
             nreq_URL = ''http://'' @ host @ path,
             nreq_Host = host,
             nreq_Path = path,
             nreq_Headers = req_Header (pr_req pr),
             nreq_Body = prettyMaybeJSON rt (pr_body pr)\<rparr>,
          ex_Response =
            \<lparr>nresp_Status = resp_Status resp,
             nresp_StatusCode = resp_StatusCode resp,
             nresp_Headers = resp_Header resp,
             nresp_Body = prettyMaybeJSON rt respBody\<rparr>\<rparr>\<rparr>)"

definition legacyConversation ::
  "runtime \<Rightarrow> NormalizedConversation \<Rightarrow> parsedRequest \<Rightarrow> http_response \<Rightarrow> bytes \<Rightarrow> HttpConversation" where
  "legacyConversation rt normalized pr resp respBody =
     (let host = conversationHost pr; path = conversationPath pr;
          prettyReqBody = prettyMaybeJSON rt (pr_body pr);
          prettyRespBody = prettyMaybeJSON rt respBody in
      \<lparr>hc_ID = nc_ID normalized,
       hc_SchemaVersion = nc_SchemaVersion normalized,
       hc_CaptureSource = nc_CaptureSource normalized,
       hc_CaptureMode = nc_CaptureMode normalized,
       hc_CreatedAt = lib_rfc3339 rt (pr_capturedAt pr),
       hc_Connection = pr_connection pr,
       hc_Process = pr_process pr,
       hc_Container = pr_container pr,
       hc_Loss = pr_loss pr,
       hc_Request = \<lparr>msg_Headers = req_Header (pr_req pr), msg_Body = prettyReqBody, msg_Status = []\<rparr>,
       hc_Response = \<lparr>msg_Headers = resp_Header resp, msg_Body = prettyRespBody, msg_Status = resp_Status resp\<rparr>,
       hc_Method = req_Method (pr_req pr),
       hc_URL = ''http://'' @ host @ path,
       hc_Host = host,
       hc_Path = path,
       hc_ReqHeaders = req_Header (pr_req pr),
       hc_ReqBody = prettyReqBody,
       hc_RespStatus = resp_Status resp,
       hc_RespBody = prettyRespBody\<rparr>)"

definition contractPayload :: "config \<Rightarrow> NormalizedConversation \<Rightarrow> HttpConversation \<Rightarrow> payload" where
  "contractPayload cfg normalized legacy =
     (if cfg_outputContract cfg = ''legacy'' then Legacy legacy
      else if cfg_outputContract cfg = ''both'' then Both normalized legacy
      else Normalized normalized)"

definition conversationTitle :: "NormalizedConversation \<Rightarrow> bytes" where
  "conversationTitle n =
     nreq_Method (ex_Request (nc_HTTP n)) @ '' '' @ nreq_Path (ex_Request (nc_HTTP n)) @ '' -> '' @
     nresp_Status (ex_Response (nc_HTTP n))"

definition printedLines :: "config \<Rightarrow> bytes \<Rightarrow> bytes \<Rightarrow> emission list" where
  "printedLines cfg title output =
     (let bar = replicate (nat (boundedLen (int (length title) + 20) 64 120)) CHR ''='' in
      (if cfg_prettyOutput cfg then [Line bar, Line ('' TRAFFIC '' @ title), Line bar] else []) @
      [Line output] @
      (if cfg_prettyOutput cfg then [Line (replicate 96 CHR ''-'')] else []))"

definition emitConversation ::
  "runtime \<Rightarrow> config \<Rightarrow> parsedRequest \<Rightarrow> http_response \<Rightarrow> bytes \<Rightarrow> world \<Rightarrow> world" where
  "emitConversation rt cfg pr resp respBody w =
     (let (oid, w1) = newOID w;
          normalized = normalizedConversation rt cfg oid pr resp respBody;
          legacy = legacyConversation rt normalized pr resp respBody;
          payload = contractPayload cfg normalized legacy;
          output = (if cfg_sink cfg then lib_marshal rt payload
                    else if cfg_prettyOutput cfg then lib_marshalIndent rt payload
                    else lib_marshal rt payload)
      in case output of
           None \<Rightarrow> w1
         | Some out \<Rightarrow>
             if cfg_sink cfg then emit [SinkEmit out] w1
             else emit (printedLines cfg (conversationTitle normalized) out) w1)"

section \<open>Facts\<close>

lemma newOID_frame [frame, simp]: "w_out (snd (newOID w)) = w_out w"
  by (auto simp: newOID_def timeNow_def randRead_def split: option.splits)

lemma boundedLen_bounds [bounds]: "lo \<le> hi \<Longrightarrow> lo \<le> boundedLen n lo hi \<and> boundedLen n lo hi \<le> hi"
  by (simp add: boundedLen_def)

text \<open>What a conversation adds to the output: nothing when it cannot be marshalled, one call of
  the sink when there is one, and the printed lines otherwise.\<close>

lemma emitConversation_out:
  "\<exists>oid. w_out (emitConversation rt cfg pr resp body w) = w_out w @
     (let n = normalizedConversation rt cfg oid pr resp body;
          p = contractPayload cfg n (legacyConversation rt n pr resp body)
      in case (if cfg_sink cfg \<or> \<not> cfg_prettyOutput cfg then lib_marshal rt p else lib_marshalIndent rt p) of
           None \<Rightarrow> []
         | Some out \<Rightarrow> if cfg_sink cfg then [SinkEmit out] else printedLines cfg (conversationTitle n) out)"
  by (rule exI [of _ "fst (newOID w)"])
    (auto simp: emitConversation_def Let_def case_prod_beta split: option.splits)

text \<open>The record that is emitted describes the request it was built from, and the legacy record
  agrees with the normalized one on every field they share.\<close>

lemma legacy_agrees:
  assumes "n = normalizedConversation rt cfg oid pr resp body" "l = legacyConversation rt n pr resp body"
  shows "hc_ID l = nc_ID n" "hc_Method l = nreq_Method (ex_Request (nc_HTTP n))"
    "hc_URL l = nreq_URL (ex_Request (nc_HTTP n))" "hc_Host l = nreq_Host (ex_Request (nc_HTTP n))"
    "hc_Path l = nreq_Path (ex_Request (nc_HTTP n))" "hc_ReqBody l = nreq_Body (ex_Request (nc_HTTP n))"
    "hc_RespBody l = nresp_Body (ex_Response (nc_HTTP n))" "hc_RespStatus l = nresp_Status (ex_Response (nc_HTTP n))"
    "hc_CreatedAt l = nc_CapturedAt n" "hc_Loss l = nc_Loss n" "hc_CaptureSource l = nc_CaptureSource n"
  using assms by (simp_all add: normalizedConversation_def legacyConversation_def Let_def)

lemma length_hex24:
  assumes "length (hex_nat n) \<le> 24"
  shows "length (hex24 n) = 24"
  using assms by (simp add: hex24_def Let_def)

lemma length_hex_nat: "n < 16 ^ k \<Longrightarrow> 0 < k \<Longrightarrow> length (hex_nat n) \<le> k"
proof (induction k arbitrary: n)
  case (Suc k)
  show ?case
  proof (cases "n < 16")
    case True
    then show ?thesis by (simp add: hex_nat.simps)
  next
    case False
    with Suc.prems have "0 < k" by (cases k) auto
    moreover have "n div 16 < 16 ^ k" using Suc.prems by (simp add: less_mult_imp_div_less mult.commute)
    ultimately have "length (hex_nat (n div 16)) \<le> k" by (rule Suc.IH [rotated])
    with False show ?thesis by (subst hex_nat.simps) simp
  qed
qed simp

end
