(* ===== verification/SessionStore.thy ===== *)
theory SessionStore
  imports World
begin

text \<open>
  The session store of the worker, \<^verbatim>\<open>cmd/worker/store.go\<close>: a map from session keys to
  stream states. The code hands out pointers into the map and mutates the states in place;
  here \<open>storeState\<close> writes the mutated state back under its key. Go iterates over a map in
  an unspecified order, so the sweep takes the order of the keys as an argument.
\<close>

definition newSessionStore :: "duration \<Rightarrow> sessionStore" where
  "newSessionStore ttl = \<lparr>ss_sessions = Map.empty, ss_ttl = ttl\<rparr>"

text \<open>A zero \<open>StreamState\<close> whose \<open>LastActive\<close> is set.\<close>

definition freshState :: "time \<Rightarrow> StreamState" where
  "freshState now = \<lparr>st_ReqData = [], st_RespData = [], st_PendingReqs = [], st_LastSeq = 0,
     st_HasLastSeq = False, st_CaptureSource = [], st_CaptureMode = [],
     st_Connection = noConnection, st_Process = noProcess, st_Container = noContainer,
     st_Loss = noLoss, st_LastActive = now\<rparr>"

definition getOrCreate :: "bytes \<Rightarrow> world \<Rightarrow> sessionStore \<Rightarrow> StreamState \<times> world \<times> sessionStore" where
  "getOrCreate key w s =
     (case ss_sessions s key of
        Some state \<Rightarrow> (state, w, s)
      | None \<Rightarrow>
          (let (now, w') = timeNow w; state = freshState now
           in (state, w', s\<lparr>ss_sessions := (ss_sessions s)(key \<mapsto> state)\<rparr>)))"

definition get_session :: "bytes \<Rightarrow> sessionStore \<Rightarrow> StreamState option" where
  "get_session key s = ss_sessions s key"

definition remove_session :: "bytes \<Rightarrow> sessionStore \<Rightarrow> sessionStore" where
  "remove_session key s = s\<lparr>ss_sessions := (ss_sessions s)(key := None)\<rparr>"

definition storeState :: "bytes \<Rightarrow> StreamState \<Rightarrow> sessionStore \<Rightarrow> sessionStore" where
  "storeState key state s = s\<lparr>ss_sessions := (ss_sessions s)(key \<mapsto> state)\<rparr>"

text \<open>The sweep removes the idle sessions and returns their states for the final flush.\<close>

fun sweepExpired :: "bytes list \<Rightarrow> time \<Rightarrow> sessionStore \<Rightarrow> StreamState list \<times> sessionStore" where
  "sweepExpired [] cutoff s = ([], s)"
| "sweepExpired (key # keys) cutoff s =
     (case ss_sessions s key of
        None \<Rightarrow> sweepExpired keys cutoff s
      | Some state \<Rightarrow>
          if st_LastActive state < cutoff
          then (let (expired, s') = sweepExpired keys cutoff (remove_session key s)
                in (state # expired, s'))
          else sweepExpired keys cutoff s)"

fun expireAll :: "(StreamState \<Rightarrow> 'w \<Rightarrow> nat \<times> 'w) \<Rightarrow> StreamState list \<Rightarrow> 'w \<Rightarrow> nat \<times> 'w" where
  "expireAll onExpire [] w = (0, w)"
| "expireAll onExpire (state # states) w =
     (let (n, w') = onExpire state w; (m, w'') = expireAll onExpire states w' in (n + m, w''))"

definition cleanupExpired ::
  "bytes list \<Rightarrow> time \<Rightarrow> (StreamState \<Rightarrow> 'w \<Rightarrow> nat \<times> 'w) option \<Rightarrow> sessionStore \<Rightarrow> 'w
     \<Rightarrow> nat \<times> nat \<times> sessionStore \<times> 'w" where
  "cleanupExpired keys cutoff onExpire s w =
     (let (expired, s') = sweepExpired keys cutoff s
      in case onExpire of
           None \<Rightarrow> (length expired, 0, s', w)
         | Some f \<Rightarrow> (let (parsed, w') = expireAll f expired w in (length expired, parsed, s', w')))"

section \<open>Laws\<close>

text \<open>
  The contract the event processor relies on: what a lookup returns after each update.
\<close>

locale session_store =
  fixes lookup :: "'k \<Rightarrow> 's \<Rightarrow> 'v option"
    and store :: "'k \<Rightarrow> 'v \<Rightarrow> 's \<Rightarrow> 's"
    and delete :: "'k \<Rightarrow> 's \<Rightarrow> 's"
  assumes lookup_store: "lookup k (store k' v s) = (if k = k' then Some v else lookup k s)"
    and lookup_delete: "lookup k (delete k' s) = (if k = k' then None else lookup k s)"
begin

lemma lookup_delete_all: "lookup k (fold delete ks s) = (if k \<in> set ks then None else lookup k s)"
  by (induction ks arbitrary: s) (auto simp: lookup_delete)

lemma store_then_delete: "lookup k (delete k' (store k' v s)) = (if k = k' then None else lookup k s)"
  by (simp add: lookup_store lookup_delete)

lemma store_overwrites: "lookup k (store k' v (store k' v' s)) = lookup k (store k' v s)"
  by (simp add: lookup_store)

lemma store_other: "k \<noteq> k' \<Longrightarrow> lookup k (store k' v s) = lookup k s"
  by (simp add: lookup_store)

end

interpretation sessions: session_store get_session storeState remove_session
  by unfold_locales (auto simp: get_session_def storeState_def remove_session_def)

lemmas store_simps [simp] = sessions.lookup_store sessions.lookup_delete

lemma getOrCreate_lookup:
  "getOrCreate key w s = (state, w', s') \<Longrightarrow>
     get_session k s' = (if k = key then Some state else get_session k s)"
  by (auto simp: getOrCreate_def get_session_def timeNow_def Let_def split: option.splits)

lemma getOrCreate_frame [frame]:
  "getOrCreate key w s = (state, w', s') \<Longrightarrow> w_out w' = w_out w \<and> ss_ttl s' = ss_ttl s"
  by (auto simp: getOrCreate_def timeNow_def Let_def split: option.splits)

lemma getOrCreate_state:
  "getOrCreate key w s = (state, w', s') \<Longrightarrow>
     state = (case get_session key s of Some st \<Rightarrow> st | None \<Rightarrow> freshState (fst (timeNow w)))"
  by (auto simp: getOrCreate_def get_session_def timeNow_def Let_def split: option.splits)

text \<open>The sweep deletes exactly the idle sessions among the keys it visits.\<close>

definition is_idle :: "time \<Rightarrow> sessionStore \<Rightarrow> bytes \<Rightarrow> bool" where
  "is_idle cutoff s key \<longleftrightarrow>
     (case get_session key s of None \<Rightarrow> False | Some st \<Rightarrow> st_LastActive st < cutoff)"

lemma sweepExpired_fold:
  assumes "distinct keys"
  shows "sweepExpired keys cutoff s =
    (map (\<lambda>k. the (get_session k s)) (filter (is_idle cutoff s) keys),
     fold remove_session (filter (is_idle cutoff s) keys) s)"
  using assms
proof (induction keys arbitrary: s)
  case (Cons key keys)
  have same: "get_session k (remove_session key s) = get_session k s" if "k \<in> set keys" for k
    using Cons.prems that by auto
  then have filt: "filter (is_idle cutoff (remove_session key s)) keys = filter (is_idle cutoff s) keys"
    by (intro filter_cong) (auto simp: is_idle_def)
  have maps: "map (\<lambda>k. the (get_session k (remove_session key s))) (filter (is_idle cutoff s) keys) =
      map (\<lambda>k. the (get_session k s)) (filter (is_idle cutoff s) keys)"
    using same by (intro map_cong) auto
  have IH: "sweepExpired keys cutoff s' =
      (map (\<lambda>k. the (get_session k s')) (filter (is_idle cutoff s') keys),
       fold remove_session (filter (is_idle cutoff s') keys) s')" for s'
    using Cons by simp
  show ?case
  proof (cases "get_session key s")
    case None
    then have "\<not> is_idle cutoff s key" by (simp add: is_idle_def)
    with None IH [of s] show ?thesis by (simp add: get_session_def)
  next
    case (Some st)
    then have "is_idle cutoff s key \<longleftrightarrow> st_LastActive st < cutoff" by (simp add: is_idle_def)
    with Some IH [of s] IH [of "remove_session key s"] filt maps show ?thesis
      by (simp add: get_session_def)
  qed
qed simp

lemma sweepExpired_lookup:
  assumes "distinct keys" "sweepExpired keys cutoff s = (expired, s')"
  shows "get_session k s' = (if k \<in> set keys \<and> is_idle cutoff s k then None else get_session k s)"
  using assms by (auto simp: sweepExpired_fold sessions.lookup_delete_all)

end
