(* ===== verification/Processing.thy ===== *)
theory Processing
  imports Framing Output SessionStore
begin

text \<open>
  The worker's event processor, \<^verbatim>\<open>cmd/worker/processing.go\<close>: an event is routed to the
  request or the response buffer of its flow; complete requests are queued; responses are
  matched to the queued requests in order; each pair is emitted. A close event or the expiry
  of a session flushes it.

  The code's two loops of \<open>drainParsedConversations\<close> are \<open>drainRequests\<close> and
  \<open>drainResponses\<close>; both terminate because a parsed message consumes at least one byte and
  a matched response at least one queued request. Their abstract specifications are
  \<open>extractRequests\<close>, the requests of a byte stream, and \<open>matchResponses\<close>, the pairs
  that a queue and a byte stream yield.
\<close>

section \<open>Session keys\<close>

definition pidfdKey :: "ApiEvent \<Rightarrow> bytes" where
  "pidfdKey event =
     ''pidfd:'' @ show_nat (unat (ev_PID event)) @ CHR ''-'' # show_nat (unat (ev_FD event)) @
     CHR ''-'' # show_nat (unat (ev_Generation event))"

definition connKey :: "ApiEvent \<Rightarrow> bytes" where
  "connKey event =
     (let c = ev_Connection event in
      ''conn:'' @ conn_Protocol c @ CHR '':'' # conn_SrcIP c @ CHR '':'' # show_int (conn_SrcPort c) @
      CHR ''-'' # conn_DstIP c @ CHR '':'' # show_int (conn_DstPort c) @
      CHR '':'' # show_nat (unat (ev_Generation event)))"

definition sessionKey :: "ApiEvent \<Rightarrow> bytes" where
  "sessionKey event =
     (if ev_CaptureSource event = ''ebpf'' \<and> ev_PID event \<noteq> 0 \<and> ev_FD event \<noteq> 0 then pidfdKey event
      else if conn_Protocol (ev_Connection event) \<noteq> [] \<and> conn_SrcIP (ev_Connection event) \<noteq> [] \<and>
              conn_DstIP (ev_Connection event) \<noteq> [] then connKey event
      else pidfdKey event)"

section \<open>Updates of the stream state\<close>

definition mergeStreamMetadata :: "ApiEvent \<Rightarrow> StreamState \<Rightarrow> StreamState" where
  "mergeStreamMetadata event state = state\<lparr>
     st_CaptureSource := (if st_CaptureSource state = [] then ev_CaptureSource event else st_CaptureSource state),
     st_CaptureMode := (if st_CaptureMode state = [] then ev_CaptureMode event else st_CaptureMode state),
     st_Connection := (if conn_Protocol (st_Connection state) = [] then ev_Connection event else st_Connection state),
     st_Process := (if proc_PID (st_Process state) = 0 then ev_Process event else st_Process state),
     st_Container := (if cont_ID (st_Container state) = [] then ev_Container event else st_Container state)\<rparr>"

definition mergeLossMetadata :: "LossMetadata \<Rightarrow> LossMetadata \<Rightarrow> LossMetadata" where
  "mergeLossMetadata base latest =
     (let base1 = (if loss_Truncated latest
          then base\<lparr>loss_Truncated := True, loss_OriginalSize := loss_OriginalSize latest,
                    loss_CapturedSize := loss_CapturedSize latest, loss_Reason := loss_Reason latest\<rparr>
          else base)
      in if loss_SequenceGap latest
         then base1\<lparr>loss_SequenceGap := True, loss_ExpectedNextSeq := loss_ExpectedNextSeq latest,
                    loss_ActualSeq := loss_ActualSeq latest\<rparr>
         else base1)"

text \<open>The bookkeeping of sequence numbers and losses before a payload is routed.\<close>

definition sequenceGap :: "StreamState \<Rightarrow> ApiEvent \<Rightarrow> bool" where
  "sequenceGap state event \<longleftrightarrow> st_HasLastSeq state \<and> ev_Seq event > st_LastSeq state + 1"

definition trackLoss :: "ApiEvent \<Rightarrow> StreamState \<Rightarrow> StreamState" where
  "trackLoss event state =
     (let state1 = (if sequenceGap state event
          then state\<lparr>st_Loss := (st_Loss state)\<lparr>loss_SequenceGap := True,
                 loss_ExpectedNextSeq := st_LastSeq state + 1, loss_ActualSeq := ev_Seq event\<rparr>\<rparr>
          else state);
          state2 = (if loss_Truncated (ev_Loss event)
          then state1\<lparr>st_Loss := (st_Loss state1)\<lparr>loss_Truncated := True,
                 loss_OriginalSize := loss_OriginalSize (ev_Loss event),
                 loss_CapturedSize := loss_CapturedSize (ev_Loss event),
                 loss_Reason := loss_Reason (ev_Loss event)\<rparr>\<rparr>
          else state1)
      in if \<not> st_HasLastSeq state2 \<or> ev_Seq event \<ge> st_LastSeq state2
         then state2\<lparr>st_LastSeq := ev_Seq event, st_HasLastSeq := True\<rparr>
         else state2)"

definition routeAsRequest :: "ApiEvent \<Rightarrow> bytes \<Rightarrow> bool" where
  "routeAsRequest event payload =
     (case classifyPayload payload of
        payloadRequest \<Rightarrow> True
      | payloadResponse \<Rightarrow> False
      | payloadUnknown \<Rightarrow> ev_Direction event = directionRead)"

section \<open>Draining a stream\<close>

definition pendingRequest :: "StreamState \<Rightarrow> http_request \<Rightarrow> bytes \<Rightarrow> time \<Rightarrow> parsedRequest" where
  "pendingRequest state req body now =
     \<lparr>pr_req = req, pr_body = body, pr_capturedAt = now,
      pr_captureSource = st_CaptureSource state, pr_captureMode = st_CaptureMode state,
      pr_connection = st_Connection state, pr_process = st_Process state,
      pr_container = st_Container state, pr_loss = st_Loss state\<rparr>"

function drainRequests ::
  "runtime \<Rightarrow> config \<Rightarrow> world \<Rightarrow> workerStats \<Rightarrow> StreamState \<Rightarrow> world \<times> workerStats \<times> StreamState" where
  "drainRequests rt cfg w stats state =
     (let (data, trimmed) = syncRequestBuffer (st_ReqData state);
          stats1 = (if 0 < trimmed
            then stats\<lparr>ws_droppedNoReqStart := ws_droppedNoReqStart stats + of_nat trimmed\<rparr> else stats)
      in case parseOneRequest rt data (cfg_maxBodyBytes cfg) of
           None \<Rightarrow>
             (w, (if 0 < length data
                then stats1\<lparr>ws_requestParsePending := ws_requestParsePending stats1 + 1\<rparr> else stats1),
              state\<lparr>st_ReqData := data\<rparr>)
         | Some (req, body, consumed) \<Rightarrow>
             (let (now, w1) = timeNow w in
              drainRequests rt cfg w1 (stats1\<lparr>ws_requestParsed := ws_requestParsed stats1 + 1\<rparr>)
                (state\<lparr>st_PendingReqs := st_PendingReqs state @ [pendingRequest state req body now],
                       st_ReqData := drop consumed data\<rparr>)))"
  by pat_completeness auto
termination
proof (relation "measure (\<lambda>(rt, cfg, w, stats, state). length (st_ReqData state))", goal_cases)
  case 1
  then show ?case by simp
next
  case (2 rt cfg w stats state x data trimmed stats1 r req bc body consumed y now w1)
  then have "parseOneRequest rt data (cfg_maxBodyBytes cfg) = Some (req, body, consumed)"
    and sync: "syncRequestBuffer (st_ReqData state) = (data, trimmed)" by auto
  then have "0 < consumed \<and> consumed \<le> length data" using parseOneRequest_consumed by blast
  moreover have "length data \<le> length (st_ReqData state)"
    using req_stream.sync_length [of "st_ReqData state"] sync by simp
  ultimately have "length data - consumed < length (st_ReqData state)" by arith
  then show ?case by simp
qed

declare drainRequests.simps [simp del]

function drainResponses ::
  "runtime \<Rightarrow> config \<Rightarrow> bool \<Rightarrow> world \<Rightarrow> workerStats \<Rightarrow> StreamState \<Rightarrow>
     world \<times> workerStats \<times> StreamState \<times> nat" where
  "drainResponses rt cfg allowCloseDelimited w stats state =
     (case st_PendingReqs state of
        [] \<Rightarrow> (w, stats, state, 0)
      | parsedReq # pending \<Rightarrow>
          (let (data, trimmed) = syncResponseBuffer (st_RespData state);
               stats1 = (if 0 < trimmed
                 then stats\<lparr>ws_droppedNoRespInit := ws_droppedNoRespInit stats + of_nat trimmed\<rparr> else stats)
           in case parseOneResponse rt data (pr_req parsedReq) (cfg_maxBodyBytes cfg) allowCloseDelimited of
                None \<Rightarrow>
                  (w, (if 0 < length data
                     then stats1\<lparr>ws_responseParsePending := ws_responseParsePending stats1 + 1\<rparr> else stats1),
                   state\<lparr>st_RespData := data\<rparr>, 0)
              | Some (resp, body, consumed) \<Rightarrow>
                  (let w1 = emitConversation rt cfg
                         (parsedReq\<lparr>pr_loss := mergeLossMetadata (pr_loss parsedReq) (st_Loss state)\<rparr>)
                         resp body w;
                       (w2, stats2, state2, parsedCount) =
                         drainResponses rt cfg allowCloseDelimited w1
                           (stats1\<lparr>ws_responseParsed := ws_responseParsed stats1 + 1\<rparr>)
                           (state\<lparr>st_PendingReqs := pending, st_RespData := drop consumed data\<rparr>)
                   in (w2, stats2, state2, Suc parsedCount))))"
  by pat_completeness auto
termination
  by (relation "measure (\<lambda>(rt, cfg, close, w, stats, state). length (st_PendingReqs state))") auto

declare drainResponses.simps [simp del]

definition drainParsedConversations ::
  "runtime \<Rightarrow> config \<Rightarrow> bool \<Rightarrow> world \<Rightarrow> workerStats \<Rightarrow> StreamState \<Rightarrow>
     world \<times> workerStats \<times> StreamState \<times> nat" where
  "drainParsedConversations rt cfg allowCloseDelimited w stats state =
     (let (w1, stats1, state1) = drainRequests rt cfg w stats state
      in drainResponses rt cfg allowCloseDelimited w1 stats1 state1)"

section \<open>Processing an event\<close>

record worker =
  wk_store :: sessionStore
  wk_stats :: workerStats
  wk_world :: world

definition countParsed :: "nat \<Rightarrow> workerStats \<Rightarrow> workerStats" where
  "countParsed parsed stats =
     (if 0 < parsed then stats\<lparr>ws_parsed := ws_parsed stats + of_nat parsed\<rparr> else stats)"

definition handleCloseEvent :: "runtime \<Rightarrow> config \<Rightarrow> ApiEvent \<Rightarrow> worker \<Rightarrow> worker" where
  "handleCloseEvent rt cfg event wk =
     (let key = sessionKey event in
      case get_session key (wk_store wk) of
        None \<Rightarrow> wk
      | Some state \<Rightarrow>
          (let (w1, stats1, state1, parsed) =
                 drainParsedConversations rt cfg True (wk_world wk) (wk_stats wk) state;
               stats2 = countParsed parsed stats1
           in wk\<lparr>wk_store := remove_session key (storeState key state1 (wk_store wk)),
                 wk_stats := stats2\<lparr>ws_closedSessions := ws_closedSessions stats2 + 1\<rparr>,
                 wk_world := w1\<rparr>))"

text \<open>
  Appending to the routed buffer; \<open>Inl\<close> is the overflow reset with its early return.
\<close>

definition appendPayload ::
  "config \<Rightarrow> bool \<Rightarrow> bytes \<Rightarrow> StreamState \<Rightarrow> workerStats \<Rightarrow>
     (StreamState \<times> workerStats) + (StreamState \<times> workerStats)" where
  "appendPayload cfg asRequest payload state stats =
     (if asRequest then
        (let stats1 = stats\<lparr>ws_routedReq := ws_routedReq stats + 1\<rparr>; data = st_ReqData state @ payload in
         if int (length data) > cfg_maxStreamBytes cfg
         then Inl (state\<lparr>st_ReqData := [], st_PendingReqs := []\<rparr>,
                   stats1\<lparr>ws_droppedReqOverflow := ws_droppedReqOverflow stats1 + 1\<rparr>)
         else Inr (state\<lparr>st_ReqData := data\<rparr>, stats1))
      else
        (let stats1 = stats\<lparr>ws_routedResp := ws_routedResp stats + 1\<rparr>; data = st_RespData state @ payload in
         if int (length data) > cfg_maxStreamBytes cfg
         then Inl (state\<lparr>st_RespData := [], st_PendingReqs := []\<rparr>,
                   stats1\<lparr>ws_droppedRespOverflow := ws_droppedRespOverflow stats1 + 1\<rparr>)
         else Inr (state\<lparr>st_RespData := data\<rparr>, stats1)))"

definition processPayload ::
  "runtime \<Rightarrow> config \<Rightarrow> ApiEvent \<Rightarrow> bytes \<Rightarrow> world \<Rightarrow> workerStats \<Rightarrow> StreamState \<Rightarrow>
     world \<times> workerStats \<times> StreamState" where
  "processPayload rt cfg event payload w stats state0 =
     (let (now, w1) = timeNow w;
          state1 = mergeStreamMetadata event (state0\<lparr>st_LastActive := now\<rparr>);
          stats1 = (if sequenceGap state1 event
            then stats\<lparr>ws_outOfOrder := ws_outOfOrder stats + 1\<rparr> else stats);
          state2 = trackLoss event state1;
          stats2 = (if classifyPayload payload = payloadUnknown
            then stats1\<lparr>ws_routedUnknown := ws_routedUnknown stats1 + 1\<rparr> else stats1)
      in case appendPayload cfg (routeAsRequest event payload) payload state2 stats2 of
           Inl (state3, stats3) \<Rightarrow> (w1, stats3, state3)
         | Inr (state3, stats3) \<Rightarrow>
             (let (w2, stats4, state4, parsed) = drainParsedConversations rt cfg False w1 stats3 state3
              in (w2, countParsed parsed stats4, state4)))"

definition eventPayload :: "ApiEvent \<Rightarrow> bytes" where
  "eventPayload event =
     (let payloadSize = (if unat (ev_Size event) > length (ev_Payload event)
        then length (ev_Payload event) else unat (ev_Size event))
      in take payloadSize (ev_Payload event))"

definition processEvent :: "runtime \<Rightarrow> config \<Rightarrow> ApiEvent \<Rightarrow> worker \<Rightarrow> worker" where
  "processEvent rt cfg event wk =
     (if ev_EventType event = eventTypeClose then handleCloseEvent rt cfg event wk
      else if ev_EventType event \<noteq> eventTypeData
      then wk\<lparr>wk_stats := (wk_stats wk)\<lparr>ws_droppedMalformed := ws_droppedMalformed (wk_stats wk) + 1\<rparr>\<rparr>
      else if ev_Size event = 0 \<or> length (ev_Payload event) = 0
      then wk\<lparr>wk_stats := (wk_stats wk)\<lparr>ws_droppedNoise := ws_droppedNoise (wk_stats wk) + 1\<rparr>\<rparr>
      else let payload = eventPayload event in
        if isCounterNoise payload
        then wk\<lparr>wk_stats := (wk_stats wk)\<lparr>ws_droppedNoise := ws_droppedNoise (wk_stats wk) + 1\<rparr>\<rparr>
        else
          (let key = sessionKey event;
               (state, w1, store1) = getOrCreate key (wk_world wk) (wk_store wk);
               (w2, stats2, state2) = processPayload rt cfg event payload w1 (wk_stats wk) state
           in wk\<lparr>wk_store := storeState key state2 store1, wk_stats := stats2, wk_world := w2\<rparr>))"

end
