(* ===== verification/SampleHttp.thy ===== *)
theory SampleHttp
  imports Framing World HttpParse
begin

text \<open>
  A small concrete runtime for the examples of the development: requests without a body that
  start with one of the known methods, responses that are empty or end with the connection,
  an identity JSON indenter and a marshaller that renders the response status. It shows that
  the hypotheses the theorems put on the library parameters can hold together.
\<close>

definition crlf2 :: bytes where
  "crlf2 = [CHR 0x0D, CHR 0x0A, CHR 0x0D, CHR 0x0A]"

definition nthField :: "nat \<Rightarrow> bytes \<Rightarrow> bytes" where
  "nthField n line = (let fs = split_on CHR '' '' line in if n < length fs then fs ! n else [])"

definition sampleReadRequest :: "bytes \<Rightarrow> http_request parsed option" where
  "sampleReadRequest d =
     (let i = bytes_index d crlf2 in
      if i < 0 \<or> earliestMethodIndex d \<noteq> 0 then None
      else let head = take (nat i) d in
        Some \<lparr>pm_message = \<lparr>req_Method = nthField 0 head, req_Host = ''host'', req_Header = [],
                req_RequestURI = nthField 1 head, req_URLPath = nthField 1 head\<rparr>,
              pm_body = None, pm_unread = (\<lambda>_. length d - (nat i + 4))\<rparr>)"

definition sampleReadResponse :: "bytes \<Rightarrow> http_request \<Rightarrow> http_response parsed option" where
  "sampleReadResponse d req =
     (let i = bytes_index d crlf2 in
      if i < 0 \<or> \<not> has_prefix d statusMarker then None
      else let head = take (nat i) d; rest = drop (nat i + 4) d; empty = contains head ''Content-Length: 0'' in
        Some \<lparr>pm_message = \<lparr>resp_StatusCode = 200, resp_Status = nthField 1 head, resp_Header = [],
                resp_ContentLength = (if empty then 0 else - 1), resp_TransferEncoding = []\<rparr>,
              pm_body = Some (\<lambda>limit. Some (if empty then [] else take (nat limit) rest)),
              pm_unread = (\<lambda>_. if empty then length rest else 0)\<rparr>)"

definition sampleMarshal :: "payload \<Rightarrow> bytes option" where
  "sampleMarshal p =
     (case p of
        Normalized n \<Rightarrow> Some (nreq_Path (ex_Request (nc_HTTP n)) @ ''>'' @ nresp_Status (ex_Response (nc_HTTP n)))
      | Legacy l \<Rightarrow> Some (hc_Path l @ ''>'' @ hc_RespStatus l)
      | Both n l \<Rightarrow> Some (hc_Path l))"

definition sampleRuntime :: runtime where
  "sampleRuntime = \<lparr>lib_readRequest = sampleReadRequest, lib_readResponse = sampleReadResponse,
     lib_jsonIndent = Some, lib_marshal = sampleMarshal, lib_marshalIndent = sampleMarshal,
     lib_rfc3339 = (\<lambda>_. ''now'')\<rparr>"

definition sampleWorld :: world where
  "sampleWorld = \<lparr>w_clock = int, w_clockReads = 0, w_random = (\<lambda>_. Some (replicate 12 CHR 0x00)),
     w_randomReads = 0, w_out = []\<rparr>"

definition sampleConfig :: config where
  "sampleConfig = \<lparr>cfg_bootstrapServers = ''localhost:9092'', cfg_topic = ''raw-network-traffic'',
     cfg_groupID = ''raven-worker-group'', cfg_offsetReset = ''latest'', cfg_sessionTTL = 60,
     cfg_statsInterval = 10, cfg_maxBodyBytes = 100, cfg_maxStreamBytes = 64, cfg_prettyOutput = False,
     cfg_debugPayload = False, cfg_outputContract = ''normalized'', cfg_outputSink = ''http'',
     cfg_backendURL = [], cfg_agentToken = [], cfg_ingestURL = ''http://b/ingest'',
     cfg_accountToken = ''token'', cfg_agentID = [], cfg_httpTimeout = 10, cfg_httpMaxRetries = 3,
     cfg_httpRetryDelay = 1, cfg_deadLetterFile = [], cfg_outputTopic = ''out'',
     cfg_outputBootstrap = ''localhost:9092'', cfg_sink = True\<rparr>"

text \<open>Messages of one flow: a request, its response and the close of the descriptor.\<close>

definition sampleEvent :: "u8 \<Rightarrow> u8 \<Rightarrow> u32 \<Rightarrow> bytes \<Rightarrow> ApiEvent" where
  "sampleEvent type direction fd payload = zeroEvent\<lparr>ev_CaptureSource := ''ebpf'', ev_PID := 7, ev_FD := fd,
     ev_EventType := type, ev_Direction := direction, ev_Size := of_nat (length payload),
     ev_Payload := payload\<rparr>"

definition sampleDecode :: "bytes \<Rightarrow> ApiEvent option" where
  "sampleDecode value =
     (if value = ''request'' then Some (sampleEvent eventTypeData directionRead 3 (''GET /a'' @ crlf2))
      else if value = ''response''
      then Some (sampleEvent eventTypeData directionWrite 3 (''HTTP/1.1 200 Content-Length: 0'' @ crlf2))
      else if value = ''other'' then Some (sampleEvent eventTypeData directionRead 4 (''GET /b'' @ crlf2))
      else if value = ''partial'' then Some (sampleEvent eventTypeData directionRead 3 ''POST /c'')
      else if value = ''close'' then Some (sampleEvent eventTypeClose directionRead 3 [])
      else None)"

lemma crlf2_append:
  assumes "bytes_index d crlf2 = int i"
  shows "bytes_index (d @ e) crlf2 = int i"
  unfolding bytes_index_found
proof (intro conjI allI impI)
  note found = assms [unfolded bytes_index_found]
  then show "occurs_at (d @ e) crlf2 i" by (simp add: occurs_at_append)
  fix j assume "j < i"
  with found show "\<not> occurs_at (d @ e) crlf2 j"
    using occurs_at_appendD [of d e crlf2 j] by (auto simp: occurs_at_def)
qed

end
