(* ===== verification/Reassembly.thy ===== *)
theory Reassembly
  imports Processing SampleHttp
begin

text \<open>
  The abstract specification of draining a stream and the proof that the code's loops
  implement it. \<open>extractRequests\<close> is the list of requests that a byte stream carries and
  what is left of it; \<open>matchResponses\<close> pairs queued requests, in order, with the responses
  of a byte stream. On top of these: reassembly does not depend on how the stream was cut
  into events.
\<close>

section \<open>Specifications\<close>

function extractRequests :: "runtime \<Rightarrow> int \<Rightarrow> bytes \<Rightarrow> (http_request \<times> bytes) list \<times> bytes" where
  "extractRequests rt maxBody data =
     (let synced = fst (syncRequestBuffer data) in
      case parseOneRequest rt synced maxBody of
        None \<Rightarrow> ([], synced)
      | Some (req, body, n) \<Rightarrow>
          (let (reqs, rest) = extractRequests rt maxBody (drop n synced) in ((req, body) # reqs, rest)))"
  by pat_completeness auto
termination
proof (relation "measure (\<lambda>(rt, m, data). length data)", goal_cases)
  case 1
  then show ?case by simp
next
  case (2 rt m data x y req bc body n)
  then have "parseOneRequest rt (fst (syncRequestBuffer data)) m = Some (req, body, n)" by auto
  then have "0 < n \<and> n \<le> length (fst (syncRequestBuffer data))" using parseOneRequest_consumed by blast
  then have "length (fst (syncRequestBuffer data)) - n < length data"
    using req_stream.sync_length [of data] by arith
  with 2 show ?case by simp
qed

declare extractRequests.simps [simp del]

primrec matchResponses ::
  "runtime \<Rightarrow> int \<Rightarrow> bool \<Rightarrow> parsedRequest list \<Rightarrow> bytes \<Rightarrow>
     (parsedRequest \<times> http_response \<times> bytes) list \<times> bytes" where
  "matchResponses rt maxBody close [] data = ([], data)"
| "matchResponses rt maxBody close (p # ps) data =
     (let synced = fst (syncResponseBuffer data) in
      case parseOneResponse rt synced (pr_req p) maxBody close of
        None \<Rightarrow> ([], synced)
      | Some (resp, body, n) \<Rightarrow>
          (let (ms, rest) = matchResponses rt maxBody close ps (drop n synced) in ((p, resp, body) # ms, rest)))"

definition emitMatched ::
  "runtime \<Rightarrow> config \<Rightarrow> LossMetadata \<Rightarrow> parsedRequest \<times> http_response \<times> bytes \<Rightarrow> world \<Rightarrow> world" where
  "emitMatched rt cfg loss m w =
     (case m of (p, resp, body) \<Rightarrow>
        emitConversation rt cfg (p\<lparr>pr_loss := mergeLossMetadata (pr_loss p) loss\<rparr>) resp body w)"

section \<open>The loops implement the specifications\<close>

text \<open>The queue entries for a list of requests: each records the clock when it was parsed.\<close>

fun queued :: "StreamState \<Rightarrow> (http_request \<times> bytes) list \<Rightarrow> (nat \<Rightarrow> time) \<Rightarrow> nat \<Rightarrow> parsedRequest list" where
  "queued state [] clock k = []"
| "queued state ((req, body) # reqs) clock k =
     pendingRequest state req body (clock k) # queued state reqs clock (Suc k)"

lemma queued_frame [simp]:
  "queued (state\<lparr>st_PendingReqs := ps, st_ReqData := d\<rparr>) reqs clock k = queued state reqs clock k"
  by (induction state reqs clock k rule: queued.induct) (auto simp: pendingRequest_def)

lemma queued_contents: "map (\<lambda>p. (pr_req p, pr_body p)) (queued state reqs clock k) = reqs"
  by (induction state reqs clock k rule: queued.induct) (auto simp: pendingRequest_def)

lemma length_queued [simp]: "length (queued state reqs clock k) = length reqs"
  by (induction state reqs clock k rule: queued.induct) auto

text \<open>The counters that draining leaves alone.\<close>

definition sameRouting :: "workerStats \<Rightarrow> workerStats \<Rightarrow> bool" where
  "sameRouting s t \<longleftrightarrow>
     ws_received t = ws_received s \<and> ws_decoded t = ws_decoded s \<and>
     ws_droppedMalformed t = ws_droppedMalformed s \<and> ws_droppedNoise t = ws_droppedNoise s \<and>
     ws_outOfOrder t = ws_outOfOrder s \<and> ws_routedReq t = ws_routedReq s \<and>
     ws_routedResp t = ws_routedResp s \<and> ws_routedUnknown t = ws_routedUnknown s \<and>
     ws_droppedReqOverflow t = ws_droppedReqOverflow s \<and>
     ws_droppedRespOverflow t = ws_droppedRespOverflow s \<and> ws_parsed t = ws_parsed s \<and>
     ws_closedSessions t = ws_closedSessions s \<and> ws_kafkaErrors t = ws_kafkaErrors s \<and>
     ws_expiredSessions t = ws_expiredSessions s"

lemma sameRouting_refl [simp]: "sameRouting s s"
  by (simp add: sameRouting_def)

lemma sameRouting_trans: "sameRouting s t \<Longrightarrow> sameRouting t u \<Longrightarrow> sameRouting s u"
  by (simp add: sameRouting_def)

lemma drainRequests_spec:
  assumes "extractRequests rt (cfg_maxBodyBytes cfg) (st_ReqData state) = (reqs, rest)"
  shows "\<exists>stats'. drainRequests rt cfg w stats state =
     (w\<lparr>w_clockReads := w_clockReads w + length reqs\<rparr>, stats',
      state\<lparr>st_PendingReqs := st_PendingReqs state @ queued state reqs (w_clock w) (w_clockReads w),
            st_ReqData := rest\<rparr>) \<and>
     ws_requestParsed stats' = ws_requestParsed stats + of_nat (length reqs) \<and>
     ws_responseParsed stats' = ws_responseParsed stats \<and> sameRouting stats stats'"
  using assms
proof (induction rt cfg w stats state arbitrary: reqs rest rule: drainRequests.induct)
  case (1 rt cfg w stats state)
  obtain data trimmed where sync: "syncRequestBuffer (st_ReqData state) = (data, trimmed)" by force
  show ?case
  proof (cases "parseOneRequest rt data (cfg_maxBodyBytes cfg)")
    case None
    with 1(2) sync have "reqs = []" "rest = data"
      by (simp_all add: extractRequests.simps [of _ _ "st_ReqData state"])
    with None sync show ?thesis by (simp add: drainRequests.simps sameRouting_def)
  next
    case (Some r)
    obtain req body n where r: "r = (req, body, n)" by (cases r) auto
    obtain reqs' where ext: "extractRequests rt (cfg_maxBodyBytes cfg) (drop n data) = (reqs', rest)"
      and reqs: "reqs = (req, body) # reqs'"
      using 1(2) sync Some r
      by (auto simp: extractRequests.simps [of _ _ "st_ReqData state"] split: prod.splits)
    let ?p = "pendingRequest state req body (w_clock w (w_clockReads w))"
    let ?stats = "if 0 < trimmed
      then stats\<lparr>ws_droppedNoReqStart := ws_droppedNoReqStart stats + of_nat trimmed\<rparr> else stats"
    let ?st = "state\<lparr>st_PendingReqs := st_PendingReqs state @ [?p], st_ReqData := drop n data\<rparr>"
    have step: "drainRequests rt cfg w stats state =
        drainRequests rt cfg (snd (timeNow w)) (?stats\<lparr>ws_requestParsed := ws_requestParsed ?stats + 1\<rparr>) ?st"
      using sync Some r by (subst drainRequests.simps) (simp add: timeNow_def)
    obtain stats' where IH: "drainRequests rt cfg (snd (timeNow w)) (?stats\<lparr>ws_requestParsed := ws_requestParsed ?stats + 1\<rparr>) ?st =
      ((snd (timeNow w))\<lparr>w_clockReads := w_clockReads (snd (timeNow w)) + length reqs'\<rparr>, stats',
       ?st\<lparr>st_PendingReqs := st_PendingReqs ?st @ queued ?st reqs' (w_clock (snd (timeNow w))) (w_clockReads (snd (timeNow w))),
          st_ReqData := rest\<rparr>)"
      and cnt: "ws_requestParsed stats' = ws_requestParsed (?stats\<lparr>ws_requestParsed := ws_requestParsed ?stats + 1\<rparr>) + of_nat (length reqs')"
      "ws_responseParsed stats' = ws_responseParsed ?stats"
      "sameRouting (?stats\<lparr>ws_requestParsed := ws_requestParsed ?stats + 1\<rparr>) stats'"
      using 1(1) [OF sync [symmetric] refl refl _ refl refl _ refl _ ] sync Some r ext
      by (simp add: timeNow_def) blast
    show ?thesis
      using step IH cnt reqs by (simp add: timeNow_def sameRouting_def split: if_splits)
  qed
qed

lemma drainResponses_spec:
  assumes "matchResponses rt (cfg_maxBodyBytes cfg) close (st_PendingReqs state) (st_RespData state) = (ms, rest)"
  shows "\<exists>stats'. drainResponses rt cfg close w stats state =
     (fold (emitMatched rt cfg (st_Loss state)) ms w, stats',
      state\<lparr>st_PendingReqs := drop (length ms) (st_PendingReqs state), st_RespData := rest\<rparr>, length ms) \<and>
     ws_responseParsed stats' = ws_responseParsed stats + of_nat (length ms) \<and>
     ws_requestParsed stats' = ws_requestParsed stats \<and> sameRouting stats stats'"
  using assms
proof (induction "st_PendingReqs state" arbitrary: state w stats ms rest)
  case Nil
  from Nil(1) [symmetric] Nil(2) show ?case by (simp add: drainResponses.simps)
next
  case (Cons p ps)
  note pend = Cons(2) [symmetric]
  obtain data trimmed where sync: "syncResponseBuffer (st_RespData state) = (data, trimmed)" by force
  show ?case
  proof (cases "parseOneResponse rt data (pr_req p) (cfg_maxBodyBytes cfg) close")
    case None
    with Cons(3) pend sync have "ms = []" "rest = data" by simp_all
    with None pend sync show ?thesis by (simp add: drainResponses.simps sameRouting_def)
  next
    case (Some r)
    obtain resp body n where r: "r = (resp, body, n)" by (cases r) auto
    obtain ms' where ext: "matchResponses rt (cfg_maxBodyBytes cfg) close ps (drop n data) = (ms', rest)"
      and ms: "ms = (p, resp, body) # ms'"
      using Cons(3) pend sync Some r by (auto split: prod.splits)
    let ?stats = "if 0 < trimmed
      then stats\<lparr>ws_droppedNoRespInit := ws_droppedNoRespInit stats + of_nat trimmed\<rparr> else stats"
    let ?stats1 = "?stats\<lparr>ws_responseParsed := ws_responseParsed ?stats + 1\<rparr>"
    let ?st = "state\<lparr>st_PendingReqs := ps, st_RespData := drop n data\<rparr>"
    let ?w = "emitMatched rt cfg (st_Loss state) (p, resp, body) w"
    have "ps = st_PendingReqs ?st" by simp
    moreover have "matchResponses rt (cfg_maxBodyBytes cfg) close (st_PendingReqs ?st) (st_RespData ?st) = (ms', rest)"
      using ext by simp
    ultimately obtain stats' where IH: "drainResponses rt cfg close ?w ?stats1 ?st =
        (fold (emitMatched rt cfg (st_Loss ?st)) ms' ?w, stats',
         ?st\<lparr>st_PendingReqs := drop (length ms') (st_PendingReqs ?st), st_RespData := rest\<rparr>, length ms')"
      and cnt: "ws_responseParsed stats' = ws_responseParsed ?stats1 + of_nat (length ms')"
        "ws_requestParsed stats' = ws_requestParsed ?stats1" "sameRouting ?stats1 stats'"
      using Cons(1) [of ?st ms' rest ?w ?stats1] by blast
    have "drainResponses rt cfg close w stats state =
        (let (w2, stats2, state2, k) = drainResponses rt cfg close ?w ?stats1 ?st
         in (w2, stats2, state2, Suc k))"
      using sync Some r pend by (subst drainResponses.simps) (simp add: emitMatched_def)
    then show ?thesis
      using IH cnt ms pend by (simp add: sameRouting_def split: if_splits)
  qed
qed

text \<open>Matching takes the requests from the front of the queue, each exactly once.\<close>

lemma matchResponses_fifo:
  "matchResponses rt m close ps data = (ms, rest) \<Longrightarrow> map fst ms = take (length ms) ps"
  by (induction ps arbitrary: data ms rest) (auto simp: Let_def split: option.splits prod.splits)

lemma matchResponses_length: "matchResponses rt m close ps data = (ms, rest) \<Longrightarrow> length ms \<le> length ps"
  by (induction ps arbitrary: data ms rest) (auto simp: Let_def split: option.splits prod.splits)

lemma matchResponses_rest: "matchResponses rt m close ps data = (ms, rest) \<Longrightarrow> length rest \<le> length data"
proof (induction ps arbitrary: data ms rest)
  case (Cons p ps)
  have "length (fst (syncResponseBuffer data)) \<le> length data"
    using resp_stream.sync_length [of data] by simp
  moreover have "length rest \<le> length x"
    if "matchResponses rt m close ps (drop n x) = (ms, rest)" for n x ms rest
    using Cons.IH [OF that] by simp
  ultimately show ?case using Cons.prems
    by (auto simp: Let_def split: option.splits prod.splits) (meson le_trans)
qed simp

lemma extractRequests_rest: "extractRequests rt m data = (reqs, rest) \<Longrightarrow> length rest \<le> length data"
proof (induction rt m data arbitrary: reqs rest rule: extractRequests.induct)
  case (1 rt m data)
  have le: "length (fst (syncRequestBuffer data)) \<le> length data"
    using req_stream.sync_length [of data] by simp
  show ?case
  proof (cases "parseOneRequest rt (fst (syncRequestBuffer data)) m")
    case None
    with 1(2) le show ?thesis by (simp add: extractRequests.simps [of rt m data])
  next
    case (Some r)
    obtain req body n where r: "r = (req, body, n)" by (cases r) auto
    obtain reqs' where "extractRequests rt m (drop n (fst (syncRequestBuffer data))) = (reqs', rest)"
      using 1(2) Some r by (auto simp: extractRequests.simps [of rt m data] split: prod.splits)
    then have "length rest \<le> length (drop n (fst (syncRequestBuffer data)))"
      using 1(1) Some r by simp
    with le show ?thesis by simp
  qed
qed

section \<open>Independence of the chunk boundaries\<close>

text \<open>
  What reassembly needs of the request reader: a message that parses keeps parsing to the same
  result when more bytes follow it, and only data that starts with a known method parses. Both
  hold of \<open>http.ReadRequest\<close> on a stream of requests with those methods whose bodies fit in
  \<open>maxBodyBytes\<close>.
\<close>

definition stableRequests :: "runtime \<Rightarrow> int \<Rightarrow> bool" where
  "stableRequests rt m \<longleftrightarrow>
     (\<forall>d e r. parseOneRequest rt d m = Some r \<longrightarrow> parseOneRequest rt (d @ e) m = Some r)"

definition startsAtMethod :: "runtime \<Rightarrow> int \<Rightarrow> bool" where
  "startsAtMethod rt m \<longleftrightarrow> (\<forall>d r. parseOneRequest rt d m = Some r \<longrightarrow> earliestMethodIndex d = 0)"

lemma extractRequests_sync:
  "fst (syncRequestBuffer a) = fst (syncRequestBuffer b) \<Longrightarrow> extractRequests rt m a = extractRequests rt m b"
  by (simp add: extractRequests.simps)

lemma extractRequests_Nil [simp]: "extractRequests rt m [] = ([], [])"
  by (simp add: extractRequests.simps syncRequestBuffer_def)

text \<open>What is left over carries no complete request.\<close>

lemma extractRequests_done:
  "extractRequests rt m d = (reqs, rest) \<Longrightarrow> extractRequests rt m rest = ([], rest)"
proof (induction rt m d arbitrary: reqs rest rule: extractRequests.induct)
  case (1 rt m d)
  show ?case
  proof (cases "parseOneRequest rt (fst (syncRequestBuffer d)) m")
    case None
    with 1(2) have "rest = fst (syncRequestBuffer d)" by (simp add: extractRequests.simps [of rt m d])
    with None show ?thesis
      by (simp add: extractRequests.simps [of rt m "fst (syncRequestBuffer d)"] req_stream.sync_idem)
  next
    case (Some r)
    obtain req body n where r: "r = (req, body, n)" by (cases r) auto
    then show ?thesis using 1 Some
      by (auto simp: extractRequests.simps [of rt m d] split: prod.splits)
  qed
qed

lemma extractRequests_append:
  assumes stable: "stableRequests rt m" and starts: "startsAtMethod rt m"
  shows "extractRequests rt m d = (reqs, rest) \<Longrightarrow> extractRequests rt m (rest @ e) = (reqs2, rest2) \<Longrightarrow>
    extractRequests rt m (d @ e) = (reqs @ reqs2, rest2)"
  using assms
proof (induction rt m d arbitrary: reqs rest rule: extractRequests.induct)
  case (1 rt m d)
  let ?x = "fst (syncRequestBuffer d)"
  have same: "extractRequests rt m (?x @ e) = extractRequests rt m (d @ e)"
    by (intro extractRequests_sync req_stream.sync_append)
  show ?case
  proof (cases "parseOneRequest rt ?x m")
    case None
    with 1 same show ?thesis by (simp add: extractRequests.simps [of rt m d])
  next
    case (Some r)
    obtain req body n where r: "r = (req, body, n)" by (cases r) auto
    obtain reqs' where ext: "extractRequests rt m (drop n ?x) = (reqs', rest)" and reqs: "reqs = (req, body) # reqs'"
      using 1(2) Some r by (auto simp: extractRequests.simps [of rt m d] split: prod.splits)
    have "earliestMethodIndex ?x = 0" using 1(5) Some r unfolding startsAtMethod_def by blast
    then have "earliestMethodIndex (?x @ e) = 0"
      using req_stream.idx_append_found [of ?x 0 e] by simp
    then have "syncRequestBuffer (?x @ e) = (?x @ e, 0)" by (rule req_stream.sync_at_marker)
    moreover have "parseOneRequest rt (?x @ e) m = Some (req, body, n)"
      using 1(4) Some r by (simp add: stableRequests_def)
    moreover have "drop n (?x @ e) = drop n ?x @ e"
      using parseOneRequest_consumed [of rt ?x m req body n] Some r by simp
    moreover have "extractRequests rt m (drop n ?x @ e) = (reqs' @ reqs2, rest2)"
      using 1(1) [OF refl Some r [symmetric] refl ext 1(3) 1(4) 1(5)] by simp
    ultimately have "extractRequests rt m (?x @ e) = (reqs @ reqs2, rest2)"
      using reqs by (simp add: extractRequests.simps [of rt m "?x @ e"])
    with same show ?thesis by simp
  qed
qed

fun feedRequests ::
  "runtime \<Rightarrow> config \<Rightarrow> bytes list \<Rightarrow> world \<times> workerStats \<times> StreamState \<Rightarrow> world \<times> workerStats \<times> StreamState" where
  "feedRequests rt cfg [] s = s"
| "feedRequests rt cfg (chunk # chunks) (w, stats, state) =
     feedRequests rt cfg chunks (drainRequests rt cfg w stats (state\<lparr>st_ReqData := st_ReqData state @ chunk\<rparr>))"

definition requestsOf :: "StreamState \<Rightarrow> (http_request \<times> bytes) list" where
  "requestsOf state = map (\<lambda>p. (pr_req p, pr_body p)) (st_PendingReqs state)"

lemma drainRequests_requests:
  assumes "extractRequests rt (cfg_maxBodyBytes cfg) (st_ReqData state) = (reqs, rest)"
  shows "\<exists>w' stats' state'. drainRequests rt cfg w stats state = (w', stats', state') \<and>
    st_ReqData state' = rest \<and> requestsOf state' = requestsOf state @ reqs"
  using drainRequests_spec [OF assms, of w stats] by (auto simp: requestsOf_def queued_contents)

lemma feedRequests_spec:
  assumes "stableRequests rt (cfg_maxBodyBytes cfg)" "startsAtMethod rt (cfg_maxBodyBytes cfg)"
    and "extractRequests rt (cfg_maxBodyBytes cfg) (st_ReqData state) = ([], st_ReqData state)"
    and "extractRequests rt (cfg_maxBodyBytes cfg) (st_ReqData state @ concat chunks) = (reqs, rest)"
  shows "\<exists>w' stats' state'. feedRequests rt cfg chunks (w, stats, state) = (w', stats', state') \<and>
    st_ReqData state' = rest \<and> requestsOf state' = requestsOf state @ reqs"
  using assms(3,4)
proof (induction chunks arbitrary: w stats state reqs)
  case (Cons c cs)
  let ?m = "cfg_maxBodyBytes cfg" and ?in = "state\<lparr>st_ReqData := st_ReqData state @ c\<rparr>"
  obtain reqs1 rest1 where ext1: "extractRequests rt ?m (st_ReqData state @ c) = (reqs1, rest1)" by force
  obtain reqs2 rest2 where ext2: "extractRequests rt ?m (rest1 @ concat cs) = (reqs2, rest2)" by force
  have whole: "reqs = reqs1 @ reqs2" "rest = rest2"
    using extractRequests_append [OF assms(1,2) ext1 ext2] Cons.prems(2) by simp_all
  obtain w1 stats1 state1 where d: "drainRequests rt cfg w stats ?in = (w1, stats1, state1)"
    and st1: "st_ReqData state1 = rest1" "requestsOf state1 = requestsOf ?in @ reqs1"
    using drainRequests_requests [of rt cfg ?in reqs1 rest1 w stats] ext1 by auto
  have "extractRequests rt ?m (st_ReqData state1) = ([], st_ReqData state1)"
    using extractRequests_done [OF ext1] st1 by simp
  from Cons.IH [OF this, of reqs2 w1 stats1] ext2 st1 whole d
  show ?case by (auto simp: requestsOf_def)
qed simp

section \<open>Properties\<close>


lemma sampleRuntime_parse:
  "parseOneRequest sampleRuntime d m = Some r \<longleftrightarrow>
     (\<exists>i. bytes_index d crlf2 = int i \<and> earliestMethodIndex d = 0 \<and>
       r = (\<lparr>req_Method = nthField 0 (take i d), req_Host = ''host'', req_Header = [],
             req_RequestURI = nthField 1 (take i d), req_URLPath = nthField 1 (take i d)\<rparr>, [], i + 4))"
proof (cases rule: bytes_index_cases [of d crlf2])
  case none
  then show ?thesis by (simp add: parseOneRequest_def sampleRuntime_def sampleReadRequest_def Let_def)
next
  case (found i)
  then have "occurs_at d crlf2 i" unfolding bytes_index_found by blast
  then have "i + 4 \<le> length d" by (simp add: occurs_at_def crlf2_def)
  with found show ?thesis
    by (auto simp: parseOneRequest_def sampleRuntime_def sampleReadRequest_def Let_def finishParse_def
        readBodyStringComplete_def)
qed

lemma sampleRuntime_stable: "stableRequests sampleRuntime m"
  unfolding stableRequests_def sampleRuntime_parse
proof (intro allI impI, elim exE conjE)
  fix d e :: bytes and r i
  assume i: "bytes_index d crlf2 = int i" and m: "earliestMethodIndex d = 0"
    and r: "r = (\<lparr>req_Method = nthField 0 (take i d), req_Host = ''host'', req_Header = [],
             req_RequestURI = nthField 1 (take i d), req_URLPath = nthField 1 (take i d)\<rparr>, [] :: bytes, i + 4)"
  have "occurs_at d crlf2 i" using i unfolding bytes_index_found by blast
  then have "i \<le> length d" by (simp add: occurs_at_def)
  moreover have "earliestMethodIndex (d @ e) = 0" using req_stream.idx_append_found [of d 0 e] m by simp
  ultimately show "\<exists>i. bytes_index (d @ e) crlf2 = int i \<and> earliestMethodIndex (d @ e) = 0 \<and>
       r = (\<lparr>req_Method = nthField 0 (take i (d @ e)), req_Host = ''host'', req_Header = [],
             req_RequestURI = nthField 1 (take i (d @ e)), req_URLPath = nthField 1 (take i (d @ e))\<rparr>, [], i + 4)"
    using crlf2_append [OF i, of e] r by (intro exI [of _ i]) simp
qed

lemma sampleRuntime_starts: "startsAtMethod sampleRuntime m"
  by (auto simp: startsAtMethod_def sampleRuntime_parse)

definition splitChunks :: "bytes list" where
  "splitChunks = [''GE'', ''T /a'' @ take 2 crlf2, drop 2 crlf2 @ ''GET /b'' @ crlf2 @ ''PO'']"


text \<open>Both loops together, in terms of the two specifications.\<close>

lemma drain_result:
  assumes "extractRequests rt (cfg_maxBodyBytes cfg) (st_ReqData state) = (reqs, rest)"
    and "waiting = st_PendingReqs state @ queued state reqs (w_clock w) (w_clockReads w)"
    and "matchResponses rt (cfg_maxBodyBytes cfg) close waiting (st_RespData state) = (ms, left)"
    and "drainParsedConversations rt cfg close w stats state = (w', stats', state', n)"
  shows "n = length ms" "state' = state\<lparr>st_PendingReqs := drop n waiting, st_ReqData := rest, st_RespData := left\<rparr>"
    "w' = fold (emitMatched rt cfg (st_Loss state)) ms (w\<lparr>w_clockReads := w_clockReads w + length reqs\<rparr>)"
    "ws_responseParsed stats' = ws_responseParsed stats + of_nat n"
    "ws_requestParsed stats' = ws_requestParsed stats + of_nat (length reqs)" "sameRouting stats stats'"
proof -
  let ?w = "w\<lparr>w_clockReads := w_clockReads w + length reqs\<rparr>"
  let ?st = "state\<lparr>st_PendingReqs := waiting, st_ReqData := rest\<rparr>"
  obtain stats1 where reqs: "drainRequests rt cfg w stats state = (?w, stats1, ?st)"
    and c1: "ws_requestParsed stats1 = ws_requestParsed stats + of_nat (length reqs)"
      "ws_responseParsed stats1 = ws_responseParsed stats" "sameRouting stats stats1"
    using drainRequests_spec [OF assms(1), of w stats] assms(2) by blast
  have "matchResponses rt (cfg_maxBodyBytes cfg) close (st_PendingReqs ?st) (st_RespData ?st) = (ms, left)"
    using assms(3) by simp
  from drainResponses_spec [OF this, of ?w stats1] obtain stats2 where
    resps: "drainResponses rt cfg close ?w stats1 ?st =
      (fold (emitMatched rt cfg (st_Loss ?st)) ms ?w, stats2,
       ?st\<lparr>st_PendingReqs := drop (length ms) (st_PendingReqs ?st), st_RespData := left\<rparr>, length ms)"
    and c2: "ws_responseParsed stats2 = ws_responseParsed stats1 + of_nat (length ms)"
      "ws_requestParsed stats2 = ws_requestParsed stats1" "sameRouting stats1 stats2" by blast
  have "(w', stats', state', n) = (fold (emitMatched rt cfg (st_Loss state)) ms ?w, stats2,
      ?st\<lparr>st_PendingReqs := drop (length ms) waiting, st_RespData := left\<rparr>, length ms)"
    unfolding assms(4) [symmetric] drainParsedConversations_def reqs by (simp add: resps)
  then show "n = length ms" "w' = fold (emitMatched rt cfg (st_Loss state)) ms ?w"
    "state' = state\<lparr>st_PendingReqs := drop n waiting, st_ReqData := rest, st_RespData := left\<rparr>"
    "ws_responseParsed stats' = ws_responseParsed stats + of_nat n"
    "ws_requestParsed stats' = ws_requestParsed stats + of_nat (length reqs)" "sameRouting stats stats'"
    using c1 c2 sameRouting_trans [of stats stats1 stats2] by simp_all
qed

text \<open>C8. Draining pairs requests and responses first in, first out, and loses neither: the
  conversations emitted are, in order, the longest-waiting queued requests, each with the response
  that the stream carries for it; the rest of the queue stays; the returned count and the counter of
  parsed responses both grow by the number of conversations emitted.\<close>

theorem drain_fifo:
  fixes stats :: workerStats
  assumes "extractRequests rt (cfg_maxBodyBytes cfg) (st_ReqData state) = (reqs, rest)"
    and "waiting = st_PendingReqs state @ queued state reqs (w_clock w) (w_clockReads w)"
    and "matchResponses rt (cfg_maxBodyBytes cfg) close waiting (st_RespData state) = (ms, left)"
    and "drainParsedConversations rt cfg close w stats state = (w', stats', state', n)"
  shows "n = length ms \<and> map fst ms = take n waiting \<and> st_PendingReqs state' = drop n waiting \<and>
    st_ReqData state' = rest \<and> st_RespData state' = left \<and>
    w' = fold (emitMatched rt cfg (st_Loss state)) ms (w\<lparr>w_clockReads := w_clockReads w + length reqs\<rparr>) \<and>
    ws_responseParsed stats' = ws_responseParsed stats + of_nat n \<and>
    ws_requestParsed stats' = ws_requestParsed stats + of_nat (length reqs)"
  using drain_result [OF assms] matchResponses_fifo [OF assms(3)] by simp

definition pairState :: StreamState where
  "pairState = (freshState 0)\<lparr>st_ReqData := ''GET /a'' @ crlf2,
     st_RespData := ''HTTP/1.1 200 Content-Length: 0'' @ crlf2\<rparr>"

theorem drain_fifo_witness:
  "let (w', stats', state', n) = drainParsedConversations sampleRuntime sampleConfig False sampleWorld zeroStats pairState
   in n = 1 \<and> st_PendingReqs state' = [] \<and> w_out w' = [SinkEmit ''/a>200''] \<and> ws_responseParsed stats' = 1"
proof -
  let ?drain = "drainParsedConversations sampleRuntime sampleConfig False sampleWorld zeroStats pairState"
  obtain reqs rest where r: "extractRequests sampleRuntime (cfg_maxBodyBytes sampleConfig) (st_ReqData pairState) = (reqs, rest)"
    by force
  define waiting where "waiting = st_PendingReqs pairState @ queued pairState reqs (w_clock sampleWorld) (w_clockReads sampleWorld)"
  obtain ms left where m: "matchResponses sampleRuntime (cfg_maxBodyBytes sampleConfig) False waiting (st_RespData pairState) = (ms, left)"
    by force
  obtain w' stats' state' n where d: "?drain = (w', stats', state', n)"
    using prod_cases4 by blast
  have "length (fst (extractRequests sampleRuntime (cfg_maxBodyBytes sampleConfig) (st_ReqData pairState))) = 1"
    by code_simp
  then have len: "length waiting = 1" using r by (simp add: waiting_def pairState_def freshState_def)
  have "snd (snd (snd ?drain)) = 1" by code_simp
  then have n: "n = 1" using d by simp
  have "w_out (fst ?drain) = [SinkEmit ''/a>200'']" by code_simp
  then have out: "w_out w' = [SinkEmit ''/a>200'']" using d by simp
  have "st_PendingReqs state' = drop n waiting \<and> ws_responseParsed stats' = ws_responseParsed zeroStats + of_nat n"
    using drain_fifo [OF r waiting_def m d] by blast
  with n len have "st_PendingReqs state' = []" "ws_responseParsed stats' = 1"
    by (simp_all add: zeroStats_def)
  with d n out show ?thesis by simp
qed

end
