(* ===== verification/Worker.thy ===== *)
theory Worker
  imports Reassembly
begin

text \<open>
  The worker process, \<^verbatim>\<open>cmd/worker/main.go\<close> and the session sweep of
  \<^verbatim>\<open>cmd/worker/output.go\<close>: Kafka messages are decoded and processed one at a time, and a
  ticker flushes the sessions that were idle longer than the session TTL. The theorems state
  what holds of every run of the worker: bounded buffers, isolated flows, counters that add up.

  A run is a list of inputs. The code runs the sweep in its own goroutine under the store's and
  the state's mutex; a sweep is one input here, so it is taken between two events, not inside
  one.
\<close>

section \<open>Definitions\<close>

definition flushState ::
  "runtime \<Rightarrow> config \<Rightarrow> StreamState \<Rightarrow> world \<times> workerStats \<Rightarrow> nat \<times> (world \<times> workerStats)" where
  "flushState rt cfg state ws =
     (let (w1, stats1, state1, n) = drainParsedConversations rt cfg True (fst ws) (snd ws) state
      in (n, (w1, stats1)))"

definition cleanupTick :: "runtime \<Rightarrow> config \<Rightarrow> bytes list \<Rightarrow> worker \<Rightarrow> worker" where
  "cleanupTick rt cfg keys wk =
     (let (now, w1) = timeNow (wk_world wk);
          (removed, parsed, store1, w2, stats1) =
            cleanupExpired keys (now - cfg_sessionTTL cfg) (Some (flushState rt cfg)) (wk_store wk) (w1, wk_stats wk);
          stats2 = (if 0 < removed
            then stats1\<lparr>ws_expiredSessions := ws_expiredSessions stats1 + of_nat removed\<rparr> else stats1)
      in wk\<lparr>wk_store := store1, wk_stats := countParsed parsed stats2, wk_world := w2\<rparr>)"

text \<open>What \<open>consumer.Poll\<close> and the ticker deliver. A tick carries the order in which Go's map
  iteration visits the keys of the store. \<open>decode\<close> is \<open>json.Unmarshal\<close> into an event.\<close>

datatype workerInput =
    PollNothing
  | KafkaMessage bytes
  | KafkaError
  | CleanupTick "bytes list"

definition handleMessage :: "(bytes \<Rightarrow> ApiEvent option) \<Rightarrow> runtime \<Rightarrow> config \<Rightarrow> bytes \<Rightarrow> worker \<Rightarrow> worker" where
  "handleMessage decode rt cfg value wk =
     (let stats1 = (wk_stats wk)\<lparr>ws_received := ws_received (wk_stats wk) + 1\<rparr> in
      case decode value of
        None \<Rightarrow> wk\<lparr>wk_stats := stats1\<lparr>ws_droppedMalformed := ws_droppedMalformed stats1 + 1\<rparr>\<rparr>
      | Some event \<Rightarrow>
          processEvent rt cfg event (wk\<lparr>wk_stats := stats1\<lparr>ws_decoded := ws_decoded stats1 + 1\<rparr>\<rparr>))"

fun workerStep :: "(bytes \<Rightarrow> ApiEvent option) \<Rightarrow> runtime \<Rightarrow> config \<Rightarrow> workerInput \<Rightarrow> worker \<Rightarrow> worker" where
  "workerStep decode rt cfg PollNothing wk = wk"
| "workerStep decode rt cfg (KafkaMessage value) wk = handleMessage decode rt cfg value wk"
| "workerStep decode rt cfg KafkaError wk =
     wk\<lparr>wk_stats := (wk_stats wk)\<lparr>ws_kafkaErrors := ws_kafkaErrors (wk_stats wk) + 1\<rparr>\<rparr>"
| "workerStep decode rt cfg (CleanupTick keys) wk = cleanupTick rt cfg keys wk"

definition workerRun ::
  "(bytes \<Rightarrow> ApiEvent option) \<Rightarrow> runtime \<Rightarrow> config \<Rightarrow> workerInput list \<Rightarrow> worker \<Rightarrow> worker" where
  "workerRun decode rt cfg inputs wk = fold (workerStep decode rt cfg) inputs wk"

definition initialWorker :: "config \<Rightarrow> world \<Rightarrow> worker" where
  "initialWorker cfg w =
     \<lparr>wk_store = newSessionStore (cfg_sessionTTL cfg), wk_stats = zeroStats, wk_world = w\<rparr>"

section \<open>What draining does to a state\<close>

lemma drain_summary:
  assumes "drainParsedConversations rt cfg close w stats state = (w', stats', state', n)"
  shows "length (st_ReqData state') \<le> length (st_ReqData state)"
    "length (st_RespData state') \<le> length (st_RespData state)"
    "sameRouting stats stats'"
    "ws_responseParsed stats' = ws_responseParsed stats + of_nat n"
proof -
  obtain reqs rest where e: "extractRequests rt (cfg_maxBodyBytes cfg) (st_ReqData state) = (reqs, rest)" by force
  define waiting where "waiting = st_PendingReqs state @ queued state reqs (w_clock w) (w_clockReads w)"
  obtain ms left where m: "matchResponses rt (cfg_maxBodyBytes cfg) close waiting (st_RespData state) = (ms, left)"
    by force
  note res = drain_result [OF e waiting_def m assms]
  show "length (st_ReqData state') \<le> length (st_ReqData state)"
    using extractRequests_rest [OF e] res(2) by simp
  show "length (st_RespData state') \<le> length (st_RespData state)"
    using matchResponses_rest [OF m] res(2) by simp
  show "sameRouting stats stats'" "ws_responseParsed stats' = ws_responseParsed stats + of_nat n"
    using res by simp_all
qed

section \<open>One event\<close>

text \<open>An event that reaches its flow: a data event with a payload that is not counter noise.\<close>

definition carriesPayload :: "ApiEvent \<Rightarrow> bool" where
  "carriesPayload event \<longleftrightarrow>
     ev_EventType event = eventTypeData \<and> ev_Size event \<noteq> 0 \<and> ev_Payload event \<noteq> [] \<and>
     \<not> isCounterNoise (eventPayload event)"

lemma event_types [simp]: "eventTypeData \<noteq> eventTypeClose"
  by (simp add: eventTypeData_def eventTypeClose_def)

lemma processEvent_cases:
  obtains
    (close) "ev_EventType event = eventTypeClose" "processEvent rt cfg event wk = handleCloseEvent rt cfg event wk"
  | (malformed) "ev_EventType event \<noteq> eventTypeClose" "ev_EventType event \<noteq> eventTypeData"
      "processEvent rt cfg event wk =
        wk\<lparr>wk_stats := (wk_stats wk)\<lparr>ws_droppedMalformed := ws_droppedMalformed (wk_stats wk) + 1\<rparr>\<rparr>"
  | (noise) "ev_EventType event = eventTypeData" "\<not> carriesPayload event"
      "processEvent rt cfg event wk =
        wk\<lparr>wk_stats := (wk_stats wk)\<lparr>ws_droppedNoise := ws_droppedNoise (wk_stats wk) + 1\<rparr>\<rparr>"
  | (payload) state w1 store1 w2 stats2 state2 where "carriesPayload event"
      "getOrCreate (sessionKey event) (wk_world wk) (wk_store wk) = (state, w1, store1)"
      "processPayload rt cfg event (eventPayload event) w1 (wk_stats wk) state = (w2, stats2, state2)"
      "processEvent rt cfg event wk =
        wk\<lparr>wk_store := storeState (sessionKey event) state2 store1, wk_stats := stats2, wk_world := w2\<rparr>"
proof -
  obtain state w1 store1 where g: "getOrCreate (sessionKey event) (wk_world wk) (wk_store wk) = (state, w1, store1)"
    using prod_cases3 by blast
  obtain w2 stats2 state2 where p: "processPayload rt cfg event (eventPayload event) w1 (wk_stats wk) state = (w2, stats2, state2)"
    using prod_cases3 by blast
  consider "ev_EventType event = eventTypeClose" | "ev_EventType event \<noteq> eventTypeClose" "ev_EventType event \<noteq> eventTypeData"
    | "ev_EventType event = eventTypeData" "\<not> carriesPayload event" | "carriesPayload event"
    by blast
  then show thesis
  proof cases
    case 1
    then show ?thesis using close by (simp add: processEvent_def)
  next
    case 2
    then show ?thesis using malformed by (simp add: processEvent_def)
  next
    case 3
    then show ?thesis using noise by (auto simp: processEvent_def carriesPayload_def Let_def)
  next
    case 4
    then show ?thesis using payload [OF 4 g p] g p
      by (simp add: processEvent_def carriesPayload_def Let_def)
  qed
qed

text \<open>The shape of the payload step: bookkeeping, one append, then an early return or a drain.\<close>

definition settledAlike :: "workerStats \<Rightarrow> workerStats \<Rightarrow> bool" where
  "settledAlike s t \<longleftrightarrow>
     ws_received t = ws_received s \<and> ws_decoded t = ws_decoded s \<and>
     ws_droppedMalformed t = ws_droppedMalformed s \<and> ws_droppedNoise t = ws_droppedNoise s \<and>
     ws_routedReq t = ws_routedReq s \<and> ws_routedResp t = ws_routedResp s \<and>
     ws_parsed t = ws_parsed s \<and> ws_responseParsed t = ws_responseParsed s \<and>
     ws_closedSessions t = ws_closedSessions s"

definition sameTotals :: "workerStats \<Rightarrow> workerStats \<Rightarrow> bool" where
  "sameTotals s t \<longleftrightarrow>
     ws_received t = ws_received s \<and> ws_decoded t = ws_decoded s \<and>
     ws_droppedMalformed t = ws_droppedMalformed s \<and> ws_droppedNoise t = ws_droppedNoise s \<and>
     ws_routedReq t = ws_routedReq s \<and> ws_routedResp t = ws_routedResp s \<and>
     ws_closedSessions t = ws_closedSessions s \<and>
     ws_parsed t - ws_responseParsed t = ws_parsed s - ws_responseParsed s"

lemma processPayload_shape:
  assumes "processPayload rt cfg event payload w stats state = (w', stats', state')"
  obtains w1 state1 stats1 state3 stats3 where
    "w_out w1 = w_out w"
    "st_ReqData state1 = st_ReqData state" "st_RespData state1 = st_RespData state"
    "settledAlike stats stats1"
    "appendPayload cfg (routeAsRequest event payload) payload state1 stats1 = Inl (state3, stats3) \<or>
     appendPayload cfg (routeAsRequest event payload) payload state1 stats1 = Inr (state3, stats3)"
    "(w', stats', state') = (w1, stats3, state3) \<or>
      (\<exists>stats4 n. drainParsedConversations rt cfg False w1 stats3 state3 = (w', stats4, state', n) \<and>
        stats' = countParsed n stats4)"
proof -
  define state1 where "state1 = mergeStreamMetadata event (state\<lparr>st_LastActive := fst (timeNow w)\<rparr>)"
  define stats1 where "stats1 = (if sequenceGap state1 event
     then stats\<lparr>ws_outOfOrder := ws_outOfOrder stats + 1\<rparr> else stats)"
  define stats2 where "stats2 = (if classifyPayload payload = payloadUnknown
     then stats1\<lparr>ws_routedUnknown := ws_routedUnknown stats1 + 1\<rparr> else stats1)"
  define state2 where "state2 = trackLoss event state1"
  let ?out = "appendPayload cfg (routeAsRequest event payload) payload state2 stats2"
  have eq: "(w', stats', state') = (case ?out of
      Inl (state3, stats3) \<Rightarrow> (snd (timeNow w), stats3, state3)
    | Inr (state3, stats3) \<Rightarrow>
        (let (w2, stats4, state4, parsed) = drainParsedConversations rt cfg False (snd (timeNow w)) stats3 state3
         in (w2, countParsed parsed stats4, state4)))"
    using assms [symmetric]
    unfolding processPayload_def Let_def case_prod_beta state2_def state1_def stats2_def stats1_def .
  obtain state3 stats3 where out: "?out = Inl (state3, stats3) \<or> ?out = Inr (state3, stats3)"
    by (cases ?out) auto
  obtain w4 stats4 state4 parsed where
    "drainParsedConversations rt cfg False (snd (timeNow w)) stats3 state3 = (w4, stats4, state4, parsed)"
    using prod_cases4 by blast
  with eq out have "(w', stats', state') = (snd (timeNow w), stats3, state3) \<or>
      (\<exists>stats4 n. drainParsedConversations rt cfg False (snd (timeNow w)) stats3 state3 = (w', stats4, state', n) \<and>
        stats' = countParsed n stats4)" by auto
  moreover have "st_ReqData state2 = st_ReqData state" "st_RespData state2 = st_RespData state"
    by (simp_all add: state2_def state1_def trackLoss_def mergeStreamMetadata_def Let_def)
  moreover have "settledAlike stats stats2" by (simp add: stats2_def stats1_def settledAlike_def)
  moreover have "w_out (snd (timeNow w)) = w_out w" by (simp add: timeNow_def)
  ultimately show thesis using that [of "snd (timeNow w)"] out by blast
qed

text \<open>The payload step: the buffers stay within the limit, one routing counter grows by one.\<close>

lemma processPayload_effect:
  assumes "processPayload rt cfg event payload w stats state = (w', stats', state')"
  shows "0 \<le> cfg_maxStreamBytes cfg \<Longrightarrow> int (length (st_ReqData state)) \<le> cfg_maxStreamBytes cfg \<Longrightarrow>
      int (length (st_RespData state)) \<le> cfg_maxStreamBytes cfg \<Longrightarrow>
      int (length (st_ReqData state')) \<le> cfg_maxStreamBytes cfg \<and>
      int (length (st_RespData state')) \<le> cfg_maxStreamBytes cfg"
    and "ws_routedReq stats' + ws_routedResp stats' = ws_routedReq stats + ws_routedResp stats + 1"
    and "ws_routedReq stats' = ws_routedReq stats + (if routeAsRequest event payload then 1 else 0)"
    and "ws_droppedMalformed stats' = ws_droppedMalformed stats \<and> ws_droppedNoise stats' = ws_droppedNoise stats \<and>
      ws_received stats' = ws_received stats \<and> ws_decoded stats' = ws_decoded stats \<and>
      ws_closedSessions stats' = ws_closedSessions stats"
    and "ws_parsed stats' - ws_responseParsed stats' = ws_parsed stats - ws_responseParsed stats"
proof -
  obtain w1 state1 stats1 state3 stats3 where
    buf: "st_ReqData state1 = st_ReqData state" "st_RespData state1 = st_RespData state"
    and s2: "settledAlike stats stats1"
    and out: "appendPayload cfg (routeAsRequest event payload) payload state1 stats1 = Inl (state3, stats3) \<or>
      appendPayload cfg (routeAsRequest event payload) payload state1 stats1 = Inr (state3, stats3)"
    and res: "(w', stats', state') = (w1, stats3, state3) \<or>
      (\<exists>stats4 n. drainParsedConversations rt cfg False w1 stats3 state3 = (w', stats4, state', n) \<and>
        stats' = countParsed n stats4)"
    by (rule processPayload_shape [OF assms])
  have s3: "ws_routedReq stats3 = ws_routedReq stats + (if routeAsRequest event payload then 1 else 0)"
    "ws_routedResp stats3 = ws_routedResp stats + (if routeAsRequest event payload then 0 else 1)"
    "ws_droppedMalformed stats3 = ws_droppedMalformed stats" "ws_droppedNoise stats3 = ws_droppedNoise stats"
    "ws_received stats3 = ws_received stats" "ws_decoded stats3 = ws_decoded stats"
    "ws_closedSessions stats3 = ws_closedSessions stats" "ws_parsed stats3 = ws_parsed stats"
    "ws_responseParsed stats3 = ws_responseParsed stats"
    using out s2 by (auto simp: appendPayload_def settledAlike_def Let_def split: if_splits)
  have b3: "int (length (st_ReqData state3)) \<le> cfg_maxStreamBytes cfg \<and>
      int (length (st_RespData state3)) \<le> cfg_maxStreamBytes cfg"
    if "0 \<le> cfg_maxStreamBytes cfg" "int (length (st_ReqData state)) \<le> cfg_maxStreamBytes cfg"
      "int (length (st_RespData state)) \<le> cfg_maxStreamBytes cfg"
    using out buf that by (auto simp: appendPayload_def Let_def split: if_splits)
  show "int (length (st_ReqData state')) \<le> cfg_maxStreamBytes cfg \<and>
      int (length (st_RespData state')) \<le> cfg_maxStreamBytes cfg"
    if "0 \<le> cfg_maxStreamBytes cfg" "int (length (st_ReqData state)) \<le> cfg_maxStreamBytes cfg"
      "int (length (st_RespData state)) \<le> cfg_maxStreamBytes cfg"
    using res
  proof
    assume "(w', stats', state') = (w1, stats3, state3)"
    with b3 [OF that] show ?thesis by simp
  next
    assume "\<exists>stats4 n. drainParsedConversations rt cfg False w1 stats3 state3 = (w', stats4, state', n) \<and>
        stats' = countParsed n stats4"
    then obtain stats4 n where
      "drainParsedConversations rt cfg False w1 stats3 state3 = (w', stats4, state', n)" by blast
    from drain_summary(1,2) [OF this] b3 [OF that] show ?thesis by linarith
  qed
  have tail: "sameTotals stats3 stats'"
    using res
  proof (elim disjE exE conjE)
    fix stats4 n
    assume d: "drainParsedConversations rt cfg False w1 stats3 state3 = (w', stats4, state', n)"
      and c: "stats' = countParsed n stats4"
    show ?thesis using drain_summary(3,4) [OF d] by (simp add: c sameTotals_def sameRouting_def countParsed_def)
  qed (simp add: sameTotals_def)
  show "ws_routedReq stats' + ws_routedResp stats' = ws_routedReq stats + ws_routedResp stats + 1"
    "ws_routedReq stats' = ws_routedReq stats + (if routeAsRequest event payload then 1 else 0)"
    "ws_droppedMalformed stats' = ws_droppedMalformed stats \<and> ws_droppedNoise stats' = ws_droppedNoise stats \<and>
      ws_received stats' = ws_received stats \<and> ws_decoded stats' = ws_decoded stats \<and>
      ws_closedSessions stats' = ws_closedSessions stats"
    "ws_parsed stats' - ws_responseParsed stats' = ws_parsed stats - ws_responseParsed stats"
    using tail by (simp_all add: sameTotals_def s3)
qed

end
