(* ===== verification/WorkerRuns.thy ===== *)
theory WorkerRuns
  imports Worker
begin

text \<open>
  What holds of every run of the worker: the buffers are bounded, the counters add up and
  every matched conversation reaches the sink once.
\<close>

section \<open>The expiry of sessions\<close>

lemma flushState_effect:
  assumes "flushState rt cfg state (w, stats) = (n, (w', stats'))"
  shows "sameRouting stats stats' \<and> ws_responseParsed stats' = ws_responseParsed stats + of_nat n"
  using assms drain_summary(3,4) [of rt cfg True w stats state]
  by (auto simp: flushState_def split: prod.splits)

lemma expireAll_flush:
  "expireAll (flushState rt cfg) states (w, stats) = (n, (w', stats')) \<Longrightarrow>
     sameRouting stats stats' \<and> ws_responseParsed stats' = ws_responseParsed stats + of_nat n"
proof (induction states arbitrary: w stats n)
  case (Cons state states)
  obtain k w1 stats1 where f: "flushState rt cfg state (w, stats) = (k, (w1, stats1))"
    using prod_cases3 by blast
  obtain m w2 stats2 where e: "expireAll (flushState rt cfg) states (w1, stats1) = (m, (w2, stats2))"
    using prod_cases3 by blast
  have "n = k + m" "w' = w2" "stats' = stats2" using Cons.prems f e by auto
  moreover have "sameRouting stats1 stats2 \<and> ws_responseParsed stats2 = ws_responseParsed stats1 + of_nat m"
    using Cons.IH [of w1 stats1 m] e calculation by simp
  ultimately show ?case using flushState_effect [OF f] sameRouting_trans [of stats stats1 stats2]
    by (simp add: add.assoc)
qed simp

lemma cleanupTick_effect:
  "sameRouting (wk_stats wk\<lparr>ws_expiredSessions := 0, ws_parsed := 0\<rparr>)
     (wk_stats (cleanupTick rt cfg keys wk)\<lparr>ws_expiredSessions := 0, ws_parsed := 0\<rparr>)"
  "ws_parsed (wk_stats (cleanupTick rt cfg keys wk)) - ws_responseParsed (wk_stats (cleanupTick rt cfg keys wk)) =
     ws_parsed (wk_stats wk) - ws_responseParsed (wk_stats wk)"
  "wk_store (cleanupTick rt cfg keys wk) =
     snd (sweepExpired keys (fst (timeNow (wk_world wk)) - cfg_sessionTTL cfg) (wk_store wk))"
proof -
  obtain now w1 where t: "timeNow (wk_world wk) = (now, w1)" by force
  obtain expired store1 where sw: "sweepExpired keys (now - cfg_sessionTTL cfg) (wk_store wk) = (expired, store1)"
    by force
  obtain n w2 stats1 where e: "expireAll (flushState rt cfg) expired (w1, wk_stats wk) = (n, (w2, stats1))"
    using prod_cases3 by blast
  note [simp] = cleanupTick_def cleanupExpired_def t sw e sameRouting_def countParsed_def
  show "sameRouting (wk_stats wk\<lparr>ws_expiredSessions := 0, ws_parsed := 0\<rparr>)
     (wk_stats (cleanupTick rt cfg keys wk)\<lparr>ws_expiredSessions := 0, ws_parsed := 0\<rparr>)"
    using expireAll_flush [OF e] by simp
  show "ws_parsed (wk_stats (cleanupTick rt cfg keys wk)) - ws_responseParsed (wk_stats (cleanupTick rt cfg keys wk)) =
     ws_parsed (wk_stats wk) - ws_responseParsed (wk_stats wk)"
    using expireAll_flush [OF e] by simp
  show "wk_store (cleanupTick rt cfg keys wk) =
     snd (sweepExpired keys (fst (timeNow (wk_world wk)) - cfg_sessionTTL cfg) (wk_store wk))"
    by (simp add: Let_def)
qed

section \<open>Bounded buffers\<close>

definition boundedState :: "config \<Rightarrow> StreamState \<Rightarrow> bool" where
  "boundedState cfg state \<longleftrightarrow>
     int (length (st_ReqData state)) \<le> cfg_maxStreamBytes cfg \<and>
     int (length (st_RespData state)) \<le> cfg_maxStreamBytes cfg"

definition boundedWorker :: "config \<Rightarrow> worker \<Rightarrow> bool" where
  "boundedWorker cfg wk \<longleftrightarrow> 0 \<le> cfg_maxStreamBytes cfg \<and>
     (\<forall>key state. get_session key (wk_store wk) = Some state \<longrightarrow> boundedState cfg state)"

lemma boundedState_fresh: "0 \<le> cfg_maxStreamBytes cfg \<Longrightarrow> boundedState cfg (freshState now)"
  by (simp add: boundedState_def freshState_def)

lemma sweepExpired_mono:
  "get_session k (snd (sweepExpired keys cutoff s)) = Some st \<Longrightarrow> get_session k s = Some st"
  by (induction keys cutoff s rule: sweepExpired.induct)
    (auto split: option.splits if_splits prod.splits)

lemma handleCloseEvent_lookup:
  "get_session k (wk_store (handleCloseEvent rt cfg event wk)) =
     (if k = sessionKey event then None else get_session k (wk_store wk))"
proof (cases "get_session (sessionKey event) (wk_store wk)")
  case (Some state)
  obtain w1 stats1 state1 n where
    "drainParsedConversations rt cfg True (wk_world wk) (wk_stats wk) state = (w1, stats1, state1, n)"
    using prod_cases4 by blast
  with Some show ?thesis by (simp add: handleCloseEvent_def Let_def)
qed (auto simp: handleCloseEvent_def)

lemma processEvent_bounded:
  assumes "boundedWorker cfg wk"
  shows "boundedWorker cfg (processEvent rt cfg event wk)"
proof (cases rule: processEvent_cases [of event rt cfg wk])
  case close
  then show ?thesis using assms by (simp add: boundedWorker_def handleCloseEvent_lookup)
next
  case (payload state w1 store1 w2 stats2 state2)
  have "boundedState cfg state"
    using getOrCreate_state [OF payload(2)] assms boundedState_fresh [of cfg]
    by (cases "get_session (sessionKey event) (wk_store wk)") (simp_all add: boundedWorker_def)
  then have "boundedState cfg state2"
    using processPayload_effect(1) [OF payload(3)] assms by (simp add: boundedState_def boundedWorker_def)
  moreover have "get_session k (wk_store (processEvent rt cfg event wk)) =
      (if k = sessionKey event then Some state2 else get_session k (wk_store wk))" for k
    using payload(4) getOrCreate_lookup [OF payload(2)] by simp
  ultimately show ?thesis using assms by (simp add: boundedWorker_def)
qed (use assms in \<open>simp_all add: boundedWorker_def\<close>)

lemma cleanupTick_bounded: "boundedWorker cfg wk \<Longrightarrow> boundedWorker cfg (cleanupTick rt cfg keys wk)"
  unfolding boundedWorker_def cleanupTick_effect(3) by (metis sweepExpired_mono)

lemma boundedWorker_stats [simp]: "boundedWorker cfg (wk\<lparr>wk_stats := s\<rparr>) = boundedWorker cfg wk"
  by (simp add: boundedWorker_def)

interpretation bounded: step_invariant "workerStep decode rt cfg" "boundedWorker cfg"
  for decode :: "bytes \<Rightarrow> ApiEvent option" and rt cfg
proof
  fix wk i assume "boundedWorker cfg wk"
  then show "boundedWorker cfg (workerStep decode rt cfg i wk)"
    by (cases i) (auto simp: handleMessage_def Let_def processEvent_bounded cleanupTick_bounded split: option.splits)
qed

text \<open>C6. However many events arrive, and whatever they carry, no session of the worker ever
  buffers more than \<open>maxStreamBytes\<close> bytes of requests or of responses.\<close>

theorem run_buffers_bounded:
  assumes "0 \<le> cfg_maxStreamBytes cfg"
    and "get_session key (wk_store (workerRun decode rt cfg inputs (initialWorker cfg w))) = Some state"
  shows "int (length (st_ReqData state)) \<le> cfg_maxStreamBytes cfg \<and>
    int (length (st_RespData state)) \<le> cfg_maxStreamBytes cfg"
proof -
  have "boundedWorker cfg (initialWorker cfg w)"
    using assms(1) by (simp add: boundedWorker_def initialWorker_def newSessionStore_def get_session_def)
  from bounded.run_keeps [OF this, of decode rt inputs] assms(2) show ?thesis
    unfolding workerRun_def boundedWorker_def boundedState_def by blast
qed

theorem run_buffers_bounded_witness:
  "\<exists>state. get_session ''pidfd:7-3-0'' (wk_store (workerRun sampleDecode sampleRuntime sampleConfig
       [KafkaMessage ''partial''] (initialWorker sampleConfig sampleWorld))) = Some state \<and>
     int (length (st_ReqData state)) \<le> 64"
proof -
  let ?key = "''pidfd:7-3-0''"
  let ?wk = "workerRun sampleDecode sampleRuntime sampleConfig [KafkaMessage ''partial'']
    (initialWorker sampleConfig sampleWorld)"
  have "get_session ?key (wk_store ?wk) \<noteq> None" by code_simp
  then obtain state where s: "get_session ?key (wk_store ?wk) = Some state" by blast
  have "int (length (st_ReqData state)) \<le> cfg_maxStreamBytes sampleConfig"
    using run_buffers_bounded [of sampleConfig ?key sampleDecode sampleRuntime _ sampleWorld, OF _ s]
    by (simp add: sampleConfig_def)
  with s show ?thesis by (simp add: sampleConfig_def)
qed

section \<open>The counters add up\<close>

definition closesFlow :: "(bytes \<Rightarrow> ApiEvent option) \<Rightarrow> workerInput \<Rightarrow> bool" where
  "closesFlow decode i =
     (case i of
        KafkaMessage value \<Rightarrow>
          (case decode value of Some event \<Rightarrow> ev_EventType event = eventTypeClose | None \<Rightarrow> False)
      | _ \<Rightarrow> False)"

definition isMessage :: "workerInput \<Rightarrow> bool" where
  "isMessage i = (case i of KafkaMessage value \<Rightarrow> True | _ \<Rightarrow> False)"

text \<open>Messages that were dropped or routed to a buffer.\<close>

definition settled :: "workerStats \<Rightarrow> u64" where
  "settled s = ws_droppedMalformed s + ws_droppedNoise s + ws_routedReq s + ws_routedResp s"

lemma settled_updates [simp]:
  "settled (s\<lparr>ws_received := x\<rparr>) = settled s" "settled (s\<lparr>ws_decoded := x\<rparr>) = settled s"
  "settled (s\<lparr>ws_kafkaErrors := x\<rparr>) = settled s"
  "settled (s\<lparr>ws_droppedMalformed := ws_droppedMalformed s + 1\<rparr>) = settled s + 1"
  by (simp_all add: settled_def)

lemma handleCloseEvent_effect:
  assumes "wk' = handleCloseEvent rt cfg event wk"
  shows "settled (wk_stats wk') = settled (wk_stats wk)"
    "ws_received (wk_stats wk') = ws_received (wk_stats wk)"
    "ws_parsed (wk_stats wk') - ws_responseParsed (wk_stats wk') =
      ws_parsed (wk_stats wk) - ws_responseParsed (wk_stats wk)"
proof -
  have "settled (wk_stats wk') = settled (wk_stats wk) \<and> ws_received (wk_stats wk') = ws_received (wk_stats wk) \<and>
    ws_parsed (wk_stats wk') - ws_responseParsed (wk_stats wk') =
      ws_parsed (wk_stats wk) - ws_responseParsed (wk_stats wk)"
  proof (cases "get_session (sessionKey event) (wk_store wk)")
    case (Some state)
    obtain w1 stats1 state1 n where d:
      "drainParsedConversations rt cfg True (wk_world wk) (wk_stats wk) state = (w1, stats1, state1, n)"
      using prod_cases4 by blast
    with Some show ?thesis using assms drain_summary(3,4) [OF d]
      by (simp add: handleCloseEvent_def Let_def settled_def sameRouting_def countParsed_def)
  qed (simp add: handleCloseEvent_def assms)
  then show "settled (wk_stats wk') = settled (wk_stats wk)"
    "ws_received (wk_stats wk') = ws_received (wk_stats wk)"
    "ws_parsed (wk_stats wk') - ws_responseParsed (wk_stats wk') =
      ws_parsed (wk_stats wk) - ws_responseParsed (wk_stats wk)" by blast+
qed

lemma processEvent_settled:
  "settled (wk_stats (processEvent rt cfg event wk)) =
     settled (wk_stats wk) + (if ev_EventType event = eventTypeClose then 0 else 1)"
  "ws_received (wk_stats (processEvent rt cfg event wk)) = ws_received (wk_stats wk)"
  "ws_parsed (wk_stats (processEvent rt cfg event wk)) - ws_responseParsed (wk_stats (processEvent rt cfg event wk)) =
     ws_parsed (wk_stats wk) - ws_responseParsed (wk_stats wk)"
proof -
  have "settled (wk_stats (processEvent rt cfg event wk)) =
      settled (wk_stats wk) + (if ev_EventType event = eventTypeClose then 0 else 1) \<and>
    ws_received (wk_stats (processEvent rt cfg event wk)) = ws_received (wk_stats wk) \<and>
    ws_parsed (wk_stats (processEvent rt cfg event wk)) - ws_responseParsed (wk_stats (processEvent rt cfg event wk)) =
     ws_parsed (wk_stats wk) - ws_responseParsed (wk_stats wk)"
  proof (cases rule: processEvent_cases [of event rt cfg wk])
    case close
    then show ?thesis using handleCloseEvent_effect [OF refl] by simp
  next
    case (payload state w1 store1 w2 stats2 state2)
    have "ev_EventType event = eventTypeData" using payload(1) by (simp add: carriesPayload_def)
    moreover have "settled stats2 = settled (wk_stats wk) + 1"
      using processPayload_effect(2,4) [OF payload(3)] by (simp add: settled_def)
    ultimately show ?thesis using payload(4) processPayload_effect(4,5) [OF payload(3)] by simp
  qed (simp_all add: settled_def)
  then show "settled (wk_stats (processEvent rt cfg event wk)) =
      settled (wk_stats wk) + (if ev_EventType event = eventTypeClose then 0 else 1)"
    "ws_received (wk_stats (processEvent rt cfg event wk)) = ws_received (wk_stats wk)"
    "ws_parsed (wk_stats (processEvent rt cfg event wk)) - ws_responseParsed (wk_stats (processEvent rt cfg event wk)) =
     ws_parsed (wk_stats wk) - ws_responseParsed (wk_stats wk)" by blast+
qed

lemma cleanupTick_settled:
  "settled (wk_stats (cleanupTick rt cfg keys wk)) = settled (wk_stats wk)"
  "ws_received (wk_stats (cleanupTick rt cfg keys wk)) = ws_received (wk_stats wk)"
  using cleanupTick_effect(1) [of wk rt cfg keys] by (simp_all add: settled_def sameRouting_def)

interpretation settling: step_counter "workerStep decode rt cfg" "\<lambda>wk. settled (wk_stats wk)"
    "\<lambda>i. of_bool (isMessage i \<and> \<not> closesFlow decode i)"
  for decode :: "bytes \<Rightarrow> ApiEvent option" and rt cfg
proof
  fix i wk
  show "settled (wk_stats (workerStep decode rt cfg i wk)) =
      settled (wk_stats wk) + of_bool (isMessage i \<and> \<not> closesFlow decode i)"
  proof (cases i)
    case (KafkaMessage v)
    then show ?thesis
      by (cases "decode v")
        (simp_all add: handleMessage_def Let_def processEvent_settled isMessage_def closesFlow_def
          del: settled_updates(4), simp add: settled_def)
  qed (simp_all add: isMessage_def cleanupTick_settled)
qed

interpretation receiving: step_counter "workerStep decode rt cfg" "\<lambda>wk. ws_received (wk_stats wk)"
    "\<lambda>i. of_bool (isMessage i)"
  for decode :: "bytes \<Rightarrow> ApiEvent option" and rt cfg
proof
  fix i wk
  show "ws_received (wk_stats (workerStep decode rt cfg i wk)) = ws_received (wk_stats wk) + of_bool (isMessage i)"
  proof (cases i)
    case (KafkaMessage v)
    then show ?thesis
      by (cases "decode v") (simp_all add: handleMessage_def Let_def processEvent_settled isMessage_def)
  qed (simp_all add: isMessage_def cleanupTick_settled)
qed

interpretation pairing: step_counter "workerStep decode rt cfg"
    "\<lambda>wk. ws_parsed (wk_stats wk) - ws_responseParsed (wk_stats wk)" "\<lambda>i. 0"
  for decode :: "bytes \<Rightarrow> ApiEvent option" and rt cfg
proof
  fix i wk
  show "ws_parsed (wk_stats (workerStep decode rt cfg i wk)) - ws_responseParsed (wk_stats (workerStep decode rt cfg i wk)) =
     ws_parsed (wk_stats wk) - ws_responseParsed (wk_stats wk) + 0"
  proof (cases i)
    case (KafkaMessage v)
    then show ?thesis
      by (cases "decode v") (simp_all add: handleMessage_def Let_def processEvent_settled)
  qed (simp_all add: cleanupTick_effect(2))
qed

lemma sum_list_of_bool: "sum_list (map (\<lambda>x. of_bool (P x)) xs) = of_nat (length (filter P xs))"
  by (induction xs) auto


section \<open>Every match reaches the sink\<close>

text \<open>The imbalance between what was handed to the sink and what was matched.\<close>

definition sinkBalance :: "world \<Rightarrow> workerStats \<Rightarrow> u64" where
  "sinkBalance w stats = of_nat (length (w_out w)) - ws_responseParsed stats"

definition marshals :: "runtime \<Rightarrow> bool" where
  "marshals rt \<longleftrightarrow> (\<forall>p. lib_marshal rt p \<noteq> None)"

lemma emit_sink_once:
  assumes "marshals rt" "cfg_sink cfg"
  shows "\<exists>out. w_out (emitConversation rt cfg pr resp body w) = w_out w @ [SinkEmit out]"
  using emitConversation_out [of rt cfg pr resp body w] assms
  by (auto simp: marshals_def Let_def split: option.splits)

lemma emitMatched_length:
  assumes "marshals rt" "cfg_sink cfg"
  shows "length (w_out (fold (emitMatched rt cfg loss) ms w)) = length (w_out w) + length ms"
proof (induction ms arbitrary: w)
  case (Cons m ms)
  obtain p resp body where m: "m = (p, resp, body)" by (cases m) auto
  have "length (w_out (emitMatched rt cfg loss m w)) = Suc (length (w_out w))"
    using emit_sink_once [OF assms] unfolding m emitMatched_def by (metis case_prod_conv length_append_singleton)
  with Cons show ?case by simp
qed simp

lemma sinkBalance_stats [simp]:
  "sinkBalance w (s\<lparr>ws_received := x\<rparr>) = sinkBalance w s" "sinkBalance w (s\<lparr>ws_decoded := x\<rparr>) = sinkBalance w s"
  "sinkBalance w (s\<lparr>ws_kafkaErrors := x\<rparr>) = sinkBalance w s"
  "sinkBalance w (s\<lparr>ws_droppedMalformed := x\<rparr>) = sinkBalance w s"
  "sinkBalance w (s\<lparr>ws_droppedNoise := x\<rparr>) = sinkBalance w s"
  "sinkBalance w (s\<lparr>ws_closedSessions := x\<rparr>) = sinkBalance w s"
  "sinkBalance w (s\<lparr>ws_expiredSessions := x\<rparr>) = sinkBalance w s"
  "sinkBalance w (countParsed n s) = sinkBalance w s"
  by (simp_all add: sinkBalance_def countParsed_def)

lemma drain_balance:
  assumes "marshals rt" "cfg_sink cfg"
    and "drainParsedConversations rt cfg close w stats state = (w', stats', state', n)"
  shows "sinkBalance w' stats' = sinkBalance w stats"
proof -
  obtain reqs rest where e: "extractRequests rt (cfg_maxBodyBytes cfg) (st_ReqData state) = (reqs, rest)" by force
  define waiting where "waiting = st_PendingReqs state @ queued state reqs (w_clock w) (w_clockReads w)"
  obtain ms left where m: "matchResponses rt (cfg_maxBodyBytes cfg) close waiting (st_RespData state) = (ms, left)"
    by force
  note res = drain_result [OF e waiting_def m assms(3)]
  with emitMatched_length [OF assms(1,2), of "st_Loss state" ms "w\<lparr>w_clockReads := w_clockReads w + length reqs\<rparr>"]
  show ?thesis by (simp add: sinkBalance_def)
qed

lemma processPayload_balance:
  assumes "marshals rt" "cfg_sink cfg"
    and "processPayload rt cfg event payload w stats state = (w', stats', state')"
  shows "sinkBalance w' stats' = sinkBalance w stats"
proof -
  obtain w1 state1 stats1 state3 stats3 where w1: "w_out w1 = w_out w"
    and s1: "settledAlike stats stats1"
    and out: "appendPayload cfg (routeAsRequest event payload) payload state1 stats1 = Inl (state3, stats3) \<or>
      appendPayload cfg (routeAsRequest event payload) payload state1 stats1 = Inr (state3, stats3)"
    and res: "(w', stats', state') = (w1, stats3, state3) \<or>
      (\<exists>stats4 n. drainParsedConversations rt cfg False w1 stats3 state3 = (w', stats4, state', n) \<and>
        stats' = countParsed n stats4)"
    by (rule processPayload_shape [OF assms(3)])
  have "ws_responseParsed stats3 = ws_responseParsed stats"
    using out s1 by (auto simp: appendPayload_def settledAlike_def Let_def split: if_splits)
  then have same: "sinkBalance w1 stats3 = sinkBalance w stats" by (simp add: sinkBalance_def w1)
  from res show ?thesis
  proof (elim disjE exE conjE)
    fix stats4 n
    assume d: "drainParsedConversations rt cfg False w1 stats3 state3 = (w', stats4, state', n)"
      and "stats' = countParsed n stats4"
    with drain_balance [OF assms(1,2) d] same show ?thesis by simp
  qed (use same in simp)
qed

definition workerBalance :: "worker \<Rightarrow> u64" where
  "workerBalance wk = sinkBalance (wk_world wk) (wk_stats wk)"

lemma processEvent_balance:
  assumes "marshals rt" "cfg_sink cfg"
  shows "workerBalance (processEvent rt cfg event wk) = workerBalance wk"
proof (cases rule: processEvent_cases [of event rt cfg wk])
  case close
  show ?thesis
  proof (cases "get_session (sessionKey event) (wk_store wk)")
    case (Some state)
    obtain w1 stats1 state1 n where d:
      "drainParsedConversations rt cfg True (wk_world wk) (wk_stats wk) state = (w1, stats1, state1, n)"
      using prod_cases4 by blast
    with Some close drain_balance [OF assms d] show ?thesis
      by (simp add: handleCloseEvent_def Let_def workerBalance_def)
  qed (simp add: close handleCloseEvent_def)
next
  case (payload state w1 store1 w2 stats2 state2)
  have "sinkBalance w2 stats2 = sinkBalance w1 (wk_stats wk)"
    by (rule processPayload_balance [OF assms payload(3)])
  moreover have "w_out w1 = w_out (wk_world wk)" using getOrCreate_frame [OF payload(2)] by simp
  ultimately show ?thesis using payload(4) by (simp add: workerBalance_def sinkBalance_def)
qed (simp_all add: workerBalance_def)

lemma expireAll_balance:
  assumes "marshals rt" "cfg_sink cfg"
  shows "expireAll (flushState rt cfg) states (w, stats) = (n, (w', stats')) \<Longrightarrow>
     sinkBalance w' stats' = sinkBalance w stats"
proof (induction states arbitrary: w stats n)
  case (Cons state states)
  obtain w1 stats1 state1 k where d: "drainParsedConversations rt cfg True w stats state = (w1, stats1, state1, k)"
    using prod_cases4 by blast
  then have "flushState rt cfg state (w, stats) = (k, (w1, stats1))" by (simp add: flushState_def)
  then obtain m where "expireAll (flushState rt cfg) states (w1, stats1) = (m, (w', stats'))"
    using Cons.prems by (auto split: prod.splits)
  from Cons.IH [OF this] drain_balance [OF assms d] show ?case by simp
qed simp

lemma cleanupTick_balance:
  assumes "marshals rt" "cfg_sink cfg"
  shows "workerBalance (cleanupTick rt cfg keys wk) = workerBalance wk"
proof -
  obtain now w1 where t: "timeNow (wk_world wk) = (now, w1)" by force
  obtain expired store1 where sw: "sweepExpired keys (now - cfg_sessionTTL cfg) (wk_store wk) = (expired, store1)"
    by force
  obtain n w2 stats1 where e: "expireAll (flushState rt cfg) expired (w1, wk_stats wk) = (n, (w2, stats1))"
    using prod_cases3 by blast
  have "w_out w1 = w_out (wk_world wk)" using t by (auto simp: timeNow_def)
  with expireAll_balance [OF assms e] show ?thesis
    by (simp add: cleanupTick_def cleanupExpired_def t sw e workerBalance_def Let_def)
      (simp add: sinkBalance_def)
qed

lemma run_balance:
  assumes "marshals rt" "cfg_sink cfg"
  shows "workerBalance (workerRun decode rt cfg inputs wk) = workerBalance wk"
proof -
  have step: "workerBalance (workerStep decode rt cfg i wk) = workerBalance wk" for i wk
    using processEvent_balance [OF assms] cleanupTick_balance [OF assms]
    by (cases i) (simp_all add: handleMessage_def Let_def workerBalance_def split: option.splits)
  have "workerBalance (fold (workerStep decode rt cfg) inputs wk) = workerBalance wk"
    by (induction inputs arbitrary: wk) (simp_all add: step)
  then show ?thesis by (simp add: workerRun_def)
qed

text \<open>C4. When a sink is configured and conversations can be marshalled, every response that was
  matched in any run, on the data path, at a close or at the expiry of a session, was handed to
  the sink exactly once: the sink calls are as many as the parsed responses.\<close>

theorem run_delivers_matches:
  assumes "marshals rt" "cfg_sink cfg" "w_out w = []"
  shows "of_nat (length (w_out (wk_world (workerRun decode rt cfg inputs (initialWorker cfg w))))) =
    ws_responseParsed (wk_stats (workerRun decode rt cfg inputs (initialWorker cfg w)))"
  using run_balance [OF assms(1,2), of decode inputs "initialWorker cfg w"] assms(3)
  by (simp add: workerBalance_def sinkBalance_def initialWorker_def zeroStats_def)

theorem run_delivers_matches_witness:
  "length (w_out (wk_world (workerRun sampleDecode sampleRuntime sampleConfig
     [KafkaMessage ''request'', KafkaMessage ''other'', KafkaMessage ''response'']
     (initialWorker sampleConfig sampleWorld)))) = 1 \<and>
   ws_responseParsed (wk_stats (workerRun sampleDecode sampleRuntime sampleConfig
     [KafkaMessage ''request'', KafkaMessage ''other'', KafkaMessage ''response'']
     (initialWorker sampleConfig sampleWorld))) = 1"
proof -
  let ?wk = "workerRun sampleDecode sampleRuntime sampleConfig
     [KafkaMessage ''request'', KafkaMessage ''other'', KafkaMessage ''response'']
     (initialWorker sampleConfig sampleWorld)"
  have "marshals sampleRuntime"
    by (simp add: marshals_def sampleRuntime_def sampleMarshal_def split: payload.splits)
  moreover have "cfg_sink sampleConfig" "w_out sampleWorld = []"
    by (simp_all add: sampleConfig_def sampleWorld_def)
  ultimately have "of_nat (length (w_out (wk_world ?wk))) = ws_responseParsed (wk_stats ?wk)"
    by (rule run_delivers_matches)
  moreover have "length (w_out (wk_world ?wk)) = 1" by code_simp
  ultimately show ?thesis by simp
qed

end
