(* ===== verification/WorkerFlows.thy ===== *)
theory WorkerFlows
  imports WorkerRuns
begin

text \<open>
  The flows of the worker, one by one: a flow is not affected by the events of the others, a
  close event flushes and removes its session, a sweep removes exactly the idle ones, and
  distinct flows have distinct keys.
\<close>

section \<open>Isolation\<close>

text \<open>A stream state without its clock readings.\<close>

definition untimed :: "parsedRequest \<Rightarrow> parsedRequest" where
  "untimed p = p\<lparr>pr_capturedAt := 0\<rparr>"

definition timeless :: "StreamState \<Rightarrow> StreamState" where
  "timeless st = st\<lparr>st_LastActive := 0, st_PendingReqs := map untimed (st_PendingReqs st)\<rparr>"

lemma timeless_eq:
  "timeless s = timeless t \<longleftrightarrow>
     st_ReqData s = st_ReqData t \<and> st_RespData s = st_RespData t \<and>
     map untimed (st_PendingReqs s) = map untimed (st_PendingReqs t) \<and>
     st_LastSeq s = st_LastSeq t \<and> st_HasLastSeq s = st_HasLastSeq t \<and>
     st_CaptureSource s = st_CaptureSource t \<and> st_CaptureMode s = st_CaptureMode t \<and>
     st_Connection s = st_Connection t \<and> st_Process s = st_Process t \<and>
     st_Container s = st_Container t \<and> st_Loss s = st_Loss t"
proof
  assume eq: "timeless s = timeless t"
  from arg_cong [OF eq, of st_ReqData] arg_cong [OF eq, of st_RespData] arg_cong [OF eq, of st_PendingReqs]
    arg_cong [OF eq, of st_LastSeq] arg_cong [OF eq, of st_HasLastSeq] arg_cong [OF eq, of st_CaptureSource]
    arg_cong [OF eq, of st_CaptureMode] arg_cong [OF eq, of st_Connection] arg_cong [OF eq, of st_Process]
    arg_cong [OF eq, of st_Container] arg_cong [OF eq, of st_Loss]
  show "st_ReqData s = st_ReqData t \<and> st_RespData s = st_RespData t \<and>
     map untimed (st_PendingReqs s) = map untimed (st_PendingReqs t) \<and>
     st_LastSeq s = st_LastSeq t \<and> st_HasLastSeq s = st_HasLastSeq t \<and>
     st_CaptureSource s = st_CaptureSource t \<and> st_CaptureMode s = st_CaptureMode t \<and>
     st_Connection s = st_Connection t \<and> st_Process s = st_Process t \<and>
     st_Container s = st_Container t \<and> st_Loss s = st_Loss t"
    by (simp add: timeless_def)
qed (simp add: timeless_def)

lemma untimed_request: "untimed p = untimed q \<Longrightarrow> pr_req p = pr_req q"
  by (cases p; cases q) (simp add: untimed_def)

lemma untimed_queued:
  assumes "timeless s = timeless t"
  shows "map untimed (queued s reqs clock k) = map untimed (queued t reqs clock' k')"
proof (induction reqs arbitrary: k k')
  case (Cons r reqs)
  obtain req body where "r = (req, body)" by force
  with Cons assms [unfolded timeless_eq] show ?case
    by (simp add: untimed_def pendingRequest_def)
qed simp

lemma matchResponses_untimed:
  "map untimed ps = map untimed qs \<Longrightarrow>
     length (fst (matchResponses rt m close ps data)) = length (fst (matchResponses rt m close qs data)) \<and>
     snd (matchResponses rt m close ps data) = snd (matchResponses rt m close qs data)"
proof (induction ps arbitrary: qs data)
  case (Cons p ps)
  then obtain q qs' where qs: "qs = q # qs'" "untimed p = untimed q" "map untimed ps = map untimed qs'"
    by (cases qs) auto
  have req: "pr_req p = pr_req q" using qs(2) by (rule untimed_request)
  show ?case
  proof (cases "parseOneResponse rt (fst (syncResponseBuffer data)) (pr_req q) m close")
    case None
    then show ?thesis by (simp add: qs(1) req)
  next
    case (Some r)
    obtain resp body n where r: "r = (resp, body, n)" by (cases r) auto
    from Cons.IH [OF qs(3), of "drop n (fst (syncResponseBuffer data))"] Some r req show ?thesis
      by (simp add: qs(1) case_prod_beta Let_def)
  qed
qed simp

lemma drain_timeless:
  assumes eq: "timeless s = timeless t"
    and s: "drainParsedConversations rt cfg close w stats s = (w', stats', s', n)"
    and t: "drainParsedConversations rt cfg close v tats t = (v', tats', t', m)"
  shows "timeless s' = timeless t'"
proof -
  note f = eq [unfolded timeless_eq]
  obtain reqs rest where e: "extractRequests rt (cfg_maxBodyBytes cfg) (st_ReqData s) = (reqs, rest)" by force
  then have e': "extractRequests rt (cfg_maxBodyBytes cfg) (st_ReqData t) = (reqs, rest)" using f by simp
  define ps where "ps = st_PendingReqs s @ queued s reqs (w_clock w) (w_clockReads w)"
  define qs where "qs = st_PendingReqs t @ queued t reqs (w_clock v) (w_clockReads v)"
  have pend: "map untimed ps = map untimed qs"
    using f untimed_queued [OF eq] by (simp add: ps_def qs_def)
  obtain ms left where ms: "matchResponses rt (cfg_maxBodyBytes cfg) close ps (st_RespData s) = (ms, left)"
    by force
  obtain mt left' where mt: "matchResponses rt (cfg_maxBodyBytes cfg) close qs (st_RespData t) = (mt, left')"
    by force
  have len: "length ms = length mt" "left = left'"
    using matchResponses_untimed [OF pend, of rt "cfg_maxBodyBytes cfg" close "st_RespData s"] ms mt f by simp_all
  have "map untimed (drop (length ms) ps) = map untimed (drop (length mt) qs)"
    using pend len by (simp only: drop_map [symmetric])
  with f len drain_result(1,2) [OF e ps_def ms s] drain_result(1,2) [OF e' qs_def mt t]
  show ?thesis by (simp add: timeless_eq)
qed

lemma merge_timeless:
  assumes "timeless s = timeless t"
  shows "timeless (mergeStreamMetadata event (s\<lparr>st_LastActive := a\<rparr>)) =
    timeless (mergeStreamMetadata event (t\<lparr>st_LastActive := b\<rparr>))"
  using assms unfolding timeless_eq by (simp add: mergeStreamMetadata_def)

lemma trackLoss_fields:
  "st_ReqData (trackLoss event s) = st_ReqData s" "st_RespData (trackLoss event s) = st_RespData s"
  "st_PendingReqs (trackLoss event s) = st_PendingReqs s"
  "st_CaptureSource (trackLoss event s) = st_CaptureSource s"
  "st_CaptureMode (trackLoss event s) = st_CaptureMode s"
  "st_Connection (trackLoss event s) = st_Connection s" "st_Process (trackLoss event s) = st_Process s"
  "st_Container (trackLoss event s) = st_Container s"
  by (simp_all add: trackLoss_def Let_def)

lemma trackLoss_timeless:
  assumes "timeless s = timeless t"
  shows "timeless (trackLoss event s) = timeless (trackLoss event t)"
proof -
  note f = assms [unfolded timeless_eq]
  have g: "sequenceGap s event = sequenceGap t event" using f by (simp add: sequenceGap_def)
  have "st_LastSeq (trackLoss event s) = st_LastSeq (trackLoss event t)"
    "st_HasLastSeq (trackLoss event s) = st_HasLastSeq (trackLoss event t)"
    "st_Loss (trackLoss event s) = st_Loss (trackLoss event t)"
    using f g by (simp_all add: trackLoss_def Let_def)
  with f show ?thesis by (simp add: timeless_eq trackLoss_fields)
qed

lemma append_timeless:
  assumes "timeless s = timeless t"
  shows "\<exists>s' x t' y. timeless s' = timeless t' \<and>
    (appendPayload cfg asReq payload s sa = Inl (s', x) \<and> appendPayload cfg asReq payload t ta = Inl (t', y) \<or>
     appendPayload cfg asReq payload s sa = Inr (s', x) \<and> appendPayload cfg asReq payload t ta = Inr (t', y))"
  using assms by (simp add: appendPayload_def Let_def timeless_eq)

lemma processPayload_timeless:
  assumes eq: "timeless s = timeless t"
    and s: "processPayload rt cfg event payload w stats s = (w', stats', s')"
    and t: "processPayload rt cfg event payload v tats t = (v', tats', t')"
  shows "timeless s' = timeless t'"
proof -
  define s1 where "s1 = trackLoss event (mergeStreamMetadata event (s\<lparr>st_LastActive := fst (timeNow w)\<rparr>))"
  define t1 where "t1 = trackLoss event (mergeStreamMetadata event (t\<lparr>st_LastActive := fst (timeNow v)\<rparr>))"
  obtain sa where s_eq: "(w', stats', s') =
      (case appendPayload cfg (routeAsRequest event payload) payload s1 sa of
         Inl (state3, stats3) \<Rightarrow> (snd (timeNow w), stats3, state3)
       | Inr (state3, stats3) \<Rightarrow>
           (let (w2, stats4, state4, parsed) = drainParsedConversations rt cfg False (snd (timeNow w)) stats3 state3
            in (w2, countParsed parsed stats4, state4)))"
    using s [symmetric] unfolding processPayload_def Let_def case_prod_beta s1_def by blast
  obtain ta where t_eq: "(v', tats', t') =
      (case appendPayload cfg (routeAsRequest event payload) payload t1 ta of
         Inl (state3, stats3) \<Rightarrow> (snd (timeNow v), stats3, state3)
       | Inr (state3, stats3) \<Rightarrow>
           (let (w2, stats4, state4, parsed) = drainParsedConversations rt cfg False (snd (timeNow v)) stats3 state3
            in (w2, countParsed parsed stats4, state4)))"
    using t [symmetric] unfolding processPayload_def Let_def case_prod_beta t1_def by blast
  have "timeless s1 = timeless t1" unfolding s1_def t1_def 
    by (rule trackLoss_timeless [OF merge_timeless [OF eq]])
  from append_timeless [OF this, of cfg "routeAsRequest event payload" payload sa ta]
  obtain s3 x t3 y where eq3: "timeless s3 = timeless t3"
    and out: "appendPayload cfg (routeAsRequest event payload) payload s1 sa = Inl (s3, x) \<and>
        appendPayload cfg (routeAsRequest event payload) payload t1 ta = Inl (t3, y) \<or>
      appendPayload cfg (routeAsRequest event payload) payload s1 sa = Inr (s3, x) \<and>
        appendPayload cfg (routeAsRequest event payload) payload t1 ta = Inr (t3, y)"
    by blast
  from out show ?thesis
  proof (elim disjE conjE)
    assume a: "appendPayload cfg (routeAsRequest event payload) payload s1 sa = Inl (s3, x)"
      "appendPayload cfg (routeAsRequest event payload) payload t1 ta = Inl (t3, y)"
    from s_eq t_eq eq3 show ?thesis unfolding a by simp
  next
    assume a: "appendPayload cfg (routeAsRequest event payload) payload s1 sa = Inr (s3, x)"
      "appendPayload cfg (routeAsRequest event payload) payload t1 ta = Inr (t3, y)"
    obtain w4 x4 s4 n where d: "drainParsedConversations rt cfg False (snd (timeNow w)) x s3 = (w4, x4, s4, n)"
      using prod_cases4 by blast
    obtain v4 y4 t4 m where d': "drainParsedConversations rt cfg False (snd (timeNow v)) y t3 = (v4, y4, t4, m)"
      using prod_cases4 by blast
    have "s' = s4" "t' = t4" using s_eq t_eq unfolding a by (simp_all add: d d')
    with drain_timeless [OF eq3 d d'] show ?thesis by simp
  qed
qed

definition flowView :: "bytes \<Rightarrow> worker \<Rightarrow> StreamState option" where
  "flowView key wk = map_option timeless (get_session key (wk_store wk))"

lemma processEvent_other:
  assumes "sessionKey event \<noteq> key"
  shows "get_session key (wk_store (processEvent rt cfg event wk)) = get_session key (wk_store wk)"
proof (cases rule: processEvent_cases [of event rt cfg wk])
  case close
  then show ?thesis using assms by (simp add: handleCloseEvent_lookup)
next
  case (payload state w1 store1 w2 stats2 state2)
  then show ?thesis using assms getOrCreate_lookup [OF payload(2)] by simp
qed simp_all

lemma getOrCreate_timeless:
  assumes "flowView key x = flowView key y"
    and "getOrCreate key w (wk_store x) = (s, w1, store1)" "getOrCreate key v (wk_store y) = (t, v1, store2)"
  shows "timeless s = timeless t"
proof (cases "get_session key (wk_store x)")
  case None
  with assms(1) have "get_session key (wk_store y) = None" by (simp add: flowView_def)
  with None getOrCreate_state [OF assms(2)] getOrCreate_state [OF assms(3)]
  show ?thesis by (simp add: timeless_eq freshState_def)
next
  case (Some st)
  with assms(1) obtain st' where "get_session key (wk_store y) = Some st'" "timeless st = timeless st'"
    by (cases "get_session key (wk_store y)") (auto simp: flowView_def)
  with Some getOrCreate_state [OF assms(2)] getOrCreate_state [OF assms(3)] show ?thesis by simp
qed

lemma processEvent_same:
  assumes eq: "flowView key x = flowView key y" and key: "sessionKey event = key"
  shows "flowView key (processEvent rt cfg event x) = flowView key (processEvent rt cfg event y)"
proof (cases rule: processEvent_cases [of event rt cfg x])
  case close
  then show ?thesis by (simp add: processEvent_def flowView_def handleCloseEvent_lookup key)
next
  case malformed
  then show ?thesis using eq by (simp add: processEvent_def flowView_def)
next
  case noise
  then show ?thesis using eq by (cases rule: processEvent_cases [of event rt cfg y]) (simp_all add: flowView_def event_types [symmetric])
next
  case (payload s w1 store1 w2 stats2 s2)
  note x = this
  show ?thesis
  proof (cases rule: processEvent_cases [of event rt cfg y])
    case (payload t v1 store2 v2 tats2 t2)
    have "timeless s = timeless t"
      using getOrCreate_timeless [OF eq] x(2) payload(2) key by blast
    from processPayload_timeless [OF this x(3) payload(3)] show ?thesis
      using x(4) payload(4) key by (simp add: flowView_def)
  qed (use x(1) in \<open>simp_all add: carriesPayload_def event_types [symmetric]\<close>)
qed

lemma flow_isolated_run:
  "flowView key x = flowView key y \<Longrightarrow>
     flowView key (fold (processEvent rt cfg) events x) =
     flowView key (fold (processEvent rt cfg) (filter (\<lambda>e. sessionKey e = key) events) y)"
proof (induction events arbitrary: x y)
  case (Cons e events)
  show ?case
  proof (cases "sessionKey e = key")
    case True
    with Cons.IH [OF processEvent_same [OF Cons.prems True]] show ?thesis by simp
  next
    case False
    then have "flowView key (processEvent rt cfg e x) = flowView key y"
      using Cons.prems processEvent_other [OF False] by (simp add: flowView_def)
    from Cons.IH [OF this] False show ?thesis by simp
  qed
qed simp


section \<open>Closing and expiring\<close>

text \<open>A close event ends its flow and nothing else: what is queued is matched once more, now
  with the connection's end as a boundary, the matches are emitted in order, the session is
  removed, every other session stays as it was, and one closed session is counted.\<close>

theorem close_flushes:
  assumes "ev_EventType event = eventTypeClose"
    and "get_session (sessionKey event) (wk_store wk) = Some state"
    and "extractRequests rt (cfg_maxBodyBytes cfg) (st_ReqData state) = (reqs, rest)"
    and "matchResponses rt (cfg_maxBodyBytes cfg) True
      (st_PendingReqs state @ queued state reqs (w_clock (wk_world wk)) (w_clockReads (wk_world wk)))
      (st_RespData state) = (ms, left)"
  shows "wk_world (processEvent rt cfg event wk) = fold (emitMatched rt cfg (st_Loss state)) ms
      ((wk_world wk)\<lparr>w_clockReads := w_clockReads (wk_world wk) + length reqs\<rparr>) \<and>
    (\<forall>key. get_session key (wk_store (processEvent rt cfg event wk)) =
      (if key = sessionKey event then None else get_session key (wk_store wk))) \<and>
    ws_closedSessions (wk_stats (processEvent rt cfg event wk)) = ws_closedSessions (wk_stats wk) + 1"
proof -
  obtain w1 stats1 state1 n where d:
    "drainParsedConversations rt cfg True (wk_world wk) (wk_stats wk) state = (w1, stats1, state1, n)"
    using prod_cases4 by blast
  note res = drain_result [OF assms(3) refl assms(4) d]
  have "processEvent rt cfg event wk = handleCloseEvent rt cfg event wk"
    using assms(1) by (simp add: processEvent_def)
  moreover have "wk_world (handleCloseEvent rt cfg event wk) = w1"
    "ws_closedSessions (wk_stats (handleCloseEvent rt cfg event wk)) = ws_closedSessions (wk_stats wk) + 1"
    using assms(2) d res(6) by (simp_all add: handleCloseEvent_def Let_def sameRouting_def countParsed_def)
  ultimately show ?thesis using res(3) by (simp add: handleCloseEvent_lookup)
qed

definition openWorker :: worker where
  "openWorker = workerRun sampleDecode sampleRuntime sampleConfig [KafkaMessage ''request'']
     (initialWorker sampleConfig sampleWorld)"

theorem close_flushes_witness:
  "ws_closedSessions (wk_stats (processEvent sampleRuntime sampleConfig (sampleEvent eventTypeClose directionRead 3 []) openWorker)) =
     ws_closedSessions (wk_stats openWorker) + 1 \<and>
   get_session ''pidfd:7-3-0'' (wk_store (processEvent sampleRuntime sampleConfig
     (sampleEvent eventTypeClose directionRead 3 []) openWorker)) = None"
proof -
  let ?e = "sampleEvent eventTypeClose directionRead 3 []"
  have t: "ev_EventType ?e = eventTypeClose" by (simp add: sampleEvent_def)
  have k: "sessionKey ?e = ''pidfd:7-3-0''" by code_simp
  have "get_session ''pidfd:7-3-0'' (wk_store openWorker) \<noteq> None" by code_simp
  then obtain state where s: "get_session (sessionKey ?e) (wk_store openWorker) = Some state"
    unfolding k by blast
  obtain reqs rest where r: "extractRequests sampleRuntime (cfg_maxBodyBytes sampleConfig) (st_ReqData state) = (reqs, rest)"
    by force
  obtain ms left where m: "matchResponses sampleRuntime (cfg_maxBodyBytes sampleConfig) True
      (st_PendingReqs state @ queued state reqs (w_clock (wk_world openWorker)) (w_clockReads (wk_world openWorker)))
      (st_RespData state) = (ms, left)" by force
  from close_flushes [OF t s r m] show ?thesis by (simp add: k)
qed

text \<open>The sweep that the ticker runs removes the sessions that were idle for longer than the
  TTL and only those, whatever the order in which it visits the keys, and counts each of them.\<close>

theorem cleanup_exact:
  assumes "distinct keys" and "set keys = dom (ss_sessions (wk_store wk))"
    and "cutoff = fst (timeNow (wk_world wk)) - cfg_sessionTTL cfg"
  shows "(\<forall>key. get_session key (wk_store (cleanupTick rt cfg keys wk)) =
      (case get_session key (wk_store wk) of
         None \<Rightarrow> None
       | Some state \<Rightarrow> if st_LastActive state < cutoff then None else Some state)) \<and>
    ws_expiredSessions (wk_stats (cleanupTick rt cfg keys wk)) =
      ws_expiredSessions (wk_stats wk) + of_nat (length (filter (is_idle cutoff (wk_store wk)) keys))"
proof -
  obtain now w1 where t: "timeNow (wk_world wk) = (now, w1)" by force
  obtain expired store1 where sw: "sweepExpired keys cutoff (wk_store wk) = (expired, store1)" by force
  obtain n w2 stats1 where e: "expireAll (flushState rt cfg) expired (w1, wk_stats wk) = (n, (w2, stats1))"
    using prod_cases3 by blast
  have store: "wk_store (cleanupTick rt cfg keys wk) = store1"
    using cleanupTick_effect(3) [of rt cfg keys wk] sw assms(3) by simp
  have look: "get_session key store1 = (case get_session key (wk_store wk) of
         None \<Rightarrow> None
       | Some state \<Rightarrow> if st_LastActive state < cutoff then None else Some state)" for key
  proof (cases "get_session key (wk_store wk)")
    case (Some state)
    then have "key \<in> set keys" using assms(2) by (auto simp: get_session_def)
    with Some sweepExpired_lookup [OF assms(1) sw, of key] show ?thesis by (simp add: is_idle_def)
  qed (use sweepExpired_lookup [OF assms(1) sw, of key] in \<open>simp add: is_idle_def\<close>)
  have len: "length expired = length (filter (is_idle cutoff (wk_store wk)) keys)"
    using sw sweepExpired_fold [OF assms(1), of cutoff "wk_store wk"] by auto
  have "ws_expiredSessions stats1 = ws_expiredSessions (wk_stats wk)"
    using expireAll_flush [OF e] by (simp add: sameRouting_def)
  then have "ws_expiredSessions (wk_stats (cleanupTick rt cfg keys wk)) =
      ws_expiredSessions (wk_stats wk) + of_nat (length expired)"
    using assms(3) sw by (simp add: cleanupTick_def cleanupExpired_def t e Let_def countParsed_def)
  with look len show ?thesis by (simp add: store)
qed

definition idleWorker :: worker where
  "idleWorker = \<lparr>wk_store = storeState ''a'' (freshState 0) (storeState ''b'' (freshState 50) (newSessionStore 60)),
     wk_stats = zeroStats, wk_world = sampleWorld\<lparr>w_clockReads := 100\<rparr>\<rparr>"

theorem cleanup_exact_witness:
  "get_session ''a'' (wk_store (cleanupTick sampleRuntime sampleConfig [''b'', ''a''] idleWorker)) = None \<and>
   get_session ''b'' (wk_store (cleanupTick sampleRuntime sampleConfig [''b'', ''a''] idleWorker)) = Some (freshState 50)"
proof -
  have "distinct [''b'', ''a'']" by simp
  moreover have "set [''b'', ''a''] = dom (ss_sessions (wk_store idleWorker))"
    by (auto simp: idleWorker_def storeState_def newSessionStore_def)
  moreover have c: "40 = fst (timeNow (wk_world idleWorker)) - cfg_sessionTTL sampleConfig"
    by (simp add: idleWorker_def timeNow_def sampleWorld_def sampleConfig_def)
  ultimately show ?thesis
    using cleanup_exact [of "[''b'', ''a'']" idleWorker 40 sampleConfig sampleRuntime]
    by (simp add: idleWorker_def freshState_def)
qed

section \<open>Keys\<close>

lemma pidfdKey_inject:
  "pidfdKey e = pidfdKey f \<longleftrightarrow> ev_PID e = ev_PID f \<and> ev_FD e = ev_FD f \<and> ev_Generation e = ev_Generation f"
proof -
  have sep: "CHR ''-'' \<notin> set (show_nat n)" for n by (simp add: show_nat_no_sep is_digit_def)
  show ?thesis by (simp add: pidfdKey_def split_at_sep sep word_unat_eq_iff)
qed

lemma pidfd_not_conn: "pidfdKey e \<noteq> connKey f"
  by (simp add: pidfdKey_def connKey_def Let_def)

text \<open>Addresses as the agent writes them: no separator of the key occurs in a protocol name or
  an IPv4 address.\<close>

definition plainFlow :: "ApiEvent \<Rightarrow> bool" where
  "plainFlow e \<longleftrightarrow> (\<forall>s \<in> {conn_Protocol (ev_Connection e), conn_SrcIP (ev_Connection e), conn_DstIP (ev_Connection e)}.
     CHR '':'' \<notin> set s \<and> CHR ''-'' \<notin> set s) \<and>
     0 \<le> conn_SrcPort (ev_Connection e) \<and> 0 \<le> conn_DstPort (ev_Connection e)"

lemma connKey_inject:
  assumes "plainFlow e" "plainFlow f"
  shows "connKey e = connKey f \<longleftrightarrow>
    conn_Protocol (ev_Connection e) = conn_Protocol (ev_Connection f) \<and>
    conn_SrcIP (ev_Connection e) = conn_SrcIP (ev_Connection f) \<and>
    conn_SrcPort (ev_Connection e) = conn_SrcPort (ev_Connection f) \<and>
    conn_DstIP (ev_Connection e) = conn_DstIP (ev_Connection f) \<and>
    conn_DstPort (ev_Connection e) = conn_DstPort (ev_Connection f) \<and> ev_Generation e = ev_Generation f"
proof -
  have "CHR ''-'' \<notin> set (show_int i)" if "0 \<le> i" for i
    using that by (simp add: show_int_def show_nat_no_sep is_digit_def)
  moreover have "CHR '':'' \<notin> set (show_int i)" for i by (simp add: show_int_no_sep is_digit_def)
  ultimately show ?thesis
    using assms by (auto simp: connKey_def plainFlow_def Let_def split_at_sep word_unat_eq_iff)
qed

text \<open>Two events of the eBPF agent share a session exactly when they come from the same
  process, descriptor and descriptor generation: the key mixes no two flows and splits none.\<close>

theorem ebpf_key_identifies_flow:
  assumes "ev_CaptureSource e = ''ebpf''" "ev_PID e \<noteq> 0" "ev_FD e \<noteq> 0"
    and "ev_CaptureSource f = ''ebpf''" "ev_PID f \<noteq> 0" "ev_FD f \<noteq> 0"
  shows "sessionKey e = sessionKey f \<longleftrightarrow>
    ev_PID e = ev_PID f \<and> ev_FD e = ev_FD f \<and> ev_Generation e = ev_Generation f"
  using assms by (simp add: sessionKey_def pidfdKey_inject)

theorem ebpf_key_identifies_flow_witness:
  "sessionKey (sampleEvent 1 0 3 []) \<noteq> sessionKey (sampleEvent 1 0 4 [])"
  using ebpf_key_identifies_flow [of "sampleEvent 1 0 3 []" "sampleEvent 1 0 4 []"]
  by (simp add: sampleEvent_def zeroEvent_def)

text \<open>Events of other capture sources are keyed by their connection: two of them with a
  5-tuple and plain addresses share a session exactly when the tuple and the generation agree, and
  never with an event keyed by its descriptor.\<close>

theorem connection_key_identifies_flow:
  assumes "ev_CaptureSource e \<noteq> ''ebpf''" "ev_CaptureSource f \<noteq> ''ebpf''"
    and "conn_Protocol (ev_Connection e) \<noteq> []" "conn_SrcIP (ev_Connection e) \<noteq> []" "conn_DstIP (ev_Connection e) \<noteq> []"
    and "plainFlow e" "plainFlow f"
  shows "sessionKey e = sessionKey f \<longleftrightarrow>
    conn_Protocol (ev_Connection e) = conn_Protocol (ev_Connection f) \<and>
    conn_SrcIP (ev_Connection e) = conn_SrcIP (ev_Connection f) \<and>
    conn_SrcPort (ev_Connection e) = conn_SrcPort (ev_Connection f) \<and>
    conn_DstIP (ev_Connection e) = conn_DstIP (ev_Connection f) \<and>
    conn_DstPort (ev_Connection e) = conn_DstPort (ev_Connection f) \<and> ev_Generation e = ev_Generation f"
proof -
  have e: "sessionKey e = connKey e" using assms by (simp add: sessionKey_def)
  show ?thesis
  proof (cases "conn_Protocol (ev_Connection f) \<noteq> [] \<and> conn_SrcIP (ev_Connection f) \<noteq> [] \<and> conn_DstIP (ev_Connection f) \<noteq> []")
    case True
    with e assms show ?thesis by (simp add: sessionKey_def connKey_inject)
  next
    case False
    then have "sessionKey f = pidfdKey f" using assms(2) by (simp only: sessionKey_def if_False simp_thms)
    then have "sessionKey e \<noteq> sessionKey f" using e pidfd_not_conn [of f e] by metis
    with False assms(3-5) show ?thesis by metis
  qed
qed

definition pcapEvent :: "int \<Rightarrow> ApiEvent" where
  "pcapEvent port = zeroEvent\<lparr>ev_CaptureSource := ''pcap'', ev_Connection := noConnection\<lparr>conn_Protocol := ''tcp'',
     conn_SrcIP := ''10.0.0.1'', conn_SrcPort := port, conn_DstIP := ''10.0.0.2'', conn_DstPort := 80\<rparr>\<rparr>"

theorem connection_key_identifies_flow_witness:
  "sessionKey (pcapEvent 4000) \<noteq> sessionKey (pcapEvent 4001)"
  using connection_key_identifies_flow [of "pcapEvent 4000" "pcapEvent 4001"]
  by (simp add: pcapEvent_def zeroEvent_def noConnection_def plainFlow_def)

section \<open>Sequence numbers and losses\<close>

lemma trackLoss_seq:
  "st_HasLastSeq (trackLoss event s)"
  "st_LastSeq (trackLoss event s) =
     (if st_HasLastSeq s then max (st_LastSeq s) (ev_Seq event) else ev_Seq event)"
  by (auto simp: trackLoss_def Let_def max_def)

lemma track_max:
  "st_HasLastSeq s \<Longrightarrow>
     st_HasLastSeq (fold trackLoss events s) \<and>
     st_LastSeq (fold trackLoss events s) = fold (\<lambda>e. max (ev_Seq e)) events (st_LastSeq s)"
  by (induction events arbitrary: s) (auto simp: trackLoss_seq max.commute)

lemma fold_max_mono: "(x::u32) \<le> fold (\<lambda>e. max (ev_Seq e)) events x"
  by (induction events arbitrary: x) (auto intro: order_trans [OF max.cobounded2])

text \<open>The flow remembers the largest sequence number it has seen, so once it has seen the last
  one, 4294967295, it never moves again and the wrapped counter \<open>LastSeq+1\<close> makes every
  later event but number 0 look like a gap. Below that bound a gap is what it should be: a number
  more than one above the largest seen.\<close>

theorem sequence_tracking:
  assumes "st_HasLastSeq s"
  shows "st_LastSeq (fold trackLoss events s) = fold (\<lambda>e. max (ev_Seq e)) events (st_LastSeq s) \<and>
    (st_LastSeq s = 4294967295 \<longrightarrow>
       st_LastSeq (fold trackLoss events s) = 4294967295 \<and>
       sequenceGap (fold trackLoss events s) event = (ev_Seq event \<noteq> 0)) \<and>
    (st_LastSeq (fold trackLoss events s) \<noteq> 4294967295 \<longrightarrow>
       sequenceGap (fold trackLoss events s) event =
         (unat (ev_Seq event) > unat (st_LastSeq (fold trackLoss events s)) + 1))"
proof -
  note m = track_max [OF assms, of events]
  have last: "(4294967295::u32) = - 1" by simp
  have top: "st_LastSeq s = 4294967295 \<Longrightarrow> st_LastSeq (fold trackLoss events s) = 4294967295"
    using m fold_max_mono [of "st_LastSeq s" events] by (simp add: last word_order.extremum_unique)
  have wrap: "sequenceGap t event = (ev_Seq event \<noteq> 0)"
    if "st_HasLastSeq t" "st_LastSeq t = 4294967295" for t
    using that by (simp add: sequenceGap_def last word_neq_0_conv)
  have "sequenceGap t event = (unat (ev_Seq event) > unat (st_LastSeq t) + 1)"
    if "st_HasLastSeq t" "st_LastSeq t \<noteq> 4294967295" for t
  proof -
    have "unat (st_LastSeq t + 1) = unat (st_LastSeq t) + 1"
      using that(2) by (metis last add.commute unatSuc add_eq_0_iff_both_eq_0 eq_neg_iff_add_eq_0 Suc_eq_plus1)
    with that(1) show ?thesis by (simp add: sequenceGap_def word_less_nat_alt)
  qed
  with m top wrap show ?thesis by blast
qed

definition wrapState :: StreamState where
  "wrapState = (freshState 0)\<lparr>st_HasLastSeq := True, st_LastSeq := 4294967295\<rparr>"

theorem sequence_tracking_witness:
  "sequenceGap (fold trackLoss [zeroEvent, zeroEvent\<lparr>ev_Seq := 1\<rparr>] wrapState) (zeroEvent\<lparr>ev_Seq := 2\<rparr>)"
proof -
  have "st_HasLastSeq wrapState" "st_LastSeq wrapState = 4294967295" by (simp_all add: wrapState_def)
  from sequence_tracking [OF this(1), of "[zeroEvent, zeroEvent\<lparr>ev_Seq := 1\<rparr>]" "zeroEvent\<lparr>ev_Seq := 2\<rparr>"] this(2)
  show ?thesis by (simp add: zeroEvent_def)
qed

text \<open>The loss record of an emitted conversation accumulates: a truncation or a gap on either
  side is reported, the latest details win, and the order of merging does not matter.\<close>

theorem mergeLoss_accumulates:
  "loss_Truncated (mergeLossMetadata a b) = (loss_Truncated a \<or> loss_Truncated b) \<and>
   loss_SequenceGap (mergeLossMetadata a b) = (loss_SequenceGap a \<or> loss_SequenceGap b) \<and>
   loss_Reason (mergeLossMetadata a b) = (if loss_Truncated b then loss_Reason b else loss_Reason a) \<and>
   loss_ActualSeq (mergeLossMetadata a b) = (if loss_SequenceGap b then loss_ActualSeq b else loss_ActualSeq a) \<and>
   mergeLossMetadata a noLoss = a \<and>
   mergeLossMetadata (mergeLossMetadata a b) c = mergeLossMetadata a (mergeLossMetadata b c)"
  by (auto simp: mergeLossMetadata_def noLoss_def Let_def)

section \<open>Routing and the request queue\<close>

text \<open>Content beats direction: a data event of the response direction whose bytes contain a
  method token and no status marker, such as the middle of a response body that quotes one, is
  appended to the request buffer of its flow and never to the response buffer.\<close>

theorem quoted_method_misroutes:
  assumes "m \<in> set httpMethods" "occurs_at payload m i" "\<And>j. \<not> occurs_at payload statusMarker j"
    and "int (length (st_ReqData state @ payload)) \<le> cfg_maxStreamBytes cfg"
  shows "\<exists>stats'. appendPayload cfg (routeAsRequest (event\<lparr>ev_Direction := directionWrite\<rparr>) payload) payload state stats =
    Inr (state\<lparr>st_ReqData := st_ReqData state @ payload\<rparr>, stats')"
proof -
  have "bytes_index payload statusMarker = - 1" using assms(3) by (simp add: bytes_index_none)
  moreover have "earliestMethodIndex payload \<noteq> - 1" using assms(1,2) earliestMethodIndex_none by blast
  ultimately have "classifyPayload payload = payloadRequest"
    using earliestMethodIndex_ge [of payload] by (auto simp: classifyPayload_def Let_def)
  with assms(4) show ?thesis by (simp add: routeAsRequest_def appendPayload_def Let_def)
qed

theorem quoted_method_misroutes_witness:
  "\<exists>stats'. appendPayload sampleConfig (routeAsRequest (zeroEvent\<lparr>ev_Direction := directionWrite\<rparr>) ''try GET /'')
     ''try GET /'' (freshState 0) zeroStats = Inr ((freshState 0)\<lparr>st_ReqData := ''try GET /''\<rparr>, stats')"
proof -
  have "bytes_index ''try GET /'' statusMarker = - 1" by code_simp
  then have "\<not> occurs_at ''try GET /'' statusMarker j" for j unfolding bytes_index_none by blast
  moreover have "''GET '' \<in> set httpMethods" by (simp add: httpMethods_def)
  moreover have "occurs_at ''try GET /'' ''GET '' 4" by (simp add: occurs_at_def has_prefix_def numeral_eq_Suc)
  ultimately show ?thesis
    using quoted_method_misroutes [of "''GET ''" "''try GET /''" 4 "freshState 0" sampleConfig zeroEvent zeroStats]
    by (simp add: freshState_def sampleConfig_def)
qed

lemma deliver_request:
  assumes "extractRequests rt (cfg_maxBodyBytes cfg) payload = ([(req, body)], [])"
    and "routeAsRequest event payload" "int (length payload) \<le> cfg_maxStreamBytes cfg"
    and "\<And>r. parseOneResponse rt [] r (cfg_maxBodyBytes cfg) False = None"
    and "st_ReqData state = []" "st_RespData state = []"
    and "processPayload rt cfg event payload w stats state = (w', stats', state')"
  shows "length (st_PendingReqs state') = Suc (length (st_PendingReqs state))"
    "st_ReqData state' = []" "st_RespData state' = []"
proof -
  define s1 where "s1 = trackLoss event (mergeStreamMetadata event (state\<lparr>st_LastActive := fst (timeNow w)\<rparr>))"
  have s1: "st_ReqData s1 = []" "st_RespData s1 = []" "st_PendingReqs s1 = st_PendingReqs state"
    using assms(5,6) by (simp_all add: s1_def trackLoss_fields mergeStreamMetadata_def)
  obtain sa where eq: "(w', stats', state') =
      (case appendPayload cfg (routeAsRequest event payload) payload s1 sa of
         Inl (state3, stats3) \<Rightarrow> (snd (timeNow w), stats3, state3)
       | Inr (state3, stats3) \<Rightarrow>
           (let (w2, stats4, state4, parsed) = drainParsedConversations rt cfg False (snd (timeNow w)) stats3 state3
            in (w2, countParsed parsed stats4, state4)))"
    using assms(7) [symmetric] unfolding processPayload_def Let_def case_prod_beta s1_def by blast
  let ?s = "s1\<lparr>st_ReqData := payload\<rparr>" and ?stats = "sa\<lparr>ws_routedReq := ws_routedReq sa + 1\<rparr>"
  have app: "appendPayload cfg (routeAsRequest event payload) payload s1 sa = Inr (?s, ?stats)"
    using assms(2,3) s1 by (simp add: appendPayload_def Let_def)
  obtain w4 x4 s4 n where d: "drainParsedConversations rt cfg False (snd (timeNow w)) ?stats ?s = (w4, x4, s4, n)"
    using prod_cases4 by blast
  have e: "extractRequests rt (cfg_maxBodyBytes cfg) (st_ReqData ?s) = ([(req, body)], [])" using assms(1) by simp
  define ps where "ps = st_PendingReqs ?s @ queued ?s [(req, body)] (w_clock (snd (timeNow w))) (w_clockReads (snd (timeNow w)))"
  have "syncResponseBuffer [] = ([], 0)" by (simp add: syncResponseBuffer_def)
  then have "matchResponses rt (cfg_maxBodyBytes cfg) False qs [] = ([], [])" for qs
    by (cases qs) (simp_all add: assms(4))
  then have m: "matchResponses rt (cfg_maxBodyBytes cfg) False ps (st_RespData ?s) = ([], [])" using s1 by simp
  have "state' = s4" using eq unfolding app by (simp add: d)
  with drain_result(1,2) [OF e ps_def m d] s1 show
    "length (st_PendingReqs state') = Suc (length (st_PendingReqs state))"
    "st_ReqData state' = []" "st_RespData state' = []" by (simp_all add: ps_def)
qed

definition emptyBuffers :: "StreamState \<Rightarrow> bool" where
  "emptyBuffers st \<longleftrightarrow> st_ReqData st = [] \<and> st_RespData st = []"

lemma deliver_event:
  assumes "extractRequests rt (cfg_maxBodyBytes cfg) (eventPayload event) = ([(req, body)], [])"
    and "carriesPayload event" "routeAsRequest event (eventPayload event)"
    and "int (length (eventPayload event)) \<le> cfg_maxStreamBytes cfg"
    and "\<And>r. parseOneResponse rt [] r (cfg_maxBodyBytes cfg) False = None"
    and "case get_session (sessionKey event) (wk_store wk) of None \<Rightarrow> n = 0
      | Some st \<Rightarrow> emptyBuffers st \<and> length (st_PendingReqs st) = n"
  shows "\<exists>st. get_session (sessionKey event) (wk_store (processEvent rt cfg event wk)) = Some st \<and>
    emptyBuffers st \<and> length (st_PendingReqs st) = Suc n"
proof (cases rule: processEvent_cases [of event rt cfg wk])
  case (payload state w1 store1 w2 stats2 state2)
  have "emptyBuffers state \<and> length (st_PendingReqs state) = n"
    using getOrCreate_state [OF payload(2)] assms(6)
    by (cases "get_session (sessionKey event) (wk_store wk)") (simp_all add: emptyBuffers_def freshState_def)
  with deliver_request [OF assms(1,3,4,5) _ _ payload(3)]
  have "emptyBuffers state2 \<and> length (st_PendingReqs state2) = Suc n" by (simp add: emptyBuffers_def)
  with payload(4) show ?thesis by simp
qed (use assms(2) in \<open>simp_all add: carriesPayload_def event_types [symmetric]\<close>)

text \<open>The limit on the buffers does not limit the queue of requests: when a payload is a
  complete request of its own, every delivery of it adds one to the queue, however long that is,
  as long as the responses of the flow are not seen.\<close>

theorem request_queue_unbounded:
  assumes "extractRequests rt (cfg_maxBodyBytes cfg) (eventPayload event) = ([(req, body)], [])"
    and "carriesPayload event" "routeAsRequest event (eventPayload event)"
    and "int (length (eventPayload event)) \<le> cfg_maxStreamBytes cfg"
    and "\<And>r. parseOneResponse rt [] r (cfg_maxBodyBytes cfg) False = None"
    and "get_session (sessionKey event) (wk_store wk) = None"
  shows "\<exists>st. get_session (sessionKey event) (wk_store ((processEvent rt cfg event ^^ Suc n) wk)) = Some st \<and>
    length (st_PendingReqs st) = Suc n"
proof -
  have "\<exists>st. get_session (sessionKey event) (wk_store ((processEvent rt cfg event ^^ Suc n) wk)) = Some st \<and>
    emptyBuffers st \<and> length (st_PendingReqs st) = Suc n"
  proof (induction n)
    case 0
    show ?case using deliver_event [OF assms(1-5), where wk = wk and n = 0] assms(6) by simp
  next
    case (Suc n)
    then obtain st where "get_session (sessionKey event) (wk_store ((processEvent rt cfg event ^^ Suc n) wk)) = Some st"
      "emptyBuffers st \<and> length (st_PendingReqs st) = Suc n" by blast
    then show ?case
      using deliver_event [OF assms(1-5), where wk = "(processEvent rt cfg event ^^ Suc n) wk" and n = "Suc n"] by simp
  qed
  then show ?thesis by blast
qed

theorem request_queue_unbounded_witness:
  "\<exists>st. get_session ''pidfd:7-3-0'' (wk_store ((processEvent sampleRuntime sampleConfig
       (sampleEvent eventTypeData directionRead 3 (''GET /a'' @ crlf2)) ^^ Suc 4) (initialWorker sampleConfig sampleWorld))) = Some st \<and>
     length (st_PendingReqs st) = Suc 4"
proof -
  let ?e = "sampleEvent eventTypeData directionRead 3 (''GET /a'' @ crlf2)"
  have k: "sessionKey ?e = ''pidfd:7-3-0''" by code_simp
  have "length (fst (extractRequests sampleRuntime (cfg_maxBodyBytes sampleConfig) (eventPayload ?e))) = 1 \<and>
    snd (extractRequests sampleRuntime (cfg_maxBodyBytes sampleConfig) (eventPayload ?e)) = []" by code_simp
  then obtain req body where x: "extractRequests sampleRuntime (cfg_maxBodyBytes sampleConfig) (eventPayload ?e) = ([(req, body)], [])"
    by (cases "extractRequests sampleRuntime (cfg_maxBodyBytes sampleConfig) (eventPayload ?e)")
      (auto simp: length_Suc_conv)
  have "carriesPayload ?e" "routeAsRequest ?e (eventPayload ?e)"
    "int (length (eventPayload ?e)) \<le> cfg_maxStreamBytes sampleConfig" by code_simp+
  moreover have "parseOneResponse sampleRuntime [] r (cfg_maxBodyBytes sampleConfig) False = None" for r
    by (simp add: parseOneResponse_def sampleRuntime_def sampleReadResponse_def crlf2_def has_prefix_def statusMarker_def)
  moreover have "get_session (sessionKey ?e) (wk_store (initialWorker sampleConfig sampleWorld)) = None"
    by (simp add: initialWorker_def newSessionStore_def get_session_def)
  ultimately show ?thesis using request_queue_unbounded [OF x] unfolding k by blast
qed

end
