(* ===== verification/Sink.thy ===== *)
theory Sink
  imports Model
begin

text \<open>
  Delivery of conversations, \<^verbatim>\<open>cmd/worker/sink.go\<close>: the HTTP sink posts with retries and a doubling
  backoff, the Kafka sink waits for one delivery report, and what cannot be delivered is
  appended to the dead-letter file. What the network, the broker and the file system answer
  is an environment: the \<open>n\<close>-th request gets the \<open>n\<close>-th answer.
\<close>

section \<open>Errors and the environment\<close>

datatype sinkError =
    PlainError bytes
  | httpSinkStatusError int bytes
  | WithDeadLetterError sinkError bytes

fun error_text :: "sinkError \<Rightarrow> bytes" where
  "error_text (PlainError msg) = msg"
| "error_text (httpSinkStatusError code body) =
     (if body = [] then ''backend ingestion returned HTTP '' @ show_int code
      else ''backend ingestion returned HTTP '' @ show_int code @ '': '' @ body)"
| "error_text (WithDeadLetterError e msg) = error_text e @ ''; failed to write dead letter: '' @ msg"

text \<open>The answer of \<open>client.Do\<close>: an error, or a status and the body up to a read error.\<close>

datatype httpAnswer = DoFailed bytes | Answered int bytes

datatype kafkaAnswer =
    ProduceFailed bytes
  | UnexpectedEvent bytes
  | DeliveryReport "bytes option"
  | DeliveryTimeout

record sentRequest =
  hr_url :: bytes
  hr_authorization :: bytes
  hr_contentType :: bytes
  hr_body :: bytes

record sinkDeadLetter =
  dl_CreatedAt :: bytes
  dl_Sink :: bytes
  dl_Error :: bytes
  dl_Payload :: bytes

text \<open>
  The functions of the environment: \<open>http.NewRequest\<close> (an error for a bad URL),
  \<open>filepath.Dir\<close>, \<open>os.MkdirAll\<close>, the clock, \<open>json.Marshal\<close> of a dead letter,
  \<open>os.OpenFile\<close> and \<open>file.Write\<close> (the bytes that reached the file and the error).
\<close>

record sinkEnv =
  se_newRequest :: "bytes \<Rightarrow> bytes option"
  se_do :: "nat \<Rightarrow> httpAnswer"
  se_produce :: "nat \<Rightarrow> kafkaAnswer"
  se_dir :: "bytes \<Rightarrow> bytes"
  se_mkdirAll :: "bytes \<Rightarrow> bytes option"
  se_now :: "nat \<Rightarrow> bytes"
  se_marshalLetter :: "sinkDeadLetter \<Rightarrow> bytes + bytes"
  se_openFile :: "bytes \<Rightarrow> bytes option"
  se_write :: "nat \<Rightarrow> bytes \<Rightarrow> bytes \<times> bytes option"

record sinkWorld =
  sw_posts :: "sentRequest list"
  sw_produced :: "bytes list"
  sw_sleeps :: "duration list"
  sw_letters :: "sinkDeadLetter list"
  sw_file :: bytes

section \<open>Dead letters\<close>

text \<open>\<open>sw_letters\<close> records each letter that was built; \<open>sw_file\<close> is what the file got.\<close>

definition writeDeadLetter ::
  "sinkEnv \<Rightarrow> bytes \<Rightarrow> bytes \<Rightarrow> sinkError \<Rightarrow> bytes \<Rightarrow> sinkWorld \<Rightarrow> bytes option \<times> sinkWorld" where
  "writeDeadLetter env path sink emitErr payload w =
     (if path = [] then (None, w)
      else let dir = se_dir env path in
        case (if dir \<noteq> ''.'' \<and> dir \<noteq> [] then se_mkdirAll env dir else None) of
          Some err \<Rightarrow> (Some err, w)
        | None \<Rightarrow>
            (let letter = \<lparr>dl_CreatedAt = se_now env (length (sw_letters w)), dl_Sink = sink,
                   dl_Error = error_text emitErr, dl_Payload = payload\<rparr>;
                 w1 = w\<lparr>sw_letters := sw_letters w @ [letter]\<rparr>
             in case se_marshalLetter env letter of
                  Inl err \<Rightarrow> (Some err, w1)
                | Inr line \<Rightarrow>
                    (case se_openFile env path of
                       Some err \<Rightarrow> (Some err, w1)
                     | None \<Rightarrow>
                         (let (wrote, err) = se_write env (length (sw_letters w)) (line @ [CHR 0x0A])
                          in (err, w1\<lparr>sw_file := sw_file w1 @ wrote\<rparr>)))))"

section \<open>The HTTP sink\<close>

record httpConversationSink =
  hs_endpoint :: bytes
  hs_agentToken :: bytes
  hs_maxRetries :: int
  hs_initialBackoff :: duration
  hs_deadLetterFile :: bytes

definition sink_post :: "sinkEnv \<Rightarrow> httpConversationSink \<Rightarrow> bytes \<Rightarrow> sinkWorld \<Rightarrow> sinkError option \<times> sinkWorld" where
  "sink_post env s payload w =
     (case se_newRequest env (hs_endpoint s) of
        Some err \<Rightarrow> (Some (PlainError err), w)
      | None \<Rightarrow>
          (let req = \<lparr>hr_url = hs_endpoint s, hr_authorization = ''Bearer '' @ hs_agentToken s,
                 hr_contentType = ''application/json'', hr_body = payload\<rparr>;
               w1 = w\<lparr>sw_posts := sw_posts w @ [req]\<rparr>
           in case se_do env (length (sw_posts w)) of
                DoFailed err \<Rightarrow> (Some (PlainError err), w1)
              | Answered code body \<Rightarrow>
                  if 200 \<le> code \<and> code < 300 then (None, w1)
                  else (Some (httpSinkStatusError code (trim_space (take 512 body))), w1)))"

definition retryableSinkError :: "sinkError \<Rightarrow> bool" where
  "retryableSinkError err =
     (case err of httpSinkStatusError code body \<Rightarrow> code = 429 \<or> code \<ge> 500 | _ \<Rightarrow> True)"

text \<open>
  The retry loop from \<open>attempt\<close> on. \<open>lastErr\<close> is \<open>None\<close> for Go's nil error; the result
  is the error the loop ends with, \<open>None\<close> after a successful post. With a negative number of
  retries the loop does not run and the error stays nil.
\<close>

function retryLoop ::
  "sinkEnv \<Rightarrow> httpConversationSink \<Rightarrow> bytes \<Rightarrow> int \<Rightarrow> duration \<Rightarrow> sinkError option \<Rightarrow> sinkWorld \<Rightarrow>
     sinkError option \<times> sinkWorld" where
  "retryLoop env s payload attempt backoff lastErr w =
     (if attempt \<le> hs_maxRetries s then
        (let (backoff1, w1) =
               (if attempt > 0 \<and> backoff > 0
                then (int64 (backoff * 2), w\<lparr>sw_sleeps := sw_sleeps w @ [backoff]\<rparr>) else (backoff, w));
             (err, w2) = sink_post env s payload w1
         in case err of
              None \<Rightarrow> (None, w2)
            | Some e \<Rightarrow>
                if \<not> retryableSinkError e then (Some e, w2)
                else retryLoop env s payload (attempt + 1) backoff1 (Some e) w2)
      else (lastErr, w))"
  by pat_completeness auto
termination
  by (relation "measure (\<lambda>(env, s, p, attempt, b, l, w). nat (hs_maxRetries s + 1 - attempt))") auto

declare retryLoop.simps [simp del]

text \<open>\<open>Inl\<close> is the panic of \<open>emitErr.Error()\<close> on a nil error, which a negative number of
  retries with a dead-letter file would reach.\<close>

datatype emitResult = EmitOk | EmitFailed sinkError | EmitPanic

definition http_Emit :: "sinkEnv \<Rightarrow> httpConversationSink \<Rightarrow> bytes \<Rightarrow> sinkWorld \<Rightarrow> emitResult \<times> sinkWorld" where
  "http_Emit env s payload w =
     (let (lastErr, w1) = retryLoop env s payload 0 (hs_initialBackoff s) None w in
      case lastErr of
        None \<Rightarrow>
          (if hs_maxRetries s < 0 \<and> hs_deadLetterFile s \<noteq> [] then (EmitPanic, w1) else (EmitOk, w1))
      | Some e \<Rightarrow>
          (let (writeErr, w2) = writeDeadLetter env (hs_deadLetterFile s) outputSinkHTTP e payload w1 in
           case writeErr of
             Some msg \<Rightarrow> (EmitFailed (WithDeadLetterError e msg), w2)
           | None \<Rightarrow> (EmitFailed e, w2)))"

section \<open>The Kafka sink\<close>

record kafkaConversationSink =
  ks_topic :: bytes
  ks_timeoutText :: bytes
  ks_deadLetterFile :: bytes

definition kafka_Emit :: "sinkEnv \<Rightarrow> kafkaConversationSink \<Rightarrow> bytes \<Rightarrow> sinkWorld \<Rightarrow> emitResult \<times> sinkWorld" where
  "kafka_Emit env s payload w =
     (let answer = se_produce env (length (sw_produced w));
          w1 = w\<lparr>sw_produced := sw_produced w @ [payload]\<rparr>;
          failed = (\<lambda>err. (EmitFailed err,
            snd (writeDeadLetter env (ks_deadLetterFile s) outputSinkKafka err payload w1)))
      in case answer of
           ProduceFailed msg \<Rightarrow> failed (PlainError msg)
         | UnexpectedEvent type \<Rightarrow> failed (PlainError (''unexpected kafka delivery event '' @ type))
         | DeliveryReport (Some msg) \<Rightarrow> failed (PlainError msg)
         | DeliveryReport None \<Rightarrow> (EmitOk, w1)
         | DeliveryTimeout \<Rightarrow> failed (PlainError (''kafka delivery timed out after '' @ ks_timeoutText s)))"

section \<open>Choosing the sink\<close>

definition backendIngestEndpoint :: "bytes \<Rightarrow> bytes" where
  "backendIngestEndpoint baseURL =
     (let trimmed = trim_right_char CHR ''/'' baseURL in
      if has_suffix trimmed ''/v1/ingest/conversations'' then trimmed
      else trimmed @ ''/v1/ingest/conversations'')"

definition resolveHTTPSinkAuth :: "config \<Rightarrow> bytes \<times> bytes" where
  "resolveHTTPSinkAuth cfg =
     (if cfg_ingestURL cfg \<noteq> [] \<and> cfg_accountToken cfg \<noteq> [] then (cfg_ingestURL cfg, cfg_accountToken cfg)
      else (backendIngestEndpoint (cfg_backendURL cfg), cfg_agentToken cfg))"

datatype conversationSink =
    NoSink
  | HTTPSink httpConversationSink
  | KafkaSink kafkaConversationSink

datatype newSinkError = ProducerError bytes | UnsupportedOutputSink bytes

text \<open>\<open>newProducer\<close> is \<open>kafka.NewProducer\<close> for the bootstrap servers, \<open>durationText\<close>
  Go's rendering of a duration.\<close>

definition newConversationSink ::
  "(bytes \<Rightarrow> bytes option) \<Rightarrow> (duration \<Rightarrow> bytes) \<Rightarrow> config \<Rightarrow> newSinkError + conversationSink" where
  "newConversationSink newProducer durationText cfg =
     (if cfg_outputSink cfg = [] \<or> cfg_outputSink cfg = outputSinkStdout then Inr NoSink
      else if cfg_outputSink cfg = outputSinkHTTP then
        (let (endpoint, token) = resolveHTTPSinkAuth cfg in
         Inr (HTTPSink \<lparr>hs_endpoint = endpoint, hs_agentToken = token, hs_maxRetries = cfg_httpMaxRetries cfg,
           hs_initialBackoff = cfg_httpRetryDelay cfg, hs_deadLetterFile = cfg_deadLetterFile cfg\<rparr>))
      else if cfg_outputSink cfg = outputSinkKafka then
        (case newProducer (cfg_outputBootstrap cfg) of
           Some err \<Rightarrow> Inl (ProducerError err)
         | None \<Rightarrow> Inr (KafkaSink \<lparr>ks_topic = cfg_outputTopic cfg, ks_timeoutText = durationText (cfg_httpTimeout cfg),
             ks_deadLetterFile = cfg_deadLetterFile cfg\<rparr>))
      else Inl (UnsupportedOutputSink (cfg_outputSink cfg)))"

lemma writeDeadLetter_frame:
  "writeDeadLetter env path sink e payload w = (err, w') \<Longrightarrow>
     sw_posts w' = sw_posts w \<and> sw_sleeps w' = sw_sleeps w \<and> sw_produced w' = sw_produced w"
  by (auto simp: writeDeadLetter_def Let_def split: if_splits option.splits sum.splits prod.splits)

text \<open>A letter is built unless there is no file for it or its directory cannot be made.\<close>

definition recordsLetters :: "sinkEnv \<Rightarrow> bytes \<Rightarrow> bool" where
  "recordsLetters env path \<longleftrightarrow> path \<noteq> [] \<and>
     (se_dir env path = ''.'' \<or> se_dir env path = [] \<or> se_mkdirAll env (se_dir env path) = None)"

lemma writeDeadLetter_letters:
  "writeDeadLetter env path sink e payload w = (err, w') \<Longrightarrow>
     map dl_Payload (sw_letters w') =
       map dl_Payload (sw_letters w) @ (if recordsLetters env path then [payload] else [])"
  by (cases "se_mkdirAll env (se_dir env path)") (auto simp: writeDeadLetter_def recordsLetters_def Let_def split: if_splits option.splits sum.splits prod.splits)

section \<open>The retry loop\<close>

text \<open>The error of the \<open>n\<close>-th request, and the waits before the retries.\<close>

definition answerError :: "httpAnswer \<Rightarrow> sinkError option" where
  "answerError a =
     (case a of
        DoFailed err \<Rightarrow> Some (PlainError err)
      | Answered code body \<Rightarrow>
          if 200 \<le> code \<and> code < 300 then None else Some (httpSinkStatusError code (trim_space (take 512 body))))"

definition postedRequest :: "httpConversationSink \<Rightarrow> bytes \<Rightarrow> sentRequest" where
  "postedRequest s payload = \<lparr>hr_url = hs_endpoint s, hr_authorization = ''Bearer '' @ hs_agentToken s,
     hr_contentType = ''application/json'', hr_body = payload\<rparr>"

primrec backoffs :: "duration \<Rightarrow> nat \<Rightarrow> duration list" where
  "backoffs b 0 = []"
| "backoffs b (Suc k) = (if b > 0 then b # backoffs (int64 (b * 2)) k else [])"

lemma backoffs_nonpos [simp]: "b \<le> 0 \<Longrightarrow> backoffs b k = []"
  by (cases k) auto

lemma backoffs_double:
  "0 < b \<Longrightarrow> b * 2 ^ k < 2 ^ 63 \<Longrightarrow> backoffs b k = map (\<lambda>i. b * 2 ^ i) [0 ..< k]"
proof (induction k arbitrary: b)
  case (Suc k)
  have "b * 2 \<le> b * 2 ^ Suc k" using Suc.prems(1) by simp
  with Suc.prems have "b * 2 < 2 ^ 63" by linarith
  with Suc.prems have i: "int64 (b * 2) = b * 2" by simp
  have "backoffs (b * 2) k = map (\<lambda>i. b * 2 * 2 ^ i) [0 ..< k]"
    using Suc.IH [of "b * 2"] Suc.prems by (simp add: mult.assoc)
  moreover have "[0 ..< Suc k] = 0 # map Suc [0 ..< k]" by (simp add: map_Suc_upt upt_conv_Cons del: upt_Suc)
  ultimately show ?case using Suc.prems(1) i by (simp add: mult.assoc del: upt_Suc)
qed simp

lemma sink_post_eq:
  assumes "se_newRequest env (hs_endpoint s) = None"
  shows "sink_post env s payload w =
    (answerError (se_do env (length (sw_posts w))), w\<lparr>sw_posts := sw_posts w @ [postedRequest s payload]\<rparr>)"
  using assms by (cases "se_do env (length (sw_posts w))")
    (auto simp: sink_post_def answerError_def postedRequest_def Let_def)

text \<open>The request at which the loop stops: the first that succeeds or fails for good.\<close>

definition stopsAt :: "sinkEnv \<Rightarrow> nat \<Rightarrow> nat \<Rightarrow> nat \<Rightarrow> bool" where
  "stopsAt env n budget k \<longleftrightarrow> k \<le> budget \<and>
     (\<forall>i < k. \<exists>e. answerError (se_do env (n + i)) = Some e \<and> retryableSinkError e) \<and>
     (k = budget \<or> (case answerError (se_do env (n + k)) of None \<Rightarrow> True | Some e \<Rightarrow> \<not> retryableSinkError e))"

lemma stopsAt_exists: "\<exists>k. stopsAt env n budget k"
proof (induction budget arbitrary: n)
  case 0
  then show ?case by (auto simp: stopsAt_def)
next
  case (Suc budget)
  show ?case
  proof (cases "\<exists>e. answerError (se_do env n) = Some e \<and> retryableSinkError e")
    case True
    obtain k where k: "stopsAt env (Suc n) budget k" using Suc by blast
    have "\<exists>e. answerError (se_do env (n + i)) = Some e \<and> retryableSinkError e" if "i < Suc k" for i
      using that True k by (cases i) (auto simp: stopsAt_def)
    with k have "stopsAt env n (Suc budget) (Suc k)" by (simp add: stopsAt_def)
    then show ?thesis by blast
  next
    case False
    then have "stopsAt env n (Suc budget) 0" by (auto simp: stopsAt_def split: option.splits)
    then show ?thesis by blast
  qed
qed

lemma retryLoop_past: "hs_maxRetries s < attempt \<Longrightarrow> retryLoop env s payload attempt b lastErr w = (lastErr, w)"
  by (simp add: retryLoop.simps)

lemma retryLoop_stops:
  assumes "se_newRequest env (hs_endpoint s) = None"
  shows "stopsAt env (length (sw_posts w)) budget k \<Longrightarrow> int budget = hs_maxRetries s - attempt \<Longrightarrow> 0 < attempt \<Longrightarrow>
    retryLoop env s payload attempt b lastErr w =
      (answerError (se_do env (length (sw_posts w) + k)),
       w\<lparr>sw_posts := sw_posts w @ replicate (Suc k) (postedRequest s payload),
         sw_sleeps := sw_sleeps w @ backoffs b (Suc k)\<rparr>)"
proof (induction k arbitrary: attempt b lastErr w budget)
  case 0
  then have "attempt \<le> hs_maxRetries s" by linarith
  show ?case
  proof (cases "\<exists>e. answerError (se_do env (length (sw_posts w))) = Some e \<and> retryableSinkError e")
    case True
    with 0 have "hs_maxRetries s = attempt" by (auto simp: stopsAt_def)
    with True 0 show ?thesis
      by (auto simp: retryLoop.simps [of env s payload attempt] retryLoop_past sink_post_eq [OF assms])
  next
    case False
    with 0 \<open>attempt \<le> hs_maxRetries s\<close> show ?thesis
      by (auto simp: retryLoop.simps [of env s payload attempt] sink_post_eq [OF assms] split: option.splits)
  qed
next
  case (Suc k)
  obtain e where e: "answerError (se_do env (length (sw_posts w))) = Some e" "retryableSinkError e"
    using Suc.prems(1) by (force simp: stopsAt_def)
  obtain budget' where b': "budget = Suc budget'" using Suc.prems(1) by (cases budget) (auto simp: stopsAt_def)
  have "stopsAt env (Suc (length (sw_posts w))) budget' k"
    using Suc.prems(1) by (auto simp: stopsAt_def b')
  then show ?case
    using Suc.IH [of _ budget' "attempt + 1"] Suc.prems(2,3) e b'
    by (simp add: retryLoop.simps [of env s payload attempt] sink_post_eq [OF assms])
qed

lemma retryLoop_start:
  assumes "se_newRequest env (hs_endpoint s) = None" "0 \<le> hs_maxRetries s"
    and "stopsAt env (length (sw_posts w)) (nat (hs_maxRetries s)) k"
  shows "retryLoop env s payload 0 b None w =
      (answerError (se_do env (length (sw_posts w) + k)),
       w\<lparr>sw_posts := sw_posts w @ replicate (Suc k) (postedRequest s payload),
         sw_sleeps := sw_sleeps w @ backoffs b k\<rparr>)"
proof (cases k)
  case 0
  show ?thesis
  proof (cases "\<exists>e. answerError (se_do env (length (sw_posts w))) = Some e \<and> retryableSinkError e")
    case True
    with 0 assms have "hs_maxRetries s = 0" by (auto simp: stopsAt_def)
    with True 0 show ?thesis
      by (auto simp: retryLoop.simps [of env s payload 0] retryLoop_past sink_post_eq [OF assms(1)])
  next
    case False
    with 0 assms(2) show ?thesis
      by (auto simp: retryLoop.simps [of env s payload 0] sink_post_eq [OF assms(1)] split: option.splits)
  qed
next
  case (Suc k')
  obtain e where e: "answerError (se_do env (length (sw_posts w))) = Some e" "retryableSinkError e"
    using assms(3) Suc by (force simp: stopsAt_def)
  obtain budget' where b': "nat (hs_maxRetries s) = Suc budget'"
    using assms(3) Suc by (cases "nat (hs_maxRetries s)") (auto simp: stopsAt_def)
  have "stopsAt env (Suc (length (sw_posts w))) budget' k'"
    using assms(3) by (auto simp: stopsAt_def b' Suc)
  then show ?thesis
    using retryLoop_stops [OF assms(1), of _ budget' k' 1] e b' Suc assms(2)
    by (simp add: retryLoop.simps [of env s payload 0] sink_post_eq [OF assms(1)])
qed

text \<open>The HTTP sink posts the conversation, authorized with the configured token, until a
  post succeeds, fails for a reason that a retry cannot help (any status but 429 and the 5xx
  ones), or the retries are used up; there is exactly one such point. It waits before each retry,
  twice as long each time, succeeds exactly when its last post did, and otherwise reports that
  post's error.\<close>

theorem http_emit_retries:
  assumes "se_newRequest env (hs_endpoint s) = None" "0 \<le> hs_maxRetries s"
    and "0 < hs_initialBackoff s" "hs_initialBackoff s * 2 ^ nat (hs_maxRetries s) < 2 ^ 63"
    and "http_Emit env s payload w = (result, w')"
  shows "\<exists>k. stopsAt env (length (sw_posts w)) (nat (hs_maxRetries s)) k \<and>
    sw_posts w' = sw_posts w @ replicate (Suc k) (postedRequest s payload) \<and>
    sw_sleeps w' = sw_sleeps w @ map (\<lambda>i. hs_initialBackoff s * 2 ^ i) [0 ..< k] \<and>
    (case answerError (se_do env (length (sw_posts w) + k)) of
       None \<Rightarrow> result = EmitOk \<and> sw_letters w' = sw_letters w
     | Some e \<Rightarrow> result = EmitFailed e \<or> (\<exists>msg. result = EmitFailed (WithDeadLetterError e msg)))"
proof -
  obtain k where k: "stopsAt env (length (sw_posts w)) (nat (hs_maxRetries s)) k"
    using stopsAt_exists by blast
  have "(2::int) ^ k \<le> 2 ^ nat (hs_maxRetries s)" using k by (simp add: stopsAt_def)
  then have "hs_initialBackoff s * 2 ^ k \<le> hs_initialBackoff s * 2 ^ nat (hs_maxRetries s)"
    using assms(3) by simp
  then have b: "backoffs (hs_initialBackoff s) k = map (\<lambda>i. hs_initialBackoff s * 2 ^ i) [0 ..< k]"
    using assms(3,4) by (intro backoffs_double) linarith+
  note loop = retryLoop_start [OF assms(1,2) k, of payload "hs_initialBackoff s", unfolded b]
  show ?thesis
  proof (cases "answerError (se_do env (length (sw_posts w) + k))")
    case None
    with loop assms(2,5) have "result = EmitOk" "w' = w\<lparr>sw_posts := sw_posts w @ replicate (Suc k) (postedRequest s payload),
         sw_sleeps := sw_sleeps w @ map (\<lambda>i. hs_initialBackoff s * 2 ^ i) [0 ..< k]\<rparr>"
      by (simp_all add: http_Emit_def)
    with None k show ?thesis by auto
  next
    case (Some e)
    let ?w = "w\<lparr>sw_posts := sw_posts w @ replicate (Suc k) (postedRequest s payload),
         sw_sleeps := sw_sleeps w @ map (\<lambda>i. hs_initialBackoff s * 2 ^ i) [0 ..< k]\<rparr>"
    obtain err w2 where d: "writeDeadLetter env (hs_deadLetterFile s) outputSinkHTTP e payload ?w = (err, w2)" by force
    have "sw_posts w2 = sw_posts ?w \<and> sw_sleeps w2 = sw_sleeps ?w" using writeDeadLetter_frame [OF d] by blast
    moreover have "w' = w2" "result = EmitFailed e \<or> (\<exists>msg. result = EmitFailed (WithDeadLetterError e msg))"
      using assms(5) loop Some d by (auto simp: http_Emit_def split: option.splits)
    ultimately show ?thesis using Some k by auto
  qed
qed

definition flakyEnv :: sinkEnv where
  "flakyEnv = \<lparr>se_newRequest = (\<lambda>_. None),
     se_do = (\<lambda>n. if n = 0 then DoFailed ''refused'' else if n = 1 then Answered 503 [] else Answered 200 []),
     se_produce = (\<lambda>n. if n = 0 then DeliveryTimeout else DeliveryReport None),
     se_dir = (\<lambda>_. ''.''), se_mkdirAll = (\<lambda>_. None), se_now = (\<lambda>_. ''now''),
     se_marshalLetter = (\<lambda>l. Inr (dl_Payload l)), se_openFile = (\<lambda>_. None), se_write = (\<lambda>_ s. (s, None))\<rparr>"

definition plainSink :: httpConversationSink where
  "plainSink = \<lparr>hs_endpoint = ''http://b'', hs_agentToken = ''t'', hs_maxRetries = 3,
     hs_initialBackoff = 500, hs_deadLetterFile = ''dead''\<rparr>"

definition quietWorld :: sinkWorld where
  "quietWorld = \<lparr>sw_posts = [], sw_produced = [], sw_sleeps = [], sw_letters = [], sw_file = []\<rparr>"

theorem http_emit_retries_witness:
  "fst (http_Emit flakyEnv plainSink ''x'' quietWorld) = EmitOk \<and>
   sw_sleeps (snd (http_Emit flakyEnv plainSink ''x'' quietWorld)) = [500, 1000]"
proof -
  obtain r w' where e: "http_Emit flakyEnv plainSink ''x'' quietWorld = (r, w')" by force
  have simps: "se_newRequest flakyEnv (hs_endpoint plainSink) = None" "hs_maxRetries plainSink = 3"
    "hs_initialBackoff plainSink = 500" "sw_posts quietWorld = []" "sw_sleeps quietWorld = []" "nat 3 = 3"
    by (simp_all add: flakyEnv_def plainSink_def quietWorld_def)
  obtain k where k: "stopsAt flakyEnv 0 3 k"
    and slept: "sw_sleeps w' = map (\<lambda>i. 500 * 2 ^ i) [0 ..< k]"
    and out: "case answerError (se_do flakyEnv k) of None \<Rightarrow> r = EmitOk \<and> sw_letters w' = sw_letters quietWorld
       | Some e \<Rightarrow> r = EmitFailed e \<or> (\<exists>msg. r = EmitFailed (WithDeadLetterError e msg))"
    using http_emit_retries [of flakyEnv plainSink "''x''" quietWorld r w', unfolded simps] e by auto
  have "k = 2"
  proof -
    have "k \<le> 3" using k by (simp add: stopsAt_def)
    then have "k = 0 \<or> k = 1 \<or> k = 2 \<or> k = 3" by arith
    then show ?thesis using k
      by (auto simp: stopsAt_def flakyEnv_def answerError_def retryableSinkError_def All_less_Suc numeral_eq_Suc)
  qed
  with slept out e show ?thesis by (simp add: flakyEnv_def answerError_def numeral_eq_Suc)
qed

section \<open>The contract of a sink\<close>

text \<open>
  \<open>conversationSink\<close>, the interface of the code: a payload is delivered, or its failure is
  reported and its dead letter built when letters are recorded. What the worker hands over is
  then accounted for payload by payload.
\<close>

primrec deliverAll :: "(bytes \<Rightarrow> 'w \<Rightarrow> emitResult \<times> 'w) \<Rightarrow> bytes list \<Rightarrow> 'w \<Rightarrow> (bytes \<times> emitResult) list \<times> 'w" where
  "deliverAll emit_payload [] w = ([], w)"
| "deliverAll emit_payload (p # ps) w =
     (let (r, w1) = emit_payload p w; (rs, w2) = deliverAll emit_payload ps w1 in ((p, r) # rs, w2))"

locale conversation_sink =
  fixes emit_payload :: "bytes \<Rightarrow> 'w \<Rightarrow> emitResult \<times> 'w"
    and letters :: "'w \<Rightarrow> bytes list"
    and recording :: bool
  assumes delivered: "emit_payload p w = (EmitOk, w') \<Longrightarrow> letters w' = letters w"
    and failed: "emit_payload p w = (EmitFailed e, w') \<Longrightarrow>
      letters w' = letters w @ (if recording then [p] else [])"
    and panicked: "emit_payload p w = (EmitPanic, w') \<Longrightarrow> letters w' = letters w"
begin

lemma deliver_all: "map fst (fst (deliverAll emit_payload ps w)) = ps"
  by (induction ps arbitrary: w) (simp_all add: case_prod_beta Let_def)

lemma deliver_letters:
  "recording \<Longrightarrow> letters (snd (deliverAll emit_payload ps w)) =
     letters w @ map fst (filter (\<lambda>(p, r). \<exists>e. r = EmitFailed e) (fst (deliverAll emit_payload ps w)))"
proof (induction ps arbitrary: w)
  case (Cons p ps)
  obtain r w1 where e: "emit_payload p w = (r, w1)" by force
  obtain rs w2 where d: "deliverAll emit_payload ps w1 = (rs, w2)" by force
  have "letters w2 = letters w1 @ map fst (filter (\<lambda>(p, r). \<exists>e. r = EmitFailed e) rs)"
    using Cons.IH [OF Cons.prems, of w1] d by simp
  with e d Cons.prems delivered [of p w w1] failed [of p w _ w1] panicked [of p w w1]
  show ?case by (cases r) simp_all
qed simp

end

lemma sink_post_letters: "sink_post env s payload w = (err, w') \<Longrightarrow> sw_letters w' = sw_letters w"
  by (auto simp: sink_post_def Let_def split: option.splits httpAnswer.splits if_splits)

lemma retryLoop_letters:
  "retryLoop env s payload attempt b lastErr w = (err, w') \<Longrightarrow> sw_letters w' = sw_letters w"
proof (induction "nat (hs_maxRetries s + 1 - attempt)" arbitrary: attempt b lastErr w)
  case 0
  then show ?case by (simp add: retryLoop_past)
next
  case (Suc n)
  then have le: "attempt \<le> hs_maxRetries s" by linarith
  obtain b1 w1 where w1: "(if attempt > 0 \<and> b > 0
      then (int64 (b * 2), w\<lparr>sw_sleeps := sw_sleeps w @ [b]\<rparr>) else (b, w)) = (b1, w1)" by force
  then have l1: "sw_letters w1 = sw_letters w" by (auto split: if_splits)
  obtain e w2 where p: "sink_post env s payload w1 = (e, w2)" by force
  note step = Suc.prems [unfolded retryLoop.simps [of env s payload attempt] w1, simplified le p]
  show ?case
  proof (cases "\<exists>x. e = Some x \<and> retryableSinkError x")
    case True
    then obtain x where "retryLoop env s payload (attempt + 1) b1 (Some x) w2 = (err, w')"
      using step by (auto simp: Let_def p)
    with Suc.hyps(1) [of "attempt + 1"] Suc.hyps(2) have "sw_letters w' = sw_letters w2" by simp
    with l1 sink_post_letters [OF p] show ?thesis by simp
  next
    case False
    with step have "w' = w2" by (auto simp: Let_def p split: option.splits if_splits)
    with l1 sink_post_letters [OF p] show ?thesis by simp
  qed
qed

interpretation http_sink: conversation_sink "http_Emit env s" "\<lambda>w. map dl_Payload (sw_letters w)"
    "recordsLetters env (hs_deadLetterFile s)"
  for env s
proof (unfold_locales, goal_cases)
  case (1 p w w')
  then show ?case 
    by (auto dest: retryLoop_letters simp: http_Emit_def split: prod.splits option.splits if_splits)
next
  case (2 p w e w')
  obtain l w1 where r: "retryLoop env s p 0 (hs_initialBackoff s) None w = (l, w1)" by force
  with 2 obtain x err where "l = Some x"
    "writeDeadLetter env (hs_deadLetterFile s) outputSinkHTTP x p w1 = (err, w')"
    by (auto simp: http_Emit_def split: prod.splits option.splits if_splits)
  with writeDeadLetter_letters [of env "hs_deadLetterFile s" outputSinkHTTP x p w1 err w']
    retryLoop_letters [OF r]
  show ?case by simp
next
  case (3 p w w')
  then show ?case 
    by (auto dest: retryLoop_letters simp: http_Emit_def split: prod.splits option.splits if_splits)
qed

interpretation kafka_sink: conversation_sink "kafka_Emit env s" "\<lambda>w. map dl_Payload (sw_letters w)"
    "recordsLetters env (ks_deadLetterFile s)"
  for env s
proof (unfold_locales, goal_cases)
  case (1 p w w')
  then show ?case by (auto simp: kafka_Emit_def Let_def split: kafkaAnswer.splits option.splits)
next
  case (2 p w e w')
  let ?w = "w\<lparr>sw_produced := sw_produced w @ [p]\<rparr>"
  have "\<exists>x. w' = snd (writeDeadLetter env (ks_deadLetterFile s) outputSinkKafka x p ?w)"
    using 2 by (auto simp: kafka_Emit_def Let_def split: kafkaAnswer.splits option.splits)
  then obtain x where "w' = snd (writeDeadLetter env (ks_deadLetterFile s) outputSinkKafka x p ?w)" by blast
  then show ?case
    using writeDeadLetter_letters [of env "ks_deadLetterFile s" outputSinkKafka x p ?w] 
    by (cases "writeDeadLetter env (ks_deadLetterFile s) outputSinkKafka x p ?w") simp
next
  case (3 p w w')
  then show ?case by (auto simp: kafka_Emit_def Let_def split: kafkaAnswer.splits option.splits)
qed

text \<open>With a usable dead-letter file, the HTTP sink accounts for every conversation: over any
  sequence of them, the payloads of the dead letters are exactly those whose delivery was reported
  as failed, in order; no delivered conversation leaves a letter and no failure is silent.\<close>

theorem http_failures_recorded:
  assumes "recordsLetters env (hs_deadLetterFile s)"
    and "deliverAll (http_Emit env s) payloads w = (results, w')"
  shows "map fst results = payloads \<and>
    map dl_Payload (sw_letters w') = map dl_Payload (sw_letters w) @
      map fst (filter (\<lambda>(p, r). \<exists>e. r = EmitFailed e) results)"
  using http_sink.deliver_all [of env s payloads w] http_sink.deliver_letters [OF assms(1), of payloads w] assms(2)
  by simp

theorem http_failures_recorded_witness:
  "let (results, w') = deliverAll (http_Emit flakyEnv (plainSink\<lparr>hs_maxRetries := 0\<rparr>)) [''x'', ''y'', ''z''] quietWorld
   in map dl_Payload (sw_letters w') = [''x'', ''y''] \<and> map fst results = [''x'', ''y'', ''z'']"
proof -
  let ?s = "plainSink\<lparr>hs_maxRetries := 0\<rparr>"
  obtain results w' where d: "deliverAll (http_Emit flakyEnv ?s) [''x'', ''y'', ''z''] quietWorld = (results, w')"
    by force
  have "recordsLetters flakyEnv (hs_deadLetterFile ?s)"
    by (simp add: recordsLetters_def flakyEnv_def plainSink_def)
  note all = http_failures_recorded [OF this d]
  have "map fst (filter (\<lambda>(p, r). case r of EmitFailed e \<Rightarrow> True | _ \<Rightarrow> False)
      (fst (deliverAll (http_Emit flakyEnv ?s) [''x'', ''y'', ''z''] quietWorld))) = [''x'', ''y'']" by code_simp
  moreover have "(case r of EmitFailed e \<Rightarrow> True | _ \<Rightarrow> False) = (\<exists>e. r = EmitFailed e)" for r
    by (cases r) auto
  ultimately show ?thesis using all d by (simp add: quietWorld_def)
qed

text \<open>The same of the Kafka sink: a failed produce, an unexpected report, a report with an error
  and a timeout each build the dead letter of their payload, a delivery report without error none.\<close>

theorem kafka_failures_recorded:
  assumes "recordsLetters env (ks_deadLetterFile s)"
    and "deliverAll (kafka_Emit env s) payloads w = (results, w')"
  shows "map fst results = payloads \<and>
    map dl_Payload (sw_letters w') = map dl_Payload (sw_letters w) @
      map fst (filter (\<lambda>(p, r). \<exists>e. r = EmitFailed e) results)"
  using kafka_sink.deliver_all [of env s payloads w] kafka_sink.deliver_letters [OF assms(1), of payloads w] assms(2)
  by simp

theorem kafka_failures_recorded_witness:
  "let (results, w') = deliverAll (kafka_Emit flakyEnv \<lparr>ks_topic = ''t'', ks_timeoutText = ''10s'', ks_deadLetterFile = ''dead''\<rparr>)
       [''x'', ''y''] quietWorld
   in map dl_Payload (sw_letters w') = map fst (filter (\<lambda>(p, r). \<exists>e. r = EmitFailed e) results) \<and>
      map snd results = [EmitFailed (PlainError ''kafka delivery timed out after 10s''), EmitOk]"
proof -
  let ?s = "\<lparr>ks_topic = ''t'', ks_timeoutText = ''10s'', ks_deadLetterFile = ''dead''\<rparr>"
  obtain results w' where d: "deliverAll (kafka_Emit flakyEnv ?s) [''x'', ''y''] quietWorld = (results, w')" by force
  have "recordsLetters flakyEnv (ks_deadLetterFile ?s)" by (simp add: recordsLetters_def flakyEnv_def)
  note all = kafka_failures_recorded [OF this d]
  have "map snd (fst (deliverAll (kafka_Emit flakyEnv ?s) [''x'', ''y''] quietWorld)) =
      [EmitFailed (PlainError ''kafka delivery timed out after 10s''), EmitOk]" by code_simp
  with all d show ?thesis by (simp add: quietWorld_def)
qed

end
