(* ===== verification/WorkerConfig.thy ===== *)
theory WorkerConfig
  imports Sink
begin

text \<open>
  The worker's configuration, \<^verbatim>\<open>cmd/worker/config.go\<close>: the flags with their defaults
  from \<^verbatim>\<open>cmd/worker/model.go\<close>, their validation, and what every accepted
  configuration guarantees to the sink. Durations are nanoseconds. \<open>getenv\<close> is
  \<open>os.Getenv\<close>; \<open>parseURL\<close> is \<open>url.ParseRequestURI\<close>, giving the scheme and the host.
\<close>

section \<open>Flags\<close>

record flags =
  fl_bootstrap :: bytes
  fl_topic :: bytes
  fl_groupID :: bytes
  fl_offsetReset :: bytes
  fl_sessionTTL :: duration
  fl_statsInterval :: duration
  fl_maxBodyBytes :: int
  fl_maxStreamBytes :: int
  fl_pretty :: bool
  fl_debugPayload :: bool
  fl_outputContract :: bytes
  fl_outputSink :: bytes
  fl_ingestURL :: bytes
  fl_accountToken :: bytes
  fl_backendURL :: bytes
  fl_agentToken :: bytes
  fl_agentID :: bytes
  fl_httpTimeout :: duration
  fl_httpMaxRetries :: int
  fl_httpRetryDelay :: duration
  fl_deadLetterFile :: bytes
  fl_outputTopic :: bytes
  fl_outputBootstrap :: bytes

definition envString :: "(bytes \<Rightarrow> bytes) \<Rightarrow> bytes \<Rightarrow> bytes \<Rightarrow> bytes" where
  "envString getenv key fallback = (if getenv key \<noteq> [] then getenv key else fallback)"

definition second :: duration where "second = 1000000000"

definition defaultFlags :: "(bytes \<Rightarrow> bytes) \<Rightarrow> flags" where
  "defaultFlags getenv = \<lparr>
     fl_bootstrap = ''localhost:9092'',
     fl_topic = ''raw-network-traffic'',
     fl_groupID = ''raven-worker-group'',
     fl_offsetReset = ''latest'',
     fl_sessionTTL = 60 * second,
     fl_statsInterval = 10 * second,
     fl_maxBodyBytes = 1024 * 1024,
     fl_maxStreamBytes = 8 * 1024 * 1024,
     fl_pretty = True,
     fl_debugPayload = False,
     fl_outputContract = ''normalized'',
     fl_outputSink = envString getenv ''KARAXYS_OUTPUT_SINK'' outputSinkStdout,
     fl_ingestURL = getenv ''KARAXYS_INGEST_URL'',
     fl_accountToken = getenv ''KARAXYS_ACCOUNT_TOKEN'',
     fl_backendURL = getenv ''KARAXYS_BACKEND_URL'',
     fl_agentToken = getenv ''KARAXYS_AGENT_TOKEN'',
     fl_agentID = getenv ''KARAXYS_AGENT_ID'',
     fl_httpTimeout = 10 * second,
     fl_httpMaxRetries = 3,
     fl_httpRetryDelay = 500000000,
     fl_deadLetterFile = getenv ''KARAXYS_DEAD_LETTER_FILE'',
     fl_outputTopic = envString getenv ''KARAXYS_OUTPUT_TOPIC'' ''karaxys.http.conversations'',
     fl_outputBootstrap = getenv ''KARAXYS_OUTPUT_KAFKA_BOOTSTRAP''\<rparr>"

section \<open>Validation\<close>

text \<open>The \<open>log.Fatalf\<close> that the process exits with.\<close>

datatype configError =
    InvalidOffsetReset bytes
  | MaxBodyBytesNotPositive
  | MaxStreamBytesNotPositive
  | InvalidOutputContract bytes
  | InvalidOutputSink bytes
  | HttpTimeoutNotPositive
  | HttpMaxRetriesNegative
  | HttpRetryDelayNegative
  | HttpNeedsNormalized
  | HttpNeedsAuth
  | IngestURLRequired
  | AccountTokenRequired
  | IngestURLNotAbsolute bytes
  | IngestURLScheme bytes
  | BackendURLRequired
  | BackendURLNotAbsolute bytes
  | BackendURLScheme bytes
  | AgentTokenRequired
  | OutputTopicRequired

definition checkURL ::
  "(bytes \<Rightarrow> (bytes \<times> bytes) option) \<Rightarrow> (bytes \<Rightarrow> configError) \<Rightarrow> (bytes \<Rightarrow> configError) \<Rightarrow> bytes \<Rightarrow>
     configError option" where
  "checkURL parseURL notAbsolute badScheme u =
     (case parseURL u of
        None \<Rightarrow> Some (notAbsolute u)
      | Some (scheme, host) \<Rightarrow>
          if scheme = [] \<or> host = [] then Some (notAbsolute u)
          else if scheme \<noteq> ''http'' \<and> scheme \<noteq> ''https'' then Some (badScheme scheme)
          else None)"

definition checkHTTPAuth :: "(bytes \<Rightarrow> (bytes \<times> bytes) option) \<Rightarrow> flags \<Rightarrow> configError option" where
  "checkHTTPAuth parseURL f =
     (if fl_outputContract f \<noteq> ''normalized'' then Some HttpNeedsNormalized
      else let usingNewMode = fl_ingestURL f \<noteq> [] \<or> fl_accountToken f \<noteq> [];
               usingLegacyMode = fl_backendURL f \<noteq> [] \<or> fl_agentToken f \<noteq> []
      in if \<not> usingNewMode \<and> \<not> usingLegacyMode then Some HttpNeedsAuth
         else if usingNewMode then
           (if fl_ingestURL f = [] then Some IngestURLRequired
            else if fl_accountToken f = [] then Some AccountTokenRequired
            else checkURL parseURL IngestURLNotAbsolute IngestURLScheme (fl_ingestURL f))
         else
           (if fl_backendURL f = [] then Some BackendURLRequired
            else case checkURL parseURL BackendURLNotAbsolute BackendURLScheme (fl_backendURL f) of
                   Some err \<Rightarrow> Some err
                 | None \<Rightarrow> if fl_agentToken f = [] then Some AgentTokenRequired else None))"

definition checkFlags :: "(bytes \<Rightarrow> (bytes \<times> bytes) option) \<Rightarrow> flags \<Rightarrow> configError option" where
  "checkFlags parseURL f =
     (if fl_offsetReset f \<noteq> ''latest'' \<and> fl_offsetReset f \<noteq> ''earliest''
      then Some (InvalidOffsetReset (fl_offsetReset f))
      else if fl_maxBodyBytes f \<le> 0 then Some MaxBodyBytesNotPositive
      else if fl_maxStreamBytes f \<le> 0 then Some MaxStreamBytesNotPositive
      else if fl_outputContract f \<noteq> ''normalized'' \<and> fl_outputContract f \<noteq> ''legacy'' \<and>
              fl_outputContract f \<noteq> ''both'' then Some (InvalidOutputContract (fl_outputContract f))
      else if fl_outputSink f \<noteq> outputSinkStdout \<and> fl_outputSink f \<noteq> outputSinkHTTP \<and>
              fl_outputSink f \<noteq> outputSinkKafka then Some (InvalidOutputSink (fl_outputSink f))
      else if fl_httpTimeout f \<le> 0 then Some HttpTimeoutNotPositive
      else if fl_httpMaxRetries f < 0 then Some HttpMaxRetriesNegative
      else if fl_httpRetryDelay f < 0 then Some HttpRetryDelayNegative
      else case (if fl_outputSink f = outputSinkHTTP then checkHTTPAuth parseURL f else None) of
             Some err \<Rightarrow> Some err
           | None \<Rightarrow>
               if fl_outputSink f = outputSinkKafka \<and> fl_outputTopic f = [] then Some OutputTopicRequired
               else None)"

text \<open>The flags after parsing; \<open>cfg_sink\<close>, set by \<open>main\<close>, is False here.\<close>

definition parseConfig :: "(bytes \<Rightarrow> (bytes \<times> bytes) option) \<Rightarrow> flags \<Rightarrow> configError + config" where
  "parseConfig parseURL f =
     (case checkFlags parseURL f of
        Some err \<Rightarrow> Inl err
      | None \<Rightarrow> Inr \<lparr>
          cfg_bootstrapServers = fl_bootstrap f, cfg_topic = fl_topic f, cfg_groupID = fl_groupID f,
          cfg_offsetReset = fl_offsetReset f, cfg_sessionTTL = fl_sessionTTL f,
          cfg_statsInterval = fl_statsInterval f, cfg_maxBodyBytes = fl_maxBodyBytes f,
          cfg_maxStreamBytes = fl_maxStreamBytes f, cfg_prettyOutput = fl_pretty f,
          cfg_debugPayload = fl_debugPayload f, cfg_outputContract = fl_outputContract f,
          cfg_outputSink = fl_outputSink f, cfg_backendURL = fl_backendURL f,
          cfg_agentToken = fl_agentToken f, cfg_ingestURL = fl_ingestURL f,
          cfg_accountToken = fl_accountToken f, cfg_agentID = fl_agentID f,
          cfg_httpTimeout = fl_httpTimeout f, cfg_httpMaxRetries = fl_httpMaxRetries f,
          cfg_httpRetryDelay = fl_httpRetryDelay f, cfg_deadLetterFile = fl_deadLetterFile f,
          cfg_outputTopic = fl_outputTopic f,
          cfg_outputBootstrap = (if fl_outputBootstrap f = [] then fl_bootstrap f else fl_outputBootstrap f),
          cfg_sink = False\<rparr>)"

section \<open>What an accepted configuration guarantees\<close>

lemma checkURL_None:
  "checkURL parseURL a b u = None \<longleftrightarrow>
     (\<exists>scheme host. parseURL u = Some (scheme, host) \<and> host \<noteq> [] \<and> (scheme = ''http'' \<or> scheme = ''https''))"
  by (auto simp: checkURL_def split: option.splits)

lemma checkHTTPAuth_None:
  assumes "checkHTTPAuth parseURL f = None"
  shows "fl_outputContract f = ''normalized''"
    "fl_ingestURL f \<noteq> [] \<and> fl_accountToken f \<noteq> [] \<and> checkURL parseURL IngestURLNotAbsolute IngestURLScheme (fl_ingestURL f) = None \<or>
     fl_ingestURL f = [] \<and> fl_accountToken f = [] \<and> fl_backendURL f \<noteq> [] \<and> fl_agentToken f \<noteq> [] \<and>
       checkURL parseURL BackendURLNotAbsolute BackendURLScheme (fl_backendURL f) = None"
  using assms by (auto simp: checkHTTPAuth_def Let_def split: if_splits option.splits)

lemma checkFlags_None:
  assumes "checkFlags parseURL f = None"
  shows "0 < fl_maxBodyBytes f" "0 < fl_maxStreamBytes f" "0 \<le> fl_httpMaxRetries f" "0 \<le> fl_httpRetryDelay f"
    "fl_outputSink f = outputSinkHTTP \<Longrightarrow> checkHTTPAuth parseURL f = None"
    "fl_outputSink f \<in> {outputSinkStdout, outputSinkHTTP, outputSinkKafka}"
  using assms by (auto simp: checkFlags_def split: if_splits option.splits)

text \<open>A configuration that validation accepts is safe to run: the buffer limits are positive, and
  with the HTTP sink the resolved endpoint belongs to an absolute http or https URL that the operator
  configured, the token is the one configured with that URL and not empty, only normalized records
  are posted, and an emit never panics on a missing error.\<close>

theorem accepted_config_safe:
  assumes "parseConfig parseURL f = Inr cfg"
  shows "0 < cfg_maxBodyBytes cfg \<and> 0 < cfg_maxStreamBytes cfg \<and>
    (cfg_outputSink cfg = outputSinkHTTP \<longrightarrow> cfg_outputContract cfg = ''normalized'' \<and>
      (\<exists>endpoint token base scheme host s. resolveHTTPSinkAuth cfg = (endpoint, token) \<and> token \<noteq> [] \<and>
        (base, token) \<in> {(fl_ingestURL f, fl_accountToken f), (fl_backendURL f, fl_agentToken f)} \<and>
        endpoint \<in> {base, backendIngestEndpoint base} \<and>
        parseURL base = Some (scheme, host) \<and> host \<noteq> [] \<and> (scheme = ''http'' \<or> scheme = ''https'') \<and>
        newConversationSink newProducer durationText cfg = Inr (HTTPSink s) \<and>
        hs_endpoint s = endpoint \<and> hs_agentToken s = token \<and>
        (\<forall>env payload w. fst (http_Emit env s payload w) \<noteq> EmitPanic)))"
proof -
  have ok: "checkFlags parseURL f = None" using assms by (auto simp: parseConfig_def split: option.splits)
  have cfg: "cfg_maxBodyBytes cfg = fl_maxBodyBytes f" "cfg_maxStreamBytes cfg = fl_maxStreamBytes f"
    "cfg_outputSink cfg = fl_outputSink f" "cfg_outputContract cfg = fl_outputContract f"
    "cfg_ingestURL cfg = fl_ingestURL f" "cfg_accountToken cfg = fl_accountToken f"
    "cfg_backendURL cfg = fl_backendURL f" "cfg_agentToken cfg = fl_agentToken f"
    "cfg_httpMaxRetries cfg = fl_httpMaxRetries f"
    using assms ok by (auto simp: parseConfig_def)
  have "cfg_outputContract cfg = ''normalized'' \<and>
      (\<exists>endpoint token base scheme host s. resolveHTTPSinkAuth cfg = (endpoint, token) \<and> token \<noteq> [] \<and>
        (base, token) \<in> {(fl_ingestURL f, fl_accountToken f), (fl_backendURL f, fl_agentToken f)} \<and>
        endpoint \<in> {base, backendIngestEndpoint base} \<and>
        parseURL base = Some (scheme, host) \<and> host \<noteq> [] \<and> (scheme = ''http'' \<or> scheme = ''https'') \<and>
        newConversationSink newProducer durationText cfg = Inr (HTTPSink s) \<and>
        hs_endpoint s = endpoint \<and> hs_agentToken s = token \<and>
        (\<forall>env payload w. fst (http_Emit env s payload w) \<noteq> EmitPanic))"
    if http: "cfg_outputSink cfg = outputSinkHTTP"
  proof -
    have auth: "checkHTTPAuth parseURL f = None" using checkFlags_None(5) [OF ok] http cfg by simp
    obtain endpoint token where r: "resolveHTTPSinkAuth cfg = (endpoint, token)" by force
    define s where "s = \<lparr>hs_endpoint = endpoint, hs_agentToken = token, hs_maxRetries = cfg_httpMaxRetries cfg,
           hs_initialBackoff = cfg_httpRetryDelay cfg, hs_deadLetterFile = cfg_deadLetterFile cfg\<rparr>"
    have new: "newConversationSink newProducer durationText cfg = Inr (HTTPSink s)"
      by (simp add: newConversationSink_def http r s_def outputSinkHTTP_def outputSinkStdout_def)
    have "0 \<le> hs_maxRetries s" using checkFlags_None(3) [OF ok] cfg by (simp add: s_def)
    then have "fst (http_Emit env s payload w) \<noteq> EmitPanic" for env payload w
      by (simp add: http_Emit_def case_prod_beta Let_def split: option.splits)
    moreover have "\<exists>base scheme host. token \<noteq> [] \<and>
        (base, token) \<in> {(fl_ingestURL f, fl_accountToken f), (fl_backendURL f, fl_agentToken f)} \<and>
        endpoint \<in> {base, backendIngestEndpoint base} \<and>
        parseURL base = Some (scheme, host) \<and> host \<noteq> [] \<and> (scheme = ''http'' \<or> scheme = ''https'')"
      using checkHTTPAuth_None(2) [OF auth]
    proof (elim disjE conjE)
      assume a: "fl_ingestURL f \<noteq> []" "fl_accountToken f \<noteq> []"
        "checkURL parseURL IngestURLNotAbsolute IngestURLScheme (fl_ingestURL f) = None"
      then have "endpoint = fl_ingestURL f" "token = fl_accountToken f"
        using r by (simp_all add: resolveHTTPSinkAuth_def cfg)
      with a(2) a(3) [unfolded checkURL_None] show ?thesis by auto
    next
      assume a: "fl_ingestURL f = []" "fl_agentToken f \<noteq> []"
        "checkURL parseURL BackendURLNotAbsolute BackendURLScheme (fl_backendURL f) = None"
      then have "endpoint = backendIngestEndpoint (fl_backendURL f)" "token = fl_agentToken f"
        using r by (simp_all add: resolveHTTPSinkAuth_def cfg)
      with a(2) a(3) [unfolded checkURL_None] show ?thesis by auto
    qed
    moreover have "hs_endpoint s = endpoint" "hs_agentToken s = token" by (simp_all add: s_def)
    ultimately show ?thesis using r new checkHTTPAuth_None(1) [OF auth] cfg by metis
  qed
  with checkFlags_None(1,2) [OF ok] cfg show ?thesis by simp
qed

definition httpFlags :: flags where
  "httpFlags = (defaultFlags (\<lambda>_. []))\<lparr>fl_outputSink := ''http'', fl_ingestURL := ''https://k/ingest'',
     fl_accountToken := ''secret''\<rparr>"

theorem accepted_config_safe_witness:
  "\<exists>cfg. parseConfig (\<lambda>_. Some (''https'', ''k'')) httpFlags = Inr cfg \<and> 0 < cfg_maxStreamBytes cfg"
proof -
  have "checkFlags (\<lambda>_. Some (''https'', ''k'')) httpFlags = None" by code_simp
  then obtain cfg where c: "parseConfig (\<lambda>_. Some (''https'', ''k'')) httpFlags = Inr cfg"
    by (simp add: parseConfig_def)
  with accepted_config_safe [OF c] show ?thesis by blast
qed

end
