(* ===== verification/Producer.thy ===== *)
theory Producer
  imports Model Base64 "HOL-Library.Multiset"
begin

text \<open>
  The agent's producer, \<^verbatim>\<open>cmd/agent/producer.go\<close>: a bounded queue before Kafka with a
  backpressure mode, a disk spool for what cannot be queued or produced, and a circuit breaker
  that spools while the brokers are down. A Go channel is a list, its capacity a number; each
  \<open>select\<close> with a default is one test of that list. The messages that Kafka's client
  accepted are recorded in \<open>qp_accepted\<close>.
\<close>

section \<open>Counters\<close>

record agentStats =
  as_ringRecords :: u64
  as_decodedEvents :: u64
  as_decodeErrors :: u64
  as_dataEvents :: u64
  as_closeEvents :: u64
  as_socketEvents :: u64
  as_skippedNoise :: u64
  as_skippedFDFilter :: u64
  as_metadataMisses :: u64
  as_metadataCacheHits :: u64
  as_metadataProcHits :: u64
  as_metadataProcMisses :: u64
  as_kernelTupleFallbacks :: u64
  as_truncatedEvents :: u64
  as_bytesCaptured :: u64
  as_marshalErrors :: u64
  as_produceErrors :: u64
  as_produceQueueFull :: u64
  as_kafkaErrors :: u64
  as_brokerUnavailableEvents :: u64
  as_brokerCircuitSpool :: u64
  as_localQueueEnqueued :: u64
  as_localQueueDropped :: u64
  as_produceAttempts :: u64
  as_deliveryFailures :: u64
  as_deliverySuccesses :: u64
  as_spoolWrites :: u64
  as_spoolWriteErrors :: u64
  as_spoolReplayed :: u64
  as_spoolRetained :: u64
  as_ringReadErrors :: u64

definition zeroAgentStats :: agentStats where
  "zeroAgentStats = \<lparr>as_ringRecords = 0, as_decodedEvents = 0, as_decodeErrors = 0, as_dataEvents = 0,
     as_closeEvents = 0, as_socketEvents = 0, as_skippedNoise = 0, as_skippedFDFilter = 0,
     as_metadataMisses = 0, as_metadataCacheHits = 0, as_metadataProcHits = 0, as_metadataProcMisses = 0,
     as_kernelTupleFallbacks = 0, as_truncatedEvents = 0, as_bytesCaptured = 0, as_marshalErrors = 0,
     as_produceErrors = 0, as_produceQueueFull = 0, as_kafkaErrors = 0, as_brokerUnavailableEvents = 0,
     as_brokerCircuitSpool = 0, as_localQueueEnqueued = 0, as_localQueueDropped = 0,
     as_produceAttempts = 0, as_deliveryFailures = 0, as_deliverySuccesses = 0, as_spoolWrites = 0,
     as_spoolWriteErrors = 0, as_spoolReplayed = 0, as_spoolRetained = 0, as_ringReadErrors = 0\<rparr>"

section \<open>The disk spool\<close>

record queuedKafkaMessage =
  km_key :: bytes
  km_value :: bytes

record spooledKafkaMessage =
  sm_CreatedAt :: bytes
  sm_Reason :: bytes
  sm_Key :: bytes
  sm_Value :: bytes

text \<open>\<open>json.Marshal\<close> and \<open>json.Unmarshal\<close> of a spooled record, and the RFC 3339 clock.\<close>

record spoolLib =
  sl_marshal :: "spooledKafkaMessage \<Rightarrow> bytes"
  sl_unmarshal :: "bytes \<Rightarrow> spooledKafkaMessage option"
  sl_now :: "time \<Rightarrow> bytes"

text \<open>What the file system does to one operation; \<open>fs_write = Some n\<close> is an error after \<open>n\<close> bytes.\<close>

record spoolFaults =
  fs_stat :: bool
  fs_openAppend :: bool
  fs_write :: "nat option"
  fs_openRead :: bool
  fs_truncate :: bool

definition noFaults :: spoolFaults where
  "noFaults = \<lparr>fs_stat = False, fs_openAppend = False, fs_write = None, fs_openRead = False, fs_truncate = False\<rparr>"

text \<open>The file is \<open>None\<close> while it does not exist.\<close>

record diskSpool =
  ds_file :: "bytes option"
  ds_maxBytes :: int

definition newDiskSpool :: "(bytes \<Rightarrow> bytes) \<Rightarrow> (bytes \<Rightarrow> bool) \<Rightarrow> bytes option \<Rightarrow> bytes \<Rightarrow> int \<Rightarrow> unit + diskSpool option" where
  "newDiskSpool clean mkdirFails existing path maxBytes =
     (let path1 = clean path in
      if path1 = ''.'' \<or> path1 = [] then Inr None
      else if mkdirFails path1 then Inl ()
      else Inr (Some \<lparr>ds_file = existing,
        ds_maxBytes = (if maxBytes \<le> 0 then 128 * 1024 * 1024 else maxBytes)\<rparr>))"

definition spool_size :: "spoolFaults \<Rightarrow> diskSpool \<Rightarrow> int option" where
  "spool_size faults s =
     (case ds_file s of
        None \<Rightarrow> Some 0
      | Some content \<Rightarrow> if fs_stat faults then None else Some (int (length content)))"

definition enforceLimit :: "spoolFaults \<Rightarrow> diskSpool \<Rightarrow> bool \<times> diskSpool" where
  "enforceLimit faults s =
     (case ds_file s of
        None \<Rightarrow> (True, s)
      | Some content \<Rightarrow>
          if fs_stat faults then (False, s)
          else if int (length content) < ds_maxBytes s then (True, s)
          else if fs_truncate faults then (False, s)
          else (True, s\<lparr>ds_file := Some []\<rparr>))"

definition spoolRecord :: "spoolLib \<Rightarrow> time \<Rightarrow> bytes \<Rightarrow> queuedKafkaMessage \<Rightarrow> spooledKafkaMessage" where
  "spoolRecord lib now reason msg = \<lparr>sm_CreatedAt = sl_now lib now, sm_Reason = reason,
     sm_Key = b64_encode (km_key msg), sm_Value = b64_encode (km_value msg)\<rparr>"

definition fileContent :: "diskSpool \<Rightarrow> bytes" where
  "fileContent s = (case ds_file s of None \<Rightarrow> [] | Some content \<Rightarrow> content)"

definition spool_write ::
  "spoolLib \<Rightarrow> spoolFaults \<Rightarrow> time \<Rightarrow> bytes \<Rightarrow> queuedKafkaMessage \<Rightarrow> diskSpool \<Rightarrow> bool \<times> diskSpool" where
  "spool_write lib faults now reason msg s =
     (let (ok, s1) = enforceLimit faults s in
      if \<not> ok then (False, s1)
      else let line = sl_marshal lib (spoolRecord lib now reason msg) @ [CHR 0x0A] in
        if fs_openAppend faults then (False, s1)
        else case fs_write faults of
               Some n \<Rightarrow> (False, s1\<lparr>ds_file := Some (fileContent s1 @ take n line)\<rparr>)
             | None \<Rightarrow> (True, s1\<lparr>ds_file := Some (fileContent s1 @ line)\<rparr>))"

text \<open>\<open>bufio.ScanLines\<close>: lines without their newline and one carriage return before it; a last
  line without newline counts when it is not empty.\<close>

definition drop_cr :: "bytes \<Rightarrow> bytes" where
  "drop_cr line = (if line \<noteq> [] \<and> last line = CHR 0x0D then butlast line else line)"

definition raw_lines :: "bytes \<Rightarrow> bytes list" where
  "raw_lines content = (let parts = split_on (CHR 0x0A) content in
     if last parts = [] then butlast parts else parts)"

definition scannerLimit :: int where
  "scannerLimit = 16 * 1024 * 1024"

definition spooledMessage :: "spoolLib \<Rightarrow> bytes \<Rightarrow> queuedKafkaMessage option" where
  "spooledMessage lib line =
     (case sl_unmarshal lib line of
        None \<Rightarrow> None
      | Some record \<Rightarrow>
          (let (val, ok) = b64_decode (sm_Value record) in
           if \<not> ok \<or> val = [] then None
           else Some \<lparr>km_key = fst (b64_decode (sm_Key record)), km_value = val\<rparr>))"

definition spool_readAll :: "spoolLib \<Rightarrow> spoolFaults \<Rightarrow> diskSpool \<Rightarrow> queuedKafkaMessage list option" where
  "spool_readAll lib faults s =
     (case ds_file s of
        None \<Rightarrow> Some []
      | Some content \<Rightarrow>
          if fs_openRead faults then None
          else if list_ex (\<lambda>line. int (length line) \<ge> scannerLimit) (raw_lines content) then None
          else Some (List.map_filter (spooledMessage lib) (map drop_cr (raw_lines content))))"

definition spool_drainAll ::
  "spoolLib \<Rightarrow> spoolFaults \<Rightarrow> diskSpool \<Rightarrow> queuedKafkaMessage list option \<times> diskSpool" where
  "spool_drainAll lib faults s =
     (case spool_readAll lib faults s of
        None \<Rightarrow> (None, s)
      | Some messages \<Rightarrow>
          if messages = [] then (Some [], s)
          else if fs_truncate faults then (None, s)
          else (Some messages, s\<lparr>ds_file := Some []\<rparr>))"

section \<open>The queued producer\<close>

datatype backpressureMode = backpressureBestEffort | backpressureStrict | backpressureDropNewest | backpressureDropOldest

definition parseBackpressureMode :: "bytes \<Rightarrow> backpressureMode option" where
  "parseBackpressureMode raw =
     (if raw = ''best-effort'' then Some backpressureBestEffort
      else if raw = ''strict'' then Some backpressureStrict
      else if raw = ''drop-newest'' then Some backpressureDropNewest
      else if raw = ''drop-oldest'' then Some backpressureDropOldest
      else None)"

record queuedProducer =
  qp_mode :: backpressureMode
  qp_queue :: "queuedKafkaMessage list"
  qp_capacity :: nat
  qp_stats :: agentStats
  qp_spool :: "diskSpool option"
  qp_circuitBreakerDuration :: duration
  qp_brokerDownUntil :: time
  qp_accepted :: "queuedKafkaMessage list"

definition spoolMessage ::
  "spoolLib \<Rightarrow> spoolFaults \<Rightarrow> time \<Rightarrow> bytes \<Rightarrow> queuedKafkaMessage \<Rightarrow> queuedProducer \<Rightarrow> queuedProducer" where
  "spoolMessage lib faults now reason msg q =
     (case qp_spool q of
        None \<Rightarrow> q
      | Some s \<Rightarrow>
          (let (ok, s1) = spool_write lib faults now reason msg s in
           if ok
           then q\<lparr>qp_spool := Some s1, qp_stats := (qp_stats q)\<lparr>as_spoolWrites := as_spoolWrites (qp_stats q) + 1\<rparr>\<rparr>
           else q\<lparr>qp_spool := Some s1,
             qp_stats := (qp_stats q)\<lparr>as_spoolWriteErrors := as_spoolWriteErrors (qp_stats q) + 1\<rparr>\<rparr>))"

text \<open>One \<open>select\<close> that sends or takes the default.\<close>

definition trySend :: "queuedKafkaMessage \<Rightarrow> queuedProducer \<Rightarrow> queuedProducer option" where
  "trySend msg q =
     (if length (qp_queue q) < qp_capacity q
      then Some (q\<lparr>qp_queue := qp_queue q @ [msg],
        qp_stats := (qp_stats q)\<lparr>as_localQueueEnqueued := as_localQueueEnqueued (qp_stats q) + 1\<rparr>\<rparr>)
      else None)"

definition dropOne :: "queuedProducer \<Rightarrow> queuedProducer" where
  "dropOne q = q\<lparr>qp_stats := (qp_stats q)\<lparr>as_localQueueDropped := as_localQueueDropped (qp_stats q) + 1\<rparr>\<rparr>"

text \<open>
  \<open>between\<close> is what the other goroutines do to the queue between two selects of one
  submission. A strict submission blocks while the queue is full: the result is \<open>None\<close>.
\<close>

definition submit ::
  "spoolLib \<Rightarrow> spoolFaults \<Rightarrow> time \<Rightarrow> (queuedKafkaMessage list \<Rightarrow> queuedKafkaMessage list) \<Rightarrow>
     queuedKafkaMessage \<Rightarrow> queuedProducer \<Rightarrow> queuedProducer option" where
  "submit lib faults now between msg q =
     (case qp_mode q of
        backpressureStrict \<Rightarrow> trySend msg q
      | backpressureDropOldest \<Rightarrow>
          (case trySend msg q of
             Some q1 \<Rightarrow> Some q1
           | None \<Rightarrow>
               (let q1 = q\<lparr>qp_queue := between (qp_queue q)\<rparr>;
                    q2 = (case qp_queue q1 of [] \<Rightarrow> q1 | _ # rest \<Rightarrow> dropOne (q1\<lparr>qp_queue := rest\<rparr>));
                    q3 = q2\<lparr>qp_queue := between (qp_queue q2)\<rparr>
                in case trySend msg q3 of
                     Some q4 \<Rightarrow> Some q4
                   | None \<Rightarrow> Some (spoolMessage lib faults now ''local_queue_full'' msg (dropOne q3))))
      | _ \<Rightarrow>
          (case trySend msg q of
             Some q1 \<Rightarrow> Some q1
           | None \<Rightarrow> Some (spoolMessage lib faults now ''local_queue_full'' msg (dropOne q))))"

section \<open>The circuit breaker\<close>

definition brokerUnavailable :: "time \<Rightarrow> queuedProducer \<Rightarrow> bool" where
  "brokerUnavailable now q \<longleftrightarrow> qp_brokerDownUntil q > 0 \<and> now < qp_brokerDownUntil q"

definition markBrokerUnavailable :: "time \<Rightarrow> queuedProducer \<Rightarrow> queuedProducer" where
  "markBrokerUnavailable now q =
     (if qp_circuitBreakerDuration q \<le> 0 then q
      else let wasUnavailable = brokerUnavailable now q;
               until = now + qp_circuitBreakerDuration q;
               q1 = (if qp_brokerDownUntil q \<ge> until then q else q\<lparr>qp_brokerDownUntil := until\<rparr>)
           in if \<not> wasUnavailable
              then q1\<lparr>qp_stats := (qp_stats q1)\<lparr>as_brokerUnavailableEvents := as_brokerUnavailableEvents (qp_stats q1) + 1\<rparr>\<rparr>
              else q1)"

definition markBrokerAvailable :: "queuedProducer \<Rightarrow> queuedProducer" where
  "markBrokerAvailable q = q\<lparr>qp_brokerDownUntil := 0\<rparr>"

section \<open>Producing\<close>

datatype produceOutcome = Accepted | QueueFullError | OtherError

definition produce ::
  "spoolLib \<Rightarrow> spoolFaults \<Rightarrow> time \<Rightarrow> produceOutcome \<Rightarrow> queuedKafkaMessage \<Rightarrow> queuedProducer \<Rightarrow> queuedProducer" where
  "produce lib faults now outcome msg q =
     (if brokerUnavailable now q
      then spoolMessage lib faults now ''broker_unavailable'' msg
        (q\<lparr>qp_stats := (qp_stats q)\<lparr>as_brokerCircuitSpool := as_brokerCircuitSpool (qp_stats q) + 1\<rparr>\<rparr>)
      else
        (let q1 = q\<lparr>qp_stats := (qp_stats q)\<lparr>as_produceAttempts := as_produceAttempts (qp_stats q) + 1\<rparr>\<rparr> in
         case outcome of
           Accepted \<Rightarrow> q1\<lparr>qp_accepted := qp_accepted q1 @ [msg]\<rparr>
         | _ \<Rightarrow>
             (let stats2 = (qp_stats q1)\<lparr>as_produceErrors := as_produceErrors (qp_stats q1) + 1\<rparr>;
                  stats3 = (if outcome = QueueFullError
                    then stats2\<lparr>as_produceQueueFull := as_produceQueueFull stats2 + 1\<rparr> else stats2)
              in spoolMessage lib faults now ''produce_error'' msg (q1\<lparr>qp_stats := stats3\<rparr>))))"

text \<open>The replay loop: messages that fit go to the queue, the others are returned.\<close>

fun replayInto :: "queuedKafkaMessage list \<Rightarrow> queuedProducer \<Rightarrow> queuedKafkaMessage list \<times> queuedProducer" where
  "replayInto [] q = ([], q)"
| "replayInto (msg # msgs) q =
     (case trySend msg q of
        Some q1 \<Rightarrow> replayInto msgs q1
      | None \<Rightarrow> (let (retained, q1) = replayInto msgs q in (msg # retained, q1)))"

definition replaySpool :: "spoolLib \<Rightarrow> spoolFaults \<Rightarrow> spoolFaults \<Rightarrow> time \<Rightarrow> queuedProducer \<Rightarrow> queuedProducer" where
  "replaySpool lib faults faults' now q =
     (case qp_spool q of
        None \<Rightarrow> q
      | Some s \<Rightarrow>
          (case spool_drainAll lib faults s of
             (None, s1) \<Rightarrow> q\<lparr>qp_spool := Some s1\<rparr>
           | (Some messages, s1) \<Rightarrow>
               if messages = [] then q\<lparr>qp_spool := Some s1\<rparr>
               else
                 (let (retained, q1) = replayInto messages (q\<lparr>qp_spool := Some s1\<rparr>);
                      q2 = fold (spoolMessage lib faults' now ''replay_queue_full'') retained q1;
                      st = qp_stats q2
                  in q2\<lparr>qp_stats := st\<lparr>
                       as_spoolReplayed := as_spoolReplayed st + of_nat (length messages - length retained),
                       as_spoolRetained := as_spoolRetained st + of_nat (length retained)\<rparr>\<rparr>)))"

text \<open>
  \<open>run\<close> takes one message off the queue and produces it. \<open>drain\<close> does so while the queue is
  not empty until the deadline: the list holds what happens to each message produced before
  it; when the list ends first, the deadline fires and the rest is spooled.
\<close>

definition produceNext ::
  "spoolLib \<Rightarrow> spoolFaults \<Rightarrow> time \<Rightarrow> produceOutcome \<Rightarrow> queuedProducer \<Rightarrow> queuedProducer" where
  "produceNext lib faults now outcome q =
     (case qp_queue q of
        [] \<Rightarrow> q
      | msg # rest \<Rightarrow> produce lib faults now outcome msg (q\<lparr>qp_queue := rest\<rparr>))"

fun drain :: "spoolLib \<Rightarrow> spoolFaults \<Rightarrow> (time \<times> produceOutcome) list \<Rightarrow> time \<Rightarrow> queuedProducer \<Rightarrow> queuedProducer" where
  "drain lib faults [] deadline q =
     (if qp_queue q = [] then q
      else let q1 = q\<lparr>qp_queue := [], qp_stats := (qp_stats q)\<lparr>as_localQueueDropped :=
             as_localQueueDropped (qp_stats q) + of_nat (length (qp_queue q))\<rparr>\<rparr>
           in fold (spoolMessage lib faults deadline ''drain_timeout'') (qp_queue q) q1)"
| "drain lib faults ((now, outcome) # rest) deadline q =
     (if qp_queue q = [] then q
      else drain lib faults rest deadline (produceNext lib faults now outcome q))"

text \<open>The delivery report of the agent's main goroutine.\<close>

datatype deliveryReport = Delivered | DeliveryFailed bool queuedKafkaMessage | ClientError bool

definition handleReport :: "spoolLib \<Rightarrow> spoolFaults \<Rightarrow> time \<Rightarrow> deliveryReport \<Rightarrow> queuedProducer \<Rightarrow> queuedProducer" where
  "handleReport lib faults now report q =
     (case report of
        Delivered \<Rightarrow>
          markBrokerAvailable (q\<lparr>qp_stats := (qp_stats q)\<lparr>as_deliverySuccesses := as_deliverySuccesses (qp_stats q) + 1\<rparr>\<rparr>)
      | DeliveryFailed unavailable msg \<Rightarrow>
          (let q1 = q\<lparr>qp_stats := (qp_stats q)\<lparr>as_deliveryFailures := as_deliveryFailures (qp_stats q) + 1\<rparr>\<rparr>;
               q2 = (if unavailable then markBrokerUnavailable now q1 else q1)
           in if 0 < length (km_value msg) then spoolMessage lib faults now ''delivery_failure'' msg q2 else q2)
      | ClientError unavailable \<Rightarrow>
          (let q1 = q\<lparr>qp_stats := (qp_stats q)\<lparr>as_kafkaErrors := as_kafkaErrors (qp_stats q) + 1\<rparr>\<rparr>
           in if unavailable then markBrokerUnavailable now q1 else q1))"

definition newQueuedProducer ::
  "spoolLib \<Rightarrow> spoolFaults \<Rightarrow> spoolFaults \<Rightarrow> time \<Rightarrow> backpressureMode \<Rightarrow> int \<Rightarrow> agentStats \<Rightarrow> diskSpool option \<Rightarrow>
     duration \<Rightarrow> queuedProducer" where
  "newQueuedProducer lib faults faults' now mode queueEvents stats spool breaker =
     replaySpool lib faults faults' now
       \<lparr>qp_mode = mode, qp_queue = [], qp_capacity = nat (if queueEvents \<le> 0 then 1 else queueEvents),
        qp_stats = stats, qp_spool = spool, qp_circuitBreakerDuration = breaker, qp_brokerDownUntil = 0,
        qp_accepted = []\<rparr>"

end
