(* ===== verification/ProducerRuns.thy ===== *)
theory ProducerRuns
  imports Producer
begin

text \<open>
  What the producer guarantees: the spool reads back what was written, the queue stays within
  its capacity, and with a spool that has room no message is lost, whatever the brokers do.
\<close>

section \<open>The spool reads back what was written\<close>

definition spoolReasons :: "bytes set" where
  "spoolReasons = {''local_queue_full'', ''broker_unavailable'', ''produce_error'', ''replay_queue_full'',
     ''drain_timeout'', ''delivery_failure''}"

definition newline :: char where
  "newline = CHR 0x0A"

text \<open>
  What is asked of the JSON encoder on the records that the code writes: they decode to
  themselves, and their encoding is one line that does not end in a carriage return.
\<close>

definition goodLib :: "spoolLib \<Rightarrow> bool" where
  "goodLib lib \<longleftrightarrow> (\<forall>now msg. \<forall>reason \<in> spoolReasons.
     let entry = spoolRecord lib now reason msg; line = sl_marshal lib entry in
       sl_unmarshal lib line = Some entry \<and> line \<noteq> [] \<and> newline \<notin> set line \<and> last line \<noteq> CHR 0x0D)"

definition lineOf :: "spoolLib \<Rightarrow> queuedKafkaMessage \<Rightarrow> bytes \<Rightarrow> bool" where
  "lineOf lib msg line \<longleftrightarrow> (\<exists>now. \<exists>reason \<in> spoolReasons. line = sl_marshal lib (spoolRecord lib now reason msg))"

text \<open>A message whose lines, with the newline, have at most \<open>L\<close> bytes.\<close>

definition spoolable :: "spoolLib \<Rightarrow> nat \<Rightarrow> queuedKafkaMessage \<Rightarrow> bool" where
  "spoolable lib L msg \<longleftrightarrow> km_value msg \<noteq> [] \<and> (\<forall>line. lineOf lib msg line \<longrightarrow> length line < L)"

definition holds :: "spoolLib \<Rightarrow> diskSpool \<Rightarrow> queuedKafkaMessage list \<Rightarrow> bool" where
  "holds lib s ms \<longleftrightarrow> (\<exists>ls. fileContent s = concat (map (\<lambda>l. l @ [newline]) ls) \<and> list_all2 (lineOf lib) ms ls)"

lemma lineOf_good:
  assumes "goodLib lib" "lineOf lib msg line" "km_value msg \<noteq> []"
  shows "spooledMessage lib (drop_cr line) = Some msg" "newline \<notin> set line" "line \<noteq> []"
proof -
  obtain now reason where r: "reason \<in> spoolReasons" "line = sl_marshal lib (spoolRecord lib now reason msg)"
    using assms(2) by (auto simp: lineOf_def)
  then have g: "sl_unmarshal lib line = Some (spoolRecord lib now reason msg)" "line \<noteq> []" "newline \<notin> set line"
    "last line \<noteq> CHR 0x0D" using assms(1) by (auto simp: goodLib_def Let_def)
  then show "spooledMessage lib (drop_cr line) = Some msg"
    using assms(3) by (simp add: drop_cr_def spooledMessage_def spoolRecord_def)
  show "newline \<notin> set line" "line \<noteq> []" using g by simp_all
qed

lemma split_on_line: "c \<notin> set l \<Longrightarrow> split_on c (l @ c # r) = l # split_on c r"
  by (induction l) auto

lemma raw_lines_concat:
  assumes "\<And>l. l \<in> set ls \<Longrightarrow> newline \<notin> set l"
  shows "raw_lines (concat (map (\<lambda>l. l @ [newline]) ls)) = ls"
proof -
  have "split_on newline (concat (map (\<lambda>l. l @ [newline]) ls)) = ls @ [[]]"
    using assms by (induction ls) (simp_all add: split_on_line)
  then show ?thesis by (simp add: raw_lines_def newline_def)
qed

lemma map_filter_lines:
  "list_all2 (lineOf lib) ms ls \<Longrightarrow> goodLib lib \<Longrightarrow> (\<forall>m \<in> set ms. km_value m \<noteq> []) \<Longrightarrow>
     List.map_filter (spooledMessage lib) (map drop_cr ls) = ms"
  by (induction ms ls rule: list_all2_induct) (auto simp: lineOf_good map_filter_simps)

lemma holds_read:
  assumes "goodLib lib" "holds lib s ms" "\<forall>m \<in> set ms. spoolable lib L m" "int L \<le> scannerLimit"
    and "\<not> fs_openRead faults"
  shows "spool_readAll lib faults s = Some ms"
proof (cases "ds_file s")
  case None
  obtain ls where "fileContent s = concat (map (\<lambda>l. l @ [newline]) ls)" "list_all2 (lineOf lib) ms ls"
    using assms(2) by (auto simp: holds_def)
  then have "ls = []" "ms = []" using None by (auto simp: fileContent_def)
  then show ?thesis using None by (simp add: spool_readAll_def)
next
  case (Some content)
  obtain ls where c: "content = concat (map (\<lambda>l. l @ [newline]) ls)" and all: "list_all2 (lineOf lib) ms ls"
    using assms(2) Some by (auto simp: holds_def fileContent_def)
  have vals: "\<forall>m \<in> set ms. km_value m \<noteq> []" using assms(3) by (auto simp: spoolable_def)
  have line: "\<exists>m \<in> set ms. lineOf lib m l" if "l \<in> set ls" for l
  proof -
    obtain i where "i < length ls" "l = ls ! i" using \<open>l \<in> set ls\<close> by (auto simp: in_set_conv_nth)
    with all have "lineOf lib (ms ! i) l" "ms ! i \<in> set ms" by (auto simp: list_all2_conv_all_nth)
    then show ?thesis by blast
  qed
  have nl: "newline \<notin> set l" if "l \<in> set ls" for l
    using line [OF that] vals lineOf_good(2) [OF assms(1)] by blast
  have raw: "raw_lines content = ls" unfolding c by (rule raw_lines_concat [OF nl])
  have "\<not> int (length l) \<ge> scannerLimit" if "l \<in> set ls" for l
  proof -
    have "length l < L" using line [OF that] assms(3) by (auto simp: spoolable_def)
    with assms(4) show ?thesis by linarith
  qed
  then have "\<not> list_ex (\<lambda>line. int (length line) \<ge> scannerLimit) ls" by (auto simp: list_ex_iff)
  then show ?thesis
    using assms(5) map_filter_lines [OF all assms(1) vals] by (simp add: spool_readAll_def Some raw)
qed

lemma holds_size:
  assumes "holds lib s ms" "\<forall>m \<in> set ms. spoolable lib L m"
  shows "length (fileContent s) \<le> L * length ms"
proof -
  obtain ls where c: "fileContent s = concat (map (\<lambda>l. l @ [newline]) ls)" and all: "list_all2 (lineOf lib) ms ls"
    using assms(1) by (auto simp: holds_def)
  from all assms(2) have "length (concat (map (\<lambda>l. l @ [newline]) ls)) \<le> L * length ms"
  proof (induction ms ls rule: list_all2_induct)
    case (Cons m ms l ls)
    then have "length l < L" by (simp add: spoolable_def)
    with Cons show ?case by simp
  qed simp
  with c show ?thesis by simp
qed

lemma holds_write:
  assumes "holds lib s ms" "reason \<in> spoolReasons" "int (length (fileContent s)) < ds_maxBytes s"
  shows "\<exists>s'. spool_write lib noFaults now reason msg s = (True, s') \<and> holds lib s' (ms @ [msg]) \<and>
    ds_maxBytes s' = ds_maxBytes s"
proof -
  let ?line = "sl_marshal lib (spoolRecord lib now reason msg)"
  obtain ls where c: "fileContent s = concat (map (\<lambda>l. l @ [newline]) ls)" and all: "list_all2 (lineOf lib) ms ls"
    using assms(1) by (auto simp: holds_def)
  have "enforceLimit noFaults s = (True, s)"
    using assms(3) by (auto simp: enforceLimit_def noFaults_def fileContent_def split: option.splits)
  then have w: "spool_write lib noFaults now reason msg s = (True, s\<lparr>ds_file := Some (fileContent s @ ?line @ [newline])\<rparr>)"
    by (simp add: spool_write_def noFaults_def newline_def)
  have "lineOf lib msg ?line" using assms(2) by (auto simp: lineOf_def)
  then have "list_all2 (lineOf lib) (ms @ [msg]) (ls @ [?line])" using all by (simp add: list_all2_appendI)
  then have "holds lib (s\<lparr>ds_file := Some (fileContent s @ ?line @ [newline])\<rparr>) (ms @ [msg])"
    unfolding holds_def using c by (intro exI [of _ "ls @ [?line]"]) (simp add: fileContent_def)
  with w show ?thesis by simp
qed

section \<open>The inputs of the producer\<close>

text \<open>One step of the shards that submit, of the goroutine that produces and replays, or of the
  goroutine that reads the delivery reports, with a file system that does not fail.\<close>

datatype producerInput =
    Submit time queuedKafkaMessage
  | ProduceNext time produceOutcome
  | Replay time
  | Report time deliveryReport
  | Shutdown "(time \<times> produceOutcome) list" time

definition submitNow :: "spoolLib \<Rightarrow> time \<Rightarrow> queuedKafkaMessage \<Rightarrow> queuedProducer \<Rightarrow> queuedProducer" where
  "submitNow lib now msg q =
     (case submit lib noFaults now (\<lambda>queue. queue) msg q of Some q' \<Rightarrow> q' | None \<Rightarrow> q)"

fun producerStep :: "spoolLib \<Rightarrow> producerInput \<Rightarrow> queuedProducer \<Rightarrow> queuedProducer" where
  "producerStep lib (Submit now msg) q = submitNow lib now msg q"
| "producerStep lib (ProduceNext now outcome) q = produceNext lib noFaults now outcome q"
| "producerStep lib (Replay now) q = replaySpool lib noFaults noFaults now q"
| "producerStep lib (Report now report) q = handleReport lib noFaults now report q"
| "producerStep lib (Shutdown outcomes deadline) q = drain lib noFaults outcomes deadline q"

text \<open>The messages that come in: submissions, and failed deliveries that carry a value.\<close>

fun incoming :: "producerInput \<Rightarrow> queuedKafkaMessage list" where
  "incoming (Submit now msg) = [msg]"
| "incoming (Report now (DeliveryFailed unavailable msg)) = (if km_value msg \<noteq> [] then [msg] else [])"
| "incoming i = []"

section \<open>Bounded queue\<close>

definition queueBounded :: "queuedProducer \<Rightarrow> bool" where
  "queueBounded q \<longleftrightarrow> length (qp_queue q) \<le> qp_capacity q"

lemma spoolMessage_frame [simp]:
  "qp_queue (spoolMessage lib f now r msg q) = qp_queue q"
  "qp_capacity (spoolMessage lib f now r msg q) = qp_capacity q"
  "qp_accepted (spoolMessage lib f now r msg q) = qp_accepted q"
  "qp_mode (spoolMessage lib f now r msg q) = qp_mode q"
  by (auto simp: spoolMessage_def split: option.splits prod.splits)

lemma fold_spool_frame [simp]:
  "qp_queue (fold (spoolMessage lib f now r) msgs q) = qp_queue q"
  "qp_capacity (fold (spoolMessage lib f now r) msgs q) = qp_capacity q"
  "qp_accepted (fold (spoolMessage lib f now r) msgs q) = qp_accepted q"
  "qp_mode (fold (spoolMessage lib f now r) msgs q) = qp_mode q"
  by (induction msgs arbitrary: q) simp_all

lemma produce_frame [simp]:
  "qp_queue (produce lib f now outcome msg q) = qp_queue q"
  "qp_capacity (produce lib f now outcome msg q) = qp_capacity q"
  "qp_mode (produce lib f now outcome msg q) = qp_mode q"
  by (auto simp: produce_def Let_def split: produceOutcome.splits)

lemma mark_frame [simp]:
  "qp_queue (markBrokerUnavailable now q) = qp_queue q" "qp_capacity (markBrokerUnavailable now q) = qp_capacity q"
  "qp_accepted (markBrokerUnavailable now q) = qp_accepted q" "qp_mode (markBrokerUnavailable now q) = qp_mode q"
  "qp_spool (markBrokerUnavailable now q) = qp_spool q"
  by (auto simp: markBrokerUnavailable_def Let_def)

lemma report_frame:
  "qp_queue (handleReport lib f now report q) = qp_queue q"
  "qp_capacity (handleReport lib f now report q) = qp_capacity q"
  "qp_accepted (handleReport lib f now report q) = qp_accepted q"
  "qp_mode (handleReport lib f now report q) = qp_mode q"
  by (auto simp: handleReport_def markBrokerAvailable_def Let_def split: deliveryReport.splits)

lemma trySend_bounded: "trySend msg q = Some q' \<Longrightarrow> queueBounded q'"
  by (auto simp: trySend_def queueBounded_def split: if_splits)

lemma replayInto_bounded: "replayInto msgs q = (retained, q') \<Longrightarrow> queueBounded q \<Longrightarrow> queueBounded q'"
proof (induction msgs q arbitrary: retained q' rule: replayInto.induct)
  case (2 msg msgs q)
  show ?case
  proof (cases "trySend msg q")
    case None
    then obtain r where "replayInto msgs q = (r, q')" using "2.prems"(1) by (auto split: prod.splits)
    with 2 None show ?thesis by blast
  next
    case (Some q1)
    with 2 trySend_bounded [OF Some] show ?thesis by simp
  qed
qed simp

lemma replaySpool_bounded: "queueBounded q \<Longrightarrow> queueBounded (replaySpool lib f f' now q)"
proof (cases "qp_spool q")
  case (Some s)
  assume b: "queueBounded q"
  obtain res s1 where d: "spool_drainAll lib f s = (res, s1)" by force
  show ?thesis
  proof (cases res)
    case None
    with Some d b show ?thesis by (simp add: replaySpool_def queueBounded_def)
  next
    case (Some messages)
    obtain retained q1 where r: "replayInto messages (q\<lparr>qp_spool := Some s1\<rparr>) = (retained, q1)" by force
    have "queueBounded q1" using replayInto_bounded [OF r] b by (simp add: queueBounded_def)
    with Some d r b \<open>qp_spool q = Some s\<close> show ?thesis by (simp add: replaySpool_def queueBounded_def Let_def)
  qed
qed (simp add: replaySpool_def)

lemma produceNext_bounded: "queueBounded q \<Longrightarrow> queueBounded (produceNext lib f now outcome q)"
  by (auto simp: produceNext_def queueBounded_def split: list.splits)

lemma drain_bounded: "queueBounded q \<Longrightarrow> queueBounded (drain lib f outcomes deadline q)"
  by (induction lib f outcomes deadline q rule: drain.induct)
    (auto simp: Let_def produceNext_bounded, simp add: queueBounded_def)

lemma submit_bounded: "queueBounded q \<Longrightarrow> queueBounded (submitNow lib now msg q)"
  by (cases "qp_mode q"; cases "qp_queue q")
    (auto simp: submitNow_def submit_def queueBounded_def dropOne_def Let_def split: option.splits
      dest!: trySend_bounded [unfolded queueBounded_def])

interpretation bounded_queue: step_invariant "producerStep lib" queueBounded for lib
proof
  fix q i assume "queueBounded q"
  then show "queueBounded (producerStep lib i q)"
    by (cases i) (simp_all add: submit_bounded produceNext_bounded replaySpool_bounded drain_bounded,
      simp add: queueBounded_def report_frame)
qed


section \<open>Nothing is lost\<close>

text \<open>
  The accounting of one moment: the messages of the queue, the spool and Kafka's client are, all
  together, the ones that came in. \<open>L\<close> bounds the lines and \<open>N\<close> the messages, so that the spool
  never reaches its limit.
\<close>

definition accounted :: "spoolLib \<Rightarrow> nat \<Rightarrow> nat \<Rightarrow> queuedKafkaMessage multiset \<Rightarrow> queuedProducer \<Rightarrow> bool" where
  "accounted lib L N S q \<longleftrightarrow> qp_mode q \<in> {backpressureBestEffort, backpressureDropNewest} \<and>
     (\<exists>s ms. qp_spool q = Some s \<and> holds lib s ms \<and> int (L * N) \<le> ds_maxBytes s \<and>
        mset (qp_queue q) + mset ms + mset (qp_accepted q) = S) \<and>
     (\<forall>m \<in># S. spoolable lib L m)"

lemma spoolMessage_holds:
  assumes "qp_spool q = Some s" "holds lib s ms" "\<forall>m \<in> set ms. spoolable lib L m" "0 < L"
    and "length ms < N" "int (L * N) \<le> ds_maxBytes s" "reason \<in> spoolReasons"
  shows "\<exists>s'. qp_spool (spoolMessage lib noFaults now reason msg q) = Some s' \<and> holds lib s' (ms @ [msg]) \<and>
    ds_maxBytes s' = ds_maxBytes s"
proof -
  have "length (fileContent s) \<le> L * length ms" by (rule holds_size [OF assms(2,3)])
  also have "\<dots> < L * N" using assms(4,5) by simp
  finally have "int (length (fileContent s)) < ds_maxBytes s" using assms(6) by linarith
  from holds_write [OF assms(2,7) this, of now msg] assms(1) show ?thesis by (auto simp: spoolMessage_def)
qed

lemma size_mset_list: "mset a + mset b + mset c = S \<Longrightarrow> length b \<le> size S"
  by (metis add.commute le_add1 size_mset size_union add.assoc)

text \<open>Moving one message into the spool.\<close>

lemma accounted_spool:
  assumes "accounted lib L N S q" "spoolable lib L msg" "size S < N" "reason \<in> spoolReasons"
  shows "accounted lib L N (add_mset msg S) (spoolMessage lib noFaults now reason msg q)"
proof -
  obtain s ms where s: "qp_spool q = Some s" "holds lib s ms" "int (L * N) \<le> ds_maxBytes s"
    and S: "mset (qp_queue q) + mset ms + mset (qp_accepted q) = S"
    and all: "\<forall>m \<in># S. spoolable lib L m" and mode: "qp_mode q \<in> {backpressureBestEffort, backpressureDropNewest}"
    using assms(1) by (auto simp: accounted_def)
  have "0 < L" using assms(2,4) by (auto simp: spoolable_def lineOf_def intro: le_less_trans [of 0])
  moreover have "length ms < N" using size_mset_list [OF S] assms(3) by simp
  moreover have "\<forall>m \<in> set ms. spoolable lib L m" using all S by (metis in_multiset_in_set union_iff)
  ultimately obtain s' where "qp_spool (spoolMessage lib noFaults now reason msg q) = Some s'"
    "holds lib s' (ms @ [msg])" "ds_maxBytes s' = ds_maxBytes s"
    using spoolMessage_holds [OF s(1,2) _ _ _ s(3) assms(4)] by blast
  with s S all assms(2) mode show ?thesis by (auto simp: accounted_def)
qed

lemma accounted_spool_fold:
  "accounted lib L N S q \<Longrightarrow> \<forall>m \<in> set msgs. spoolable lib L m \<Longrightarrow> size S + length msgs \<le> N \<Longrightarrow>
     reason \<in> spoolReasons \<Longrightarrow>
     accounted lib L N (S + mset msgs) (fold (spoolMessage lib noFaults now reason) msgs q)"
proof (induction msgs arbitrary: S q)
  case (Cons m msgs)
  have "accounted lib L N (add_mset m S) (spoolMessage lib noFaults now reason m q)"
    using Cons.prems by (intro accounted_spool) auto
  from Cons.IH [OF this] Cons.prems show ?case by simp
qed simp

text \<open>Taking a message off the queue, and updates that do not move messages.\<close>

lemma accounted_pop:
  assumes "accounted lib L N S q" "qp_queue q = msg # rest"
  obtains S' where "S = add_mset msg S'" "accounted lib L N S' (q\<lparr>qp_queue := rest\<rparr>)" "spoolable lib L msg"
proof -
  obtain s ms where s: "qp_spool q = Some s" "holds lib s ms" "int (L * N) \<le> ds_maxBytes s"
    and S: "mset (qp_queue q) + mset ms + mset (qp_accepted q) = S"
    using assms(1) by (auto simp: accounted_def)
  define S' where "S' = mset rest + mset ms + mset (qp_accepted q)"
  have eq: "S = add_mset msg S'" using S assms(2) by (simp add: S'_def)
  moreover have "accounted lib L N S' (q\<lparr>qp_queue := rest\<rparr>)"
    using assms(1) s eq by (auto simp: accounted_def S'_def)
  ultimately show thesis using that assms(1) by (simp add: accounted_def)
qed

lemma accounted_cong:
  "qp_queue q' = qp_queue q \<Longrightarrow> qp_accepted q' = qp_accepted q \<Longrightarrow> qp_mode q' = qp_mode q \<Longrightarrow>
     qp_spool q' = qp_spool q \<Longrightarrow> accounted lib L N S q' = accounted lib L N S q"
  by (simp add: accounted_def)

lemma accounted_updates [simp]:
  "accounted lib L N S (q\<lparr>qp_stats := st\<rparr>) = accounted lib L N S q"
  "accounted lib L N S (q\<lparr>qp_brokerDownUntil := u\<rparr>) = accounted lib L N S q"
  "accounted lib L N S (markBrokerUnavailable now q) = accounted lib L N S q"
  by (rule accounted_cong; simp)+

lemma accounted_send:
  assumes "accounted lib L N S q" "trySend msg q = Some q'" "spoolable lib L msg"
  shows "accounted lib L N (add_mset msg S) q'"
  using assms by (auto simp: accounted_def trySend_def split: if_splits)

lemma accounted_submit:
  assumes "accounted lib L N S q" "spoolable lib L msg" "size S < N"
  shows "accounted lib L N (add_mset msg S) (submitNow lib now msg q)"
proof (cases "trySend msg q")
  case (Some q')
  have "submitNow lib now msg q = q'"
    using assms(1) Some by (auto simp: accounted_def submitNow_def submit_def)
  with accounted_send [OF assms(1) Some assms(2)] show ?thesis by simp
next
  case None
  have "submitNow lib now msg q = spoolMessage lib noFaults now ''local_queue_full'' msg (dropOne q)"
    using assms(1) None by (auto simp: accounted_def submitNow_def submit_def)
  moreover have "accounted lib L N S (dropOne q)"
    using assms(1) accounted_cong [of "dropOne q" q] by (simp add: dropOne_def)
  ultimately show ?thesis using accounted_spool [OF _ assms(2,3)] by (simp add: spoolReasons_def)
qed

lemma accounted_produce:
  assumes "accounted lib L N S q" "spoolable lib L msg" "size S < N"
  shows "accounted lib L N (add_mset msg S) (produce lib noFaults now outcome msg q)"
proof -
  have spool: "accounted lib L N (add_mset msg S) (spoolMessage lib noFaults now reason msg (q\<lparr>qp_stats := st\<rparr>))"
    if "reason \<in> spoolReasons" for reason st
    using accounted_spool [OF _ assms(2,3) that] assms(1) accounted_cong [of "q\<lparr>qp_stats := st\<rparr>" q] by simp
  have "accounted lib L N (add_mset msg S) (q\<lparr>qp_stats := st, qp_accepted := qp_accepted q @ [msg]\<rparr>)" for st
    using assms(1,2) by (auto simp: accounted_def)
  with spool show ?thesis
    by (cases outcome) (simp_all add: produce_def Let_def spoolReasons_def)
qed

lemma accounted_produceNext:
  assumes "accounted lib L N S q" "size S \<le> N"
  shows "accounted lib L N S (produceNext lib noFaults now outcome q)"
proof (cases "qp_queue q")
  case (Cons msg rest)
  obtain S' where S': "S = add_mset msg S'" "accounted lib L N S' (q\<lparr>qp_queue := rest\<rparr>)" "spoolable lib L msg"
    using accounted_pop [OF assms(1) Cons] .
  with accounted_produce [OF S'(2,3), of now outcome] assms(2) Cons show ?thesis by (simp add: produceNext_def)
qed (use assms in \<open>simp add: produceNext_def\<close>)

lemma trySend_effect:
  assumes "trySend msg q = Some q1"
  shows "qp_queue q1 = qp_queue q @ [msg]" "qp_accepted q1 = qp_accepted q" "qp_mode q1 = qp_mode q"
    "qp_spool q1 = qp_spool q"
  using assms by (auto simp: trySend_def split: if_splits)

lemma replayInto_moves:
  "replayInto msgs q = (retained, q') \<Longrightarrow>
     mset (qp_queue q') + mset retained = mset (qp_queue q) + mset msgs \<and> qp_accepted q' = qp_accepted q \<and>
     qp_mode q' = qp_mode q \<and> qp_spool q' = qp_spool q"
proof (induction msgs arbitrary: q q' retained)
  case (Cons msg msgs)
  show ?case
  proof (cases "trySend msg q")
    case None
    obtain r q1 where r: "replayInto msgs q = (r, q1)" by force
    with Cons.prems None have "q1 = q'" "retained = msg # r" by simp_all
    with Cons.IH [OF r] show ?thesis by simp
  next
    case (Some q1)
    with Cons.prems have "replayInto msgs q1 = (retained, q')" by simp
    from Cons.IH [OF this] trySend_effect [OF Some] show ?thesis by simp
  qed
qed simp

lemma accounted_replay:
  assumes "goodLib lib" "int L \<le> scannerLimit" "accounted lib L N S q" "size S \<le> N"
  shows "accounted lib L N S (replaySpool lib noFaults noFaults now q)"
proof -
  obtain s ms where s: "qp_spool q = Some s" "holds lib s ms" "int (L * N) \<le> ds_maxBytes s"
    and S: "mset (qp_queue q) + mset ms + mset (qp_accepted q) = S" and all: "\<forall>m \<in># S. spoolable lib L m"
    using assms(3) by (auto simp: accounted_def)
  have msall: "\<forall>m \<in> set ms. spoolable lib L m" using all S by (metis in_multiset_in_set union_iff)
  have read: "spool_readAll lib noFaults s = Some ms"
    by (rule holds_read [OF assms(1) s(2) msall assms(2)]) (simp add: noFaults_def)
  show ?thesis
  proof (cases "ms = []")
    case True
    then have "replaySpool lib noFaults noFaults now q = q\<lparr>qp_spool := Some s\<rparr>"
      using read s(1) by (simp add: replaySpool_def spool_drainAll_def)
    moreover have "accounted lib L N S (q\<lparr>qp_spool := Some s\<rparr>) = accounted lib L N S q"
      by (rule accounted_cong) (simp_all add: s(1))
    ultimately show ?thesis using assms(3) by simp
  next
    case False
    let ?s = "s\<lparr>ds_file := Some []\<rparr>" and ?q = "q\<lparr>qp_spool := Some (s\<lparr>ds_file := Some []\<rparr>)\<rparr>"
    obtain retained q1 where r: "replayInto ms ?q = (retained, q1)" by force
    note mv = replayInto_moves [OF r]
    have d: "spool_drainAll lib noFaults s = (Some ms, ?s)"
      using read False by (simp add: spool_drainAll_def noFaults_def)
    define S1 where "S1 = mset (qp_queue q1) + mset (qp_accepted q1)"
    have moved: "mset (qp_queue q1) + mset retained = mset (qp_queue q) + mset ms" "qp_accepted q1 = qp_accepted q"
      using mv by simp_all
    have "S1 + mset retained = (mset (qp_queue q1) + mset retained) + mset (qp_accepted q1)"
      by (simp only: S1_def ac_simps)
    then have eq: "S = S1 + mset retained" unfolding moved S by (rule sym)
    have "holds lib ?s []" by (auto simp: holds_def fileContent_def)
    then have "accounted lib L N S1 q1"
      using assms(3) mv s eq all by (auto simp: accounted_def S1_def)
    moreover have "\<forall>m \<in> set retained. spoolable lib L m" using all eq by auto
    moreover have "size S1 + length retained \<le> N" using assms(4) eq by simp
    ultimately have "accounted lib L N (S1 + mset retained) (fold (spoolMessage lib noFaults now ''replay_queue_full'') retained q1)"
      by (rule accounted_spool_fold) (simp add: spoolReasons_def)
    moreover have "\<exists>st. replaySpool lib noFaults noFaults now q =
        (fold (spoolMessage lib noFaults now ''replay_queue_full'') retained q1)\<lparr>qp_stats := st\<rparr>"
      using False d r s(1) by (auto simp: replaySpool_def Let_def)
    ultimately show ?thesis unfolding eq by (elim exE) simp
  qed
qed

lemma accounted_spool_rest:
  assumes "accounted lib L N S q" "size S \<le> N"
  shows "accounted lib L N S (fold (spoolMessage lib noFaults now ''drain_timeout'') (qp_queue q) (q\<lparr>qp_queue := [], qp_stats := st\<rparr>))"
proof -
  obtain s ms where s: "qp_spool q = Some s" "holds lib s ms" "int (L * N) \<le> ds_maxBytes s"
    and S: "mset (qp_queue q) + mset ms + mset (qp_accepted q) = S" and all: "\<forall>m \<in># S. spoolable lib L m"
    using assms(1) by (auto simp: accounted_def)
  define S1 where "S1 = mset ms + mset (qp_accepted q)"
  have eq: "S = S1 + mset (qp_queue q)" using S by (simp add: S1_def ac_simps)
  have "accounted lib L N S1 (q\<lparr>qp_queue := [], qp_stats := st\<rparr>)"
    using assms(1) s all eq by (auto simp: accounted_def S1_def)
  moreover have "\<forall>m \<in> set (qp_queue q). spoolable lib L m" using all eq by auto
  moreover have "size S1 + length (qp_queue q) \<le> N" using assms(2) eq by simp
  ultimately show ?thesis unfolding eq by (rule accounted_spool_fold) (simp add: spoolReasons_def)
qed

lemma accounted_drain:
  "accounted lib L N S q \<Longrightarrow> size S \<le> N \<Longrightarrow> accounted lib L N S (drain lib noFaults outcomes deadline q)"
proof (induction outcomes arbitrary: q)
  case Nil
  then show ?case using accounted_spool_rest [OF Nil] by (simp add: Let_def)
next
  case (Cons step outcomes)
  obtain now outcome where step: "step = (now, outcome)" by force
  show ?case using Cons accounted_produceNext [OF Cons.prems, of now outcome] by (simp add: step)
qed

lemma accounted_report:
  assumes "accounted lib L N S q" "size S + length (incoming (Report now report)) \<le> N"
    and "\<forall>m \<in> set (incoming (Report now report)). spoolable lib L m"
  shows "accounted lib L N (S + mset (incoming (Report now report))) (handleReport lib noFaults now report q)"
proof (cases report)
  case (DeliveryFailed unavailable msg)
  let ?q = "q\<lparr>qp_stats := (qp_stats q)\<lparr>as_deliveryFailures := as_deliveryFailures (qp_stats q) + 1\<rparr>\<rparr>"
  let ?q2 = "if unavailable then markBrokerUnavailable now ?q else ?q"
  have "accounted lib L N S ?q2" using assms(1) by simp
  moreover have "accounted lib L N (add_mset msg S) (spoolMessage lib noFaults now ''delivery_failure'' msg ?q2)"
    if "km_value msg \<noteq> []"
    using accounted_spool [OF calculation, of msg "''delivery_failure''" now] assms(2,3) that
    by (simp add: DeliveryFailed spoolReasons_def)
  ultimately show ?thesis by (simp add: DeliveryFailed handleReport_def Let_def)
qed (use assms in \<open>simp_all add: handleReport_def markBrokerAvailable_def Let_def\<close>)

lemma accounted_step:
  assumes "goodLib lib" "int L \<le> scannerLimit" "accounted lib L N S q"
    and "size S + length (incoming i) \<le> N" "\<forall>m \<in> set (incoming i). spoolable lib L m"
  shows "accounted lib L N (S + mset (incoming i)) (producerStep lib i q)"
proof (cases i)
  case (Submit now msg)
  then show ?thesis using accounted_submit [OF assms(3), of msg now] assms(4,5) by simp
next
  case (Report now report)
  then show ?thesis using accounted_report [OF assms(3), of now report] assms(4,5) by simp
qed (use assms in \<open>simp_all add: accounted_produceNext accounted_replay accounted_drain\<close>)

lemma accounted_run:
  assumes "goodLib lib" "int L \<le> scannerLimit"
  shows "accounted lib L N S q \<Longrightarrow> size S + length (concat (map incoming inputs)) \<le> N \<Longrightarrow>
     \<forall>m \<in> set (concat (map incoming inputs)). spoolable lib L m \<Longrightarrow>
     accounted lib L N (S + mset (concat (map incoming inputs))) (fold (producerStep lib) inputs q)"
proof (induction inputs arbitrary: S q)
  case (Cons i inputs)
  have "accounted lib L N (S + mset (incoming i)) (producerStep lib i q)"
    using Cons.prems by (intro accounted_step [OF assms]) auto
  from Cons.IH [OF this] Cons.prems show ?case by (simp add: ac_simps)
qed simp


text \<open>An encoder with the asked behaviour: the fields, each but the last followed by a bar.\<close>

definition bar :: char where
  "bar = CHR ''|''"

definition sampleLib :: spoolLib where
  "sampleLib = \<lparr>
     sl_marshal = (\<lambda>r. sm_CreatedAt r @ bar # sm_Reason r @ bar # sm_Key r @ bar # sm_Value r),
     sl_unmarshal = (\<lambda>line. case split_on bar line of
        [created, reason, key, val] \<Rightarrow>
          Some \<lparr>sm_CreatedAt = created, sm_Reason = reason, sm_Key = key, sm_Value = val\<rparr>
      | _ \<Rightarrow> None),
     sl_now = (\<lambda>now. ''2024-01-01T00:00:00Z'')\<rparr>"

lemma b64_char_not_bar [simp]: "b64_char n \<noteq> CHR ''|''"
  by (auto simp: b64_char_def of_char_eq_iff [symmetric, where ?'a = nat] simp del: of_char_eq_iff)

lemma b64_encode_chars: "CHR ''|'' \<notin> set (b64_encode s)" "CHR 0x0A \<notin> set (b64_encode s)" "CHR 0x0D \<notin> set (b64_encode s)"
  by (induction s rule: b64_encode.induct) (simp_all add: b64_char_not_bar [symmetric] b64_char_not_special [symmetric])

lemma spoolReasons_chars:
  "reason \<in> spoolReasons \<Longrightarrow> CHR ''|'' \<notin> set reason \<and> CHR 0x0A \<notin> set reason \<and> length reason < 20"
  by (auto simp: spoolReasons_def)

lemma sampleLib_good: "goodLib sampleLib"
  unfolding goodLib_def Let_def
proof (intro allI ballI)
  fix now msg reason assume r: "reason \<in> spoolReasons"
  let ?entry = "spoolRecord sampleLib now reason msg"
  let ?line = "sl_marshal sampleLib ?entry"
  note chars = b64_encode_chars spoolReasons_chars [OF r]
  have line: "?line = ''2024-01-01T00:00:00Z'' @ bar # reason @ bar # b64_encode (km_key msg) @ bar # b64_encode (km_value msg)"
    by (simp add: sampleLib_def spoolRecord_def)
  have "split_on bar ?line = [''2024-01-01T00:00:00Z'', reason, b64_encode (km_key msg), b64_encode (km_value msg)]"
    unfolding line using chars by (simp add: bar_def split_on_append split_on_no_sep del: append.simps)
  then have "sl_unmarshal sampleLib ?line = Some ?entry"
    by (simp add: sampleLib_def spoolRecord_def)
  moreover have "newline \<notin> set ?line" unfolding line using chars by (simp add: newline_def bar_def)
  moreover have "last ?line \<noteq> CHR 0x0D"
  proof (cases "b64_encode (km_value msg) = []")
    case False
    with chars(3) have "last (b64_encode (km_value msg)) \<noteq> CHR 0x0D" by (metis last_in_set)
    with False show ?thesis unfolding line by simp
  qed (simp add: line bar_def)
  ultimately show "sl_unmarshal sampleLib ?line = Some ?entry \<and> ?line \<noteq> [] \<and> newline \<notin> set ?line \<and> last ?line \<noteq> CHR 0x0D"
    unfolding line by simp
qed

lemma sample_spoolable: "spoolable sampleLib 100 \<lparr>km_key = ''k'', km_value = [v]\<rparr>"
proof -
  have "length (sl_marshal sampleLib (spoolRecord sampleLib now reason \<lparr>km_key = ''k'', km_value = [v]\<rparr>)) < 100"
    if "reason \<in> spoolReasons" for now reason
    using spoolReasons_chars [OF that] by (simp add: sampleLib_def spoolRecord_def)
  then show ?thesis by (auto simp: spoolable_def lineOf_def)
qed

text \<open>Three messages, a queue of one, a broker that goes down, a replay and a shutdown.\<close>

definition sampleInputs :: "producerInput list" where
  "sampleInputs =
     [Submit 1 \<lparr>km_key = ''k'', km_value = ''a''\<rparr>, Submit 2 \<lparr>km_key = ''k'', km_value = ''b''\<rparr>,
      ProduceNext 3 Accepted, Report 4 (DeliveryFailed True \<lparr>km_key = ''k'', km_value = ''a''\<rparr>),
      Replay 5, ProduceNext 6 Accepted, Submit 7 \<lparr>km_key = ''k'', km_value = ''c''\<rparr>, Shutdown [] 8]"


section \<open>The circuit breaker\<close>

text \<open>When an input reports that the brokers are unavailable.\<close>

fun failedAt :: "producerInput \<Rightarrow> time option" where
  "failedAt (Report now (DeliveryFailed True msg)) = Some now"
| "failedAt (Report now (ClientError True)) = Some now"
| "failedAt i = None"

fun delivers :: "producerInput \<Rightarrow> bool" where
  "delivers (Report now Delivered) = True"
| "delivers i = False"

text \<open>Some failure since the last delivery is less than the breaker's duration before \<open>t\<close>.\<close>

definition recentFailure :: "duration \<Rightarrow> time \<Rightarrow> producerInput list \<Rightarrow> bool" where
  "recentFailure d t inputs \<longleftrightarrow>
     (\<exists>i \<in> set (takeWhile (\<lambda>i. \<not> delivers i) (rev inputs)). \<exists>f. failedAt i = Some f \<and> t < f + d)"

lemma recentFailure_snoc:
  "recentFailure d t (inputs @ [i]) \<longleftrightarrow>
     \<not> delivers i \<and> ((\<exists>f. failedAt i = Some f \<and> t < f + d) \<or> recentFailure d t inputs)"
  by (auto simp: recentFailure_def)

lemma spoolMessage_breaker [simp]:
  "qp_brokerDownUntil (spoolMessage lib f now r msg q) = qp_brokerDownUntil q"
  "qp_circuitBreakerDuration (spoolMessage lib f now r msg q) = qp_circuitBreakerDuration q"
  by (auto simp: spoolMessage_def split: option.splits prod.splits)

lemma fold_spool_breaker [simp]:
  "qp_brokerDownUntil (fold (spoolMessage lib f now r) msgs q) = qp_brokerDownUntil q"
  "qp_circuitBreakerDuration (fold (spoolMessage lib f now r) msgs q) = qp_circuitBreakerDuration q"
  by (induction msgs arbitrary: q) simp_all

definition breakerState :: "queuedProducer \<Rightarrow> time \<times> duration" where
  "breakerState q = (qp_brokerDownUntil q, qp_circuitBreakerDuration q)"

lemma trySend_breaker: "trySend msg q = Some q' \<Longrightarrow> breakerState q' = breakerState q"
  by (auto simp: trySend_def breakerState_def split: if_splits)

lemma submit_breaker: "breakerState (submitNow lib now msg q) = breakerState q"
  by (cases "qp_mode q"; cases "qp_queue q")
    (auto simp: submitNow_def submit_def dropOne_def Let_def breakerState_def split: option.splits
      dest!: trySend_breaker [unfolded breakerState_def])

lemma replayInto_breaker: "replayInto msgs q = (retained, q') \<Longrightarrow> breakerState q' = breakerState q"
proof (induction msgs q arbitrary: retained q' rule: replayInto.induct)
  case (2 msg msgs q)
  then show ?case by (auto split: option.splits prod.splits dest: trySend_breaker)
qed simp

lemma replaySpool_breaker: "breakerState (replaySpool lib f f' now q) = breakerState q"
  by (auto simp: replaySpool_def Let_def breakerState_def split: option.splits prod.splits
      dest!: replayInto_breaker [unfolded breakerState_def])

lemma produceNext_breaker: "breakerState (produceNext lib f now outcome q) = breakerState q"
  by (auto simp: produceNext_def produce_def Let_def breakerState_def split: list.splits produceOutcome.splits)

lemma drain_breaker: "breakerState (drain lib f outcomes deadline q) = breakerState q"
  by (induction lib f outcomes deadline q rule: drain.induct)
    (simp_all add: Let_def produceNext_breaker, simp add: breakerState_def)

lemma report_breaker:
  assumes "0 < qp_circuitBreakerDuration q" "0 \<le> t"
  shows "brokerUnavailable t (handleReport lib f now report q) \<longleftrightarrow>
    \<not> delivers (Report now report) \<and>
    ((\<exists>g. failedAt (Report now report) = Some g \<and> t < g + qp_circuitBreakerDuration q) \<or> brokerUnavailable t q)"
    and "qp_circuitBreakerDuration (handleReport lib f now report q) = qp_circuitBreakerDuration q"
proof -
  have mark: "brokerUnavailable t (markBrokerUnavailable now p) \<longleftrightarrow>
      t < now + qp_circuitBreakerDuration q \<or> brokerUnavailable t p"
    if "qp_circuitBreakerDuration p = qp_circuitBreakerDuration q" for p
    using assms that by (auto simp: brokerUnavailable_def markBrokerUnavailable_def Let_def)
  have dur: "qp_circuitBreakerDuration (markBrokerUnavailable now p) = qp_circuitBreakerDuration p" for p
    by (simp add: markBrokerUnavailable_def Let_def)
  have spool: "brokerUnavailable t (spoolMessage lib f now r m p) = brokerUnavailable t p" for r m p
    by (simp add: brokerUnavailable_def)
  show "brokerUnavailable t (handleReport lib f now report q) \<longleftrightarrow>
    \<not> delivers (Report now report) \<and>
    ((\<exists>g. failedAt (Report now report) = Some g \<and> t < g + qp_circuitBreakerDuration q) \<or> brokerUnavailable t q)"
  proof (cases report)
    case Delivered
    then show ?thesis by (simp add: handleReport_def markBrokerAvailable_def brokerUnavailable_def)
  next
    case (DeliveryFailed u m)
    then show ?thesis
      by (cases u) (simp_all add: handleReport_def Let_def spool mark, simp_all add: brokerUnavailable_def)
  next
    case (ClientError u)
    then show ?thesis
      by (cases u) (simp_all add: handleReport_def Let_def mark, simp_all add: brokerUnavailable_def)
  qed
  show "qp_circuitBreakerDuration (handleReport lib f now report q) = qp_circuitBreakerDuration q"
    by (cases report) (simp_all add: handleReport_def Let_def markBrokerAvailable_def dur)
qed

lemma breaker_run:
  assumes "0 < qp_circuitBreakerDuration q" "qp_brokerDownUntil q = 0" "0 \<le> t"
  shows "(brokerUnavailable t (fold (producerStep lib) inputs q) \<longleftrightarrow>
      recentFailure (qp_circuitBreakerDuration q) t inputs) \<and>
    qp_circuitBreakerDuration (fold (producerStep lib) inputs q) = qp_circuitBreakerDuration q"
proof (induction inputs rule: rev_induct)
  case Nil
  then show ?case using assms by (simp add: brokerUnavailable_def recentFailure_def)
next
  case (snoc i inputs)
  let ?p = "fold (producerStep lib) inputs q"
  show ?case
  proof (cases "\<exists>now report. i = Report now report")
    case True
    then obtain now report where i: "i = Report now report" by blast
    have pos: "0 < qp_circuitBreakerDuration ?p" using snoc assms(1) by simp
    show ?thesis
      using snoc report_breaker [OF pos assms(3), of lib noFaults now report]
      by (simp add: i recentFailure_snoc)
  next
    case False
    then have "breakerState (producerStep lib i ?p) = breakerState ?p"
      by (cases i) (simp_all add: submit_breaker replaySpool_breaker produceNext_breaker drain_breaker)
    moreover have "\<not> delivers i" "failedAt i = None" using False by (cases i; simp)+
    ultimately show ?thesis using snoc by (simp add: breakerState_def brokerUnavailable_def recentFailure_snoc)
  qed
qed

text \<open>C14. The circuit breaker is open exactly when it should be: after every run, at any time \<open>t\<close>, it is
  open if and only if some report of an unavailable broker since the last successful delivery is
  less than the breaker's duration old, and while it is open taking a message off the queue never
  hands it to Kafka.\<close>

theorem breaker_open_iff:
  assumes "0 < breaker" "0 \<le> t"
    and "q = fold (producerStep lib) inputs
      (newQueuedProducer lib noFaults noFaults now mode queueEvents stats spool breaker)"
  shows "(brokerUnavailable t q \<longleftrightarrow> recentFailure breaker t inputs) \<and>
    (recentFailure breaker t inputs \<longrightarrow> qp_accepted (produceNext lib noFaults t outcome q) = qp_accepted q)"
proof -
  let ?q0 = "newQueuedProducer lib noFaults noFaults now mode queueEvents stats spool breaker"
  have "breakerState ?q0 = (0, breaker)"
    unfolding newQueuedProducer_def by (simp add: replaySpool_breaker, simp add: breakerState_def)
  then have "qp_circuitBreakerDuration ?q0 = breaker" "qp_brokerDownUntil ?q0 = 0" by (simp_all add: breakerState_def)
  with breaker_run [of ?q0 t lib inputs] assms have iff: "brokerUnavailable t q \<longleftrightarrow> recentFailure breaker t inputs"
    by simp
  have "brokerUnavailable t q \<Longrightarrow> qp_accepted (produceNext lib noFaults t outcome q) = qp_accepted q"
    by (auto simp: produceNext_def produce_def brokerUnavailable_def split: list.splits)
  with iff show ?thesis by blast
qed

theorem breaker_open_iff_witness:
  "(brokerUnavailable 20 (fold (producerStep sampleLib) sampleInputs
      (newQueuedProducer sampleLib noFaults noFaults 0 backpressureBestEffort 1 zeroAgentStats None 30)) \<longleftrightarrow>
      recentFailure 30 20 sampleInputs) \<and> recentFailure 30 20 sampleInputs \<and> \<not> recentFailure 30 34 sampleInputs"
  using breaker_open_iff [of 30 20 _ sampleLib sampleInputs 0 backpressureBestEffort 1 zeroAgentStats None Accepted]
  by (simp add: sampleInputs_def recentFailure_def)

end
