(* ===== verification/TtlCache.thy ===== *)
theory TtlCache
  imports Prelude "HOL-Library.AList"
begin

text \<open>
  The contract of the agent's caches. An entry is written at an instant and is live for the
  cache's TTL; reading a key at an instant gives its live entry; reads and writes may evict,
  but only what is no longer live. The flow filter and the metadata cache are instances.
\<close>

datatype ('k, 'v) cacheOp = Probe 'k time | Put 'k 'v time

primrec opTime :: "('k, 'v) cacheOp \<Rightarrow> time" where
  "opTime (Probe k t) = t"
| "opTime (Put k v t) = t"

locale ttl_cache =
  fixes inv :: "'s \<Rightarrow> bool"
    and live :: "'s \<Rightarrow> time \<Rightarrow> time \<Rightarrow> bool"
    and peek :: "'k \<Rightarrow> time \<Rightarrow> 's \<Rightarrow> 'v option"
    and probe :: "'k \<Rightarrow> time \<Rightarrow> 's \<Rightarrow> 'v option \<times> 's"
    and put :: "'k \<Rightarrow> 'v \<Rightarrow> time \<Rightarrow> 's \<Rightarrow> 's"
  assumes inv_probe: "inv s \<Longrightarrow> inv (snd (probe k t s))"
    and inv_put: "inv s \<Longrightarrow> inv (put k v t s)"
    and live_probe: "live (snd (probe k t s)) = live s"
    and live_put: "live (put k v t s) = live s"
    and probe_value: "inv s \<Longrightarrow> fst (probe k t s) = peek k t s"
    and probe_frame: "inv s \<Longrightarrow> t0 \<le> t \<Longrightarrow> peek k t (snd (probe k' t0 s)) = peek k t s"
    and put_same: "inv s \<Longrightarrow> t0 \<le> t \<Longrightarrow> peek k t (put k v t0 s) = (if live s t0 t then Some v else None)"
    and put_other: "inv s \<Longrightarrow> t0 \<le> t \<Longrightarrow> k \<noteq> k' \<Longrightarrow> peek k t (put k' v t0 s) = peek k t s"
begin

primrec exec :: "('k, 'v) cacheOp \<Rightarrow> 's \<Rightarrow> 's" where
  "exec (Probe k t) s = snd (probe k t s)"
| "exec (Put k v t) s = put k v t s"

lemma inv_exec: "inv s \<Longrightarrow> inv (exec op s)"
  by (cases op) (simp_all add: inv_probe inv_put)

end

text \<open>So the invariant holds in every run.\<close>

sublocale ttl_cache \<subseteq> cache_run: step_invariant exec inv
  by unfold_locales (rule inv_exec)

context ttl_cache
begin

lemmas inv_run = cache_run.run_keeps

lemma live_exec: "live (exec op s) = live s"
  by (cases op) (simp_all add: live_probe live_put)

text \<open>What is read does not depend on the operations on other keys.\<close>

lemma peek_exec:
  "inv s \<Longrightarrow> opTime op \<le> t \<Longrightarrow> (\<And>v t0. op \<noteq> Put k v t0) \<Longrightarrow> peek k t (exec op s) = peek k t s"
  by (cases op) (auto simp: probe_frame intro: put_other)

lemma peek_run:
  "inv s \<Longrightarrow> (\<And>op. op \<in> set ops \<Longrightarrow> opTime op \<le> t \<and> (\<forall>v t0. op \<noteq> Put k v t0)) \<Longrightarrow>
     peek k t (fold exec ops s) = peek k t s"
proof (induction ops arbitrary: s)
  case (Cons op ops)
  have "peek k t (fold exec ops (exec op s)) = peek k t (exec op s)"
    using Cons.prems by (intro Cons.IH inv_exec) auto
  also have "\<dots> = peek k t s" using Cons.prems by (intro peek_exec) auto
  finally show ?case by simp
qed simp

text \<open>A written entry is what the key reads as until it is written again or its TTL ends.\<close>

lemma put_then_run:
  assumes "inv s" "t0 \<le> t"
    and "\<And>op. op \<in> set ops \<Longrightarrow> opTime op \<le> t \<and> (\<forall>v' t1. op \<noteq> Put k v' t1)"
  shows "peek k t (fold exec ops (put k v t0 s)) = (if live s t0 t then Some v else None)"
  using peek_run [OF inv_put [OF assms(1)] assms(3)] put_same [OF assms(1,2)] by simp

end

section \<open>Association lists as Go maps\<close>

lemma map_of_filter_snd:
  "distinct (map fst xs) \<Longrightarrow>
     map_of (filter (\<lambda>(k, v). P v) xs) k =
       (case map_of xs k of None \<Rightarrow> None | Some v \<Rightarrow> if P v then Some v else None)"
  by (induction xs) (auto split: option.splits dest: map_of_SomeD simp: rev_image_eqI)

lemma distinct_filter_keys: "distinct (map fst xs) \<Longrightarrow> distinct (map fst (filter P xs))"
  by (simp add: distinct_map_filter)

end
