(* ===== verification/FlowFilter.thy ===== *)
theory FlowFilter
  imports TtlCache Model
begin

text \<open>
  Port sets and the flow filter of the agent, \<^verbatim>\<open>cmd/agent/metadata.go\<close>. The filter
  decides per flow whether its events are forwarded and remembers the decision for a TTL. A
  Go map is an association list with distinct keys, so that its size is its length. Each
  method runs under the filter's mutex; \<open>allow\<close> reads the clock once, as \<open>now\<close>.
\<close>

section \<open>Port sets\<close>

type_synonym portSet = "int set"

definition parsePort :: "bytes \<Rightarrow> unit + portSet" where
  "parsePort part =
     (if trim_space part = [] then Inr {}
      else case atoi (trim_space part) of
             None \<Rightarrow> Inl ()
           | Some port \<Rightarrow> if port < 0 \<or> port > 65535 then Inl () else if port > 0 then Inr {port} else Inr {})"

text \<open>\<open>Inl part\<close> is the error that names the invalid part.\<close>

fun parsePorts :: "bytes list \<Rightarrow> portSet \<Rightarrow> bytes + portSet" where
  "parsePorts [] acc = Inr acc"
| "parsePorts (part # parts) acc =
     (case parsePort part of
        Inl _ \<Rightarrow> Inl (trim_space part)
      | Inr ports \<Rightarrow> parsePorts parts (acc \<union> ports))"

definition parsePortSet :: "bytes \<Rightarrow> bytes + portSet" where
  "parsePortSet raw = parsePorts (split_on CHR '','' raw) {}"

definition portSet_contains :: "portSet \<Rightarrow> int \<Rightarrow> bool" where
  "portSet_contains s port = (if s = {} then False else port \<in> s)"

definition matchesAny :: "portSet \<Rightarrow> int list \<Rightarrow> bool" where
  "matchesAny s ports = (if s = {} then False else list_ex (portSet_contains s) ports)"

definition sortedPortSet :: "portSet \<Rightarrow> int list" where
  "sortedPortSet s = sorted_list_of_set s"

fun portSetFromInts :: "int list \<Rightarrow> portSet" where
  "portSetFromInts [] = {}"
| "portSetFromInts (port # ports) =
     (if port > 0 \<and> port \<le> 65535 then insert port (portSetFromInts ports) else portSetFromInts ports)"

section \<open>Payload markers\<close>

definition httpPayloadMarkers :: "bytes list" where
  "httpPayloadMarkers = [''GET '', ''POST '', ''PUT '', ''PATCH '', ''DELETE '', ''HEAD '',
     ''OPTIONS '', ''TRACE '', ''CONNECT '', ''HTTP/1.'']"

definition isLikelyHTTPPayload :: "bytes \<Rightarrow> bool" where
  "isLikelyHTTPPayload payload =
     (if length payload = 0 then False
      else let payload1 = (if length payload > 64 then take 64 payload else payload)
           in list_ex (contains payload1) httpPayloadMarkers)"

section \<open>The filter\<close>

record flowKey =
  fk_pid :: u32
  fk_fd :: u32
  fk_generation :: u32

datatype flowDecision = flowDecisionAllow | flowDecisionDeny

record cachedFlowDecision =
  cf_decision :: flowDecision
  cf_expiresAt :: time

record flowFilter =
  ff_flows :: "(flowKey \<times> cachedFlowDecision) list"
  ff_ttl :: duration
  ff_targetPorts :: portSet
  ff_ignorePorts :: portSet
  ff_captureInbound :: bool
  ff_captureOutbound :: bool

definition newFlowFilter :: "duration \<Rightarrow> portSet \<Rightarrow> portSet \<Rightarrow> bool \<Rightarrow> bool \<Rightarrow> flowFilter" where
  "newFlowFilter ttl targetPorts ignorePorts captureInbound captureOutbound =
     \<lparr>ff_flows = [], ff_ttl = ttl, ff_targetPorts = targetPorts, ff_ignorePorts = ignorePorts,
      ff_captureInbound = captureInbound, ff_captureOutbound = captureOutbound\<rparr>"

definition filter_cleanup :: "time \<Rightarrow> flowFilter \<Rightarrow> flowFilter" where
  "filter_cleanup now f =
     (if length (ff_flows f) < 65536 then f
      else f\<lparr>ff_flows := filter (\<lambda>(key, cached). \<not> now > cf_expiresAt cached) (ff_flows f)\<rparr>)"

definition filter_lookup :: "flowKey \<Rightarrow> time \<Rightarrow> flowFilter \<Rightarrow> flowDecision option \<times> flowFilter" where
  "filter_lookup key now f =
     (case map_of (ff_flows f) key of
        None \<Rightarrow> (None, filter_cleanup now f)
      | Some cached \<Rightarrow>
          if now > cf_expiresAt cached
          then (None, filter_cleanup now (f\<lparr>ff_flows := AList.delete key (ff_flows f)\<rparr>))
          else (Some (cf_decision cached), f))"

definition filter_remember :: "flowKey \<Rightarrow> flowDecision \<Rightarrow> time \<Rightarrow> flowFilter \<Rightarrow> flowFilter" where
  "filter_remember key decision now f =
     filter_cleanup now (f\<lparr>ff_flows :=
       AList.update key \<lparr>cf_decision = decision, cf_expiresAt = now + ff_ttl f\<rparr> (ff_flows f)\<rparr>)"

definition connectionAllowed :: "flowFilter \<Rightarrow> ConnectionMetadata \<Rightarrow> bool" where
  "connectionAllowed f conn =
     (if matchesAny (ff_ignorePorts f) [conn_SrcPort conn, conn_DstPort conn] then False
      else if conn_Role conn = ''inbound'' \<and> \<not> ff_captureInbound f then False
      else if conn_Role conn = ''outbound'' \<and> \<not> ff_captureOutbound f then False
      else if ff_targetPorts f = {} then True
      else matchesAny (ff_targetPorts f) [conn_SrcPort conn, conn_DstPort conn])"

definition eventFlowKey :: "ApiEvent \<Rightarrow> flowKey" where
  "eventFlowKey event = \<lparr>fk_pid = ev_PID event, fk_fd = ev_FD event, fk_generation = ev_Generation event\<rparr>"

definition filter_allow :: "ApiEvent \<Rightarrow> bool \<Rightarrow> time \<Rightarrow> flowFilter \<Rightarrow> bool \<times> flowFilter" where
  "filter_allow event metadataOK now f =
     (let key = eventFlowKey event; (cached, f1) = filter_lookup key now f in
      case cached of
        Some decision \<Rightarrow> (decision = flowDecisionAllow, f1)
      | None \<Rightarrow>
          if metadataOK \<and> conn_Protocol (ev_Connection event) \<noteq> [] then
            (if connectionAllowed f1 (ev_Connection event)
             then (True, filter_remember key flowDecisionAllow now f1)
             else (False, filter_remember key flowDecisionDeny now f1))
          else if ev_EventType event = eventTypeData \<and> isLikelyHTTPPayload (ev_Payload event)
          then (True, filter_remember key flowDecisionAllow now f1)
          else (False, f1))"

definition filter_update :: "portSet \<Rightarrow> portSet \<Rightarrow> bool \<Rightarrow> bool \<Rightarrow> flowFilter \<Rightarrow> flowFilter" where
  "filter_update targetPorts ignorePorts captureInbound captureOutbound f =
     f\<lparr>ff_targetPorts := targetPorts, ff_ignorePorts := ignorePorts, ff_captureInbound := captureInbound,
       ff_captureOutbound := captureOutbound, ff_flows := []\<rparr>"

section \<open>The filter is a TTL cache\<close>

definition filter_inv :: "flowFilter \<Rightarrow> bool" where
  "filter_inv f \<longleftrightarrow> distinct (map fst (ff_flows f))"

definition filter_peek :: "flowKey \<Rightarrow> time \<Rightarrow> flowFilter \<Rightarrow> flowDecision option" where
  "filter_peek key now f =
     (case map_of (ff_flows f) key of
        None \<Rightarrow> None
      | Some cached \<Rightarrow> if now > cf_expiresAt cached then None else Some (cf_decision cached))"

lemma cleanup_peek:
  assumes "filter_inv f" "now \<le> t"
  shows "filter_peek key t (filter_cleanup now f) = filter_peek key t f"
  using assms map_of_filter_snd [of "ff_flows f" "\<lambda>c. \<not> now > cf_expiresAt c" key]
  by (auto simp: filter_peek_def filter_cleanup_def filter_inv_def split: option.splits)

lemma cleanup_inv: "filter_inv f \<Longrightarrow> filter_inv (filter_cleanup now f)"
  by (simp add: filter_inv_def filter_cleanup_def distinct_filter_keys)

lemma cleanup_ttl [simp]: "ff_ttl (filter_cleanup now f) = ff_ttl f"
  by (simp add: filter_cleanup_def)

interpretation flows: ttl_cache filter_inv "\<lambda>f t0 t. t \<le> t0 + ff_ttl f" filter_peek filter_lookup filter_remember
proof (unfold_locales, goal_cases)
  case (1 s k t)
  then show ?case
    using cleanup_inv [of s t] cleanup_inv [of "s\<lparr>ff_flows := AList.delete k (ff_flows s)\<rparr>" t]
    by (auto simp: filter_lookup_def filter_inv_def distinct_delete split: option.splits)
next
  case (2 s k v t)
  then show ?case
    using cleanup_inv [of "s\<lparr>ff_flows := AList.update k \<lparr>cf_decision = v, cf_expiresAt = t + ff_ttl s\<rparr> (ff_flows s)\<rparr>" t]
    by (simp add: filter_remember_def filter_inv_def distinct_update)
next
  case (3 k t s)
  then show ?case by (auto simp: filter_lookup_def split: option.splits)
next
  case (4 k v t s)
  then show ?case by (simp add: filter_remember_def)
next
  case (5 s k t)
  then show ?case by (auto simp: filter_lookup_def filter_peek_def split: option.splits)
next
  case (6 s t0 t k k')
  have del: "filter_inv (s\<lparr>ff_flows := AList.delete k' (ff_flows s)\<rparr>)"
    using 6(1) by (simp add: filter_inv_def distinct_delete)
  show ?case
  proof (cases "map_of (ff_flows s) k'")
    case None
    then show ?thesis using cleanup_peek [OF 6] by (simp add: filter_lookup_def)
  next
    case (Some c)
    show ?thesis
    proof (cases "t0 > cf_expiresAt c")
      case True
      have "filter_peek k t (s\<lparr>ff_flows := AList.delete k' (ff_flows s)\<rparr>) = filter_peek k t s"
        using True Some 6(2) by (auto simp: filter_peek_def delete_conv')
      then show ?thesis using True Some cleanup_peek [OF del 6(2)] by (simp add: filter_lookup_def)
    qed (simp add: Some filter_lookup_def)
  qed
next
  case (7 s t0 t k v)
  then show ?case
    by (subst filter_remember_def, subst cleanup_peek)
      (auto simp: filter_inv_def distinct_update filter_peek_def update_conv')
next
  case (8 s t0 t k k' v)
  then show ?case
    by (subst filter_remember_def, subst cleanup_peek)
      (auto simp: filter_inv_def distinct_update filter_peek_def update_conv')
qed

section \<open>Decisions\<close>

lemma matchesAny_iff: "matchesAny s ports \<longleftrightarrow> (\<exists>p \<in> set ports. p \<in> s)"
  by (auto simp: matchesAny_def portSet_contains_def list_ex_iff)

text \<open>What the operator's port and direction options ask for.\<close>

definition wanted :: "flowFilter \<Rightarrow> ConnectionMetadata \<Rightarrow> bool" where
  "wanted f conn \<longleftrightarrow>
     conn_SrcPort conn \<notin> ff_ignorePorts f \<and> conn_DstPort conn \<notin> ff_ignorePorts f \<and>
     (conn_Role conn = ''inbound'' \<longrightarrow> ff_captureInbound f) \<and>
     (conn_Role conn = ''outbound'' \<longrightarrow> ff_captureOutbound f) \<and>
     (ff_targetPorts f = {} \<or> conn_SrcPort conn \<in> ff_targetPorts f \<or> conn_DstPort conn \<in> ff_targetPorts f)"

lemma connectionAllowed_wanted: "connectionAllowed f conn = wanted f conn"
  by (auto simp: connectionAllowed_def wanted_def matchesAny_iff)

lemma lookup_config:
  "ff_targetPorts (snd (filter_lookup key now f)) = ff_targetPorts f"
  "ff_ignorePorts (snd (filter_lookup key now f)) = ff_ignorePorts f"
  "ff_captureInbound (snd (filter_lookup key now f)) = ff_captureInbound f"
  "ff_captureOutbound (snd (filter_lookup key now f)) = ff_captureOutbound f"
  "ff_ttl (snd (filter_lookup key now f)) = ff_ttl f"
  by (auto simp: filter_lookup_def filter_cleanup_def split: option.splits)

text \<open>The outcome of one call, by what is cached and what is known of the connection.\<close>

lemma filter_allow_cases:
  assumes "filter_inv f"
  shows "fst (filter_allow event metadataOK now f) =
    (case filter_peek (eventFlowKey event) now f of
       Some decision \<Rightarrow> decision = flowDecisionAllow
     | None \<Rightarrow>
         if metadataOK \<and> conn_Protocol (ev_Connection event) \<noteq> [] then wanted f (ev_Connection event)
         else ev_EventType event = eventTypeData \<and> isLikelyHTTPPayload (ev_Payload event))"
  using flows.probe_value [OF assms, of "eventFlowKey event" now] lookup_config [of "eventFlowKey event" now f]
  by (auto simp: filter_allow_def case_prod_beta Let_def connectionAllowed_wanted wanted_def split: option.splits)

text \<open>One call is one probe and at most one write of its own key.\<close>

lemma filter_allow_ops:
  "\<exists>ops. snd (filter_allow event metadataOK now f) = fold flows.exec ops f \<and>
     (\<forall>op \<in> set ops. opTime op = now \<and>
        (\<forall>k v t. op = Put k v t \<longrightarrow> k = eventFlowKey event \<and> fst (filter_lookup (eventFlowKey event) now f) = None))"
proof -
  let ?k = "eventFlowKey event"
  let ?probe = "Probe ?k now :: (flowKey, flowDecision) cacheOp"
  obtain d f1 where l: "filter_lookup ?k now f = (d, f1)" by force
  have "snd (filter_allow event metadataOK now f) \<in>
      {f1} \<union> (if d = None then {filter_remember ?k flowDecisionAllow now f1, filter_remember ?k flowDecisionDeny now f1} else {})"
    by (auto simp: filter_allow_def l Let_def split: option.splits)
  then consider "snd (filter_allow event metadataOK now f) = fold flows.exec [?probe] f"
    | v where "d = None" "snd (filter_allow event metadataOK now f) = fold flows.exec [?probe, Put ?k v now] f"
    by (auto simp: l split: if_splits)
  then show ?thesis
  proof cases
    case 1
    then show ?thesis by (intro exI [of _ "[?probe]"]) simp
  next
    case (2 v)
    then show ?thesis by (intro exI [of _ "[?probe, Put ?k v now]"]) (simp add: l)
  qed
qed

lemma allow_inv: "filter_inv f \<Longrightarrow> filter_inv (snd (filter_allow event metadataOK now f))"
  using filter_allow_ops [of event metadataOK now f] flows.inv_run by metis

lemma allow_config:
  "ff_targetPorts (snd (filter_allow event metadataOK now f)) = ff_targetPorts f"
  "ff_ignorePorts (snd (filter_allow event metadataOK now f)) = ff_ignorePorts f"
  "ff_captureInbound (snd (filter_allow event metadataOK now f)) = ff_captureInbound f"
  "ff_captureOutbound (snd (filter_allow event metadataOK now f)) = ff_captureOutbound f"
  "ff_ttl (snd (filter_allow event metadataOK now f)) = ff_ttl f"
  using lookup_config [of "eventFlowKey event" now f]
  by (auto simp: filter_allow_def filter_remember_def filter_cleanup_def Let_def case_prod_beta split: option.splits)

lemma filter_allow_frame:
  assumes "filter_inv f" "now \<le> t" "key \<noteq> eventFlowKey event \<or> filter_peek key now f \<noteq> None"
  shows "filter_peek key t (snd (filter_allow event metadataOK now f)) = filter_peek key t f"
proof -
  obtain ops where ops: "snd (filter_allow event metadataOK now f) = fold flows.exec ops f"
    "\<forall>op \<in> set ops. opTime op = now \<and>
      (\<forall>k v t. op = Put k v t \<longrightarrow> k = eventFlowKey event \<and> fst (filter_lookup (eventFlowKey event) now f) = None)"
    using filter_allow_ops by blast
  have "opTime op \<le> t \<and> (\<forall>v t0. op \<noteq> Put key v t0)" if "op \<in> set ops" for op
    using ops(2) that assms flows.probe_value [OF assms(1), of "eventFlowKey event" now] by fastforce
  from flows.peek_run [OF assms(1) this]
  show "filter_peek key t (snd (filter_allow event metadataOK now f)) = filter_peek key t f"
    unfolding ops(1) .
qed

text \<open>A call as it is made: the event, whether metadata was found, and the clock.\<close>

type_synonym allowCall = "ApiEvent \<times> bool \<times> time"

fun allowRun :: "allowCall list \<Rightarrow> flowFilter \<Rightarrow> flowFilter" where
  "allowRun [] f = f"
| "allowRun ((event, metadataOK, now) # calls) f = allowRun calls (snd (filter_allow event metadataOK now f))"

lemma filter_peek_earlier: "filter_peek key t f = Some d \<Longrightarrow> now \<le> t \<Longrightarrow> filter_peek key now f = Some d"
  by (auto simp: filter_peek_def split: option.splits if_splits)

lemma allowRun_inv: "filter_inv f \<Longrightarrow> filter_inv (allowRun calls f)"
  by (induction calls f rule: allowRun.induct)
    (simp_all add: allow_inv)

lemma allowRun_peek:
  "filter_inv f \<Longrightarrow> (\<forall>(e, m, now) \<in> set calls. now \<le> t) \<Longrightarrow> filter_peek key t f = Some d \<Longrightarrow>
     filter_peek key t (allowRun calls f) = Some d"
proof (induction calls f rule: allowRun.induct)
  case (2 event metadataOK now calls f)
  then have now: "now \<le> t" by simp
  have "filter_peek key now f \<noteq> None" using filter_peek_earlier [OF "2.prems"(3) now] by simp
  then have "filter_peek key t (snd (filter_allow event metadataOK now f)) = Some d"
    using filter_allow_frame [OF "2.prems"(1) now, of key event metadataOK] "2.prems"(3) by simp
  with 2 allow_inv show ?case by simp
qed simp

lemma allowRun_config:
  "ff_targetPorts (allowRun calls f) = ff_targetPorts f \<and> ff_ignorePorts (allowRun calls f) = ff_ignorePorts f \<and>
   ff_captureInbound (allowRun calls f) = ff_captureInbound f \<and>
   ff_captureOutbound (allowRun calls f) = ff_captureOutbound f \<and> ff_ttl (allowRun calls f) = ff_ttl f"
proof (induction calls f rule: allowRun.induct)
  case (2 event metadataOK now calls f)
  then show ?case using allow_config [of event metadataOK now f] by simp
qed simp

lemma newFlowFilter_inv: "filter_inv (newFlowFilter ttl targets ignored inb outb)"
  by (simp add: filter_inv_def newFlowFilter_def)

lemma allow_remembers:
  assumes "filter_inv f" "filter_peek (eventFlowKey event) now f = None" "now \<le> t" "t \<le> now + ff_ttl f"
    and "metadataOK \<and> conn_Protocol (ev_Connection event) \<noteq> [] \<or>
      ev_EventType event = eventTypeData \<and> isLikelyHTTPPayload (ev_Payload event)"
  shows "filter_peek (eventFlowKey event) t (snd (filter_allow event metadataOK now f)) =
    Some (if fst (filter_allow event metadataOK now f) then flowDecisionAllow else flowDecisionDeny)"
proof -
  obtain d f1 where l: "filter_lookup (eventFlowKey event) now f = (d, f1)" by force
  have "d = None" using flows.probe_value [OF assms(1), of "eventFlowKey event" now] assms(2) l by simp
  moreover have "filter_inv f1" "ff_ttl f1 = ff_ttl f"
    using flows.inv_probe [OF assms(1), of "eventFlowKey event" now] lookup_config(5) [of "eventFlowKey event" now f] l
    by simp_all
  ultimately show ?thesis
    using l assms(3-5) flows.put_same [of f1 now t "eventFlowKey event"] by (auto simp: filter_allow_def Let_def)
qed


definition flowEvent :: "int \<Rightarrow> bytes \<Rightarrow> ApiEvent" where
  "flowEvent port payload = zeroEvent\<lparr>ev_PID := 7, ev_FD := 3, ev_Payload := payload,
     ev_Connection := noConnection\<lparr>conn_Protocol := ''tcp'', conn_SrcPort := port, conn_DstPort := 40000\<rparr>\<rparr>"


text \<open>A guess is not revised: a flow that was let through because a chunk of it looked like HTTP
  while its connection could not be resolved stays allowed for the TTL, even when its connection
  turns out, in that time, to be one that the options exclude, such as one on an ignored port.\<close>

theorem guess_outlives_metadata:
  assumes "filter_inv f" "filter_peek (eventFlowKey event) now f = None"
    and "ev_EventType event = eventTypeData" "isLikelyHTTPPayload (ev_Payload event)"
    and "eventFlowKey later = eventFlowKey event" "now \<le> t" "t \<le> now + ff_ttl f"
    and "\<not> wanted f (ev_Connection later)"
  shows "fst (filter_allow event False now f) \<and>
    fst (filter_allow later True t (snd (filter_allow event False now f))) \<and>
    \<not> wanted (snd (filter_allow event False now f)) (ev_Connection later)"
proof -
  have now: "fst (filter_allow event False now f)"
    using filter_allow_cases [OF assms(1), of event False now] assms(2-4) by simp
  have "filter_peek (eventFlowKey event) t (snd (filter_allow event False now f)) = Some flowDecisionAllow"
    using allow_remembers [OF assms(1,2,6,7), of False] assms(3,4) now by simp
  with filter_allow_cases [OF allow_inv [OF assms(1)], of later True t event False now]
  have "fst (filter_allow later True t (snd (filter_allow event False now f)))" by (simp add: assms(5))
  with now assms(8) show ?thesis by (simp add: wanted_def allow_config)
qed

theorem guess_outlives_metadata_witness:
  "fst (filter_allow (flowEvent 9092 []) True 10
     (snd (filter_allow (flowEvent 9092 ''GET /'') False 5 (newFlowFilter 15 {} {9092} True True))))"
proof -
  let ?f = "newFlowFilter 15 {} {9092} True True"
  have h: "isLikelyHTTPPayload ''GET /''" by code_simp
  show ?thesis
    using guess_outlives_metadata [OF newFlowFilter_inv, of "flowEvent 9092 ''GET /''" 5 15 "{}" "{9092}" True True "flowEvent 9092 []" 10] h
    by (simp add: flowEvent_def zeroEvent_def noConnection_def eventFlowKey_def wanted_def newFlowFilter_def
        filter_peek_def eventTypeData_def)
qed

lemma occurs_at_take: "occurs_at (take n s) m i \<longleftrightarrow> occurs_at s m i \<and> i + length m \<le> n"
  by (auto simp: occurs_at_def has_prefix_def drop_take min_def)

text \<open>The payload test looks at the first 64 bytes of the chunk: a chunk passes exactly when a
  method or status marker lies within them, so a message that starts later in the chunk is missed.\<close>

theorem likely_http_window:
  "isLikelyHTTPPayload payload \<longleftrightarrow>
     (\<exists>m \<in> set httpPayloadMarkers. \<exists>i. occurs_at payload m i \<and> i + length m \<le> 64)"
proof -
  have "contains (take 64 payload) m \<longleftrightarrow> (\<exists>i. occurs_at payload m i \<and> i + length m \<le> 64)" for m
    unfolding contains_def bytes_index_nonneg occurs_at_take by blast
  moreover have "(if length payload > 64 then take 64 payload else payload) = take 64 payload" by simp
  moreover have "m \<noteq> []" if "m \<in> set httpPayloadMarkers" for m
    using that by (auto simp: httpPayloadMarkers_def)
  then have "\<not> occurs_at [] m i" if "m \<in> set httpPayloadMarkers" for m i
    using that by (auto simp: occurs_at_Nil)
  ultimately show ?thesis
    by (auto simp: isLikelyHTTPPayload_def list_ex_iff Let_def)
qed

theorem likely_http_window_witness:
  "\<not> isLikelyHTTPPayload (replicate 64 CHR ''x'' @ ''GET /'')"
proof -
  let ?p = "replicate 64 CHR ''x'' @ ''GET /''"
  have "\<not> (\<exists>m \<in> set httpPayloadMarkers. contains (take 64 ?p) m)" by code_simp
  then have "\<not> (\<exists>m \<in> set httpPayloadMarkers. \<exists>i. occurs_at ?p m i \<and> i + length m \<le> 64)"
    unfolding contains_def bytes_index_nonneg occurs_at_take by blast
  then show ?thesis using likely_http_window [of ?p] by blast
qed

section \<open>Parsing port sets\<close>

definition validPart :: "bytes \<Rightarrow> bool" where
  "validPart part \<longleftrightarrow> trim_space part = [] \<or>
     (case atoi (trim_space part) of Some port \<Rightarrow> 0 \<le> port \<and> port \<le> 65535 | None \<Rightarrow> False)"

lemma parsePort_valid:
  "(\<exists>ports. parsePort part = Inr ports) = validPart part"
  "parsePort part = Inr ports \<Longrightarrow> ports = {p. atoi (trim_space part) = Some p \<and> 0 < p \<and> p \<le> 65535}"
  by (auto simp: parsePort_def validPart_def atoi_def split: option.splits if_splits)

lemma parsePorts_spec:
  "parsePorts parts acc =
     (case find (\<lambda>part. \<not> validPart part) parts of
        Some part \<Rightarrow> Inl (trim_space part)
      | None \<Rightarrow> Inr (acc \<union> {p. 0 < p \<and> p \<le> 65535 \<and> (\<exists>part \<in> set parts. atoi (trim_space part) = Some p)}))"
proof (induction parts acc rule: parsePorts.induct)
  case (2 part parts acc)
  show ?case
  proof (cases "parsePort part")
    case (Inl u)
    then have "\<not> validPart part" using parsePort_valid(1) [of part] by auto
    with Inl show ?thesis by simp
  next
    case (Inr ports)
    then have "validPart part" using parsePort_valid(1) [of part] by blast
    with Inr 2 parsePort_valid(2) [OF Inr] show ?thesis by (auto split: option.splits)
  qed
qed simp

text \<open>Parsing a comma-separated port list rejects it at its first part that is neither blank nor a
  number from 0 to 65535, and otherwise gives exactly the positive ports it names; so every
  accepted set fits the 16-bit keys of the kernel's port maps.\<close>

theorem parsePortSet_spec:
  "parsePortSet raw =
     (case find (\<lambda>part. \<not> validPart part) (split_on CHR '','' raw) of
        Some part \<Rightarrow> Inl (trim_space part)
      | None \<Rightarrow> Inr {p. 0 < p \<and> p \<le> 65535 \<and>
          (\<exists>part \<in> set (split_on CHR '','' raw). atoi (trim_space part) = Some p)})"
  by (simp only: parsePortSet_def parsePorts_spec Un_empty_left)

theorem parsePortSet_spec_witness:
  "parsePortSet ''80, ,443,x'' = Inl ''x''"
proof -
  have "find (\<lambda>part. \<not> validPart part) (split_on CHR '','' ''80, ,443,x'') = Some ''x''" by code_simp
  moreover have "trim_space ''x'' = ''x''" by code_simp
  ultimately show ?thesis unfolding parsePortSet_spec by (simp only: option.case)
qed

end
