(* ===== verification/AgentMetadata.thy ===== *)
theory AgentMetadata
  imports FlowFilter
begin

text \<open>
  Connection, process and container metadata, \<^verbatim>\<open>cmd/agent/metadata.go\<close>. What the
  code reads under \<^verbatim>\<open>/proc\<close> at one call is a \<open>procfs\<close>; the Docker and Kubernetes
  APIs are the two functions of it that answer for an id. The resolver caches what it found
  per flow. Letters are folded as ASCII, as the kernel's file contents are.
\<close>

section \<open>The system the resolver reads\<close>

record kubePod =
  kp_UID :: bytes
  kp_Name :: bytes
  kp_Namespace :: bytes
  kp_NodeName :: bytes

text \<open>
  \<open>pf_netTCP pid ipv6\<close> is \<^verbatim>\<open>/proc/pid/net/tcp\<close> or \<^verbatim>\<open>tcp6\<close>: \<open>None\<close> if it cannot be
  opened, else the lines scanned and whether the scanner ended with an error.
  \<open>pf_ipString\<close> is \<open>net.IP.String\<close> of 16 bytes.
\<close>

record procfs =
  pf_fdLink :: "u32 \<Rightarrow> u32 \<Rightarrow> bytes option"
  pf_comm :: "u32 \<Rightarrow> bytes"
  pf_exe :: "u32 \<Rightarrow> bytes"
  pf_cgroup :: "u32 \<Rightarrow> bytes option"
  pf_netTCP :: "u32 \<Rightarrow> bool \<Rightarrow> (bytes list \<times> bool) option"
  pf_ipString :: "bytes \<Rightarrow> bytes"
  pf_getenv :: "bytes \<Rightarrow> bytes"
  pf_dockerInspect :: "bytes \<Rightarrow> (bytes \<times> bytes) option"
  pf_podsByUID :: "bytes \<Rightarrow> kubePod list option"

section \<open>Socket inodes\<close>

definition index_byte :: "bytes \<Rightarrow> char \<Rightarrow> int" where
  "index_byte s c = bytes_index s [c]"

text \<open>\<open>Inl\<close> is the error return; an empty string means that the descriptor is no socket.\<close>

definition socketInode :: "procfs \<Rightarrow> u32 \<Rightarrow> u32 \<Rightarrow> unit + bytes" where
  "socketInode p pid fd =
     (case pf_fdLink p pid fd of
        None \<Rightarrow> Inl ()
      | Some link \<Rightarrow>
          if \<not> has_prefix link ''socket:['' then Inr []
          else let start = index_byte link CHR ''[''; stop = index_byte link CHR '']'' in
            if start < 0 \<or> stop < 0 \<or> stop \<le> start + 1 then Inl ()
            else Inr (take (nat (stop - (start + 1))) (drop (nat (start + 1)) link)))"

section \<open>Parsing of /proc/net/tcp\<close>

definition is_hex :: "char \<Rightarrow> bool" where
  "is_hex c \<longleftrightarrow> is_digit c \<or> in_range 65 70 c \<or> in_range 97 102 c"

definition hex_value :: "char \<Rightarrow> nat" where
  "hex_value c = (if is_digit c then byte_of c - 48 else if in_range 65 70 c then byte_of c - 55 else byte_of c - 87)"

definition hex_digits_value :: "bytes \<Rightarrow> int" where
  "hex_digits_value s = foldl (\<lambda>n c. 16 * n + int (hex_value c)) 0 s"

text \<open>\<open>strconv.ParseUint(s, 16, 8)\<close> and \<open>strconv.ParseInt(s, 16, 32)\<close> with the error
  dropped: 0 for a syntax error, the nearest bound when out of range.\<close>

definition parse_hex8 :: "bytes \<Rightarrow> nat option" where
  "parse_hex8 s = (if s \<noteq> [] \<and> list_all is_hex s \<and> hex_digits_value s < 256 then Some (nat (hex_digits_value s)) else None)"

definition parse_hex_int32 :: "bytes \<Rightarrow> int" where
  "parse_hex_int32 s =
     (let neg = has_prefix s ''-''; s' = (if neg \<or> has_prefix s ''+'' then drop 1 s else s)
      in if s' = [] \<or> \<not> list_all is_hex s' then 0
         else if neg then max (- 2147483648) (- hex_digits_value s')
         else min 2147483647 (hex_digits_value s'))"

definition show_ipv4 :: "nat list \<Rightarrow> bytes" where
  "show_ipv4 b = show_nat (b ! 0) @ CHR ''.'' # show_nat (b ! 1) @ CHR ''.'' # show_nat (b ! 2) @ CHR ''.'' # show_nat (b ! 3)"

definition parseIPv4Hex :: "bytes \<Rightarrow> bytes" where
  "parseIPv4Hex raw =
     (if length raw \<noteq> 8 then []
      else case (parse_hex8 (take 2 raw), parse_hex8 (take 2 (drop 2 raw)),
                 parse_hex8 (take 2 (drop 4 raw)), parse_hex8 (take 2 (drop 6 raw))) of
             (Some b3, Some b2, Some b1, Some b0) \<Rightarrow> show_ipv4 [b0, b1, b2, b3]
           | _ \<Rightarrow> [])"

fun hex_decode :: "bytes \<Rightarrow> bytes option" where
  "hex_decode [] = Some []"
| "hex_decode [c] = None"
| "hex_decode (c # d # s) =
     (if is_hex c \<and> is_hex d
      then map_option (\<lambda>r. char_of (16 * hex_value c + hex_value d) # r) (hex_decode s) else None)"

text \<open>Each 32-bit word is stored little-endian.\<close>

fun swap_words :: "'a list \<Rightarrow> 'a list" where
  "swap_words (a # b # c # d # xs) = d # c # b # a # swap_words xs"
| "swap_words xs = xs"

definition parseIPv6Hex :: "procfs \<Rightarrow> bytes \<Rightarrow> bytes" where
  "parseIPv6Hex p raw =
     (if length raw \<noteq> 32 then []
      else case hex_decode raw of
             None \<Rightarrow> []
           | Some decoded \<Rightarrow> if length decoded \<noteq> 16 then [] else pf_ipString p (swap_words decoded))"

definition parseProcNetAddr :: "procfs \<Rightarrow> bytes \<Rightarrow> bool \<Rightarrow> bytes \<times> int" where
  "parseProcNetAddr p raw ipv6 =
     (case split_on CHR '':'' raw of
        [addr, port] \<Rightarrow> (if ipv6 then parseIPv6Hex p addr else parseIPv4Hex addr, parse_hex_int32 port)
      | _ \<Rightarrow> ([], 0))"

definition isLikelyListenOrServer :: "bytes \<Rightarrow> bytes \<Rightarrow> int \<Rightarrow> bool" where
  "isLikelyListenOrServer state remoteIP remotePort \<longleftrightarrow>
     state = ''0A'' \<or> remotePort = 0 \<or> remoteIP = ''0.0.0.0'' \<or> remoteIP = ''::''"

text \<open>\<open>strings.Fields\<close>.\<close>

fun word_of :: "bytes \<Rightarrow> bytes \<times> bytes" where
  "word_of [] = ([], [])"
| "word_of (c # cs) =
     (if list_ex (has_prefix (c # cs)) go_spaces then ([], c # cs)
      else (let (w, r) = word_of cs in (c # w, r)))"

lemma word_of_length: "length (snd (word_of s)) \<le> length s"
  by (induction s) (auto simp: case_prod_beta Let_def)

lemma trim_with_length: "length (trim_with cuts s) \<le> length s"
proof (induction cuts s rule: trim_with.induct)
  case (1 cuts s)
  then show ?case by (subst trim_with.simps) (fastforce split: option.splits intro: le_trans)
qed

function strings_Fields :: "bytes \<Rightarrow> bytes list" where
  "strings_Fields s =
     (let t = trim_with go_spaces s; (w, r) = word_of t in
      if t = [] \<or> w = [] then [] else w # strings_Fields r)"
  by pat_completeness auto
termination
proof (relation "measure length", goal_cases)
  case 1
  then show ?case by simp
next
  case (2 s t x w r)
  then have w: "word_of t = (w, r)" "w \<noteq> []" by auto
  then obtain c cs where t: "t = c # cs" by (cases t) auto
  have "length r < length t"
    using w word_of_length [of cs] by (auto simp: t case_prod_beta Let_def le_imp_less_Suc split: if_splits)
  moreover have "length t \<le> length s" using 2(1) by (simp add: trim_with_length)
  ultimately show ?case by simp
qed

declare strings_Fields.simps [simp del]

fun findInode :: "procfs \<Rightarrow> bytes \<Rightarrow> bool \<Rightarrow> bytes list \<Rightarrow> ConnectionMetadata option" where
  "findInode p inode ipv6 [] = None"
| "findInode p inode ipv6 (line # rest) =
     (let fs = strings_Fields line in
      if length fs < 10 \<or> fs ! 9 \<noteq> inode then findInode p inode ipv6 rest
      else let (localIP, localPort) = parseProcNetAddr p (fs ! 1) ipv6;
               (remoteIP, remotePort) = parseProcNetAddr p (fs ! 2) ipv6
           in Some \<lparr>conn_SrcIP = localIP, conn_SrcPort = localPort, conn_DstIP = remoteIP,
                conn_DstPort = remotePort, conn_Protocol = ''tcp'',
                conn_Family = (if ipv6 then ''ipv6'' else ''ipv4''),
                conn_Role = (if isLikelyListenOrServer (fs ! 3) remoteIP remotePort
                             then ''inbound'' else ''outbound'')\<rparr>)"

definition findTCPConnection :: "procfs \<Rightarrow> u32 \<Rightarrow> bytes \<Rightarrow> bool \<Rightarrow> ConnectionMetadata option" where
  "findTCPConnection p pid inode ipv6 =
     (case pf_netTCP p pid ipv6 of
        None \<Rightarrow> None
      | Some (lines, err) \<Rightarrow> findInode p inode ipv6 (drop 1 lines))"

definition resolveConnection :: "procfs \<Rightarrow> u32 \<Rightarrow> u32 \<Rightarrow> ConnectionMetadata option" where
  "resolveConnection p pid fd =
     (case socketInode p pid fd of
        Inl _ \<Rightarrow> None
      | Inr inode \<Rightarrow>
          if inode = [] then None
          else case findTCPConnection p pid inode False of
                 Some conn \<Rightarrow> Some conn
               | None \<Rightarrow> findTCPConnection p pid inode True)"

section \<open>Processes\<close>

definition resolveProcess :: "procfs \<Rightarrow> u32 \<Rightarrow> ProcessMetadata" where
  "resolveProcess p pid = \<lparr>proc_PID = pid, proc_Name = trim_space (pf_comm p pid), proc_Exe = pf_exe p pid\<rparr>"

section \<open>Containers\<close>

record containerIdentity =
  ci_ID :: bytes
  ci_Runtime :: bytes
  ci_PodUID :: bytes

definition to_lower :: "bytes \<Rightarrow> bytes" where
  "to_lower s = map lower_ascii s"

text \<open>
  The three regular expressions: \<open>(docker|cri-containerd|crio|libpod)-\<close> and 64 hexadecimal
  digits, 64 hexadecimal digits, and \<open>pod\<close> with a UID whose groups are joined by a dash or an
  underscore, all without regard to case. \<open>leftmost\<close> is the leftmost match.
\<close>

fun leftmost :: "(bytes \<Rightarrow> 'a option) \<Rightarrow> bytes \<Rightarrow> 'a option" where
  "leftmost m [] = m []"
| "leftmost m (c # s) = (case m (c # s) of Some x \<Rightarrow> Some x | None \<Rightarrow> leftmost m s)"

definition hex_run :: "nat \<Rightarrow> bytes \<Rightarrow> bytes option" where
  "hex_run n s = (if n \<le> length s \<and> list_all is_hex (take n s) then Some (take n s) else None)"

definition matchRuntimeAt :: "bytes \<Rightarrow> (bytes \<times> bytes) option" where
  "matchRuntimeAt s =
     (case find (\<lambda>r. has_prefix (to_lower s) (r @ ''-'')) [''docker'', ''cri-containerd'', ''crio'', ''libpod''] of
        None \<Rightarrow> None
      | Some r \<Rightarrow> map_option (\<lambda>h. (take (length r) s, h)) (hex_run 64 (drop (length r + 1) s)))"

definition uid_sep :: "bytes \<Rightarrow> bool" where
  "uid_sep s = (case s of c # _ \<Rightarrow> c = CHR ''-'' \<or> c = CHR ''_'' | [] \<Rightarrow> False)"

definition matchPodAt :: "bytes \<Rightarrow> bytes option" where
  "matchPodAt s =
     (let u = drop 3 s in
      if has_prefix (to_lower s) ''pod'' \<and> hex_run 8 u \<noteq> None \<and> uid_sep (drop 8 u) \<and>
         hex_run 4 (drop 9 u) \<noteq> None \<and> uid_sep (drop 13 u) \<and> hex_run 4 (drop 14 u) \<noteq> None \<and>
         uid_sep (drop 18 u) \<and> hex_run 4 (drop 19 u) \<noteq> None \<and> uid_sep (drop 23 u) \<and>
         hex_run 12 (drop 24 u) \<noteq> None
      then Some (take 36 u) else None)"

definition extractKubernetesPodUID :: "bytes \<Rightarrow> bytes" where
  "extractKubernetesPodUID cgroup =
     (case leftmost matchPodAt cgroup of
        None \<Rightarrow> []
      | Some uid \<Rightarrow> to_lower (map (\<lambda>c. if c = CHR ''_'' then CHR ''-'' else c) uid))"

definition containerRuntimeFromCgroup :: "bytes \<Rightarrow> bytes" where
  "containerRuntimeFromCgroup cgroup =
     (let lower = to_lower cgroup in
      if contains lower ''cri-containerd'' then ''containerd''
      else if contains lower ''crio'' then ''cri-o''
      else if contains lower ''libpod'' then ''podman''
      else if contains lower ''docker'' then ''docker''
      else [])"

definition normalizeContainerRuntime :: "bytes \<Rightarrow> bytes" where
  "normalizeContainerRuntime rt =
     (let lower = to_lower rt in
      if lower = ''cri-containerd'' then ''containerd''
      else if lower = ''crio'' then ''cri-o''
      else if lower = ''libpod'' then ''podman''
      else if lower = ''docker'' then ''docker''
      else lower)"

definition extractContainerIdentity :: "bytes \<Rightarrow> containerIdentity" where
  "extractContainerIdentity cgroup =
     (case leftmost matchRuntimeAt cgroup of
        Some (rt, h) \<Rightarrow> \<lparr>ci_ID = to_lower h, ci_Runtime = normalizeContainerRuntime rt,
          ci_PodUID = extractKubernetesPodUID cgroup\<rparr>
      | None \<Rightarrow>
          \<lparr>ci_ID = (case leftmost (hex_run 64) cgroup of Some h \<Rightarrow> to_lower h | None \<Rightarrow> []),
           ci_Runtime = containerRuntimeFromCgroup cgroup, ci_PodUID = extractKubernetesPodUID cgroup\<rparr>)"

definition mergeContainerMetadata :: "ContainerMetadata \<Rightarrow> ContainerMetadata \<Rightarrow> ContainerMetadata" where
  "mergeContainerMetadata dst src = \<lparr>
     cont_ID = (if cont_ID dst = [] then cont_ID src else cont_ID dst),
     cont_Name = (if cont_Name dst = [] then cont_Name src else cont_Name dst),
     cont_Image = (if cont_Image dst = [] then cont_Image src else cont_Image dst),
     cont_Namespace = (if cont_Namespace dst = [] then cont_Namespace src else cont_Namespace dst),
     cont_Pod = (if cont_Pod dst = [] then cont_Pod src else cont_Pod dst),
     cont_Node = (if cont_Node dst = [] then cont_Node src else cont_Node dst),
     cont_Runtime = (if cont_Runtime dst = [] then cont_Runtime src else cont_Runtime dst),
     cont_PodUID = (if cont_PodUID dst = [] then cont_PodUID src else cont_PodUID dst)\<rparr>"

definition firstNonEmptyEnv :: "procfs \<Rightarrow> bytes list \<Rightarrow> bytes" where
  "firstNonEmptyEnv p keys = firstNonEmpty (map (\<lambda>key. trim_space (pf_getenv p key)) keys)"

text \<open>The pod whose UID matches among the items of the answer.\<close>

definition decodeKubernetesPodMetadata :: "kubePod list option \<Rightarrow> bytes \<Rightarrow> ContainerMetadata option" where
  "decodeKubernetesPodMetadata items podUID =
     (case items of
        None \<Rightarrow> None
      | Some pods \<Rightarrow>
          (case find (\<lambda>item. equal_fold (kp_UID item) podUID) pods of
             None \<Rightarrow> None
           | Some item \<Rightarrow> Some (noContainer\<lparr>cont_PodUID := to_lower (kp_UID item), cont_Pod := kp_Name item,
               cont_Namespace := kp_Namespace item, cont_Node := kp_NodeName item\<rparr>)))"

text \<open>The decoded part of \<open>resolveDockerContainerMetadata\<close>: the name and the image.\<close>

definition dockerContainer :: "bytes \<Rightarrow> bytes \<times> bytes \<Rightarrow> ContainerMetadata" where
  "dockerContainer containerID body = noContainer\<lparr>cont_ID := containerID,
     cont_Name := (if has_prefix (fst body) ''/'' then drop 1 (fst body) else fst body),
     cont_Image := snd body, cont_Runtime := ''docker''\<rparr>"

definition containerMetadataTTL :: duration where
  "containerMetadataTTL = 300000000000"

type_synonym containerCache = "(bytes \<times> (ContainerMetadata \<times> time)) list"

definition loadContainerMetadataCache :: "bytes \<Rightarrow> time \<Rightarrow> containerCache \<Rightarrow> ContainerMetadata option \<times> containerCache" where
  "loadContainerMetadataCache key now cache =
     (if key = ''::'' then (None, cache)
      else case map_of cache key of
             None \<Rightarrow> (None, cache)
           | Some (metadata, checkedAt) \<Rightarrow>
               if now - checkedAt \<ge> containerMetadataTTL then (None, AList.delete key cache)
               else (Some metadata, cache))"

definition storeContainerMetadataCache :: "bytes \<Rightarrow> ContainerMetadata \<Rightarrow> time \<Rightarrow> containerCache \<Rightarrow> containerCache" where
  "storeContainerMetadataCache key metadata now cache =
     (if key = ''::'' then cache
      else let cache1 = AList.update key (metadata, now) cache in
        if length cache1 > 8192
        then filter (\<lambda>(k, entry). \<not> snd entry < now - 2 * containerMetadataTTL) cache1
        else cache1)"

text \<open>\<open>now\<close> is the clock at the load, \<open>later\<close> at the store.\<close>

definition resolveContainer ::
  "procfs \<Rightarrow> u32 \<Rightarrow> time \<Rightarrow> time \<Rightarrow> containerCache \<Rightarrow> ContainerMetadata \<times> containerCache" where
  "resolveContainer p pid now later cache =
     (case pf_cgroup p pid of
        None \<Rightarrow> (noContainer, cache)
      | Some cgroup \<Rightarrow>
          (let identity = extractContainerIdentity cgroup;
               node = firstNonEmptyEnv p [''KARAXYS_NODE_NAME'', ''NODE_NAME''];
               metadata = noContainer\<lparr>cont_ID := ci_ID identity, cont_Runtime := ci_Runtime identity,
                 cont_PodUID := ci_PodUID identity, cont_Node := node\<rparr>
           in if ci_ID identity = [] \<and> ci_PodUID identity = [] then (metadata, cache)
              else let cacheKey = ci_Runtime identity @ CHR '':'' # ci_ID identity @ CHR '':'' # ci_PodUID identity;
                       (cached, cache1) = loadContainerMetadataCache cacheKey now cache
                in case cached of
                     Some c \<Rightarrow> (if cont_Node c = [] then c\<lparr>cont_Node := node\<rparr> else c, cache1)
                   | None \<Rightarrow>
                       (let m1 = (if ci_ID identity \<noteq> []
                              then (case pf_dockerInspect p (ci_ID identity) of
                                      Some body \<Rightarrow> mergeContainerMetadata metadata (dockerContainer (ci_ID identity) body)
                                    | None \<Rightarrow> metadata)
                              else metadata);
                            m2 = (if ci_PodUID identity \<noteq> []
                              then (case decodeKubernetesPodMetadata (pf_podsByUID p (ci_PodUID identity)) (ci_PodUID identity) of
                                      Some pod \<Rightarrow> mergeContainerMetadata m1 pod
                                    | None \<Rightarrow> m1)
                              else m1)
                        in (m2, storeContainerMetadataCache cacheKey m2 later cache1))))"

section \<open>The resolver\<close>

datatype metadataSource = metadataSourceNone | metadataSourceCache | metadataSourceProc

fun metadataSource_String :: "metadataSource \<Rightarrow> bytes" where
  "metadataSource_String metadataSourceCache = ''cache''"
| "metadataSource_String metadataSourceProc = ''proc''"
| "metadataSource_String metadataSourceNone = ''none''"

record resolved =
  rs_conn :: ConnectionMetadata
  rs_process :: ProcessMetadata
  rs_container :: ContainerMetadata
  rs_ok :: bool

record metadataResolver =
  mr_cache :: "(flowKey \<times> (resolved \<times> time)) list"
  mr_ttl :: duration
  mr_containers :: containerCache

definition newMetadataResolver :: "duration \<Rightarrow> metadataResolver" where
  "newMetadataResolver ttl = \<lparr>mr_cache = [], mr_ttl = ttl, mr_containers = []\<rparr>"

definition resolver_fresh :: "flowKey \<Rightarrow> time \<Rightarrow> metadataResolver \<Rightarrow> resolved option" where
  "resolver_fresh key now r =
     (case map_of (mr_cache r) key of
        None \<Rightarrow> None
      | Some (entry, checkedAt) \<Rightarrow> if now - checkedAt < mr_ttl r then Some entry else None)"

definition resolver_store :: "flowKey \<Rightarrow> resolved \<Rightarrow> time \<Rightarrow> metadataResolver \<Rightarrow> metadataResolver" where
  "resolver_store key entry now r =
     (let cache = AList.update key (entry, now) (mr_cache r) in
      r\<lparr>mr_cache := (if length cache > 32768
         then filter (\<lambda>(k, v). \<not> snd v < now - 2 * mr_ttl r) cache else cache)\<rparr>)"

text \<open>\<open>now\<close> is the clock read at the start, \<open>later\<close> the one of the container cache.\<close>

definition resolveWithSource ::
  "procfs \<Rightarrow> flowKey \<Rightarrow> time \<Rightarrow> time \<Rightarrow> metadataResolver \<Rightarrow> (resolved \<times> metadataSource) \<times> metadataResolver" where
  "resolveWithSource p key now later r =
     (let cached = resolver_fresh key now r in
      case cached of
        Some entry \<Rightarrow>
          if rs_ok entry then ((entry, metadataSourceCache), r)
          else
            (let found = resolveConnection p (fk_pid key) (fk_fd key);
                 result = \<lparr>rs_conn = (case found of Some c \<Rightarrow> c | None \<Rightarrow> noConnection),
                   rs_process = rs_process entry, rs_container = rs_container entry, rs_ok = (found \<noteq> None)\<rparr>
             in ((result, if found \<noteq> None then metadataSourceProc else metadataSourceNone),
                 resolver_store key result now r))
      | None \<Rightarrow>
          (let found = resolveConnection p (fk_pid key) (fk_fd key);
               (container, containers1) = resolveContainer p (fk_pid key) now later (mr_containers r);
               result = \<lparr>rs_conn = (case found of Some c \<Rightarrow> c | None \<Rightarrow> noConnection),
                 rs_process = resolveProcess p (fk_pid key), rs_container = container, rs_ok = (found \<noteq> None)\<rparr>
           in ((result, if found \<noteq> None then metadataSourceProc else metadataSourceNone),
               resolver_store key result now (r\<lparr>mr_containers := containers1\<rparr>))))"

definition resolver_remember :: "flowKey \<Rightarrow> resolved \<Rightarrow> time \<Rightarrow> metadataResolver \<Rightarrow> metadataResolver" where
  "resolver_remember key entry now r =
     (if conn_Protocol (rs_conn entry) = [] then r
      else case map_of (mr_cache r) key of
             Some (old, checkedAt) \<Rightarrow>
               if rs_ok old \<and> now - checkedAt < mr_ttl r then r
               else r\<lparr>mr_cache := AList.update key (entry\<lparr>rs_ok := True\<rparr>, now) (mr_cache r)\<rparr>
           | None \<Rightarrow> r\<lparr>mr_cache := AList.update key (entry\<lparr>rs_ok := True\<rparr>, now) (mr_cache r)\<rparr>)"

definition resolver_forget :: "flowKey \<Rightarrow> metadataResolver \<Rightarrow> metadataResolver" where
  "resolver_forget key r = r\<lparr>mr_cache := AList.delete key (mr_cache r)\<rparr>"

section \<open>The resolver is a TTL cache\<close>

definition resolver_inv :: "metadataResolver \<Rightarrow> bool" where
  "resolver_inv r \<longleftrightarrow> distinct (map fst (mr_cache r)) \<and> 0 \<le> mr_ttl r"

lemma store_lookup:
  assumes "resolver_inv r"
  shows "map_of (mr_cache (resolver_store k v t0 r)) k' =
    (if k' = k then Some (v, t0)
     else case map_of (mr_cache r) k' of
            None \<Rightarrow> None
          | Some e \<Rightarrow> if length (AList.update k (v, t0) (mr_cache r)) > 32768 \<and> snd e < t0 - 2 * mr_ttl r
                      then None else Some e)"
proof -
  have d: "distinct (map fst (AList.update k (v, t0) (mr_cache r)))"
    using assms by (simp add: resolver_inv_def distinct_update)
  show ?thesis
    using map_of_filter_snd [OF d, of "\<lambda>v. \<not> snd v < t0 - 2 * mr_ttl r" k'] assms
    by (auto simp: resolver_store_def resolver_inv_def Let_def update_conv' split: option.splits)
qed

interpretation resolutions: ttl_cache resolver_inv "\<lambda>r t0 t. t - t0 < mr_ttl r" resolver_fresh
    "\<lambda>key now r. (resolver_fresh key now r, r)" resolver_store
proof (unfold_locales, goal_cases)
  case (2 s k v t)
  then show ?case
    by (simp add: resolver_inv_def resolver_store_def Let_def distinct_update distinct_filter_keys)
next
  case (4 k v t s)
  then show ?case by (simp add: resolver_store_def Let_def)
next
  case (7 s t0 t k v)
  then show ?case using store_lookup [OF 7(1), of k v t0 k]
    by (simp add: resolver_fresh_def) (simp add: resolver_store_def Let_def)
next
  case (8 s t0 t k k' v)
  have "0 \<le> mr_ttl s" using 8(1) by (simp add: resolver_inv_def)
  with 8 store_lookup [OF 8(1), of k' v t0 k] show ?case
    by (auto simp: resolver_fresh_def split: option.splits) (auto simp: resolver_store_def Let_def)
qed auto

section \<open>What the resolver guarantees\<close>

datatype resolverOp = Resolve procfs flowKey time time | Forget flowKey

fun resolverStep :: "resolverOp \<Rightarrow> metadataResolver \<Rightarrow> metadataResolver" where
  "resolverStep (Resolve p key now later) r = snd (resolveWithSource p key now later r)"
| "resolverStep (Forget key) r = resolver_forget key r"

fun opKey :: "resolverOp \<Rightarrow> flowKey" where
  "opKey (Resolve p key now later) = key"
| "opKey (Forget key) = key"

fun opNow :: "resolverOp \<Rightarrow> time option" where
  "opNow (Resolve p key now later) = Some now"
| "opNow (Forget key) = None"

text \<open>A call stores at most one entry, under its own key, and touches the container cache.\<close>

lemma resolve_stores:
  "snd (resolveWithSource p key now later r) = r \<or>
   (\<exists>v c. snd (resolveWithSource p key now later r) = resolver_store key v now (r\<lparr>mr_containers := c\<rparr>))"
proof (cases "resolver_fresh key now r")
  case None
  obtain container c where "resolveContainer p (fk_pid key) now later (mr_containers r) = (container, c)" by force
  with None show ?thesis by (auto simp: resolveWithSource_def Let_def)
next
  case (Some entry)
  have "r = r\<lparr>mr_containers := mr_containers r\<rparr>" by simp
  then have "\<exists>v c. resolver_store key x now r = resolver_store key v now (r\<lparr>mr_containers := c\<rparr>)" for x by metis
  with Some show ?thesis by (simp add: resolveWithSource_def Let_def)
qed

lemma containers_irrelevant [simp]:
  "resolver_inv (r\<lparr>mr_containers := c\<rparr>) = resolver_inv r"
  "resolver_fresh key t (r\<lparr>mr_containers := c\<rparr>) = resolver_fresh key t r"
  by (simp_all add: resolver_inv_def resolver_fresh_def split: option.splits)

lemma resolverStep_inv: "resolver_inv r \<Longrightarrow> resolver_inv (resolverStep op r)"
proof (cases op)
  case (Resolve p key now later)
  assume "resolver_inv r"
  then show ?thesis using resolve_stores [of p key now later r] resolutions.inv_put
    unfolding Resolve resolverStep.simps by (metis containers_irrelevant(1))
next
  case (Forget key)
  assume "resolver_inv r"
  then show ?thesis by (simp add: Forget resolver_inv_def resolver_forget_def distinct_delete)
qed

lemma resolverStep_frame:
  assumes "resolver_inv r" "opKey op \<noteq> key" "\<forall>now. opNow op = Some now \<longrightarrow> now \<le> t"
  shows "resolver_fresh key t (resolverStep op r) = resolver_fresh key t r"
proof (cases op)
  case (Resolve p k now later)
  have ne: "key \<noteq> k" and le: "now \<le> t" using assms(2,3) Resolve by auto
  have "resolver_fresh key t (resolver_store k v now (r\<lparr>mr_containers := c\<rparr>)) = resolver_fresh key t r" for v c
    using resolutions.put_other [of "r\<lparr>mr_containers := c\<rparr>" now t key k v] assms(1) ne le by simp
  then show ?thesis using resolve_stores [of p k now later r] unfolding Resolve resolverStep.simps by metis
next
  case (Forget k)
  then show ?thesis using assms(2)
    by (simp add: resolver_fresh_def resolver_forget_def delete_conv' split: option.splits)
qed

lemma resolverRun_inv: "resolver_inv r \<Longrightarrow> resolver_inv (fold resolverStep ops r)"
  by (induction ops arbitrary: r) (auto simp: resolverStep_inv)

lemma resolverRun_frame:
  "resolver_inv r \<Longrightarrow> (\<forall>op \<in> set ops. opKey op \<noteq> key \<and> (\<forall>now. opNow op = Some now \<longrightarrow> now \<le> t)) \<Longrightarrow>
     resolver_fresh key t (fold resolverStep ops r) = resolver_fresh key t r"
proof (induction ops arbitrary: r)
  case (Cons op ops)
  then show ?case using resolverStep_frame [OF Cons.prems(1), of op key t] resolverStep_inv [OF Cons.prems(1), of op]
    by simp
qed simp

lemma resolve_found:
  assumes "resolver_inv r" "resolveWithSource p key now later r = ((result, metadataSourceProc), r')"
    and "now \<le> t" "t - now < mr_ttl r"
  shows "resolver_fresh key t r' = Some result \<and> rs_ok result"
proof -
  obtain c where "r' = resolver_store key result now (r\<lparr>mr_containers := c\<rparr>)" "rs_ok result"
  proof (cases "resolver_fresh key now r")
    case None
    obtain container c where "resolveContainer p (fk_pid key) now later (mr_containers r) = (container, c)" by force
    with None assms(2) that [of c] show thesis by (auto simp: resolveWithSource_def Let_def split: if_splits)
  next
    case (Some entry)
    with assms(2) that [of "mr_containers r"] show thesis
      by (auto simp: resolveWithSource_def Let_def split: if_splits)
  qed
  then show ?thesis
    using resolutions.put_same [of "r\<lparr>mr_containers := c\<rparr>" now t key result] assms(1,3,4) by simp
qed

text \<open>Metadata that was found under /proc is what every later call for the flow returns, from the
  cache and without reading /proc again, until the TTL ends or the flow is closed, whatever other
  flows are resolved or closed in between; after the close it is looked up afresh.\<close>

theorem metadata_reused_until_close:
  assumes "0 \<le> ttl" "r = fold resolverStep earlier (newMetadataResolver ttl)"
    and "resolveWithSource p key now later r = ((result, metadataSourceProc), r')"
    and "now \<le> t" "t - now < ttl"
    and "\<forall>op \<in> set between. opKey op \<noteq> key \<and> (\<forall>t'. opNow op = Some t' \<longrightarrow> t' \<le> t)"
  shows "resolveWithSource p' key t later' (fold resolverStep between r') =
      ((result, metadataSourceCache), fold resolverStep between r') \<and>
    snd (fst (resolveWithSource p' key t later' (resolver_forget key (fold resolverStep between r')))) \<noteq> metadataSourceCache"
proof -
  have ttl: "mr_ttl (fold resolverStep ops x) = mr_ttl x" for ops x
  proof (induction ops arbitrary: x)
    case (Cons op ops)
    have "mr_ttl (resolverStep op x) = mr_ttl x"
    proof (cases op)
      case (Resolve p k now later)
      then show ?thesis using resolve_stores [of p k now later x] by (auto simp: resolver_store_def Let_def)
    qed (simp add: resolver_forget_def)
    with Cons show ?case by simp
  qed simp
  have inv: "resolver_inv r"
    unfolding assms(2) by (rule resolverRun_inv) (simp add: resolver_inv_def newMetadataResolver_def assms(1))
  have "mr_ttl r = ttl" by (simp add: assms(2) ttl newMetadataResolver_def)
  then have found: "resolver_fresh key t r' = Some result" "rs_ok result"
    using resolve_found [OF inv assms(3,4)] assms(5) by simp_all
  have "resolver_inv r'" using resolverStep_inv [OF inv, of "Resolve p key now later"] assms(3) by simp
  then have "resolver_fresh key t (fold resolverStep between r') = Some result"
    using resolverRun_frame [OF _ assms(6)] found(1) by simp
  moreover have "resolver_fresh key t (resolver_forget key x) = None" for x
    by (simp add: resolver_fresh_def resolver_forget_def delete_conv')
  ultimately show ?thesis using found(2) by (simp add: resolveWithSource_def Let_def case_prod_beta)
qed

definition sampleProc :: procfs where
  "sampleProc = \<lparr>pf_fdLink = (\<lambda>_ _. Some ''socket:[42]''), pf_comm = (\<lambda>_. ''app''), pf_exe = (\<lambda>_. ''/app''),
     pf_cgroup = (\<lambda>_. None),
     pf_netTCP = (\<lambda>_ v6. if v6 then None else Some ([''header'',
       ''0: 0100007F:1F90 0200000A:9C40 01 0:0 00:0 0 0 0 42''], False)),
     pf_ipString = (\<lambda>_. []), pf_getenv = (\<lambda>_. []), pf_dockerInspect = (\<lambda>_. None), pf_podsByUID = (\<lambda>_. None)\<rparr>"

definition emptyProc :: procfs where
  "emptyProc = sampleProc\<lparr>pf_fdLink := (\<lambda>_ _. None)\<rparr>"

theorem metadata_reused_until_close_witness:
  "snd (fst (resolveWithSource emptyProc \<lparr>fk_pid = 7, fk_fd = 3, fk_generation = 0\<rparr> 9 9
     (snd (resolveWithSource sampleProc \<lparr>fk_pid = 7, fk_fd = 3, fk_generation = 0\<rparr> 0 0 (newMetadataResolver 10)))))
     = metadataSourceCache"
proof -
  let ?k = "\<lparr>fk_pid = 7, fk_fd = 3, fk_generation = 0\<rparr>" and ?r = "newMetadataResolver 10"
  obtain result src r' where r: "resolveWithSource sampleProc ?k 0 0 ?r = ((result, src), r')"
    using prod_cases3 by (metis surj_pair)
  have "resolveConnection sampleProc 7 3 \<noteq> None" by code_simp
  with r have "src = metadataSourceProc"
    by (simp add: resolveWithSource_def resolver_fresh_def newMetadataResolver_def Let_def case_prod_beta)
  with metadata_reused_until_close [of 10 ?r "[]" sampleProc ?k 0 0 result r' 9 "[]" emptyProc 9] r
  show ?thesis by simp
qed

section \<open>Addresses and roles\<close>

text \<open>How the kernel prints an IPv4 address and a port: the address as the hexadecimal 32-bit word
  that the four bytes are in memory on a little-endian machine, the port in four digits.\<close>

definition hex_upper :: "nat \<Rightarrow> char" where
  "hex_upper d = (if d < 10 then char_of (48 + d) else char_of (55 + d))"

definition kernel_hex2 :: "nat \<Rightarrow> bytes" where
  "kernel_hex2 n = [hex_upper (n div 16), hex_upper (n mod 16)]"

definition kernelAddr :: "nat \<Rightarrow> nat \<Rightarrow> nat \<Rightarrow> nat \<Rightarrow> nat \<Rightarrow> bytes" where
  "kernelAddr a b c d port =
     kernel_hex2 d @ kernel_hex2 c @ kernel_hex2 b @ kernel_hex2 a @ CHR '':'' #
     kernel_hex2 (port div 256) @ kernel_hex2 (port mod 256)"

lemma hex_upper_props:
  assumes "d < 16"
  shows "is_hex (hex_upper d)" "hex_value (hex_upper d) = d" "hex_upper d \<noteq> CHR '':''"
    "hex_upper d \<noteq> CHR ''-''" "hex_upper d \<noteq> CHR ''+''"
proof -
  have byte: "byte_of (hex_upper d) = (if d < 10 then 48 + d else 55 + d)"
    using assms by (simp add: hex_upper_def)
  show "is_hex (hex_upper d)" "hex_value (hex_upper d) = d"
    using assms byte by (auto simp: is_hex_def hex_value_def is_digit_def in_range_def)
  have "byte_of (hex_upper d) \<notin> {58, 45, 43}" using assms byte by auto
  moreover have "byte_of CHR '':'' = (58::nat)" "byte_of CHR ''-'' = (45::nat)" "byte_of CHR ''+'' = (43::nat)" by simp_all
  ultimately show "hex_upper d \<noteq> CHR '':''" "hex_upper d \<noteq> CHR ''-''" "hex_upper d \<noteq> CHR ''+''"
    by (metis insert_iff)+
qed

lemma parse_hex8_kernel: "n < 256 \<Longrightarrow> parse_hex8 (kernel_hex2 n) = Some n"
proof -
  assume n: "n < 256"
  then have "n div 16 < 16" by simp
  moreover have "16 * int (n div 16) + int (n mod 16) = int n" by (simp add: of_nat_div of_nat_mod)
  ultimately show ?thesis using n
    by (simp add: parse_hex8_def kernel_hex2_def hex_digits_value_def hex_upper_props)
qed

lemma parse_hex_int32_plain:
  "s \<noteq> [] \<Longrightarrow> list_all is_hex s \<Longrightarrow> \<not> has_prefix s ''-'' \<Longrightarrow> \<not> has_prefix s ''+'' \<Longrightarrow>
     hex_digits_value s \<le> 2147483647 \<Longrightarrow> parse_hex_int32 s = hex_digits_value s"
  by (simp add: parse_hex_int32_def Let_def del: has_prefix_Cons)

lemma parse_port_kernel:
  assumes "port < 65536"
  shows "parse_hex_int32 (kernel_hex2 (port div 256) @ kernel_hex2 (port mod 256)) = int port"
proof -
  let ?p = "kernel_hex2 (port div 256) @ kernel_hex2 (port mod 256)"
  define a b c d where "a = port div 256 div 16" and "b = port div 256 mod 16"
    and "c = port mod 256 div 16" and "d = port mod 256 mod 16"
  have lt: "a < 16" "b < 16" "c < 16" "d < 16" using assms by (simp_all add: a_def b_def c_def d_def)
  have p: "?p = [hex_upper a, hex_upper b, hex_upper c, hex_upper d]"
    by (simp add: kernel_hex2_def a_def b_def c_def d_def)
  have "port = 16 * (16 * (16 * a + b) + c) + d"
    by (simp add: a_def b_def c_def d_def)
  then have "hex_digits_value ?p = int port"
    unfolding p by (simp add: hex_digits_value_def hex_upper_props lt)
  moreover have "list_all is_hex ?p" unfolding p by (simp add: hex_upper_props lt)
  moreover have "\<not> has_prefix ?p ''-''" "\<not> has_prefix ?p ''+''" "?p \<noteq> []"
    unfolding p by (simp_all add: hex_upper_props lt)
  ultimately show ?thesis using assms parse_hex_int32_plain [of ?p] by linarith
qed

lemma split_on_single: "c \<notin> set a \<Longrightarrow> c \<notin> set b \<Longrightarrow> split_on c (a @ c # b) = [a, b]"
proof (induction a)
  case Nil
  then have "split_on c b = [b]"
    by (induction b) auto
  then show ?case by simp
qed auto

text \<open>The agent reads the kernel's notation back: the row that /proc/net/tcp prints for an IPv4
  endpoint parses to that address in dotted form and that port.\<close>

theorem kernel_address_roundtrip:
  assumes "a < 256" "b < 256" "c < 256" "d < 256" "port < 65536"
  shows "parseProcNetAddr p (kernelAddr a b c d port) False = (show_ipv4 [a, b, c, d], int port)"
proof -
  let ?addr = "kernel_hex2 d @ kernel_hex2 c @ kernel_hex2 b @ kernel_hex2 a"
  let ?port = "kernel_hex2 (port div 256) @ kernel_hex2 (port mod 256)"
  have ns: "CHR '':'' \<notin> set (kernel_hex2 n)" if "n < 256" for n
  proof -
    have "n div 16 < 16" "n mod 16 < 16" using that by auto
    then have "hex_upper (n div 16) \<noteq> CHR '':''" "hex_upper (n mod 16) \<noteq> CHR '':''" by (simp_all add: hex_upper_props)
    then show ?thesis by (auto simp: kernel_hex2_def)
  qed
  have "port div 256 < 256" using assms(5) by simp
  then have "split_on CHR '':'' (kernelAddr a b c d port) = [?addr, ?port]"
    unfolding kernelAddr_def using split_on_single [of "CHR '':''" ?addr ?port] ns assms(1-4) by simp
  moreover have "parseIPv4Hex ?addr = show_ipv4 [a, b, c, d]"
  proof -
    have len: "length (kernel_hex2 n) = 2" for n by (simp add: kernel_hex2_def)
    have "take 2 ?addr = kernel_hex2 d" "take 2 (drop 2 ?addr) = kernel_hex2 c"
      "take 2 (drop 4 ?addr) = kernel_hex2 b" "take 2 (drop 6 ?addr) = kernel_hex2 a" by (simp_all add: len)
    with assms show ?thesis by (simp only: parseIPv4Hex_def parse_hex8_kernel) (simp add: len)
  qed
  ultimately show ?thesis using parse_port_kernel [OF assms(5)] by (simp add: parseProcNetAddr_def)
qed

theorem kernel_address_roundtrip_witness:
  "parseProcNetAddr sampleProc (kernelAddr 127 0 0 1 8080) False = (''127.0.0.1'', 8080)"
proof -
  have "show_ipv4 [127, 0, 0, 1] = ''127.0.0.1''" by code_simp
  then show ?thesis using kernel_address_roundtrip [of 127 0 0 1 8080 sampleProc] by simp
qed

text \<open>Every connected socket is outbound: a row whose state is not LISTEN and whose remote end is a
  real address gives the role outbound, whichever side opened the connection. So with outbound
  capture off the filter drops the connections that a server accepted, the inbound traffic that
  -capture-inbound asks for.\<close>

theorem connected_is_outbound:
  assumes "findInode p inode ipv6 [line] = Some conn"
    and "strings_Fields line ! 3 \<noteq> ''0A''"
    and "conn_DstPort conn \<noteq> 0" "conn_DstIP conn \<noteq> ''0.0.0.0''" "conn_DstIP conn \<noteq> ''::''"
  shows "conn_Role conn = ''outbound'' \<and>
    (\<not> ff_captureOutbound f \<longrightarrow> \<not> connectionAllowed f conn)"
proof -
  have "conn_Role conn = ''outbound''"
    using assms by (auto simp: isLikelyListenOrServer_def Let_def split: if_splits prod.splits)
  then show ?thesis by (simp add: connectionAllowed_wanted wanted_def)
qed

theorem connected_is_outbound_witness:
  "\<exists>conn. findInode sampleProc ''42'' False [''0: 0100007F:1F90 0200000A:9C40 01 0:0 00:0 0 0 0 42''] = Some conn \<and>
     conn_Role conn = ''outbound'' \<and> \<not> connectionAllowed (newFlowFilter 15 {} {} True False) conn"
proof -
  let ?line = "''0: 0100007F:1F90 0200000A:9C40 01 0:0 00:0 0 0 0 42''"
  have "map_option (\<lambda>c. (conn_DstIP c, conn_DstPort c)) (findInode sampleProc ''42'' False [?line]) = Some (''10.0.0.2'', 40000)"
    by code_simp
  then obtain conn where c: "findInode sampleProc ''42'' False [?line] = Some conn"
    "conn_DstIP conn = ''10.0.0.2''" "conn_DstPort conn = 40000" by auto
  moreover have "strings_Fields ?line ! 3 = ''01''" by code_simp
  ultimately show ?thesis
    using connected_is_outbound [of sampleProc "''42''" False ?line conn "newFlowFilter 15 {} {} True False"]
    by (simp add: newFlowFilter_def)
qed

end
