(* ===== verification/Target.thy ===== *)
theory Target
  imports AgentMetadata
begin

text \<open>
  Target selection, \<^verbatim>\<open>cmd/agent/target.go\<close>: which processes to trace, and keeping the
  kernel's PID and cgroup maps in step with them. What one refresh reads and which kernel
  map operations succeed during it is a \<open>targetEnv\<close>. The kernel maps hold the flag 1 for
  every key, so a map is its set of keys. A Go map is iterated in an unspecified order;
  where the order can matter it is part of the environment.
\<close>

section \<open>The environment\<close>

text \<open>
  \<open>te_entries\<close> are the names in \<^verbatim>\<open>/proc\<close> with their directory flag; \<open>te_stat\<close> and
  \<open>te_cgroup\<close> the contents of the two files of a process directory; \<open>te_dockerTop\<close> the
  output of \<open>docker top\<close>; \<open>te_cgroupInode\<close> the inode of a cgroup directory, given the
  path after the second colon of a cgroup line.
\<close>

record targetEnv =
  te_entries :: "(bytes \<times> bool) list option"
  te_stat :: "bytes \<Rightarrow> bytes option"
  te_cgroup :: "bytes \<Rightarrow> bytes option"
  te_dockerTop :: "bytes \<Rightarrow> bytes option"
  te_cgroupInode :: "bytes \<Rightarrow> u64 option"
  te_cgroupOrder :: "u64 list"
  te_putPID :: "u32 \<Rightarrow> bool"
  te_deletePID :: "u32 \<Rightarrow> bool"
  te_putCgroup :: "u64 \<Rightarrow> bool"
  te_deleteCgroup :: "u64 \<Rightarrow> bool"

datatype targetMode = targetModePID | targetModePIDTree | targetModeContainer | targetModeAllPIDs

record targetConfig =
  tc_mode :: targetMode
  tc_pid :: int
  tc_container :: bytes
  tc_allowAllPIDs :: bool
  tc_maxPIDs :: int
  tc_cgroupFilter :: bool

datatype targetError =
    PidRequired
  | ContainerRequired
  | AllPIDsNotAllowed
  | ProcUnreadable
  | ContainerNotFound bytes
  | NoPIDs
  | TooManyPIDs nat
  | AddPIDFailed u32
  | NoCgroups
  | AddCgroupFailed u64
  | UnsupportedMode bytes

text \<open>The mode is compared after trimming but converted untrimmed: with blanks around it the
  result is a mode that no case of the code knows, here \<open>Inr None\<close>.\<close>

definition modeOf :: "bytes \<Rightarrow> targetMode option" where
  "modeOf s =
     (if s = ''pid'' then Some targetModePID
      else if s = ''pid-tree'' then Some targetModePIDTree
      else if s = ''container'' then Some targetModeContainer
      else if s = ''all-pids'' then Some targetModeAllPIDs
      else None)"

definition parseTargetMode :: "bytes \<Rightarrow> targetError + targetMode option" where
  "parseTargetMode raw =
     (case modeOf (trim_space raw) of
        None \<Rightarrow> Inl (UnsupportedMode raw)
      | Some _ \<Rightarrow> Inr (modeOf raw))"

section \<open>Finding processes\<close>

definition sortedPIDs :: "u32 set \<Rightarrow> u32 list" where
  "sortedPIDs s = sorted_list_of_set s"

definition samePIDSet :: "u32 set \<Rightarrow> u32 set \<Rightarrow> bool" where
  "samePIDSet a b = (if card a \<noteq> card b then False else a \<subseteq> b)"

text \<open>\<open>strings.LastIndex(s, ")")\<close>.\<close>

definition last_index :: "char \<Rightarrow> bytes \<Rightarrow> int" where
  "last_index c s = (let r = dropWhile (\<lambda>x. x \<noteq> c) (rev s) in int (length r) - 1)"

definition parsePPIDFromStat :: "bytes \<Rightarrow> u32 option" where
  "parsePPIDFromStat stat =
     (let stop = last_index CHR '')'' stat in
      if stop < 0 \<or> stop + 2 \<ge> int (length stat) then None
      else let fs = strings_Fields (drop (nat (stop + 2)) stat) in
        if length fs < 2 then None else map_option of_nat (parse_uint 32 (fs ! 1)))"

text \<open>The process directories of /proc: numeric, positive names.\<close>

definition procPIDs :: "(bytes \<times> bool) list \<Rightarrow> (bytes \<times> u32) list" where
  "procPIDs entries = List.map_filter (\<lambda>(name, isDir).
     if \<not> isDir then None
     else case parse_uint 32 name of
            None \<Rightarrow> None
          | Some pid \<Rightarrow> if pid = 0 then None else Some (name, of_nat pid)) entries"

definition addChild :: "targetEnv \<Rightarrow> bytes \<times> u32 \<Rightarrow> (u32 \<Rightarrow> u32 list) \<Rightarrow> (u32 \<Rightarrow> u32 list)" where
  "addChild env entry children =
     (case te_stat env (fst entry) of
        None \<Rightarrow> children
      | Some stat \<Rightarrow>
          (case parsePPIDFromStat stat of
             None \<Rightarrow> children
           | Some ppid \<Rightarrow> if ppid = 0 then children else children(ppid := children ppid @ [snd entry])))"

definition processChildren :: "targetEnv \<Rightarrow> (u32 \<Rightarrow> u32 list) option" where
  "processChildren env =
     (case te_entries env of
        None \<Rightarrow> None
      | Some entries \<Rightarrow> Some (fold (addChild env) (procPIDs entries) (\<lambda>_. [])))"

text \<open>One round of the inner loop: the children not seen yet join the set and the queue.\<close>

fun enqueue :: "u32 list \<Rightarrow> u32 set \<Rightarrow> u32 list \<Rightarrow> u32 set \<times> u32 list" where
  "enqueue [] seen queue = (seen, queue)"
| "enqueue (child # rest) seen queue =
     (if child \<in> seen then enqueue rest seen queue
      else enqueue rest (insert child seen) (queue @ [child]))"

lemma enqueue_seen: "enqueue cs seen queue = (seen', queue') \<Longrightarrow> seen' = seen \<union> set cs"
  by (induction cs seen queue rule: enqueue.induct) (auto split: if_splits)

lemma enqueue_queue:
  "enqueue cs seen queue = (seen', queue') \<Longrightarrow> set queue' = set queue \<union> (seen' - seen) \<and>
     (seen' = seen \<longrightarrow> queue' = queue)"
proof (induction cs seen queue rule: enqueue.induct)
  case (2 child rest seen queue)
  show ?case
  proof (cases "child \<in> seen")
    case False
    then have "enqueue rest (insert child seen) (queue @ [child]) = (seen', queue')" using 2(3) by simp
    with 2(2) [OF False this] enqueue_seen [OF this] False show ?thesis by auto
  qed (use 2 in auto)
qed simp

function bfs :: "(u32 \<Rightarrow> u32 list) \<Rightarrow> u32 set \<Rightarrow> u32 list \<Rightarrow> u32 set" where
  "bfs children seen [] = seen"
| "bfs children seen (pid # queue) =
     (let (seen1, queue1) = enqueue (children pid) seen queue in bfs children seen1 queue1)"
  by pat_completeness auto
termination
proof (relation "measures [\<lambda>(c, seen, q). card (- seen), \<lambda>(c, seen, q). length q]", goal_cases)
  case (2 children seen pid queue x seen1 queue1)
  then have e: "enqueue (children pid) seen queue = (seen1, queue1)" by simp
  show ?case
  proof (cases "seen1 = seen")
    case True
    with enqueue_queue [OF e] show ?thesis by simp
  next
    case False
    with enqueue_seen [OF e] have "- seen1 \<subset> - seen" by auto
    then have "card (- seen1) < card (- seen)" by (intro psubset_card_mono) auto
    then show ?thesis by simp
  qed
qed simp

declare bfs.simps [simp del]

definition discoverPIDTree :: "targetEnv \<Rightarrow> u32 \<Rightarrow> targetError + u32 list" where
  "discoverPIDTree env root =
     (case processChildren env of
        None \<Rightarrow> Inl ProcUnreadable
      | Some children \<Rightarrow> Inr (sortedPIDs (bfs children {root} [root])))"

definition discoverAllPIDs :: "targetEnv \<Rightarrow> targetError + u32 list" where
  "discoverAllPIDs env =
     (case te_entries env of
        None \<Rightarrow> Inl ProcUnreadable
      | Some entries \<Rightarrow> Inr (sortedPIDs (set (map snd (procPIDs entries)))))"

definition dockerPIDs :: "bytes \<Rightarrow> u32 set" where
  "dockerPIDs out = set (List.map_filter (\<lambda>raw.
     let line = trim_space raw in
     if line = [] \<or> equal_fold line ''PID'' then None
     else case parse_uint 32 line of
            None \<Rightarrow> None
          | Some pid \<Rightarrow> if pid = 0 then None else Some (of_nat pid)) (split_on (CHR 0x0A) out))"

definition discoverContainerPIDsWithDocker :: "targetEnv \<Rightarrow> bytes \<Rightarrow> u32 list option" where
  "discoverContainerPIDsWithDocker env container =
     (case te_dockerTop env container of
        None \<Rightarrow> None
      | Some out \<Rightarrow> if dockerPIDs out = {} then None else Some (sortedPIDs (dockerPIDs out)))"

definition discoverContainerPIDs :: "targetEnv \<Rightarrow> bytes \<Rightarrow> targetError + u32 list" where
  "discoverContainerPIDs env container =
     (case discoverContainerPIDsWithDocker env container of
        Some pids \<Rightarrow> Inr pids
      | None \<Rightarrow>
          (let needle = take 12 (trim_space container) in
           case te_entries env of
             None \<Rightarrow> Inl ProcUnreadable
           | Some entries \<Rightarrow>
               (let seen = set (map snd (filter (\<lambda>(name, pid).
                      case te_cgroup env name of
                        None \<Rightarrow> False
                      | Some cgroup \<Rightarrow> contains cgroup container \<or> contains cgroup needle) (procPIDs entries)))
                in if seen = {} then Inl (ContainerNotFound container) else Inr (sortedPIDs seen))))"

text \<open>The conversion \<open>uint32(cfg.pid)\<close> keeps the low 32 bits.\<close>

definition resolveTargetPIDs :: "targetEnv \<Rightarrow> targetConfig \<Rightarrow> targetError + (u32 list \<times> bytes)" where
  "resolveTargetPIDs env cfg =
     (case tc_mode cfg of
        targetModePID \<Rightarrow>
          (if tc_pid cfg \<le> 0 then Inl PidRequired
           else Inr ([word_of_int (tc_pid cfg)], ''pid:'' @ show_int (tc_pid cfg)))
      | targetModePIDTree \<Rightarrow>
          (if tc_pid cfg \<le> 0 then Inl PidRequired
           else case discoverPIDTree env (word_of_int (tc_pid cfg)) of
                  Inl err \<Rightarrow> Inl err
                | Inr pids \<Rightarrow> Inr (pids, ''pid-tree:'' @ show_int (tc_pid cfg)))
      | targetModeContainer \<Rightarrow>
          (if trim_space (tc_container cfg) = [] then Inl ContainerRequired
           else case discoverContainerPIDs env (tc_container cfg) of
                  Inl err \<Rightarrow> Inl err
                | Inr pids \<Rightarrow> Inr (pids, ''container:'' @ tc_container cfg))
      | targetModeAllPIDs \<Rightarrow>
          (if \<not> tc_allowAllPIDs cfg then Inl AllPIDsNotAllowed
           else case discoverAllPIDs env of
                  Inl err \<Rightarrow> Inl err
                | Inr pids \<Rightarrow> Inr (pids, ''all-pids'')))"

section \<open>Cgroups\<close>

text \<open>\<open>strings.SplitN(line, ":", 3)\<close> of a line with at least two colons.\<close>

definition split3 :: "bytes \<Rightarrow> (bytes \<times> bytes \<times> bytes) option" where
  "split3 line =
     (let i = bytes_index line '':'' in
      if i < 0 then None
      else let rest = drop (nat i + 1) line; j = bytes_index rest '':'' in
        if j < 0 then None else Some (take (nat i) line, take (nat j) rest, drop (nat j + 1) rest))"

text \<open>The first line of hierarchy 0 decides; \<open>te_cgroupInode\<close> covers the cleaning of the path,
  the check that it stays below \<^verbatim>\<open>/sys/fs/cgroup\<close> and the \<open>Stat\<close>.\<close>

fun cgroupOfLines :: "targetEnv \<Rightarrow> bytes list \<Rightarrow> u64 option" where
  "cgroupOfLines env [] = None"
| "cgroupOfLines env (line # lines) =
     (case split3 line of
        Some (hierarchy, controllers, path) \<Rightarrow>
          if hierarchy = ''0''
          then (case te_cgroupInode env path of
                  None \<Rightarrow> None
                | Some ino \<Rightarrow> if ino = 0 then None else Some ino)
          else cgroupOfLines env lines
      | None \<Rightarrow> cgroupOfLines env lines)"

definition cgroupIDForPID :: "targetEnv \<Rightarrow> u32 \<Rightarrow> u64 option" where
  "cgroupIDForPID env pid =
     (case te_cgroup env (show_nat (unat pid)) of
        None \<Rightarrow> None
      | Some raw \<Rightarrow> cgroupOfLines env (split_on (CHR 0x0A) raw))"

definition discoverCgroupIDsForPIDs :: "targetEnv \<Rightarrow> u32 list \<Rightarrow> targetError + u64 set" where
  "discoverCgroupIDsForPIDs env pids =
     (let ids = set (List.map_filter (cgroupIDForPID env) pids) in
      if ids = {} then Inl NoCgroups else Inr ids)"

section \<open>Keeping a kernel set in step\<close>

text \<open>The loop that adds: it stops at the first failing \<open>Put\<close>, and returns that key.\<close>

fun addTargets :: "('k \<Rightarrow> bool) \<Rightarrow> 'k set \<Rightarrow> 'k list \<Rightarrow> 'k set \<Rightarrow> 'k option \<times> 'k set" where
  "addTargets put_ok active [] kern = (None, kern)"
| "addTargets put_ok active (k # ks) kern =
     (if k \<in> active then addTargets put_ok active ks kern
      else if put_ok k then addTargets put_ok active ks (insert k kern)
      else (Some k, kern))"

text \<open>The loop that removes ignores the errors of \<open>Delete\<close>.\<close>

definition removeTargets :: "('k \<Rightarrow> bool) \<Rightarrow> 'k set \<Rightarrow> 'k set \<Rightarrow> 'k set \<Rightarrow> 'k set" where
  "removeTargets delete_ok active next kern = {k \<in> kern. \<not> (k \<in> active \<and> k \<notin> next \<and> delete_ok k)}"

text \<open>The order in which a Go map is iterated, given which keys come first.\<close>

definition mapOrder :: "'k::linorder list \<Rightarrow> 'k set \<Rightarrow> 'k list" where
  "mapOrder first keys =
     filter (\<lambda>k. k \<in> keys) (remdups first) @ sorted_list_of_set (keys - set first)"

lemma mapOrder_set: "finite keys \<Longrightarrow> set (mapOrder first keys) = keys"
  by (auto simp: mapOrder_def)

record targetManager =
  tm_cfg :: targetConfig
  tm_pids :: "u32 set"
  tm_cgroups :: "u64 set"
  tm_active :: "u32 set"
  tm_activeGroups :: "u64 set"
  tm_lastLabel :: bytes

definition newTargetManager :: "targetConfig \<Rightarrow> targetManager" where
  "newTargetManager cfg = \<lparr>tm_cfg = cfg, tm_pids = {}, tm_cgroups = {}, tm_active = {}, tm_activeGroups = {},
     tm_lastLabel = []\<rparr>"

definition refreshCgroups :: "targetEnv \<Rightarrow> u32 list \<Rightarrow> targetManager \<Rightarrow> targetError option \<times> targetManager" where
  "refreshCgroups env pids m =
     (if \<not> tc_cgroupFilter (tm_cfg m) then (None, m)
      else case discoverCgroupIDsForPIDs env pids of
             Inl err \<Rightarrow> (Some err, m)
           | Inr next \<Rightarrow>
               (case addTargets (te_putCgroup env) (tm_activeGroups m) (mapOrder (te_cgroupOrder env) next) (tm_cgroups m) of
                  (Some cg, kern) \<Rightarrow> (Some (AddCgroupFailed cg), m\<lparr>tm_cgroups := kern\<rparr>)
                | (None, kern) \<Rightarrow>
                    (None, m\<lparr>tm_cgroups := removeTargets (te_deleteCgroup env) (tm_activeGroups m) next kern,
                       tm_activeGroups := next\<rparr>)))"

definition target_refresh :: "targetEnv \<Rightarrow> targetManager \<Rightarrow> (targetError + u32 list) \<times> targetManager" where
  "target_refresh env m =
     (case resolveTargetPIDs env (tm_cfg m) of
        Inl err \<Rightarrow> (Inl err, m)
      | Inr (pids, label) \<Rightarrow>
          if pids = [] then (Inl NoPIDs, m)
          else if tc_mode (tm_cfg m) = targetModeAllPIDs \<and> tc_maxPIDs (tm_cfg m) > 0 \<and>
                  int (length pids) > tc_maxPIDs (tm_cfg m) then (Inl (TooManyPIDs (length pids)), m)
          else case addTargets (te_putPID env) (tm_active m) pids (tm_pids m) of
                 (Some pid, kern) \<Rightarrow> (Inl (AddPIDFailed pid), m\<lparr>tm_pids := kern\<rparr>)
               | (None, kern) \<Rightarrow>
                   (let next = set pids;
                        m1 = m\<lparr>tm_pids := removeTargets (te_deletePID env) (tm_active m) next kern,
                               tm_active := next, tm_lastLabel := label\<rparr>
                    in case refreshCgroups env pids m1 of
                         (Some err, m2) \<Rightarrow> (Inl err, m2)
                       | (None, m2) \<Rightarrow> (Inr pids, m2)))"

section \<open>The contract of a synchronized set\<close>

text \<open>
  One contract for the two maps: \<open>step\<close> is a refresh in an environment, \<open>faultless\<close> says that
  no kernel operation fails in it, \<open>active\<close> is the set the manager believes in and
  \<open>kern\<close> the set the kernel filters by.
\<close>

locale synced_set =
  fixes step :: "'e \<Rightarrow> 's \<Rightarrow> 's"
    and active :: "'s \<Rightarrow> 'k set"
    and kern :: "'s \<Rightarrow> 'k set"
    and faultless :: "'e \<Rightarrow> bool"
  assumes step_covers: "active s \<subseteq> kern s \<Longrightarrow> active (step e s) \<subseteq> kern (step e s)"
    and step_exact: "faultless e \<Longrightarrow> active s = kern s \<Longrightarrow> active (step e s) = kern (step e s)"
    and step_keeps: "k \<in> kern s \<Longrightarrow> k \<notin> active s \<Longrightarrow> k \<in> kern (step e s)"

sublocale synced_set \<subseteq> covering: step_invariant step "\<lambda>s. active s \<subseteq> kern s"
  by unfold_locales (rule step_covers)

context synced_set
begin

lemmas run_covers = covering.run_keeps

lemma run_exact:
  "(\<And>e. e \<in> set es \<Longrightarrow> faultless e) \<Longrightarrow> active s = kern s \<Longrightarrow> active (fold step es s) = kern (fold step es s)"
  by (induction es arbitrary: s) (auto simp: step_exact)

text \<open>A key the kernel has and the manager forgot stays until it becomes active again.\<close>

lemma run_stale:
  "k \<in> kern s \<Longrightarrow> (\<And>n. n < length es \<Longrightarrow> k \<notin> active (fold step (take n es) s)) \<Longrightarrow> k \<in> kern (fold step es s)"
proof (induction es arbitrary: s)
  case (Cons e es)
  have "k \<notin> active s" using Cons.prems(2) [of 0] by simp
  then have "k \<in> kern (step e s)" using Cons.prems(1) step_keeps by blast
  moreover have "k \<notin> active (fold step (take n es) (step e s))" if "n < length es" for n
    using Cons.prems(2) [of "Suc n"] that by simp
  ultimately show ?case using Cons.IH [of "step e s"] by simp
qed simp

end

lemma addTargets_kernel:
  "addTargets ok active ks kern = (r, kern') \<Longrightarrow> kern \<subseteq> kern' \<and> kern' \<subseteq> kern \<union> set ks \<and>
     (r = None \<longrightarrow> kern' = kern \<union> (set ks - active)) \<and> ((\<forall>k. ok k) \<longrightarrow> r = None)"
  by (induction ok active ks kern rule: addTargets.induct) (auto split: if_splits)

lemma removeTargets_keeps: "k \<in> kern \<Longrightarrow> k \<notin> active \<or> k \<in> next \<Longrightarrow> k \<in> removeTargets ok active next kern"
  by (auto simp: removeTargets_def)

lemma removeTargets_exact:
  "(\<forall>k. ok k) \<Longrightarrow> removeTargets ok active next (active \<union> next) = next"
  by (auto simp: removeTargets_def)

text \<open>The effect of a refresh on the PIDs.\<close>

lemma refreshCgroups_pids:
  "tm_pids (snd (refreshCgroups env pids m)) = tm_pids m" "tm_active (snd (refreshCgroups env pids m)) = tm_active m"
  "tm_cfg (snd (refreshCgroups env pids m)) = tm_cfg m"
  by (auto simp: refreshCgroups_def split: sum.splits prod.splits option.splits)

lemma target_refresh_shape:
  obtains (same) "snd (target_refresh env m) = m"
  | (failed) pids pid kern where "addTargets (te_putPID env) (tm_active m) pids (tm_pids m) = (Some pid, kern)"
      "snd (target_refresh env m) = m\<lparr>tm_pids := kern\<rparr>"
  | (synced) pids kern label where "addTargets (te_putPID env) (tm_active m) pids (tm_pids m) = (None, kern)"
      "snd (target_refresh env m) = snd (refreshCgroups env pids
         (m\<lparr>tm_pids := removeTargets (te_deletePID env) (tm_active m) (set pids) kern, tm_active := set pids,
            tm_lastLabel := label\<rparr>))"
proof (cases "resolveTargetPIDs env (tm_cfg m)")
  case (Inl err)
  then show thesis by (intro same) (simp add: target_refresh_def)
next
  case (Inr r)
  obtain pids label where r: "r = (pids, label)" by force
  obtain res kern where a: "addTargets (te_putPID env) (tm_active m) pids (tm_pids m) = (res, kern)" by force
  show thesis
  proof (cases "pids = [] \<or> tc_mode (tm_cfg m) = targetModeAllPIDs \<and> tc_maxPIDs (tm_cfg m) > 0 \<and>
      int (length pids) > tc_maxPIDs (tm_cfg m)")
    case True
    then show thesis by (intro same) (auto simp: target_refresh_def Inr r)
  next
    case False
    show thesis
    proof (cases res)
      case (Some pid)
      show thesis by (rule failed [OF a [unfolded Some]]) (use False in \<open>auto simp: target_refresh_def Inr r a Some\<close>)
    next
      case None
      show thesis
        by (rule synced [OF a [unfolded None], of label])
          (use False in \<open>auto simp: target_refresh_def Inr r a None Let_def split: prod.splits option.splits\<close>)
    qed
  qed
qed

lemma target_refresh_pids:
  obtains (same) "tm_active (snd (target_refresh env m)) = tm_active m" "tm_pids (snd (target_refresh env m)) = tm_pids m"
  | (failed) pids pid kern where "addTargets (te_putPID env) (tm_active m) pids (tm_pids m) = (Some pid, kern)"
      "tm_active (snd (target_refresh env m)) = tm_active m" "tm_pids (snd (target_refresh env m)) = kern"
  | (synced) pids kern where "addTargets (te_putPID env) (tm_active m) pids (tm_pids m) = (None, kern)"
      "tm_active (snd (target_refresh env m)) = set pids"
      "tm_pids (snd (target_refresh env m)) = removeTargets (te_deletePID env) (tm_active m) (set pids) kern"
proof (cases rule: target_refresh_shape [of env m])
  case same
  then show thesis by (intro that(1)) simp_all
next
  case (failed pids pid kern)
  then show thesis by (intro that(2) [OF failed(1)]) simp_all
next
  case (synced pids kern label)
  then show thesis by (intro that(3) [OF synced(1)]) (simp_all add: refreshCgroups_pids)
qed

definition faultlessPIDs :: "targetEnv \<Rightarrow> bool" where
  "faultlessPIDs env \<longleftrightarrow> (\<forall>pid. te_putPID env pid \<and> te_deletePID env pid)"

definition refreshStep :: "targetEnv \<Rightarrow> targetManager \<Rightarrow> targetManager" where
  "refreshStep env m = snd (target_refresh env m)"

interpretation pids: synced_set refreshStep tm_active tm_pids faultlessPIDs
proof (unfold_locales, goal_cases)
  case (1 s e)
  show ?case
  proof (cases rule: target_refresh_pids [of e s])
    case (failed pids pid kern)
    with 1 addTargets_kernel [OF failed(1)] show ?thesis by (auto simp: refreshStep_def)
  next
    case (synced pids kern)
    with 1 addTargets_kernel [OF synced(1)] show ?thesis
      by (auto simp: refreshStep_def intro!: removeTargets_keeps)
  qed (use 1 in \<open>simp add: refreshStep_def\<close>)
next
  case (2 e s)
  show ?case
  proof (cases rule: target_refresh_pids [of e s])
    case (failed pids pid kern)
    with 2(1) addTargets_kernel [OF failed(1)] show ?thesis by (auto simp: faultlessPIDs_def)
  next
    case (synced pids kern)
    with 2 addTargets_kernel [OF synced(1)] show ?thesis
      by (simp add: refreshStep_def removeTargets_exact faultlessPIDs_def)
  qed (use 2 in \<open>simp add: refreshStep_def\<close>)
next
  case (3 k s e)
  show ?case
  proof (cases rule: target_refresh_pids [of e s])
    case (failed pids pid kern)
    with 3 addTargets_kernel [OF failed(1)] show ?thesis by (auto simp: refreshStep_def)
  next
    case (synced pids kern)
    with 3 addTargets_kernel [OF synced(1)] show ?thesis
      by (auto simp: refreshStep_def intro!: removeTargets_keeps)
  qed (use 3 in \<open>simp add: refreshStep_def\<close>)
qed

text \<open>The same for the cgroups.\<close>

lemma target_refresh_cgroups:
  obtains (same) "tm_activeGroups (refreshStep env m) = tm_activeGroups m" "tm_cgroups (refreshStep env m) = tm_cgroups m"
  | (failed) ids cg kern where "addTargets (te_putCgroup env) (tm_activeGroups m) ids (tm_cgroups m) = (Some cg, kern)"
      "tm_activeGroups (refreshStep env m) = tm_activeGroups m" "tm_cgroups (refreshStep env m) = kern"
  | (synced) ids kern where "addTargets (te_putCgroup env) (tm_activeGroups m) ids (tm_cgroups m) = (None, kern)"
      "tm_activeGroups (refreshStep env m) = set ids"
      "tm_cgroups (refreshStep env m) = removeTargets (te_deleteCgroup env) (tm_activeGroups m) (set ids) kern"
proof -
  consider "tm_activeGroups (refreshStep env m) = tm_activeGroups m" "tm_cgroups (refreshStep env m) = tm_cgroups m"
    | pids m1 where "refreshStep env m = snd (refreshCgroups env pids m1)"
        "tm_activeGroups m1 = tm_activeGroups m" "tm_cgroups m1 = tm_cgroups m"
  proof (cases rule: target_refresh_shape [of env m])
    case (synced pids kern label)
    show thesis by (rule that(2) [OF synced(2) [folded refreshStep_def]]) simp_all
  qed (simp_all add: that(1) refreshStep_def)
  then show thesis
  proof cases
    case 1
    then show thesis by (rule same)
  next
    case (2 pids m1)
    show thesis
    proof (cases "tc_cgroupFilter (tm_cfg m1) \<and> (\<exists>next. discoverCgroupIDsForPIDs env pids = Inr next)")
      case False
      then show thesis using 2 by (intro same) (auto simp: refreshCgroups_def split: sum.splits)
    next
      case True
      then obtain ids where ids: "discoverCgroupIDsForPIDs env pids = Inr ids" by blast
      then have "finite ids" by (auto simp: discoverCgroupIDsForPIDs_def Let_def split: if_splits)
      then have set: "set (mapOrder (te_cgroupOrder env) ids) = ids" by (rule mapOrder_set)
      obtain res kern where a: "addTargets (te_putCgroup env) (tm_activeGroups m) (mapOrder (te_cgroupOrder env) ids) (tm_cgroups m) = (res, kern)"
        by force
      show thesis
      proof (cases res)
        case (Some cg)
        show thesis by (rule failed [OF a [unfolded Some]]) (use True 2 a Some ids in \<open>auto simp: refreshCgroups_def\<close>)
      next
        case None
        show thesis
          by (rule synced [OF a [unfolded None]]) (use True 2 a None ids set in \<open>auto simp: refreshCgroups_def\<close>)
      qed
    qed
  qed
qed

definition faultlessCgroups :: "targetEnv \<Rightarrow> bool" where
  "faultlessCgroups env \<longleftrightarrow> (\<forall>cg. te_putCgroup env cg \<and> te_deleteCgroup env cg)"

interpretation cgroups: synced_set refreshStep tm_activeGroups tm_cgroups faultlessCgroups
proof (unfold_locales, goal_cases)
  case (1 s e)
  show ?case
  proof (cases rule: target_refresh_cgroups [of e s])
    case (failed ids cg kern)
    with 1 addTargets_kernel [OF failed(1)] show ?thesis by auto
  next
    case (synced ids kern)
    with 1 addTargets_kernel [OF synced(1)] show ?thesis by (auto intro!: removeTargets_keeps)
  qed (use 1 in simp)
next
  case (2 e s)
  show ?case
  proof (cases rule: target_refresh_cgroups [of e s])
    case (failed ids cg kern)
    with 2(1) addTargets_kernel [OF failed(1)] show ?thesis by (auto simp: faultlessCgroups_def)
  next
    case (synced ids kern)
    with 2 addTargets_kernel [OF synced(1)] show ?thesis
      by (simp add: removeTargets_exact faultlessCgroups_def)
  qed (use 2 in simp)
next
  case (3 k s e)
  show ?case
  proof (cases rule: target_refresh_cgroups [of e s])
    case (failed ids cg kern)
    with 3 addTargets_kernel [OF failed(1)] show ?thesis by auto
  next
    case (synced ids kern)
    with 3 addTargets_kernel [OF synced(1)] show ?thesis by (auto intro!: removeTargets_keeps)
  qed (use 3 in simp)
qed

section \<open>Properties\<close>

lemma bfs_seen: "seen \<subseteq> bfs children seen queue"
proof (induction children seen queue rule: bfs.induct)
  case (2 children seen pid queue)
  obtain seen1 queue1 where e: "enqueue (children pid) seen queue = (seen1, queue1)" by force
  with 2 enqueue_seen [OF e] show ?case by (auto simp: bfs.simps)
qed (simp add: bfs.simps)

text \<open>The parent-child relation, and the loop invariant: only the queue can have unseen children.\<close>

definition child_rel :: "(u32 \<Rightarrow> u32 list) \<Rightarrow> (u32 \<times> u32) set" where
  "child_rel children = {(p, c). c \<in> set (children p)}"

lemma bfs_sound:
  "set queue \<subseteq> seen \<Longrightarrow> bfs children seen queue \<subseteq> (child_rel children)\<^sup>* `` seen"
proof (induction children seen queue rule: bfs.induct)
  case (2 children seen pid queue)
  obtain seen1 queue1 where e: "enqueue (children pid) seen queue = (seen1, queue1)" by force
  have "set queue1 \<subseteq> seen1" using 2(2) enqueue_queue [OF e] enqueue_seen [OF e] by auto
  with 2(1) e have "bfs children seen1 queue1 \<subseteq> (child_rel children)\<^sup>* `` seen1" by simp
  moreover have "seen1 \<subseteq> (child_rel children)\<^sup>* `` seen"
    using enqueue_seen [OF e] 2(2) by (auto simp: child_rel_def)
  ultimately show ?case
    using e by (auto simp: bfs.simps dest!: subsetD) (meson Image_iff rtrancl_trans subset_eq)
qed (auto simp: bfs.simps)

lemma bfs_closed:
  "set queue \<subseteq> seen \<Longrightarrow> (\<forall>p \<in> seen - set queue. set (children p) \<subseteq> seen) \<Longrightarrow>
     p \<in> bfs children seen queue \<Longrightarrow> set (children p) \<subseteq> bfs children seen queue"
proof (induction children seen queue rule: bfs.induct)
  case (2 children seen pid queue)
  obtain seen1 queue1 where e: "enqueue (children pid) seen queue = (seen1, queue1)" by force
  note eq = enqueue_seen [OF e] enqueue_queue [OF e]
  have "set queue1 \<subseteq> seen1" using 2(2) eq by auto
  moreover have "\<forall>p \<in> seen1 - set queue1. set (children p) \<subseteq> seen1" using 2(2,3) eq by auto
  ultimately show ?case using 2(1) [OF e [symmetric] refl] 2(4) e by (simp add: bfs.simps)
qed (auto simp: bfs.simps)

lemma bfs_reach: "bfs children {root} [root] = (child_rel children)\<^sup>* `` {root}"
proof
  show "bfs children {root} [root] \<subseteq> (child_rel children)\<^sup>* `` {root}" by (rule bfs_sound) simp
  have "p \<in> bfs children {root} [root]" if "(root, p) \<in> (child_rel children)\<^sup>*" for p
    using that
  proof (induction rule: rtrancl_induct)
    case base
    then show ?case using bfs_seen [of "{root}" children "[root]"] by auto
  next
    case (step y z)
    then show ?case using bfs_closed [of "[root]" "{root}" children y] by (auto simp: child_rel_def)
  qed
  then show "(child_rel children)\<^sup>* `` {root} \<subseteq> bfs children {root} [root]" by auto
qed

text \<open>The PID tree is the tree: whatever /proc shows, cycles and vanished processes included, the
  search ends and returns, sorted and without repetition, exactly the root and the processes that
  are its descendants under the parent PIDs it read.\<close>

theorem pid_tree_descendants:
  assumes "processChildren env = Some children"
  shows "\<exists>pids. discoverPIDTree env root = Inr pids \<and> sorted pids \<and> distinct pids \<and>
    set pids = {p. (root, p) \<in> {(parent, child). child \<in> set (children parent)}\<^sup>*}"
  using assms bfs_reach [of children root] by (auto simp: discoverPIDTree_def sortedPIDs_def child_rel_def)

definition treeEnv :: targetEnv where
  "treeEnv = \<lparr>te_entries = Some [(''1'', True), (''7'', True), (''8'', True), (''self'', True)],
     te_stat = (\<lambda>name. if name = ''7'' then Some ''7 (a b) S 1 7'' else if name = ''8'' then Some ''8 (x)y) S 7 8'' else None),
     te_cgroup = (\<lambda>_. None), te_dockerTop = (\<lambda>_. None), te_cgroupInode = (\<lambda>_. None), te_cgroupOrder = [],
     te_putPID = (\<lambda>_. True), te_deletePID = (\<lambda>_. True), te_putCgroup = (\<lambda>_. True), te_deleteCgroup = (\<lambda>_. True)\<rparr>"

theorem pid_tree_descendants_witness:
  "\<exists>pids. discoverPIDTree treeEnv 1 = Inr pids \<and> sorted pids \<and> 8 \<in> set pids"
proof -
  obtain children where c: "processChildren treeEnv = Some children" by (simp add: processChildren_def treeEnv_def)
  have "map_option (\<lambda>c. (c 1, c 7)) (processChildren treeEnv) = Some ([7], [8])" by code_simp
  then have "children 1 = [7]" "children 7 = [8]" using c by simp_all
  then have "(1, 7) \<in> {(parent, child). child \<in> set (children parent)}" "(7, 8) \<in> {(parent, child). child \<in> set (children parent)}"
    by simp_all
  then have "(1, 8) \<in> {(parent, child). child \<in> set (children parent)}\<^sup>*"
    by (meson r_into_rtrancl rtrancl.rtrancl_into_rtrancl)
  with pid_tree_descendants [OF c, of 1] show ?thesis by auto
qed

lemma last_index_last: "c \<notin> set b \<Longrightarrow> last_index c (a @ c # b) = int (length a)"
proof -
  assume "c \<notin> set b"
  then have "dropWhile (\<lambda>x. x \<noteq> c) (rev b @ c # rev a) = c # rev a"
    by (subst dropWhile_append2) auto
  then show ?thesis by (simp add: last_index_def Let_def)
qed

text \<open>Characters that do not start a white space, and fields made of them.\<close>

definition plain :: "char \<Rightarrow> bool" where
  "plain c \<longleftrightarrow> 33 \<le> byte_of c \<and> byte_of c \<le> (126::nat)"

lemma plain_no_space: "plain c \<Longrightarrow> \<not> has_prefix (c # s) sp" if "sp \<in> set go_spaces"
proof -
  assume "plain c"
  then have "c \<noteq> hd sp" "sp \<noteq> []"
    using that by (auto simp: plain_def go_spaces_def ascii_spaces_def wide_spaces_def)
  then show ?thesis by (cases sp) auto
qed

lemma trim_with_plain: "plain c \<Longrightarrow> trim_with go_spaces (c # s) = c # s"
proof -
  assume "plain c"
  then have "find (\<lambda>sp. sp \<noteq> [] \<and> has_prefix (c # s) sp) go_spaces = None"
    using plain_no_space by (auto simp: find_None_iff)
  then show ?thesis by (simp only: trim_with.simps [of go_spaces "c # s"] option.case)
qed

lemma word_of_plain: "list_all plain w \<Longrightarrow> word_of (w @ CHR '' '' # r) = (w, CHR '' '' # r)"
proof (induction w)
  case Nil
  have "list_ex (has_prefix (CHR '' '' # r)) go_spaces" by (simp add: go_spaces_def ascii_spaces_def)
  then show ?case by (simp del: has_prefix_Cons)
next
  case (Cons c w)
  have "\<not> list_ex (has_prefix (c # w @ CHR '' '' # r)) go_spaces"
    using Cons.prems plain_no_space [of _ c] by (auto simp: list_ex_iff simp del: has_prefix_Cons)
  with Cons show ?case by (simp del: has_prefix_Cons)
qed

lemma Fields_plain:
  assumes "list_all plain w" "w \<noteq> []"
  shows "strings_Fields (w @ CHR '' '' # r) = w # strings_Fields (CHR '' '' # r)"
proof -
  obtain c cs where w: "w = c # cs" using assms(2) by (cases w) auto
  have "trim_with go_spaces (w @ CHR '' '' # r) = w @ CHR '' '' # r"
    using assms(1) trim_with_plain [of c "cs @ CHR '' '' # r"] by (simp add: w)
  then show ?thesis
    using word_of_plain [OF assms(1), of r] assms(2) by (simp add: strings_Fields.simps [of "w @ CHR '' '' # r"])
qed

lemma Fields_space: "strings_Fields (CHR '' '' # r) = strings_Fields r"
proof -
  have "find (\<lambda>sp. sp \<noteq> [] \<and> has_prefix (CHR '' '' # r) sp) go_spaces = Some '' ''"
    by (simp add: go_spaces_def ascii_spaces_def)
  then have "trim_with go_spaces (CHR '' '' # r) = trim_with go_spaces r"
    by (simp only: trim_with.simps [of go_spaces "CHR '' '' # r"] option.case) simp
  then show ?thesis by (simp only: strings_Fields.simps [of "CHR '' '' # r"] strings_Fields.simps [of r])
qed

lemma plain_digits: "list_all plain (show_nat n)"
  using show_nat_digits [of n] by (auto simp: list_all_iff is_digit_def plain_def)

lemma drop_after: "drop (nat (int (length a) + 2)) (a @ x # y # b) = b"
  by (simp add: nat_add_distrib)

text \<open>The parent PID is found whatever the process calls itself: in a stat line whose command name
  contains blanks or parentheses, the number after the state that follows the last closing
  parenthesis is returned.\<close>

theorem ppid_despite_name:
  assumes "plain state" "state \<noteq> CHR '')''" "CHR '')'' \<notin> set rest" "ppid < 2 ^ 32"
  shows "parsePPIDFromStat (show_nat pid @ '' ('' @ comm @ '') '' @ state # CHR '' '' # show_nat ppid @ CHR '' '' # rest) =
    Some (of_nat ppid)"
proof -
  let ?a = "show_nat pid @ '' ('' @ comm" and ?b = "state # CHR '' '' # show_nat ppid @ CHR '' '' # rest"
  let ?stat = "show_nat pid @ '' ('' @ comm @ '') '' @ state # CHR '' '' # show_nat ppid @ CHR '' '' # rest"
  have s: "?stat = ?a @ CHR '')'' # CHR '' '' # ?b" by simp
  have "CHR '')'' \<notin> set (show_nat ppid)" by (simp add: show_nat_no_sep is_digit_def)
  then have "CHR '')'' \<notin> set (CHR '' '' # ?b)" using assms(2,3) by simp
  then have stop: "last_index CHR '')'' ?stat = int (length ?a)"
    unfolding s by (rule last_index_last)
  have "strings_Fields ([state] @ CHR '' '' # (show_nat ppid @ CHR '' '' # rest)) =
      [state] # show_nat ppid # strings_Fields rest"
    using assms(1) Fields_plain [of "[state]" "show_nat ppid @ CHR '' '' # rest"]
      Fields_plain [OF plain_digits show_nat_nonempty, of ppid rest] by (simp add: Fields_space)
  then have "strings_Fields ?b = [state] # show_nat ppid # strings_Fields rest" by simp
  moreover have "drop (nat (int (length ?a) + 2)) ?stat = ?b" unfolding s by (rule drop_after)
  moreover have "int (length ?a) + 2 < int (length ?stat)" by simp
  ultimately show ?thesis
    using parse_uint_show_nat [OF assms(4)] by (simp only: parsePPIDFromStat_def stop Let_def) simp
qed

theorem ppid_despite_name_witness:
  "parsePPIDFromStat (show_nat 8 @ '' ('' @ ''x) S 99'' @ '') '' @ CHR ''S'' # CHR '' '' # show_nat 7 @ CHR '' '' # ''8 8'') = Some 7"
  using ppid_despite_name [of "CHR ''S''" "''8 8''" 7 8 "''x) S 99''"] by (simp add: plain_def)


definition pidConfig :: targetConfig where
  "pidConfig = \<lparr>tc_mode = targetModePIDTree, tc_pid = 1, tc_container = [], tc_allowAllPIDs = False, tc_maxPIDs = 0,
     tc_cgroupFilter = False\<rparr>"


text \<open>The same of the cgroups that the kernel admits.\<close>

theorem admitted_cgroups_exact:
  assumes "m = fold refreshStep envs (newTargetManager cfg)"
  shows "tm_activeGroups m \<subseteq> tm_cgroups m \<and>
    ((\<forall>env \<in> set envs. faultlessCgroups env) \<longrightarrow> tm_cgroups m = tm_activeGroups m)"
  using cgroups.run_covers [of "newTargetManager cfg" envs] cgroups.run_exact [of envs "newTargetManager cfg"]
  by (auto simp: assms newTargetManager_def)

theorem admitted_cgroups_exact_witness:
  "tm_cgroups (fold refreshStep [treeEnv] (newTargetManager pidConfig)) =
   tm_activeGroups (fold refreshStep [treeEnv] (newTargetManager pidConfig))"
  using admitted_cgroups_exact [OF refl, of "[treeEnv]" pidConfig] by (simp add: faultlessCgroups_def treeEnv_def)

text \<open>A failed removal is forgotten: a PID that the kernel map still has although the manager no
  longer lists it, after a Delete that failed or a refresh that stopped at a failing Put, stays
  traced through every later refresh that does not target it again.\<close>

theorem stale_pid_stays:
  assumes "pid \<in> tm_pids m" "\<And>n. n < length envs \<Longrightarrow> pid \<notin> tm_active (fold refreshStep (take n envs) m)"
  shows "pid \<in> tm_pids (fold refreshStep envs m)"
  by (rule pids.run_stale [OF assms])

theorem stale_pid_stays_witness:
  "99 \<in> tm_pids (fold refreshStep [treeEnv] ((newTargetManager pidConfig)\<lparr>tm_pids := {99}\<rparr>))"
  using stale_pid_stays [of 99 "(newTargetManager pidConfig)\<lparr>tm_pids := {99}\<rparr>" "[treeEnv]"]
  by (simp add: newTargetManager_def)

end
