(* ===== verification/KernelConfig.thy ===== *)
theory KernelConfig
  imports Target AgentMetadata
begin

text \<open>
  What the agent writes into the kernel's maps, \<^verbatim>\<open>cmd/agent/main.go\<close>: the capture
  configuration, the port sets that the eBPF program filters by, and the socket tuples with
  which it labels its events. A map that is not loaded is \<open>None\<close>; which operations fail, and
  the order in which Go iterates its maps, is given by \<open>kernelFaults\<close>.
\<close>

section \<open>Constants\<close>

definition captureConfigMaxPayloadSize :: u32 where "captureConfigMaxPayloadSize = 0"
definition captureConfigCaptureReads :: u32 where "captureConfigCaptureReads = 1"
definition captureConfigCaptureWrites :: u32 where "captureConfigCaptureWrites = 2"
definition captureConfigCaptureStdio :: u32 where "captureConfigCaptureStdio = 3"
definition captureConfigTargetPorts :: u32 where "captureConfigTargetPorts = 4"
definition captureConfigCgroupFilter :: u32 where "captureConfigCgroupFilter = 5"

definition maxKernelPayloadSize :: int where "maxKernelPayloadSize = 4096 * 4"

lemmas config_keys = captureConfigMaxPayloadSize_def captureConfigCaptureReads_def captureConfigCaptureWrites_def
  captureConfigCaptureStdio_def captureConfigTargetPorts_def captureConfigCgroupFilter_def

definition kernelAFInet :: u16 where "kernelAFInet = 2"
definition kernelAFInet6 :: u16 where "kernelAFInet6 = 10"
definition socketRoleInbound :: u8 where "socketRoleInbound = 1"
definition socketRoleOutbound :: u8 where "socketRoleOutbound = 2"
definition socketTupleLocal :: u8 where "socketTupleLocal = 1"
definition socketTupleRemote :: u8 where "socketTupleRemote = 2"

section \<open>The capture configuration\<close>

datatype kernelError =
    InvalidPayloadSize
  | NotLoaded bytes
  | UpdateConfigFailed u32
  | InvalidPort bytes int
  | UpdatePortFailed bytes int
  | IterateFailed bytes
  | DeletePortFailed bytes u16

record kernelFaults =
  kf_config :: "u32 \<Rightarrow> bool"
  kf_putPort :: "bytes \<Rightarrow> u16 \<Rightarrow> bool"
  kf_iterate :: "bytes \<Rightarrow> bool"
  kf_deletePort :: "bytes \<Rightarrow> u16 \<Rightarrow> bool"
  kf_settingOrder :: "u32 list"
  kf_portOrder :: "int list"

definition noKernelFaults :: kernelFaults where
  "noKernelFaults = \<lparr>kf_config = (\<lambda>k. False), kf_putPort = (\<lambda>n p. False), kf_iterate = (\<lambda>n. False),
     kf_deletePort = (\<lambda>n p. False), kf_settingOrder = [], kf_portOrder = []\<rparr>"

type_synonym configMap = "(u32 \<times> u32) list"
type_synonym portMap = "(u16 \<times> u8) list"

definition boolToKernelConfig :: "bool \<Rightarrow> u32" where
  "boolToKernelConfig enabled = (if enabled then 1 else 0)"

definition validateKernelMaxPayloadSize :: "int \<Rightarrow> u32 option" where
  "validateKernelMaxPayloadSize requested =
     (if requested \<le> 0 \<or> requested > maxKernelPayloadSize then None else Some (word_of_int requested))"

definition putKernelCaptureConfig ::
  "kernelFaults \<Rightarrow> u32 \<Rightarrow> u32 \<Rightarrow> configMap option \<Rightarrow> kernelError option \<times> configMap option" where
  "putKernelCaptureConfig faults key val configMap =
     (case configMap of
        None \<Rightarrow> (Some (NotLoaded ''capture_config''), None)
      | Some m \<Rightarrow>
          if kf_config faults key then (Some (UpdateConfigFailed key), Some m)
          else (None, Some (AList.update key val m)))"

text \<open>The Go map of settings.\<close>

definition captureSettings :: "u32 \<Rightarrow> bool \<Rightarrow> bool \<Rightarrow> bool \<Rightarrow> bool \<Rightarrow> bool \<Rightarrow> configMap" where
  "captureSettings maxPayload captureReads captureWrites captureStdio targetPortsEnabled cgroupFilterEnabled =
     [(captureConfigMaxPayloadSize, maxPayload),
      (captureConfigCaptureReads, boolToKernelConfig captureReads),
      (captureConfigCaptureWrites, boolToKernelConfig captureWrites),
      (captureConfigCaptureStdio, boolToKernelConfig captureStdio),
      (captureConfigTargetPorts, boolToKernelConfig targetPortsEnabled),
      (captureConfigCgroupFilter, boolToKernelConfig cgroupFilterEnabled)]"

fun putSettings ::
  "kernelFaults \<Rightarrow> configMap \<Rightarrow> configMap option \<Rightarrow> kernelError option \<times> configMap option" where
  "putSettings faults [] configMap = (None, configMap)"
| "putSettings faults ((key, val) # settings) configMap =
     (case putKernelCaptureConfig faults key val configMap of
        (Some err, m) \<Rightarrow> (Some err, m)
      | (None, m) \<Rightarrow> putSettings faults settings m)"

definition inOrder :: "u32 list \<Rightarrow> configMap \<Rightarrow> configMap" where
  "inOrder first settings = map (\<lambda>k. (k, the (map_of settings k))) (mapOrder first (fst ` set settings))"

definition configureKernelCapture ::
  "kernelFaults \<Rightarrow> u32 \<Rightarrow> bool \<Rightarrow> bool \<Rightarrow> bool \<Rightarrow> bool \<Rightarrow> bool \<Rightarrow> configMap option \<Rightarrow>
     kernelError option \<times> configMap option" where
  "configureKernelCapture faults maxPayload captureReads captureWrites captureStdio targetPortsEnabled
       cgroupFilterEnabled configMap =
     putSettings faults
       (inOrder (kf_settingOrder faults)
         (captureSettings maxPayload captureReads captureWrites captureStdio targetPortsEnabled cgroupFilterEnabled))
       configMap"

section \<open>The kernel's port sets\<close>

fun putPorts :: "kernelFaults \<Rightarrow> bytes \<Rightarrow> int list \<Rightarrow> portMap \<Rightarrow> kernelError option \<times> portMap" where
  "putPorts faults name [] m = (None, m)"
| "putPorts faults name (port # ports) m =
     (if port \<le> 0 \<or> port > 65535 then (Some (InvalidPort name port), m)
      else if kf_putPort faults name (word_of_int port) then (Some (UpdatePortFailed name port), m)
      else putPorts faults name ports (AList.update (word_of_int port) 1 m))"

definition putKernelPortSet ::
  "kernelFaults \<Rightarrow> bytes \<Rightarrow> portSet \<Rightarrow> portMap option \<Rightarrow> kernelError option \<times> portMap option" where
  "putKernelPortSet faults name ports portMap =
     (case portMap of
        None \<Rightarrow> (Some (NotLoaded name), None)
      | Some m \<Rightarrow> (let (err, m1) = putPorts faults name (mapOrder (kf_portOrder faults) ports) m in (err, Some m1)))"

fun deletePorts :: "kernelFaults \<Rightarrow> bytes \<Rightarrow> u16 list \<Rightarrow> portMap \<Rightarrow> kernelError option \<times> portMap" where
  "deletePorts faults name [] m = (None, m)"
| "deletePorts faults name (key # keys) m =
     (if kf_deletePort faults name key then (Some (DeletePortFailed name key), m)
      else deletePorts faults name keys (AList.delete key m))"

definition clearKernelPortSet ::
  "kernelFaults \<Rightarrow> bytes \<Rightarrow> portMap option \<Rightarrow> kernelError option \<times> portMap option" where
  "clearKernelPortSet faults name portMap =
     (case portMap of
        None \<Rightarrow> (Some (NotLoaded name), None)
      | Some m \<Rightarrow>
          if kf_iterate faults name then (Some (IterateFailed name), Some m)
          else (let (err, m1) = deletePorts faults name (map fst m) m in (err, Some m1)))"

definition replaceKernelPortSet ::
  "kernelFaults \<Rightarrow> bytes \<Rightarrow> portSet \<Rightarrow> portMap option \<Rightarrow> kernelError option \<times> portMap option" where
  "replaceKernelPortSet faults name ports portMap =
     (case clearKernelPortSet faults name portMap of
        (Some err, m) \<Rightarrow> (Some err, m)
      | (None, m) \<Rightarrow> putKernelPortSet faults name ports m)"

record agentKernel =
  ak_config :: "configMap option"
  ak_targetPorts :: "portMap option"
  ak_ignoredPorts :: "portMap option"

definition configureKernelPortFilters ::
  "kernelFaults \<Rightarrow> portSet \<Rightarrow> portSet \<Rightarrow> agentKernel \<Rightarrow> kernelError option \<times> agentKernel" where
  "configureKernelPortFilters faults targetPorts ignoredPorts kern =
     (case replaceKernelPortSet faults ''target_ports'' targetPorts (ak_targetPorts kern) of
        (Some err, m) \<Rightarrow> (Some err, kern\<lparr>ak_targetPorts := m\<rparr>)
      | (None, m) \<Rightarrow>
          (let (err, m2) = replaceKernelPortSet faults ''ignored_ports'' ignoredPorts (ak_ignoredPorts kern)
           in (err, kern\<lparr>ak_targetPorts := m, ak_ignoredPorts := m2\<rparr>)))"

section \<open>Socket tuples\<close>

record kernelSocketTuple =
  kt_Family :: u16
  kt_LocalPort :: u16
  kt_RemotePort :: u16
  kt_Role :: u8
  kt_Flags :: u8

definition kernelFamilyFromConnection :: "ConnectionMetadata \<Rightarrow> u16" where
  "kernelFamilyFromConnection conn =
     (if conn_Family conn = ''ipv4'' then kernelAFInet
      else if conn_Family conn = ''ipv6'' then kernelAFInet6 else 0)"

definition kernelRoleFromConnection :: "ConnectionMetadata \<Rightarrow> u8" where
  "kernelRoleFromConnection conn =
     (if conn_Role conn = ''inbound'' then socketRoleInbound
      else if conn_Role conn = ''outbound'' then socketRoleOutbound else 0)"

definition kernelSocketTupleFromConnection :: "ConnectionMetadata \<Rightarrow> kernelSocketTuple option" where
  "kernelSocketTupleFromConnection conn =
     (if conn_Protocol conn \<noteq> ''tcp'' then None
      else
        (let t0 = \<lparr>kt_Family = kernelFamilyFromConnection conn, kt_LocalPort = 0, kt_RemotePort = 0,
               kt_Role = kernelRoleFromConnection conn, kt_Flags = 0\<rparr>;
             t1 = (if conn_SrcPort conn > 0 \<and> conn_SrcPort conn \<le> 65535
                   then t0\<lparr>kt_LocalPort := word_of_int (conn_SrcPort conn), kt_Flags := kt_Flags t0 OR socketTupleLocal\<rparr>
                   else t0);
             t2 = (if conn_DstPort conn > 0 \<and> conn_DstPort conn \<le> 65535
                   then t1\<lparr>kt_RemotePort := word_of_int (conn_DstPort conn), kt_Flags := kt_Flags t1 OR socketTupleRemote\<rparr>
                   else t1)
         in if kt_Family t2 = 0 \<or> kt_Flags t2 = 0 then None else Some t2))"

text \<open>The kernel's map beside the agent's memory of what it wrote there.\<close>

record kernelTupleSyncer =
  ts_tuples :: "(flowKey \<times> kernelSocketTuple) list option"
  ts_synced :: "(flowKey \<times> kernelSocketTuple) list"

definition newKernelTupleSyncer :: "(flowKey \<times> kernelSocketTuple) list option \<Rightarrow> kernelTupleSyncer" where
  "newKernelTupleSyncer tuples = \<lparr>ts_tuples = tuples, ts_synced = []\<rparr>"

definition syncer_remember ::
  "(flowKey \<Rightarrow> bool) \<Rightarrow> flowKey \<Rightarrow> ConnectionMetadata \<Rightarrow> kernelTupleSyncer \<Rightarrow> kernelTupleSyncer" where
  "syncer_remember updateFails key conn s =
     (case ts_tuples s of
        None \<Rightarrow> s
      | Some tuples \<Rightarrow>
          (case kernelSocketTupleFromConnection conn of
             None \<Rightarrow> s
           | Some tuple \<Rightarrow>
               if map_of (ts_synced s) key = Some tuple then s
               else if updateFails key then s
               else
                 (let synced = AList.update key tuple (ts_synced s)
                  in s\<lparr>ts_tuples := Some (AList.update key tuple tuples),
                       ts_synced := (if length synced > 65536 then [] else synced)\<rparr>)))"

definition syncer_forget :: "flowKey \<Rightarrow> kernelTupleSyncer \<Rightarrow> kernelTupleSyncer" where
  "syncer_forget key s = s\<lparr>ts_synced := AList.delete key (ts_synced s)\<rparr>"

section \<open>The event of the kernel\<close>

record bpfEvent =
  be_Timestamp :: u64
  be_Pid :: u32
  be_Tid :: u32
  be_Fd :: u32
  be_Generation :: u32
  be_Seq :: u32
  be_Size :: u32
  be_OriginalSize :: u32
  be_ChunkIndex :: u16
  be_ChunkCount :: u16
  be_Direction :: u8
  be_EventType :: u8
  be_Flags :: u8
  be_Pad :: u8
  be_LocalPort :: u16
  be_RemotePort :: u16
  be_SocketFamily :: u8
  be_SocketRole :: u8
  be_SocketTupleFlags :: u8
  be_Pad2 :: u8
  be_Payload :: bytes

definition connectionFromKernelTuple :: "bpfEvent \<Rightarrow> ConnectionMetadata option" where
  "connectionFromKernelTuple event =
     (if be_SocketTupleFlags event = 0 then None
      else
        (let conn = noConnection\<lparr>
               conn_Protocol := ''tcp'',
               conn_Family := (if be_SocketFamily event = 4 then ''ipv4''
                 else if be_SocketFamily event = 6 then ''ipv6'' else []),
               conn_Role := (if be_SocketRole event = socketRoleInbound then ''inbound''
                 else if be_SocketRole event = socketRoleOutbound then ''outbound'' else []),
               conn_SrcPort := (if be_SocketTupleFlags event AND socketTupleLocal \<noteq> 0
                 then uint (be_LocalPort event) else 0),
               conn_DstPort := (if be_SocketTupleFlags event AND socketTupleRemote \<noteq> 0
                 then uint (be_RemotePort event) else 0)\<rparr>
         in if conn_SrcPort conn = 0 \<and> conn_DstPort conn = 0 then None else Some conn))"

text \<open>How the eBPF program labels an event from its map, \<^verbatim>\<open>bpf/tracer.bpf.c\<close>.\<close>

definition fill_event_socket_metadata :: "(flowKey \<times> kernelSocketTuple) list \<Rightarrow> flowKey \<Rightarrow> bpfEvent \<Rightarrow> bpfEvent" where
  "fill_event_socket_metadata tuples key event =
     (let e0 = event\<lparr>be_LocalPort := 0, be_RemotePort := 0, be_SocketFamily := 0, be_SocketRole := 0,
            be_SocketTupleFlags := 0, be_Pad2 := 0\<rparr>
      in case map_of tuples key of
           None \<Rightarrow> e0
         | Some tuple \<Rightarrow>
             e0\<lparr>be_LocalPort := kt_LocalPort tuple, be_RemotePort := kt_RemotePort tuple,
               be_SocketFamily := (if kt_Family tuple = 2 then 4 else if kt_Family tuple = 10 then 6 else 0),
               be_SocketRole := kt_Role tuple, be_SocketTupleFlags := kt_Flags tuple\<rparr>)"

section \<open>What the kernel's maps hold\<close>

lemma putSettings_ok:
  "fst (putSettings faults settings (Some m)) = None \<Longrightarrow>
     snd (putSettings faults settings (Some m)) = Some (fold (\<lambda>(k, v). AList.update k v) settings m)"
proof (induction faults settings "Some m" arbitrary: m rule: putSettings.induct)
  case (2 faults key val settings)
  then show ?case
    by (auto simp: putKernelCaptureConfig_def split: if_splits)
qed simp

lemma map_of_fold_update:
  "distinct (map fst kvs) \<Longrightarrow>
     map_of (fold (\<lambda>(k, v). AList.update k v) kvs m) k =
       (case map_of kvs k of None \<Rightarrow> map_of m k | Some v \<Rightarrow> Some v)"
proof (induction kvs arbitrary: m)
  case (Cons kv kvs)
  obtain k' v where kv: "kv = (k', v)" by force
  from Cons.prems have "map_of kvs k' = None" by (simp add: kv map_of_eq_None_iff)
  with Cons show ?case by (auto simp: kv update_conv' split: option.splits)
qed simp

lemma mapOrder_distinct: "finite keys \<Longrightarrow> distinct (mapOrder first keys)"
  by (auto simp: mapOrder_def)

lemma inOrder_map_of: "map_of (inOrder first settings) k = map_of settings k"
proof -
  have keys: "set (mapOrder first (fst ` set settings)) = fst ` set settings" by (simp add: mapOrder_set)
  show ?thesis
  proof (cases "k \<in> fst ` set settings")
    case True
    then obtain v where "map_of settings k = Some v" by (metis map_of_eq_None_iff not_None_eq)
    with True show ?thesis
      using map_of_map_restrict [of "\<lambda>k. the (map_of settings k)" "mapOrder first (fst ` set settings)"]
      by (simp add: inOrder_def keys restrict_map_def)
  next
    case False
    then have "map_of settings k = None" by (metis map_of_eq_None_iff)
    moreover have "map_of (inOrder first settings) k = None"
      using False by (auto simp: inOrder_def map_of_eq_None_iff image_image keys)
    ultimately show ?thesis by simp
  qed
qed

lemma inOrder_distinct: "distinct (map fst (inOrder first settings))"
  by (simp add: inOrder_def comp_def mapOrder_distinct)

lemma configureKernelCapture_ok:
  assumes "configureKernelCapture faults mp cr cw cs tp cg (Some m) = (None, m')"
  shows "\<exists>m1. m' = Some m1 \<and> (\<forall>k. map_of m1 k =
    (case map_of (captureSettings mp cr cw cs tp cg) k of None \<Rightarrow> map_of m k | Some v \<Rightarrow> Some v))"
proof -
  let ?s = "inOrder (kf_settingOrder faults) (captureSettings mp cr cw cs tp cg)"
  have "snd (putSettings faults ?s (Some m)) = Some (fold (\<lambda>(k, v). AList.update k v) ?s m)"
    using assms by (intro putSettings_ok) (simp add: configureKernelCapture_def)
  then have "m' = Some (fold (\<lambda>(k, v). AList.update k v) ?s m)"
    using assms by (simp add: configureKernelCapture_def)
  then show ?thesis by (simp add: map_of_fold_update inOrder_distinct inOrder_map_of)
qed

lemma putPorts_ok:
  "putPorts faults name ports m = (None, m1) \<Longrightarrow>
     set ports \<subseteq> {1..65535} \<and>
     (\<forall>k. map_of m1 k = (if k \<in> word_of_int ` set ports then Some 1 else map_of m k))"
  by (induction faults name ports m arbitrary: m1 rule: putPorts.induct)
    (auto simp: update_conv' split: if_splits)

lemma putPorts_total:
  "set ports \<subseteq> {1..65535} \<Longrightarrow> (\<And>k. \<not> kf_putPort faults name k) \<Longrightarrow> fst (putPorts faults name ports m) = None"
  by (induction faults name ports m rule: putPorts.induct) (auto simp: not_le not_less)

lemma deletePorts_ok:
  "deletePorts faults name keys m = (None, m1) \<Longrightarrow> m1 = filter (\<lambda>(k, v). k \<notin> set keys) m"
proof (induction faults name keys m rule: deletePorts.induct)
  case (2 faults name key keys m)
  then have "m1 = filter (\<lambda>(k, v). k \<notin> set keys) (AList.delete key m)" by (auto split: if_splits)
  moreover have "filter (\<lambda>(k, v). k \<notin> set keys) (AList.delete key m) = filter (\<lambda>(k, v). k \<notin> set (key # keys)) m"
    unfolding AList.delete_eq filter_filter by (rule filter_cong) auto
  ultimately show ?case by simp
qed auto

lemma deletePorts_total: "(\<And>k. \<not> kf_deletePort faults name k) \<Longrightarrow> fst (deletePorts faults name keys m) = None"
  by (induction faults name keys m rule: deletePorts.induct) auto

lemma clear_ok:
  assumes "clearKernelPortSet faults name portMap = (None, m1)"
  shows "m1 = Some []"
proof -
  obtain m where m: "portMap = Some m" using assms by (auto simp: clearKernelPortSet_def split: option.splits)
  with assms obtain m2 where "deletePorts faults name (map fst m) m = (None, m2)" "m1 = Some m2"
    by (auto simp: clearKernelPortSet_def split: if_splits prod.splits)
  moreover have "filter (\<lambda>(k, v). k \<notin> set (map fst m)) m = []"
    unfolding filter_empty_conv by (metis (mono_tags) case_prod_conv in_set_zip imageI list.set_map fst_conv surj_pair)
  ultimately show ?thesis using deletePorts_ok by metis
qed

text \<open>The ports by which the kernel filters.\<close>

definition kernelPorts :: "portMap \<Rightarrow> portSet" where
  "kernelPorts m = uint ` fst ` set m"

lemma kernelPorts_dom: "kernelPorts m = uint ` dom (map_of m)"
  by (simp add: kernelPorts_def dom_map_of_conv_image_fst)

lemma replace_ok:
  assumes "replaceKernelPortSet faults name ports portMap = (None, m1)" "finite ports"
  shows "ports \<subseteq> {1..65535}" "\<exists>m2. m1 = Some m2 \<and> kernelPorts m2 = ports"
proof -
  obtain m0 where c: "clearKernelPortSet faults name portMap = (None, m0)"
    and p: "putKernelPortSet faults name ports m0 = (None, m1)"
    using assms(1) by (auto simp: replaceKernelPortSet_def split: prod.splits option.splits)
  obtain m2 where m2: "putPorts faults name (mapOrder (kf_portOrder faults) ports) [] = (None, m2)" "m1 = Some m2"
    using p clear_ok [OF c] by (auto simp: putKernelPortSet_def split: prod.splits)
  note ok = putPorts_ok [OF m2(1)] and set = mapOrder_set [OF assms(2), of "kf_portOrder faults"]
  show sub: "ports \<subseteq> {1..65535}" using ok set by simp
  have "dom (map_of m2) = word_of_int ` ports" using ok set by (auto split: if_splits)
  then have "kernelPorts m2 = (\<lambda>p. uint (word_of_int p :: u16)) ` ports" by (simp add: kernelPorts_dom image_image)
  also have "\<dots> = (\<lambda>p. p) ` ports"
  proof (rule image_cong [OF refl])
    fix p assume "p \<in> ports"
    with sub have "0 \<le> p" "p < 2 ^ 16" by auto
    then show "uint (word_of_int p :: u16) = p" by (simp add: uint_word_of_int_eq take_bit_int_eq_self)
  qed
  finally show "\<exists>m2. m1 = Some m2 \<and> kernelPorts m2 = ports" using m2(2) by simp
qed

lemma replace_total:
  assumes "\<And>k. \<not> kf_putPort faults name k" "\<And>k. \<not> kf_deletePort faults name k" "\<not> kf_iterate faults name"
    and "finite ports" "ports \<subseteq> {1..65535}"
  shows "fst (replaceKernelPortSet faults name ports (Some m)) = None"
proof -
  have "fst (clearKernelPortSet faults name (Some m)) = None"
    using deletePorts_total [of faults name "map fst m" m] assms(2,3)
    by (simp add: clearKernelPortSet_def case_prod_beta)
  then obtain m0 where c: "clearKernelPortSet faults name (Some m) = (None, m0)" by (metis prod.collapse)
  have "fst (putPorts faults name (mapOrder (kf_portOrder faults) ports) []) = None"
    using assms(1,4,5) by (intro putPorts_total) (simp_all add: mapOrder_set)
  then show ?thesis
    by (simp add: replaceKernelPortSet_def c clear_ok [OF c] putKernelPortSet_def case_prod_beta)
qed

section \<open>What a socket tuple carries\<close>

lemma tuple_fields:
  assumes "kernelSocketTupleFromConnection conn = Some t"
  shows "conn_Protocol conn = ''tcp''" "kt_Family t = kernelFamilyFromConnection conn" "kt_Family t \<noteq> 0"
    "kt_Role t = kernelRoleFromConnection conn"
    "kt_LocalPort t = (if conn_SrcPort conn \<in> {1..65535} then word_of_int (conn_SrcPort conn) else 0)"
    "kt_RemotePort t = (if conn_DstPort conn \<in> {1..65535} then word_of_int (conn_DstPort conn) else 0)"
    "kt_Flags t = (if conn_SrcPort conn \<in> {1..65535} then 1 else 0) OR (if conn_DstPort conn \<in> {1..65535} then 2 else 0)"
    "kt_Flags t \<noteq> 0"
  using assms
  by (auto simp: kernelSocketTupleFromConnection_def Let_def socketTupleLocal_def socketTupleRemote_def
      split: if_splits)

lemma tuple_some:
  assumes "conn_Protocol conn = ''tcp''" "conn_Family conn \<in> {''ipv4'', ''ipv6''}"
    and "conn_SrcPort conn \<in> {1..65535} \<or> conn_DstPort conn \<in> {1..65535}"
  shows "\<exists>t. kernelSocketTupleFromConnection conn = Some t"
  using assms
  by (auto simp: kernelSocketTupleFromConnection_def Let_def socketTupleLocal_def socketTupleRemote_def
      kernelFamilyFromConnection_def kernelAFInet_def kernelAFInet6_def)

lemma uint_port: "p \<in> {1..65535} \<Longrightarrow> uint (word_of_int p :: u16) = p"
  by (simp add: uint_word_of_int_eq take_bit_int_eq_self)

definition portOrZero :: "int \<Rightarrow> int" where
  "portOrZero port = (if port \<in> {1..65535} then port else 0)"

text \<open>What the kernel and the agent hand each other: everything but the addresses.\<close>

definition withoutAddresses :: "ConnectionMetadata \<Rightarrow> ConnectionMetadata" where
  "withoutAddresses conn = conn\<lparr>conn_SrcIP := [], conn_DstIP := [],
     conn_SrcPort := portOrZero (conn_SrcPort conn), conn_DstPort := portOrZero (conn_DstPort conn),
     conn_Role := (if conn_Role conn \<in> {''inbound'', ''outbound''} then conn_Role conn else [])\<rparr>"

lemma tuple_roundtrip:
  assumes "kernelSocketTupleFromConnection conn = Some t" "map_of tuples key = Some t"
  shows "connectionFromKernelTuple (fill_event_socket_metadata tuples key event) = Some (withoutAddresses conn)"
proof -
  note f = tuple_fields [OF assms(1)]
  have family: "conn_Family conn = ''ipv4'' \<and> kt_Family t = 2 \<or> conn_Family conn = ''ipv6'' \<and> kt_Family t = 10"
    using f(2,3) by (auto simp: kernelFamilyFromConnection_def kernelAFInet_def kernelAFInet6_def split: if_splits)
  have role: "kt_Role t = (if conn_Role conn = ''inbound'' then 1 else if conn_Role conn = ''outbound'' then 2 else 0)"
    using f(4) by (simp add: kernelRoleFromConnection_def socketRoleInbound_def socketRoleOutbound_def)
  have flags: "kt_Flags t AND 1 \<noteq> 0 \<longleftrightarrow> conn_SrcPort conn \<in> {1..65535}"
    "kt_Flags t AND 2 \<noteq> 0 \<longleftrightarrow> conn_DstPort conn \<in> {1..65535}"
    unfolding f(7) by auto
  have some: "conn_SrcPort conn \<in> {1..65535} \<or> conn_DstPort conn \<in> {1..65535}" using f(8) unfolding f(7) by (auto split: if_splits)
  have src: "(if kt_Flags t AND 1 \<noteq> 0 then uint (kt_LocalPort t) else 0) = portOrZero (conn_SrcPort conn)"
    unfolding flags f(5) portOrZero_def by (simp add: uint_port)
  have dst: "(if kt_Flags t AND 2 \<noteq> 0 then uint (kt_RemotePort t) else 0) = portOrZero (conn_DstPort conn)"
    unfolding flags f(6) portOrZero_def by (simp add: uint_port)
  have nz: "\<not> (portOrZero (conn_SrcPort conn) = 0 \<and> portOrZero (conn_DstPort conn) = 0)"
    using some by (auto simp: portOrZero_def)
  show ?thesis
    using family role f(1,8) src dst nz
    by (auto simp: connectionFromKernelTuple_def fill_event_socket_metadata_def assms(2) Let_def
        socketRoleInbound_def socketRoleOutbound_def socketTupleLocal_def socketTupleRemote_def
        withoutAddresses_def noConnection_def)
qed

section \<open>Keeping the kernel's tuples in step\<close>

text \<open>What the agent remembers to have written is in the kernel's map, and its memory is bounded.\<close>

definition syncer_inv :: "kernelTupleSyncer \<Rightarrow> bool" where
  "syncer_inv s \<longleftrightarrow> distinct (map fst (ts_synced s)) \<and> length (ts_synced s) \<le> 65536 \<and>
     (\<forall>key t. map_of (ts_synced s) key = Some t \<longrightarrow>
        (\<exists>tuples. ts_tuples s = Some tuples \<and> map_of tuples key = Some t))"

lemma new_syncer_inv: "syncer_inv (newKernelTupleSyncer tuples)"
  by (simp add: syncer_inv_def newKernelTupleSyncer_def)

text \<open>The two effects of a call: nothing, or the tuple in both maps.\<close>

lemma syncer_remember_cases:
  obtains (same) "syncer_remember updateFails key conn s = s"
  | (wrote) tuples t where "ts_tuples s = Some tuples" "kernelSocketTupleFromConnection conn = Some t"
      "syncer_remember updateFails key conn s = s\<lparr>ts_tuples := Some (AList.update key t tuples),
        ts_synced := (if length (AList.update key t (ts_synced s)) > 65536 then [] else AList.update key t (ts_synced s))\<rparr>"
proof (cases "ts_tuples s")
  case None
  then show ?thesis using same by (simp add: syncer_remember_def)
next
  case (Some tuples)
  show ?thesis
  proof (cases "kernelSocketTupleFromConnection conn")
    case None
    then show ?thesis using same Some by (simp add: syncer_remember_def)
  next
    case (Some t)
    show ?thesis
    proof (cases "map_of (ts_synced s) key = Some t \<or> updateFails key")
      case True
      then show ?thesis using same Some \<open>ts_tuples s = Some tuples\<close> by (auto simp: syncer_remember_def)
    next
      case False
      then show ?thesis
        using wrote [OF \<open>ts_tuples s = Some tuples\<close> Some] Some \<open>ts_tuples s = Some tuples\<close>
        by (auto simp: syncer_remember_def Let_def)
    qed
  qed
qed

lemma syncer_remember_inv:
  assumes "syncer_inv s"
  shows "syncer_inv (syncer_remember updateFails key conn s)"
proof (cases rule: syncer_remember_cases [of updateFails key conn s])
  case (wrote tuples t)
  have "\<exists>tuples'. Some (AList.update key t tuples) = Some tuples' \<and> map_of tuples' k = Some t'"
    if "map_of (AList.update key t (ts_synced s)) k = Some t'" for k t'
    using that assms wrote(1) by (cases "k = key") (auto simp: update_conv' syncer_inv_def)
  then show ?thesis using assms unfolding wrote(3) by (simp add: syncer_inv_def distinct_update)
qed (use assms in simp)

lemma syncer_forget_inv: "syncer_inv s \<Longrightarrow> syncer_inv (syncer_forget key s)"
  using length_delete_le [of key "ts_synced s"]
  by (auto simp: syncer_inv_def syncer_forget_def distinct_delete delete_conv' simp del: map_of_eq_Some_iff)

datatype syncerOp = Remember "flowKey \<Rightarrow> bool" flowKey ConnectionMetadata | ForgetTuple flowKey

fun syncerStep :: "syncerOp \<Rightarrow> kernelTupleSyncer \<Rightarrow> kernelTupleSyncer" where
  "syncerStep (Remember updateFails key conn) s = syncer_remember updateFails key conn s"
| "syncerStep (ForgetTuple key) s = syncer_forget key s"

interpretation tuples_in_step: step_invariant syncerStep syncer_inv
proof
  fix s i assume "syncer_inv s"
  then show "syncer_inv (syncerStep i s)" by (cases i) (simp_all add: syncer_remember_inv syncer_forget_inv)
qed

interpretation tuples_loaded: step_invariant syncerStep "\<lambda>s. ts_tuples s \<noteq> None"
proof
  fix s :: kernelTupleSyncer and i assume "ts_tuples s \<noteq> None"
  then show "ts_tuples (syncerStep i s) \<noteq> None"
    by (cases i) (auto simp: syncer_forget_def syncer_remember_def Let_def split: option.splits)
qed

lemma remember_present:
  assumes "syncer_inv s" "ts_tuples s = Some tuples" "\<not> updateFails key"
    and "kernelSocketTupleFromConnection conn = Some t"
  shows "\<exists>tuples'. ts_tuples (syncer_remember updateFails key conn s) = Some tuples' \<and> map_of tuples' key = Some t"
  using assms by (auto simp: syncer_remember_def syncer_inv_def Let_def update_conv')

lemma tuple_labels_events_facts:
  assumes "conn_Protocol conn = ''tcp''" "conn_Family conn \<in> {''ipv4'', ''ipv6''}"
    and "conn_SrcPort conn \<in> {1..65535} \<or> conn_DstPort conn \<in> {1..65535}"
    and "s = fold syncerStep ops (newKernelTupleSyncer (Some initial))"
    and "\<not> updateFails key"
  shows "\<exists>tuples. ts_tuples (syncer_remember updateFails key conn s) = Some tuples \<and>
      connectionFromKernelTuple (fill_event_socket_metadata tuples key event) = Some (withoutAddresses conn)"
    and "length (ts_synced (syncer_remember updateFails key conn s)) \<le> 65536"
proof -
  have inv: "syncer_inv s" unfolding assms(4) by (rule tuples_in_step.run_keeps [OF new_syncer_inv])
  have "ts_tuples (newKernelTupleSyncer (Some initial)) \<noteq> None" by (simp add: newKernelTupleSyncer_def)
  then obtain tuples where tuples: "ts_tuples s = Some tuples"
    unfolding assms(4) using tuples_loaded.run_keeps by blast
  obtain t where t: "kernelSocketTupleFromConnection conn = Some t" using tuple_some [OF assms(1-3)] ..
  show "\<exists>tuples. ts_tuples (syncer_remember updateFails key conn s) = Some tuples \<and>
      connectionFromKernelTuple (fill_event_socket_metadata tuples key event) = Some (withoutAddresses conn)"
    using remember_present [of s tuples updateFails key conn t] inv tuples assms(5) t tuple_roundtrip [OF t] by blast
  show "length (ts_synced (syncer_remember updateFails key conn s)) \<le> 65536"
    using syncer_remember_inv [OF inv] by (simp add: syncer_inv_def)
qed

text \<open>What the agent learns about a connection comes back with the kernel's events: after any run
  of the syncer, once a TCP connection with a known family and a port is remembered and the
  kernel's map accepts the update, the next event that the eBPF program labels for the flow yields
  the same connection without its addresses (a port outside 1..65535 reads as 0, a role other than
  inbound and outbound as empty). The agent's memory of what it wrote stays within 65536 entries.\<close>

theorem tuple_labels_events:
  assumes "conn_Protocol conn = ''tcp''" "conn_Family conn \<in> {''ipv4'', ''ipv6''}"
    and "conn_SrcPort conn \<in> {1..65535} \<or> conn_DstPort conn \<in> {1..65535}"
    and "s = fold syncerStep ops (newKernelTupleSyncer (Some initial))"
    and "\<not> updateFails key"
  shows "(\<exists>tuples. ts_tuples (syncer_remember updateFails key conn s) = Some tuples \<and>
      connectionFromKernelTuple (fill_event_socket_metadata tuples key event) = Some (withoutAddresses conn)) \<and>
    length (ts_synced (syncer_remember updateFails key conn s)) \<le> 65536"
  using tuple_labels_events_facts(1) [of conn s ops initial updateFails key event]
    tuple_labels_events_facts(2) [of conn s ops initial updateFails key] assms by blast

definition sampleConn :: ConnectionMetadata where
  "sampleConn = \<lparr>conn_SrcIP = ''10.0.0.1'', conn_SrcPort = 8443, conn_DstIP = ''10.0.0.2'', conn_DstPort = 51000,
     conn_Protocol = ''tcp'', conn_Family = ''ipv6'', conn_Role = ''outbound''\<rparr>"

definition sampleKey :: flowKey where
  "sampleKey = \<lparr>fk_pid = 1, fk_fd = 2, fk_generation = 3\<rparr>"

definition emptyEvent :: bpfEvent where
  "emptyEvent = \<lparr>be_Timestamp = 0, be_Pid = 1, be_Tid = 1, be_Fd = 2, be_Generation = 3, be_Seq = 0, be_Size = 0,
     be_OriginalSize = 0, be_ChunkIndex = 0, be_ChunkCount = 0, be_Direction = 0, be_EventType = 0, be_Flags = 0,
     be_Pad = 0, be_LocalPort = 0, be_RemotePort = 0, be_SocketFamily = 0, be_SocketRole = 0,
     be_SocketTupleFlags = 0, be_Pad2 = 0, be_Payload = []\<rparr>"

theorem tuple_labels_events_witness:
  "\<exists>tuples. ts_tuples (syncer_remember (\<lambda>k. False) sampleKey sampleConn
        (fold syncerStep [Remember (\<lambda>k. False) sampleKey (sampleConn\<lparr>conn_SrcPort := 1\<rparr>), ForgetTuple sampleKey]
          (newKernelTupleSyncer (Some [])))) = Some tuples \<and>
      connectionFromKernelTuple (fill_event_socket_metadata tuples sampleKey emptyEvent) =
        Some (sampleConn\<lparr>conn_SrcIP := [], conn_DstIP := []\<rparr>)"
proof -
  have "withoutAddresses sampleConn = sampleConn\<lparr>conn_SrcIP := [], conn_DstIP := []\<rparr>"
    by (simp add: withoutAddresses_def sampleConn_def portOrZero_def)
  then show ?thesis
    using tuple_labels_events [of sampleConn _ "[Remember (\<lambda>k. False) sampleKey (sampleConn\<lparr>conn_SrcPort := 1\<rparr>),
        ForgetTuple sampleKey]" "[]" "\<lambda>k. False" sampleKey emptyEvent]
    by (simp add: sampleConn_def)
qed

section \<open>The port sets in effect\<close>

text \<open>Replacing a port set is exact and says so: from any previous contents, if the replacement
  reports success the kernel filters by exactly the given ports and all of them are valid; it
  does succeed whenever the map is loaded, no kernel operation fails and the ports are valid; and
  an invalid port is always reported.\<close>

theorem kernel_ports_exact:
  assumes "finite ports"
  shows "fst (replaceKernelPortSet faults name ports portMap) = None \<Longrightarrow>
      ports \<subseteq> {1..65535} \<and> (\<exists>m. snd (replaceKernelPortSet faults name ports portMap) = Some m \<and> kernelPorts m = ports)"
    and "portMap \<noteq> None \<Longrightarrow> \<forall>k. \<not> kf_putPort faults name k \<and> \<not> kf_deletePort faults name k \<Longrightarrow>
      \<not> kf_iterate faults name \<Longrightarrow>
      fst (replaceKernelPortSet faults name ports portMap) = None \<longleftrightarrow> ports \<subseteq> {1..65535}"
proof -
  show ok: "ports \<subseteq> {1..65535} \<and> (\<exists>m. snd (replaceKernelPortSet faults name ports portMap) = Some m \<and> kernelPorts m = ports)"
    if "fst (replaceKernelPortSet faults name ports portMap) = None"
    using replace_ok [OF _ assms, of faults name portMap "snd (replaceKernelPortSet faults name ports portMap)"] that
    by (metis prod.collapse)
  show "fst (replaceKernelPortSet faults name ports portMap) = None \<longleftrightarrow> ports \<subseteq> {1..65535}"
    if "portMap \<noteq> None" "\<forall>k. \<not> kf_putPort faults name k \<and> \<not> kf_deletePort faults name k" "\<not> kf_iterate faults name"
  proof
    assume "fst (replaceKernelPortSet faults name ports portMap) = None"
    then show "ports \<subseteq> {1..65535}" using ok by blast
  next
    assume "ports \<subseteq> {1..65535}"
    then show "fst (replaceKernelPortSet faults name ports portMap) = None"
      using that replace_total [of faults name ports] assms by auto
  qed
qed

theorem kernel_ports_exact_witness:
  "\<exists>m. snd (replaceKernelPortSet noKernelFaults ''target_ports'' {80, 443} (Some [(22, 1)])) = Some m \<and>
     kernelPorts m = {80, 443}"
  using kernel_ports_exact(1) [of "{80, 443}" noKernelFaults "''target_ports''" "Some [(22, 1)]"]
    kernel_ports_exact(2) [of "{80, 443}" "Some [(22, 1)]" noKernelFaults "''target_ports''"]
  by (simp add: noKernelFaults_def)

end
