(* ===== verification/RingRecord.thy ===== *)
theory RingRecord
  imports KernelConfig
begin

text \<open>
  The records of the ring buffers: \<open>struct api_event\<close> of \<^verbatim>\<open>bpf/tracer.bpf.c\<close> as the kernel lays
  it out in memory, and the \<^verbatim>\<open>binary.Read\<close> with which both user-space programs decode it into
  \<open>bpf.ApiEvent\<close>. The locale \<open>field_codec\<close> is the contract of one fixed-width field.
\<close>

section \<open>Fixed-width fields\<close>

fun le_bytes :: "nat \<Rightarrow> nat \<Rightarrow> bytes" where
  "le_bytes 0 v = []"
| "le_bytes (Suc n) v = char_of (v mod 256) # le_bytes n (v div 256)"

fun le_value :: "bytes \<Rightarrow> nat" where
  "le_value [] = 0"
| "le_value (c # cs) = byte_of c + 256 * le_value cs"

definition put_field :: "nat \<Rightarrow> 'a::len word \<Rightarrow> bytes" where
  "put_field n w = le_bytes n (unat w)"

definition get_field :: "bytes \<Rightarrow> 'a::len word" where
  "get_field bs = word_of_nat (le_value bs)"

lemma le_bytes_length [simp]: "length (le_bytes n v) = n"
  by (induction n arbitrary: v) auto

lemma le_value_bytes: "v < 256 ^ n \<Longrightarrow> le_value (le_bytes n v) = v"
proof (induction n arbitrary: v)
  case (Suc n)
  then have "v div 256 < 256 ^ n" by (simp add: less_mult_imp_div_less mult.commute)
  then show ?case using Suc.IH [of "v div 256"] by simp
qed simp

locale field_codec =
  fixes width :: nat
    and enc :: "'v \<Rightarrow> bytes"
    and dec :: "bytes \<Rightarrow> 'v"
  assumes enc_length: "length (enc v) = width"
    and dec_enc: "dec (enc v) = v"
begin

lemma read_at: "length before = n \<Longrightarrow> dec (take width (drop n (before @ enc v @ after))) = v"
  by (simp add: enc_length dec_enc)

lemma enc_inject: "enc v = enc w \<longleftrightarrow> v = w"
  by (metis dec_enc)

end

lemma put_field_codec: "LENGTH('a::len) \<le> 8 * n \<Longrightarrow> get_field (put_field n (w :: 'a word)) = w"
proof -
  assume "LENGTH('a) \<le> 8 * n"
  then have "(2 :: nat) ^ LENGTH('a) \<le> 2 ^ (8 * n)" by (intro power_increasing) auto
  also have "(2 :: nat) ^ (8 * n) = 256 ^ n" by (simp add: power_mult)
  finally have "unat w < 256 ^ n" by (rule less_le_trans [OF unsigned_less])
  then show ?thesis by (simp add: put_field_def get_field_def le_value_bytes)
qed

lemma put_field_length [simp]: "length (put_field n w) = n"
  by (simp add: put_field_def)

interpretation field8: field_codec 1 "put_field 1 :: u8 \<Rightarrow> bytes" get_field
  by unfold_locales (simp_all add: put_field_codec)

interpretation field16: field_codec 2 "put_field 2 :: u16 \<Rightarrow> bytes" get_field
  by unfold_locales (simp_all add: put_field_codec)

interpretation field32: field_codec 4 "put_field 4 :: u32 \<Rightarrow> bytes" get_field
  by unfold_locales (simp_all add: put_field_codec)

interpretation field64: field_codec 8 "put_field 8 :: u64 \<Rightarrow> bytes" get_field
  by unfold_locales (simp_all add: put_field_codec)

section \<open>The record\<close>

definition payloadCapacity :: nat where
  "payloadCapacity = 4096"

text \<open>The fields in the order of the structure; each is at a multiple of its own size, so the
  compiler inserts no padding before the payload.\<close>

definition api_event :: "bpfEvent \<Rightarrow> bytes" where
  "api_event e =
     put_field 8 (be_Timestamp e) @ put_field 4 (be_Pid e) @ put_field 4 (be_Tid e) @ put_field 4 (be_Fd e) @
     put_field 4 (be_Generation e) @ put_field 4 (be_Seq e) @ put_field 4 (be_Size e) @
     put_field 4 (be_OriginalSize e) @ put_field 2 (be_ChunkIndex e) @ put_field 2 (be_ChunkCount e) @
     put_field 1 (be_Direction e) @ put_field 1 (be_EventType e) @ put_field 1 (be_Flags e) @
     put_field 1 (be_Pad e) @ put_field 2 (be_LocalPort e) @ put_field 2 (be_RemotePort e) @
     put_field 1 (be_SocketFamily e) @ put_field 1 (be_SocketRole e) @ put_field 1 (be_SocketTupleFlags e) @
     put_field 1 (be_Pad2 e) @ be_Payload e"

text \<open>\<open>binary.Read\<close> first reads as many bytes as the structure has, so a short sample is an error
  that leaves the destination alone; the bytes after it are not looked at.\<close>

definition binaryRead :: "bytes \<Rightarrow> bpfEvent option" where
  "binaryRead raw =
     (if length raw < 52 + payloadCapacity then None
      else Some \<lparr>
        be_Timestamp = get_field (take 8 raw),
        be_Pid = get_field (take 4 (drop 8 raw)),
        be_Tid = get_field (take 4 (drop 12 raw)),
        be_Fd = get_field (take 4 (drop 16 raw)),
        be_Generation = get_field (take 4 (drop 20 raw)),
        be_Seq = get_field (take 4 (drop 24 raw)),
        be_Size = get_field (take 4 (drop 28 raw)),
        be_OriginalSize = get_field (take 4 (drop 32 raw)),
        be_ChunkIndex = get_field (take 2 (drop 36 raw)),
        be_ChunkCount = get_field (take 2 (drop 38 raw)),
        be_Direction = get_field (take 1 (drop 40 raw)),
        be_EventType = get_field (take 1 (drop 41 raw)),
        be_Flags = get_field (take 1 (drop 42 raw)),
        be_Pad = get_field (take 1 (drop 43 raw)),
        be_LocalPort = get_field (take 2 (drop 44 raw)),
        be_RemotePort = get_field (take 2 (drop 46 raw)),
        be_SocketFamily = get_field (take 1 (drop 48 raw)),
        be_SocketRole = get_field (take 1 (drop 49 raw)),
        be_SocketTupleFlags = get_field (take 1 (drop 50 raw)),
        be_Pad2 = get_field (take 1 (drop 51 raw)),
        be_Payload = take payloadCapacity (drop 52 raw)\<rparr>)"

lemmas field_reads = field8.dec_enc field16.dec_enc field32.dec_enc field64.dec_enc

lemma skip_field: "k \<le> n \<Longrightarrow> drop n (put_field k w @ rest) = drop (n - k) rest"
  by simp

lemma take_field: "take k (put_field k w @ rest) = put_field k w"
  by simp

lemma api_event_length: "length (api_event e) = 52 + length (be_Payload e)"
  by (simp add: api_event_def)

lemma fields_at:
  fixes e :: bpfEvent and padding :: bytes
  defines "raw \<equiv> api_event e @ padding"
  shows "take 8 raw = put_field 8 (be_Timestamp e)"
    "take 4 (drop 8 raw) = put_field 4 (be_Pid e)"
    "take 4 (drop 12 raw) = put_field 4 (be_Tid e)"
    "take 4 (drop 16 raw) = put_field 4 (be_Fd e)"
    "take 4 (drop 20 raw) = put_field 4 (be_Generation e)"
    "take 4 (drop 24 raw) = put_field 4 (be_Seq e)"
    "take 4 (drop 28 raw) = put_field 4 (be_Size e)"
    "take 4 (drop 32 raw) = put_field 4 (be_OriginalSize e)"
    "take 2 (drop 36 raw) = put_field 2 (be_ChunkIndex e)"
    "take 2 (drop 38 raw) = put_field 2 (be_ChunkCount e)"
    "take 1 (drop 40 raw) = put_field 1 (be_Direction e)"
    "take 1 (drop 41 raw) = put_field 1 (be_EventType e)"
    "take 1 (drop 42 raw) = put_field 1 (be_Flags e)"
    "take 1 (drop 43 raw) = put_field 1 (be_Pad e)"
    "take 2 (drop 44 raw) = put_field 2 (be_LocalPort e)"
    "take 2 (drop 46 raw) = put_field 2 (be_RemotePort e)"
    "take 1 (drop 48 raw) = put_field 1 (be_SocketFamily e)"
    "take 1 (drop 49 raw) = put_field 1 (be_SocketRole e)"
    "take 1 (drop 50 raw) = put_field 1 (be_SocketTupleFlags e)"
    "take 1 (drop 51 raw) = put_field 1 (be_Pad2 e)"
    "drop 52 raw = be_Payload e @ padding"
  unfolding raw_def api_event_def append_assoc
  by (simp_all add: skip_field take_field del: take_append drop_append One_nat_def)

lemma ring_record_roundtrip_facts:
  assumes "length (be_Payload e) = payloadCapacity"
  shows "binaryRead (api_event e @ padding) = Some e"
    and "raw = take n (api_event e) \<Longrightarrow> n < length (api_event e) \<Longrightarrow> binaryRead raw = None"
proof -
  have payload: "take payloadCapacity (be_Payload e @ padding) = be_Payload e" using assms by simp
  have "\<not> length (api_event e @ padding) < 52 + payloadCapacity" using assms by (simp add: api_event_length)
  then show "binaryRead (api_event e @ padding) = Some e"
    by (simp only: binaryRead_def if_False fields_at field_reads payload) simp
  show "binaryRead raw = None" if "raw = take n (api_event e)" "n < length (api_event e)"
    using that assms by (simp add: binaryRead_def api_event_length)
qed

text \<open>C28. A record that the kernel writes decodes to the event it was written from, whatever
  padding follows it, and no shorter sample decodes.\<close>

theorem ring_record_roundtrip:
  assumes "length (be_Payload e) = payloadCapacity"
  shows "binaryRead (api_event e @ padding) = Some e \<and>
    (\<forall>n < length (api_event e). binaryRead (take n (api_event e)) = None)"
  using ring_record_roundtrip_facts [OF assms] by blast

theorem ring_record_roundtrip_witness:
  "binaryRead (api_event (emptyEvent\<lparr>be_Seq := 77, be_LocalPort := 8443, be_Payload := replicate 4096 CHR ''x''\<rparr>)
      @ replicate 4 CHR 0x00) =
     Some (emptyEvent\<lparr>be_Seq := 77, be_LocalPort := 8443, be_Payload := replicate 4096 CHR ''x''\<rparr>)"
  by (rule ring_record_roundtrip [THEN conjunct1]) (simp add: payloadCapacity_def)

end
