(* ===== verification/AgentCapture.thy ===== *)
theory AgentCapture
  imports RingRecord ProducerRuns Processing
begin

text \<open>
  The capture loop of the agent, \<^verbatim>\<open>runAgentShardCapture\<close> in \<^verbatim>\<open>cmd/agent/main.go\<close>: from a record
  of a ring buffer to a message for the producer. The eight shards share their state, so a run is
  one sequence of records; each record is one step.
\<close>

section \<open>State and environment\<close>

definition eventTypeSocket :: u8 where "eventTypeSocket = 2"

definition agentCounterNoise :: "bytes \<Rightarrow> bool" where
  "agentCounterNoise payload =
     (if length payload \<noteq> 8 then False
      else if payload ! 0 \<noteq> CHR 0x01 \<and> payload ! 0 \<noteq> CHR 0x02 then False
      else list_all (\<lambda>i. payload ! i = CHR 0x00) [1 ..< 8])"

text \<open>\<open>as_\<close> counters live in the producer, which is given the pointer to them.\<close>

record agentShardDeps =
  sd_metadata :: metadataResolver
  sd_kernelTuples :: kernelTupleSyncer
  sd_flowFilter :: "flowFilter option"
  sd_mode :: bytes
  sd_allowNonSocketFDs :: bool
  sd_queuedProducer :: queuedProducer

text \<open>What the outside does during one step: the process file system, the clock at its three
  readings, failing map updates, \<open>json.Marshal\<close>, and what \<open>submit\<close> meets.\<close>

record captureEnv =
  ce_proc :: procfs
  ce_now :: time
  ce_later :: time
  ce_filterNow :: time
  ce_updateFails :: "flowKey \<Rightarrow> bool"
  ce_marshal :: "ApiEvent \<Rightarrow> bytes option"
  ce_lib :: spoolLib
  ce_faults :: spoolFaults
  ce_between :: "queuedKafkaMessage list \<Rightarrow> queuedKafkaMessage list"

datatype ringRead = RingError | RingSample bytes

definition stats_of :: "agentShardDeps \<Rightarrow> agentStats" where
  "stats_of d = qp_stats (sd_queuedProducer d)"

definition countStat :: "(agentStats \<Rightarrow> agentStats) \<Rightarrow> agentShardDeps \<Rightarrow> agentShardDeps" where
  "countStat f d = d\<lparr>sd_queuedProducer := (sd_queuedProducer d)\<lparr>qp_stats := f (stats_of d)\<rparr>\<rparr>"

section \<open>One record\<close>

definition kafkaEventKey :: "ApiEvent \<Rightarrow> bytes" where
  "kafkaEventKey event = show_nat (unat (ev_PID event)) @ CHR ''-'' # show_nat (unat (ev_FD event)) @
     CHR ''-'' # show_nat (unat (ev_Generation event))"

definition bpfFlowKey :: "bpfEvent \<Rightarrow> flowKey" where
  "bpfFlowKey e = \<lparr>fk_pid = be_Pid e, fk_fd = be_Fd e, fk_generation = be_Generation e\<rparr>"

definition payloadSizeOf :: "bpfEvent \<Rightarrow> nat" where
  "payloadSizeOf e =
     (if unat (be_Size e) > length (be_Payload e) then length (be_Payload e) else unat (be_Size e))"

definition originalSizeOf :: "bpfEvent \<Rightarrow> u32" where
  "originalSizeOf e = (if be_OriginalSize e = 0 then be_Size e else be_OriginalSize e)"

definition capturedSizeOf :: "bpfEvent \<Rightarrow> u32" where
  "capturedSizeOf e = word_of_nat (payloadSizeOf e)"

definition captureLoss :: "bpfEvent \<Rightarrow> LossMetadata" where
  "captureLoss e =
     (if originalSizeOf e > capturedSizeOf e
      then noLoss\<lparr>loss_Truncated := True, loss_OriginalSize := originalSizeOf e,
             loss_CapturedSize := capturedSizeOf e, loss_Reason := ''payload_exceeded_agent_struct_size''\<rparr>
      else noLoss)"

definition buildEvent ::
  "bytes \<Rightarrow> bpfEvent \<Rightarrow> ConnectionMetadata \<Rightarrow> ProcessMetadata \<Rightarrow> ContainerMetadata \<Rightarrow> ApiEvent" where
  "buildEvent mode e conn process container = \<lparr>
     ev_SchemaVersion = ''raw.network.v1'', ev_CaptureSource = ''ebpf'', ev_CaptureMode = mode,
     ev_Timestamp = be_Timestamp e, ev_PID = be_Pid e, ev_TID = be_Tid e, ev_FD = be_Fd e,
     ev_Generation = be_Generation e, ev_Seq = be_Seq e, ev_ChunkIndex = be_ChunkIndex e,
     ev_ChunkCount = be_ChunkCount e, ev_Direction = be_Direction e, ev_EventType = be_EventType e,
     ev_Flags = be_Flags e, ev_OriginalSize = originalSizeOf e, ev_Size = capturedSizeOf e,
     ev_Payload = take (payloadSizeOf e) (be_Payload e), ev_Connection = conn, ev_Process = process,
     ev_Container = container, ev_Loss = captureLoss e\<rparr>"

text \<open>Resolution of the metadata, with its counters and the kernel's tuple as a fallback.\<close>

definition countSource :: "metadataSource \<Rightarrow> agentStats \<Rightarrow> agentStats" where
  "countSource source stats =
     (case source of
        metadataSourceCache \<Rightarrow> stats\<lparr>as_metadataCacheHits := as_metadataCacheHits stats + 1\<rparr>
      | metadataSourceProc \<Rightarrow> stats\<lparr>as_metadataProcHits := as_metadataProcHits stats + 1\<rparr>
      | metadataSourceNone \<Rightarrow> stats\<lparr>as_metadataProcMisses := as_metadataProcMisses stats + 1\<rparr>)"

definition resolveEvent ::
  "captureEnv \<Rightarrow> bpfEvent \<Rightarrow> agentShardDeps \<Rightarrow> (resolved \<times> bool) \<times> agentShardDeps" where
  "resolveEvent env e d =
     (let ((r, source), metadata1) = resolveWithSource (ce_proc env) (bpfFlowKey e) (ce_now env) (ce_later env) (sd_metadata d);
          d1 = countStat (countSource source) (d\<lparr>sd_metadata := metadata1\<rparr>)
      in if rs_ok r
         then ((r, True), d1\<lparr>sd_kernelTuples :=
                syncer_remember (ce_updateFails env) (bpfFlowKey e) (rs_conn r) (sd_kernelTuples d1)\<rparr>)
         else case connectionFromKernelTuple e of
                Some conn \<Rightarrow> ((r\<lparr>rs_conn := conn\<rparr>, True),
                  countStat (\<lambda>s. s\<lparr>as_kernelTupleFallbacks := as_kernelTupleFallbacks s + 1\<rparr>) d1)
              | None \<Rightarrow> ((r, False),
                  if be_Fd e > 2 then countStat (\<lambda>s. s\<lparr>as_metadataMisses := as_metadataMisses s + 1\<rparr>) d1 else d1))"

definition countEvent :: "ApiEvent \<Rightarrow> agentStats \<Rightarrow> agentStats" where
  "countEvent event stats =
     (let s1 = stats\<lparr>as_bytesCaptured := as_bytesCaptured stats + ucast (ev_Size event)\<rparr> in
      if ev_EventType event = eventTypeData then s1\<lparr>as_dataEvents := as_dataEvents s1 + 1\<rparr>
      else if ev_EventType event = eventTypeClose then s1\<lparr>as_closeEvents := as_closeEvents s1 + 1\<rparr>
      else if ev_EventType event = eventTypeSocket then s1\<lparr>as_socketEvents := as_socketEvents s1 + 1\<rparr>
      else s1)"

definition forgetClosed :: "ApiEvent \<Rightarrow> agentShardDeps \<Rightarrow> agentShardDeps" where
  "forgetClosed event d =
     (if ev_EventType event = eventTypeClose
      then d\<lparr>sd_kernelTuples := syncer_forget (eventFlowKey event) (sd_kernelTuples d),
             sd_metadata := resolver_forget (eventFlowKey event) (sd_metadata d)\<rparr>
      else d)"

text \<open>The filters and the marshalling: the message for \<open>submit\<close>, if the event gets that far.\<close>

definition skipEvent :: "(agentStats \<Rightarrow> agentStats) \<Rightarrow> agentShardDeps \<Rightarrow> (ApiEvent \<times> queuedKafkaMessage) option \<times> agentShardDeps" where
  "skipEvent f d = (None, countStat f d)"

definition admitEvent ::
  "captureEnv \<Rightarrow> ApiEvent \<Rightarrow> bool \<Rightarrow> agentShardDeps \<Rightarrow> (ApiEvent \<times> queuedKafkaMessage) option \<times> agentShardDeps" where
  "admitEvent env event metadataOK d =
     (if ev_EventType event = eventTypeData \<and> agentCounterNoise (ev_Payload event)
      then skipEvent (\<lambda>s. s\<lparr>as_skippedNoise := as_skippedNoise s + 1\<rparr>) d
      else
        (let (allowed, d1) = (case sd_flowFilter d of
               None \<Rightarrow> (True, d)
             | Some f \<Rightarrow> (let (ok, f1) = filter_allow event metadataOK (ce_filterNow env) f
                          in (ok, d\<lparr>sd_flowFilter := Some f1\<rparr>)))
         in if \<not> allowed then skipEvent (\<lambda>s. s\<lparr>as_skippedFDFilter := as_skippedFDFilter s + 1\<rparr>) d1
            else if ev_EventType event = eventTypeSocket then (None, d1)
            else if sd_flowFilter d = None \<and> \<not> sd_allowNonSocketFDs d \<and> ev_FD event \<le> 2
            then skipEvent (\<lambda>s. s\<lparr>as_skippedFDFilter := as_skippedFDFilter s + 1\<rparr>) d1
            else case ce_marshal env event of
                   None \<Rightarrow> skipEvent (\<lambda>s. s\<lparr>as_marshalErrors := as_marshalErrors s + 1\<rparr>) d1
                 | Some jsonBytes \<Rightarrow> (Some (event, \<lparr>km_key = kafkaEventKey event, km_value = jsonBytes\<rparr>), d1)))"

definition decodedStep ::
  "captureEnv \<Rightarrow> bpfEvent \<Rightarrow> agentShardDeps \<Rightarrow> (ApiEvent \<times> queuedKafkaMessage) option \<times> agentShardDeps" where
  "decodedStep env e d =
     (let d1 = (if loss_Truncated (captureLoss e)
            then countStat (\<lambda>s. s\<lparr>as_truncatedEvents := as_truncatedEvents s + 1\<rparr>) d else d);
          ((r, metadataOK), d2) = resolveEvent env e d1;
          event = buildEvent (sd_mode d) e (rs_conn r) (rs_process r) (rs_container r);
          d3 = forgetClosed event (countStat (countEvent event) d2)
      in admitEvent env event metadataOK d3)"

text \<open>One turn of the loop: the event submitted, if any. \<open>None\<close> is a strict submission that
  waits for room in the queue.\<close>

definition shardStep ::
  "captureEnv \<Rightarrow> ringRead \<Rightarrow> agentShardDeps \<Rightarrow> (ApiEvent option \<times> agentShardDeps) option" where
  "shardStep env read d =
     (case read of
        RingError \<Rightarrow> Some (None, countStat (\<lambda>s. s\<lparr>as_ringReadErrors := as_ringReadErrors s + 1\<rparr>) d)
      | RingSample raw \<Rightarrow>
          (let d1 = countStat (\<lambda>s. s\<lparr>as_ringRecords := as_ringRecords s + 1\<rparr>) d in
           case binaryRead raw of
             None \<Rightarrow> Some (None, countStat (\<lambda>s. s\<lparr>as_decodeErrors := as_decodeErrors s + 1\<rparr>) d1)
           | Some e \<Rightarrow>
               (case decodedStep env e (countStat (\<lambda>s. s\<lparr>as_decodedEvents := as_decodedEvents s + 1\<rparr>) d1) of
                  (None, d2) \<Rightarrow> Some (None, d2)
                | (Some (event, msg), d2) \<Rightarrow>
                    map_option (\<lambda>q. (Some event, d2\<lparr>sd_queuedProducer := q\<rparr>))
                      (submit (ce_lib env) (ce_faults env) (ce_now env) (ce_between env) msg (sd_queuedProducer d2)))))"

fun runAgentShardCapture ::
  "(captureEnv \<times> ringRead) list \<Rightarrow> agentShardDeps \<Rightarrow> (ApiEvent list \<times> agentShardDeps) option" where
  "runAgentShardCapture [] d = Some ([], d)"
| "runAgentShardCapture ((env, read) # reads) d =
     (case shardStep env read d of
        None \<Rightarrow> None
      | Some (event, d1) \<Rightarrow>
          (case runAgentShardCapture reads d1 of
             None \<Rightarrow> None
           | Some (events, d2) \<Rightarrow> Some ((case event of None \<Rightarrow> events | Some ev \<Rightarrow> ev # events), d2)))"

section \<open>Counters\<close>

text \<open>The counters that say what became of each record, and what is left of them for the
  events that went on.\<close>

definition fates :: "agentStats \<Rightarrow> u64 list" where
  "fates s = [as_ringRecords s, as_decodeErrors s, as_decodedEvents s, as_skippedNoise s, as_skippedFDFilter s, as_marshalErrors s]"

definition passed :: "agentStats \<Rightarrow> u64" where
  "passed s = as_decodedEvents s - as_skippedNoise s - as_skippedFDFilter s - as_marshalErrors s"

lemma stats_of_simps [simp]:
  "stats_of (countStat f d) = f (stats_of d)"
  "stats_of (d\<lparr>sd_metadata := m\<rparr>) = stats_of d"
  "stats_of (d\<lparr>sd_kernelTuples := t\<rparr>) = stats_of d"
  "stats_of (d\<lparr>sd_flowFilter := f'\<rparr>) = stats_of d"
  "stats_of (d\<lparr>sd_queuedProducer := q\<rparr>) = qp_stats q"
  by (simp_all add: stats_of_def countStat_def)

lemma countStat_frame [simp]:
  "sd_metadata (countStat f d) = sd_metadata d"
  "sd_kernelTuples (countStat f d) = sd_kernelTuples d"
  "sd_flowFilter (countStat f d) = sd_flowFilter d"
  "sd_mode (countStat f d) = sd_mode d"
  "sd_allowNonSocketFDs (countStat f d) = sd_allowNonSocketFDs d"
  by (simp_all add: countStat_def)

lemma spoolMessage_fates [simp]: "fates (qp_stats (spoolMessage lib faults now reason msg q)) = fates (qp_stats q)"
  by (auto simp: spoolMessage_def fates_def Let_def split: option.splits prod.splits bool.splits)

lemma submit_fates:
  assumes "submit lib faults now between msg q = Some q'"
  shows "fates (qp_stats q') = fates (qp_stats q)"
proof -
  have t: "fates (qp_stats q2) = fates (qp_stats q1)" if "trySend msg q1 = Some q2" for q1 q2
    using that by (auto simp: trySend_def fates_def split: if_splits)
  have d: "fates (qp_stats (dropOne q1)) = fates (qp_stats q1)" for q1
    by (simp add: dropOne_def fates_def)
  show ?thesis
    using assms t
    by (cases "qp_mode q"; cases "trySend msg q") (auto simp: submit_def Let_def d split: option.splits list.splits)
qed

lemma resolveEvent_fates [simp]: "fates (stats_of (snd (resolveEvent env e d))) = fates (stats_of d)"
  by (auto simp: resolveEvent_def countSource_def fates_def Let_def split: prod.splits option.splits metadataSource.splits)

lemma resolveEvent_frame [simp]:
  "sd_flowFilter (snd (resolveEvent env e d)) = sd_flowFilter d"
  "sd_mode (snd (resolveEvent env e d)) = sd_mode d"
  "sd_allowNonSocketFDs (snd (resolveEvent env e d)) = sd_allowNonSocketFDs d"
  by (auto simp: resolveEvent_def Let_def split: prod.splits option.splits)

lemma countEvent_fates [simp]: "fates (countEvent event s) = fates s"
  by (simp add: countEvent_def fates_def Let_def)

lemma forgetClosed_frame [simp]:
  "stats_of (forgetClosed event d) = stats_of d"
  "sd_flowFilter (forgetClosed event d) = sd_flowFilter d"
  "sd_mode (forgetClosed event d) = sd_mode d"
  "sd_allowNonSocketFDs (forgetClosed event d) = sd_allowNonSocketFDs d"
  by (simp_all add: forgetClosed_def)

section \<open>What one record becomes\<close>

text \<open>An event that goes on has passed every filter.\<close>

definition clean :: "bool \<Rightarrow> ApiEvent \<Rightarrow> bool" where
  "clean stdioSkipped event \<longleftrightarrow> ev_CaptureSource event = ''ebpf'' \<and> ev_EventType event \<noteq> eventTypeSocket \<and>
     \<not> (ev_EventType event = eventTypeData \<and> isCounterNoise (ev_Payload event)) \<and>
     length (ev_Payload event) \<le> payloadCapacity \<and> unat (ev_Size event) = length (ev_Payload event) \<and>
     (stdioSkipped \<longrightarrow> ev_FD event > 2)"

definition stdioSkipped :: "agentShardDeps \<Rightarrow> bool" where
  "stdioSkipped d \<longleftrightarrow> sd_flowFilter d = None \<and> \<not> sd_allowNonSocketFDs d"

lemma agentCounterNoise_eq: "agentCounterNoise = isCounterNoise"
  by (simp add: fun_eq_iff agentCounterNoise_def isCounterNoise_def)

lemma fates_eq:
  "fates s = fates t \<Longrightarrow> as_ringRecords s = as_ringRecords t \<and> as_decodeErrors s = as_decodeErrors t \<and>
     as_decodedEvents s = as_decodedEvents t \<and> passed s = passed t"
  by (simp add: fates_def passed_def)

lemma skip_cases:
  "admitEvent env event metadataOK d = (res, d') \<Longrightarrow>
     as_ringRecords (stats_of d') = as_ringRecords (stats_of d) \<and>
     as_decodeErrors (stats_of d') = as_decodeErrors (stats_of d) \<and>
     as_decodedEvents (stats_of d') = as_decodedEvents (stats_of d) \<and>
     stdioSkipped d' = stdioSkipped d \<and> sd_mode d' = sd_mode d \<and>
     (case res of
        None \<Rightarrow> passed (stats_of d') = passed (stats_of d) - 1 \<or>
                passed (stats_of d') = passed (stats_of d) \<and> ev_EventType event = eventTypeSocket
      | Some (ev, msg) \<Rightarrow> ev = event \<and> passed (stats_of d') = passed (stats_of d) \<and>
          ev_EventType event \<noteq> eventTypeSocket \<and>
          \<not> (ev_EventType event = eventTypeData \<and> isCounterNoise (ev_Payload event)) \<and>
          (stdioSkipped d \<longrightarrow> ev_FD event > 2) \<and>
          ce_marshal env event = Some (km_value msg) \<and> km_key msg = kafkaEventKey event)"
  by (auto simp: admitEvent_def skipEvent_def passed_def agentCounterNoise_eq stdioSkipped_def not_le
      split: if_splits option.splits prod.splits)

lemma payloadSizeOf_le: "payloadSizeOf e \<le> length (be_Payload e)"
  by (simp add: payloadSizeOf_def)

lemma capturedSizeOf_unat:
  assumes "length (be_Payload e) \<le> payloadCapacity"
  shows "unat (capturedSizeOf e) = payloadSizeOf e"
proof -
  have "payloadSizeOf e < 2 ^ 32" using payloadSizeOf_le [of e] assms by (simp add: payloadCapacity_def)
  then show ?thesis by (simp add: capturedSizeOf_def unsigned_of_nat take_bit_nat_eq_self)
qed

lemma binaryRead_payload: "binaryRead raw = Some e \<Longrightarrow> length (be_Payload e) = payloadCapacity"
  by (auto simp: binaryRead_def payloadCapacity_def split: if_splits)

text \<open>The step up to the filters: what the event is made of, and the state they meet.\<close>

lemma decodedStep_admits:
  obtains r :: resolved and ok d2 event d3 where
    "decodedStep env e d = admitEvent env event ok d3"
    "event = buildEvent (sd_mode d) e (rs_conn r) (rs_process r) (rs_container r)"
    "d3 = forgetClosed event (countStat (countEvent event) d2)"
    "fates (stats_of d3) = fates (stats_of d)" "sd_flowFilter d3 = sd_flowFilter d" "sd_mode d3 = sd_mode d"
    "sd_allowNonSocketFDs d3 = sd_allowNonSocketFDs d"
proof -
  define d1 where "d1 = (if loss_Truncated (captureLoss e)
      then countStat (\<lambda>s. s\<lparr>as_truncatedEvents := as_truncatedEvents s + 1\<rparr>) d else d)"
  have d1: "fates (stats_of d1) = fates (stats_of d)" "sd_flowFilter d1 = sd_flowFilter d" "sd_mode d1 = sd_mode d"
      "sd_allowNonSocketFDs d1 = sd_allowNonSocketFDs d"
    by (simp_all add: d1_def fates_def)
  obtain r ok d2 where r: "resolveEvent env e d1 = ((r, ok), d2)"
    by (cases "resolveEvent env e d1") auto
  define ev where "ev = buildEvent (sd_mode d) e (rs_conn r) (rs_process r) (rs_container r)"
  define d3 where "d3 = forgetClosed ev (countStat (countEvent ev) d2)"
  have a: "decodedStep env e d = admitEvent env ev ok d3"
    using r by (simp add: decodedStep_def Let_def ev_def d3_def flip: d1_def)
  show thesis
    by (rule that [OF a ev_def d3_def]; use resolveEvent_fates [of env e d1] resolveEvent_frame [of env e d1] in \<open>simp add: r d1 d3_def\<close>)
qed

lemma decodedStep_cases:
  assumes "decodedStep env e d = (res, d')" "length (be_Payload e) = payloadCapacity"
  shows "as_ringRecords (stats_of d') = as_ringRecords (stats_of d)"
    "as_decodeErrors (stats_of d') = as_decodeErrors (stats_of d)"
    "as_decodedEvents (stats_of d') = as_decodedEvents (stats_of d)"
    "stdioSkipped d' = stdioSkipped d" "sd_mode d' = sd_mode d"
    "res = None \<Longrightarrow> passed (stats_of d') = passed (stats_of d) - 1 \<or>
      passed (stats_of d') = passed (stats_of d) \<and> be_EventType e = eventTypeSocket"
    "res = Some (event, msg) \<Longrightarrow> passed (stats_of d') = passed (stats_of d) \<and> clean (stdioSkipped d) event \<and>
      (\<exists>conn process container. event = buildEvent (sd_mode d) e conn process container) \<and>
      ce_marshal env event = Some (km_value msg) \<and> km_key msg = kafkaEventKey event"
proof -
  obtain r :: resolved and ok d2 ev d3 where a: "decodedStep env e d = admitEvent env ev ok d3"
    and ev_def: "ev = buildEvent (sd_mode d) e (rs_conn r) (rs_process r) (rs_container r)"
    and f: "fates (stats_of d3) = fates (stats_of d)"
    and g0: "sd_flowFilter d3 = sd_flowFilter d" "sd_mode d3 = sd_mode d" "sd_allowNonSocketFDs d3 = sd_allowNonSocketFDs d"
    by (rule decodedStep_admits [of env e d]) blast
  have g: "stdioSkipped d3 = stdioSkipped d" "sd_mode d3 = sd_mode d" using g0 by (simp_all add: stdioSkipped_def)
  note c = skip_cases [OF trans [OF a [symmetric] assms(1)]] fates_eq [OF f] g
  show "as_ringRecords (stats_of d') = as_ringRecords (stats_of d)"
    "as_decodeErrors (stats_of d') = as_decodeErrors (stats_of d)"
    "as_decodedEvents (stats_of d') = as_decodedEvents (stats_of d)"
    "stdioSkipped d' = stdioSkipped d" "sd_mode d' = sd_mode d"
    using c by simp_all
  show "passed (stats_of d') = passed (stats_of d) - 1 \<or>
      passed (stats_of d') = passed (stats_of d) \<and> be_EventType e = eventTypeSocket" if "res = None"
    using c that by (simp add: ev_def buildEvent_def)
  have "length (ev_Payload ev) \<le> payloadCapacity \<and> unat (ev_Size ev) = length (ev_Payload ev) \<and> ev_CaptureSource ev = ''ebpf''"
    using assms(2) payloadSizeOf_le [of e] by (simp add: ev_def buildEvent_def capturedSizeOf_unat)
  then show "passed (stats_of d') = passed (stats_of d) \<and> clean (stdioSkipped d) event \<and>
      (\<exists>conn process container. event = buildEvent (sd_mode d) e conn process container) \<and>
      ce_marshal env event = Some (km_value msg) \<and> km_key msg = kafkaEventKey event" if "res = Some (event, msg)"
    using c that ev_def by (simp add: clean_def) blast
qed

section \<open>Runs\<close>

definition decodedSocket :: "ringRead \<Rightarrow> bool" where
  "decodedSocket read = (case read of RingError \<Rightarrow> False
     | RingSample raw \<Rightarrow> (case binaryRead raw of None \<Rightarrow> False | Some e \<Rightarrow> be_EventType e = eventTypeSocket))"

definition sampled :: "ringRead \<Rightarrow> bool" where
  "sampled read \<longleftrightarrow> read \<noteq> RingError"

definition undecided :: "agentStats \<Rightarrow> u64" where
  "undecided s = as_ringRecords s - as_decodeErrors s - as_decodedEvents s"

lemma shardStep_accounts:
  assumes "shardStep env read d = Some (res, d')"
  shows "as_ringRecords (stats_of d') = as_ringRecords (stats_of d) + of_bool (sampled read)"
    "undecided (stats_of d') = undecided (stats_of d)"
    "stdioSkipped d' = stdioSkipped d"
    "\<exists>socket. (socket \<longrightarrow> decodedSocket read) \<and>
       passed (stats_of d') = passed (stats_of d) + of_bool (res \<noteq> None) + of_bool socket"
    "res = Some ev \<Longrightarrow> clean (stdioSkipped d) ev"
proof -
  have "as_ringRecords (stats_of d') = as_ringRecords (stats_of d) + of_bool (sampled read) \<and>
    undecided (stats_of d') = undecided (stats_of d) \<and> stdioSkipped d' = stdioSkipped d \<and>
    (\<exists>socket. (socket \<longrightarrow> decodedSocket read) \<and>
       passed (stats_of d') = passed (stats_of d) + of_bool (res \<noteq> None) + of_bool socket) \<and>
    (\<forall>ev. res = Some ev \<longrightarrow> clean (stdioSkipped d) ev)"
  proof (cases read)
    case RingError
    with assms show ?thesis
      by (auto simp: shardStep_def sampled_def undecided_def passed_def stdioSkipped_def intro!: exI [of _ False])
  next
    case (RingSample raw)
    let ?d1 = "countStat (\<lambda>s. s\<lparr>as_ringRecords := as_ringRecords s + 1\<rparr>) d"
    show ?thesis
    proof (cases "binaryRead raw")
      case None
      with assms RingSample show ?thesis
        by (auto simp: shardStep_def sampled_def undecided_def passed_def stdioSkipped_def intro!: exI [of _ False])
    next
      case (Some e)
      define d2 where "d2 = countStat (\<lambda>s. s\<lparr>as_decodedEvents := as_decodedEvents s + 1\<rparr>) ?d1"
      have d2: "as_ringRecords (stats_of d2) = as_ringRecords (stats_of d) + 1"
        "undecided (stats_of d2) = undecided (stats_of d)" "passed (stats_of d2) = passed (stats_of d) + 1"
        "stdioSkipped d2 = stdioSkipped d"
        by (simp_all add: d2_def undecided_def passed_def stdioSkipped_def)
      obtain out d3 where s: "decodedStep env e d2 = (out, d3)" by force
      note c = decodedStep_cases [OF s binaryRead_payload [OF Some]]
      have kept: "as_ringRecords (stats_of d3) = as_ringRecords (stats_of d) + 1"
        "undecided (stats_of d3) = undecided (stats_of d)" "stdioSkipped d3 = stdioSkipped d"
        using c(1-4) d2 by (simp_all add: undecided_def)
      show ?thesis
      proof (cases out)
        case None
        with assms s RingSample Some have "d' = d3" "res = None" by (simp_all add: shardStep_def d2_def)
        with kept c(6) [OF None] d2 RingSample Some show ?thesis
          by (auto simp: sampled_def decodedSocket_def)
      next
        case (Some out')
        then obtain event msg where o: "out = Some (event, msg)" by (cases out') auto
        from assms s RingSample \<open>binaryRead raw = Some e\<close> o obtain q where
          q: "submit (ce_lib env) (ce_faults env) (ce_now env) (ce_between env) msg (sd_queuedProducer d3) = Some q"
             "res = Some event" "d' = d3\<lparr>sd_queuedProducer := q\<rparr>"
          by (auto simp: shardStep_def d2_def)
        have f: "fates (stats_of d') = fates (stats_of d3)" using submit_fates [OF q(1)] q(3) by (simp add: stats_of_def)
        have "stdioSkipped d' = stdioSkipped d3" by (simp add: q(3) stdioSkipped_def)
        with kept c(7) [OF o] d2 fates_eq [OF f] RingSample q(2) show ?thesis
          by (auto simp: sampled_def undecided_def intro!: exI [of _ False])
      qed
    qed
  qed
  then show "as_ringRecords (stats_of d') = as_ringRecords (stats_of d) + of_bool (sampled read)"
    "undecided (stats_of d') = undecided (stats_of d)" "stdioSkipped d' = stdioSkipped d"
    "\<exists>socket. (socket \<longrightarrow> decodedSocket read) \<and>
       passed (stats_of d') = passed (stats_of d) + of_bool (res \<noteq> None) + of_bool socket"
    "res = Some ev \<Longrightarrow> clean (stdioSkipped d) ev"
    by blast+
qed

text \<open>Outside strict mode no step waits, so every run comes to its end.\<close>

lemma submit_mode:
  "submit lib faults now between msg q = Some q' \<Longrightarrow> qp_mode q' = qp_mode q"
proof -
  assume a: "submit lib faults now between msg q = Some q'"
  have t: "qp_mode q2 = qp_mode q1" if "trySend m q1 = Some q2" for m q1 q2
    using that by (auto simp: trySend_def split: if_splits)
  show ?thesis
    using a t by (cases "qp_mode q"; cases "trySend msg q")
      (auto simp: submit_def Let_def dropOne_def split: option.splits list.splits dest!: t)
qed

lemma submit_total: "qp_mode q \<noteq> backpressureStrict \<Longrightarrow> submit lib faults now between msg q \<noteq> None"
  by (cases "qp_mode q"; cases "trySend msg q") (auto simp: submit_def Let_def split: option.splits list.splits)

lemma capture_accounting_facts:
  assumes "runAgentShardCapture reads d = Some (events, d')"
  shows "as_ringRecords (stats_of d') = as_ringRecords (stats_of d) + of_nat (length (filter (sampled \<circ> snd) reads))"
    and "undecided (stats_of d') = undecided (stats_of d)"
    and "\<exists>sockets \<le> length (filter (decodedSocket \<circ> snd) reads).
      passed (stats_of d') = passed (stats_of d) + of_nat (length events) + of_nat sockets"
    and "ev \<in> set events \<Longrightarrow> clean (stdioSkipped d) ev"
proof -
  have "as_ringRecords (stats_of d') = as_ringRecords (stats_of d) + of_nat (length (filter (sampled \<circ> snd) reads)) \<and>
    undecided (stats_of d') = undecided (stats_of d) \<and>
    (\<exists>sockets \<le> length (filter (decodedSocket \<circ> snd) reads).
      passed (stats_of d') = passed (stats_of d) + of_nat (length events) + of_nat sockets) \<and>
    (\<forall>ev \<in> set events. clean (stdioSkipped d) ev)"
    using assms
  proof (induction reads arbitrary: d events)
    case Nil
    then show ?case by simp
  next
    case (Cons r reads)
    obtain env read where r: "r = (env, read)" by force
    with Cons.prems obtain res d1 evs where s: "shardStep env read d = Some (res, d1)"
      and t: "runAgentShardCapture reads d1 = Some (evs, d')"
      and e: "events = (case res of None \<Rightarrow> evs | Some ev \<Rightarrow> ev # evs)"
      by (auto split: option.splits)
    note a = shardStep_accounts [OF s] and ih = Cons.IH [OF t]
    obtain socket where k: "socket \<longrightarrow> decodedSocket read"
      "passed (stats_of d1) = passed (stats_of d) + of_bool (res \<noteq> None) + of_bool socket" using a(4) by blast
    obtain n where n: "n \<le> length (filter (decodedSocket \<circ> snd) reads)"
      "passed (stats_of d') = passed (stats_of d1) + of_nat (length evs) + of_nat n" using ih by blast
    have "length events = length evs + of_bool (res \<noteq> None)" by (simp add: e split: option.splits)
    then have "passed (stats_of d') = passed (stats_of d) + of_nat (length events) + of_nat (n + of_bool socket)"
      using k(2) n(2) by (simp add: algebra_simps)
    moreover have "n + of_bool socket \<le> length (filter (decodedSocket \<circ> snd) (r # reads))"
      using k(1) n(1) by (auto simp: r)
    ultimately have "\<exists>sockets \<le> length (filter (decodedSocket \<circ> snd) (r # reads)).
      passed (stats_of d') = passed (stats_of d) + of_nat (length events) + of_nat sockets" by blast
    moreover have "as_ringRecords (stats_of d') =
        as_ringRecords (stats_of d) + of_nat (length (filter (sampled \<circ> snd) (r # reads)))"
      using ih a(1) by (simp add: r comp_def)
    moreover have "undecided (stats_of d') = undecided (stats_of d)" using ih a(2) by simp
    moreover have "\<forall>ev \<in> set events. clean (stdioSkipped d) ev"
      using ih a(3,5) by (auto simp: e split: option.splits)
    ultimately show ?case by blast
  qed
  then show "as_ringRecords (stats_of d') = as_ringRecords (stats_of d) + of_nat (length (filter (sampled \<circ> snd) reads))"
    "undecided (stats_of d') = undecided (stats_of d)"
    "\<exists>sockets \<le> length (filter (decodedSocket \<circ> snd) reads).
      passed (stats_of d') = passed (stats_of d) + of_nat (length events) + of_nat sockets"
    "ev \<in> set events \<Longrightarrow> clean (stdioSkipped d) ev"
    by blast+
qed


section \<open>From the kernel's record to the worker\<close>

definition sameQueue :: "agentShardDeps \<Rightarrow> agentShardDeps \<Rightarrow> bool" where
  "sameQueue d d' \<longleftrightarrow> (\<exists>st. sd_queuedProducer d' = (sd_queuedProducer d)\<lparr>qp_stats := st\<rparr>)"

lemma sameQueue_count [simp]: "sameQueue d (countStat f d') = sameQueue d d'"
proof -
  have "sd_queuedProducer d' = (sd_queuedProducer d)\<lparr>qp_stats := qp_stats (sd_queuedProducer d')\<rparr>"
    if "(sd_queuedProducer d')\<lparr>qp_stats := a\<rparr> = (sd_queuedProducer d)\<lparr>qp_stats := b\<rparr>" for a b
  proof -
    have "sd_queuedProducer d' = ((sd_queuedProducer d')\<lparr>qp_stats := a\<rparr>)\<lparr>qp_stats := qp_stats (sd_queuedProducer d')\<rparr>" by simp
    also have "\<dots> = (sd_queuedProducer d)\<lparr>qp_stats := qp_stats (sd_queuedProducer d')\<rparr>" by (simp only: that) simp
    finally show ?thesis .
  qed
  then show ?thesis by (auto simp: sameQueue_def countStat_def)
qed

lemma sameQueue_refl [simp]: "sameQueue d d"
  unfolding sameQueue_def by (rule exI [of _ "qp_stats (sd_queuedProducer d)"]) simp

lemma sameQueue_parts [simp]:
  "sameQueue d (d'\<lparr>sd_metadata := m\<rparr>) = sameQueue d d'"
  "sameQueue d (d'\<lparr>sd_kernelTuples := t\<rparr>) = sameQueue d d'"
  "sameQueue d (d'\<lparr>sd_flowFilter := f\<rparr>) = sameQueue d d'"
  by (simp_all add: sameQueue_def)

lemma sameQueue_resolve [simp]: "sameQueue d (snd (resolveEvent env e d')) = sameQueue d d'"
  by (auto simp: resolveEvent_def Let_def split: prod.splits option.splits)

lemma sameQueue_forget [simp]: "sameQueue d (forgetClosed event d') = sameQueue d d'"
  by (simp add: forgetClosed_def)

lemma sameQueue_admit: "sameQueue d d' \<Longrightarrow> sameQueue d (snd (admitEvent env event ok d'))"
  by (auto simp: admitEvent_def skipEvent_def split: option.splits prod.splits)

lemma sameQueue_decoded: "sameQueue d d' \<Longrightarrow> sameQueue d (snd (decodedStep env e d'))"
proof -
  assume s: "sameQueue d d'"
  define d1 where "d1 = (if loss_Truncated (captureLoss e)
      then countStat (\<lambda>s. s\<lparr>as_truncatedEvents := as_truncatedEvents s + 1\<rparr>) d' else d')"
  have "sameQueue d (snd (resolveEvent env e d1))" using s by (simp add: d1_def)
  then show ?thesis
    by (cases "resolveEvent env e d1") (auto simp: decodedStep_def Let_def split: prod.split intro!: sameQueue_admit simp flip: d1_def)
qed

lemma kernel_bytes_reach_worker_facts:
  assumes "shardStep env (RingSample (api_event e @ padding)) d = Some (Some event, d')"
    and "length (be_Payload e) = payloadCapacity"
  shows "eventPayload event = take (unat (be_Size e)) (be_Payload e)"
    and "loss_Truncated (ev_Loss event) \<longleftrightarrow>
      min (unat (be_Size e)) 4096 < unat (if be_OriginalSize e = 0 then be_Size e else be_OriginalSize e)"
    and "be_Pid e \<noteq> 0 \<Longrightarrow> be_Fd e \<noteq> 0 \<Longrightarrow> sessionKey event = ''pidfd:'' @ kafkaEventKey event"
    and "ev_Seq event = be_Seq e \<and> ev_Direction event = be_Direction e \<and> ev_EventType event = be_EventType e"
    and "\<exists>json q. ce_marshal env event = Some json \<and> sameQueue d (d\<lparr>sd_queuedProducer := q\<rparr>) \<and>
      submit (ce_lib env) (ce_faults env) (ce_now env) (ce_between env)
        \<lparr>km_key = kafkaEventKey event, km_value = json\<rparr> q = Some (sd_queuedProducer d')"
proof -
  define d1 where "d1 = countStat (\<lambda>s. s\<lparr>as_decodedEvents := as_decodedEvents s + 1\<rparr>)
    (countStat (\<lambda>s. s\<lparr>as_ringRecords := as_ringRecords s + 1\<rparr>) d)"
  obtain out d2 where s: "decodedStep env e d1 = (out, d2)" by force
  obtain msg where o: "out = Some (event, msg)"
    and q: "submit (ce_lib env) (ce_faults env) (ce_now env) (ce_between env) msg (sd_queuedProducer d2) = Some (sd_queuedProducer d')"
    using assms s by (auto simp: shardStep_def ring_record_roundtrip_facts(1) simp flip: d1_def split: option.splits)
  obtain conn process container where b: "event = buildEvent (sd_mode d1) e conn process container"
    and m: "ce_marshal env event = Some (km_value msg)" "km_key msg = kafkaEventKey event"
    using decodedStep_cases(7) [OF s assms(2) o] by blast
  have size: "unat (capturedSizeOf e) = payloadSizeOf e" "payloadSizeOf e = min (unat (be_Size e)) 4096"
    using assms(2) by (simp add: capturedSizeOf_unat, simp add: payloadSizeOf_def payloadCapacity_def)
  then show "eventPayload event = take (unat (be_Size e)) (be_Payload e)"
    using assms(2) by (simp add: b buildEvent_def eventPayload_def Let_def payloadCapacity_def min_def)
  show "loss_Truncated (ev_Loss event) \<longleftrightarrow>
      min (unat (be_Size e)) 4096 < unat (if be_OriginalSize e = 0 then be_Size e else be_OriginalSize e)"
    using size by (simp add: b buildEvent_def captureLoss_def noLoss_def word_less_nat_alt originalSizeOf_def)
  show "be_Pid e \<noteq> 0 \<Longrightarrow> be_Fd e \<noteq> 0 \<Longrightarrow> sessionKey event = ''pidfd:'' @ kafkaEventKey event"
    by (simp add: b buildEvent_def sessionKey_def pidfdKey_def kafkaEventKey_def)
  show "ev_Seq event = be_Seq e \<and> ev_Direction event = be_Direction e \<and> ev_EventType event = be_EventType e"
    by (simp add: b buildEvent_def)
  have "sameQueue d d2" using sameQueue_decoded [of d d1 env e] s by (simp add: d1_def)
  then have "sameQueue d (d\<lparr>sd_queuedProducer := sd_queuedProducer d2\<rparr>)" by (simp add: sameQueue_def)
  moreover have "msg = \<lparr>km_key = kafkaEventKey event, km_value = km_value msg\<rparr>" using m(2) by simp
  ultimately show "\<exists>json q. ce_marshal env event = Some json \<and> sameQueue d (d\<lparr>sd_queuedProducer := q\<rparr>) \<and>
      submit (ce_lib env) (ce_faults env) (ce_now env) (ce_between env)
        \<lparr>km_key = kafkaEventKey event, km_value = json\<rparr> q = Some (sd_queuedProducer d')"
    using m(1) q by metis
qed

text \<open>C12. The agent and the worker agree on the kernel's bytes. When the record of an event is
  submitted, the message is keyed by process, descriptor and generation, and the worker that decodes
  it takes as payload the first \<open>size\<close> bytes that the kernel copied, sees it marked as
  truncated exactly when the system call moved more than that, and files it under the session whose
  key is the message's own, so that Kafka keeps each session in one partition.\<close>

theorem kernel_bytes_reach_worker:
  assumes "shardStep env (RingSample (api_event e @ padding)) d = Some (Some event, d')"
    and "length (be_Payload e) = payloadCapacity"
  shows "eventPayload event = take (unat (be_Size e)) (be_Payload e) \<and>
    (loss_Truncated (ev_Loss event) \<longleftrightarrow>
      min (unat (be_Size e)) 4096 < unat (if be_OriginalSize e = 0 then be_Size e else be_OriginalSize e)) \<and>
    (be_Pid e \<noteq> 0 \<and> be_Fd e \<noteq> 0 \<longrightarrow> sessionKey event = ''pidfd:'' @ kafkaEventKey event) \<and>
    ev_Seq event = be_Seq e \<and> ev_Direction event = be_Direction e \<and> ev_EventType event = be_EventType e \<and>
    (\<exists>json q. ce_marshal env event = Some json \<and> sameQueue d (d\<lparr>sd_queuedProducer := q\<rparr>) \<and>
      submit (ce_lib env) (ce_faults env) (ce_now env) (ce_between env)
        \<lparr>km_key = kafkaEventKey event, km_value = json\<rparr> q = Some (sd_queuedProducer d'))"
  using kernel_bytes_reach_worker_facts [OF assms] by blast

text \<open>A close event takes the flow out of the agent's caches.\<close>

lemma admit_caches:
  "sd_metadata (snd (admitEvent env event ok d)) = sd_metadata d"
  "sd_kernelTuples (snd (admitEvent env event ok d)) = sd_kernelTuples d"
  by (auto simp: admitEvent_def skipEvent_def split: option.splits prod.splits)

lemma agent_close_forgets:
  assumes "decodedStep env e d = (res, d')" "be_EventType e = eventTypeClose"
  shows "resolver_fresh (bpfFlowKey e) t (sd_metadata d') = None"
    "map_of (ts_synced (sd_kernelTuples d')) (bpfFlowKey e) = None"
proof -
  obtain r :: resolved and ok d2 ev d3 where a: "decodedStep env e d = admitEvent env ev ok d3"
    and ev_def: "ev = buildEvent (sd_mode d) e (rs_conn r) (rs_process r) (rs_container r)"
    and d3_def: "d3 = forgetClosed ev (countStat (countEvent ev) d2)"
    by (rule decodedStep_admits [of env e d]) blast
  have "d' = snd (admitEvent env ev ok d3)" using assms(1) by (simp add: a [symmetric])
  moreover have "ev_EventType ev = eventTypeClose" "eventFlowKey ev = bpfFlowKey e"
    using assms(2) by (simp_all add: ev_def buildEvent_def eventFlowKey_def bpfFlowKey_def)
  ultimately show "resolver_fresh (bpfFlowKey e) t (sd_metadata d') = None"
    "map_of (ts_synced (sd_kernelTuples d')) (bpfFlowKey e) = None"
    by (simp_all add: admit_caches d3_def forgetClosed_def resolver_forget_def resolver_fresh_def
        syncer_forget_def delete_conv')
qed

lemma sameQueue_mode: "sameQueue d d' \<Longrightarrow> qp_mode (sd_queuedProducer d') = qp_mode (sd_queuedProducer d)"
  by (auto simp: sameQueue_def)

lemma shardStep_total:
  assumes "qp_mode (sd_queuedProducer d) \<noteq> backpressureStrict"
  shows "\<exists>res d'. shardStep env read d = Some (res, d') \<and> qp_mode (sd_queuedProducer d') = qp_mode (sd_queuedProducer d)"
proof (cases read)
  case RingError
  then show ?thesis by (simp add: shardStep_def countStat_def)
next
  case (RingSample raw)
  show ?thesis
  proof (cases "binaryRead raw")
    case None
    with RingSample show ?thesis by (simp add: shardStep_def countStat_def)
  next
    case (Some e)
    define d1 where "d1 = countStat (\<lambda>s. s\<lparr>as_decodedEvents := as_decodedEvents s + 1\<rparr>)
      (countStat (\<lambda>s. s\<lparr>as_ringRecords := as_ringRecords s + 1\<rparr>) d)"
    obtain out d2 where s: "decodedStep env e d1 = (out, d2)" by force
    have "sameQueue d d2" using sameQueue_decoded [of d d1 env e] s by (simp add: d1_def)
    note m = sameQueue_mode [OF this]
    show ?thesis
    proof (cases out)
      case None
      with RingSample Some s m show ?thesis by (simp add: shardStep_def flip: d1_def)
    next
      case (Some out')
      obtain event msg where o: "out' = (event, msg)" by force
      obtain q where q: "submit (ce_lib env) (ce_faults env) (ce_now env) (ce_between env) msg (sd_queuedProducer d2) = Some q"
        using submit_total [of "sd_queuedProducer d2"] m assms by (metis not_None_eq)
      with RingSample Some \<open>binaryRead raw = Some e\<close> s o m submit_mode [OF q] show ?thesis
        by (simp add: shardStep_def flip: d1_def)
    qed
  qed
qed

lemma capture_never_blocks:
  "qp_mode (sd_queuedProducer d) \<noteq> backpressureStrict \<Longrightarrow> \<exists>events d'. runAgentShardCapture reads d = Some (events, d')"
proof (induction reads arbitrary: d)
  case (Cons r reads)
  obtain env read where r: "r = (env, read)" by force
  from shardStep_total [OF Cons.prems, of env read] obtain res d1 where
    s: "shardStep env read d = Some (res, d1)" "qp_mode (sd_queuedProducer d1) = qp_mode (sd_queuedProducer d)" by blast
  with Cons.IH [of d1] Cons.prems show ?case by (fastforce simp: r)
qed simp

section \<open>Samples\<close>

definition sampleBpfEvent :: bpfEvent where
  "sampleBpfEvent = emptyEvent\<lparr>be_Fd := 7, be_Size := 5, be_OriginalSize := 9, be_Payload := replicate 4096 CHR ''G''\<rparr>"

definition sampleEnv :: captureEnv where
  "sampleEnv = \<lparr>ce_proc = sampleProc, ce_now = 1, ce_later = 1, ce_filterNow = 1, ce_updateFails = (\<lambda>k. False),
     ce_marshal = (\<lambda>ev. Some (ev_Payload ev)), ce_lib = sampleLib, ce_faults = noFaults, ce_between = (\<lambda>queue. queue)\<rparr>"

definition sampleDeps :: agentShardDeps where
  "sampleDeps = \<lparr>sd_metadata = newMetadataResolver 15, sd_kernelTuples = newKernelTupleSyncer (Some []),
     sd_flowFilter = None, sd_mode = ''pid'', sd_allowNonSocketFDs = False,
     sd_queuedProducer = \<lparr>qp_mode = backpressureBestEffort, qp_queue = [], qp_capacity = 4, qp_stats = zeroAgentStats,
       qp_spool = None, qp_circuitBreakerDuration = 0, qp_brokerDownUntil = 0, qp_accepted = []\<rparr>\<rparr>"

lemma sampleBpfEvent_capacity: "length (be_Payload sampleBpfEvent) = payloadCapacity"
  by (simp add: sampleBpfEvent_def payloadCapacity_def)

lemma sampleDeps_mode: "qp_mode (sd_queuedProducer sampleDeps) \<noteq> backpressureStrict"
  by (simp add: sampleDeps_def)


text \<open>Without a flow filter a plain data event of a socket is always submitted.\<close>

lemma admit_plain:
  assumes "sd_flowFilter d = None" "ev_EventType event = eventTypeData" "length (ev_Payload event) \<noteq> 8"
    and "ev_FD event > 2" "ce_marshal env event = Some json"
  shows "fst (admitEvent env event ok d) \<noteq> None"
  using assms by (auto simp: admitEvent_def agentCounterNoise_def eventTypeData_def eventTypeSocket_def)

lemma sample_forwarded:
  "\<exists>event d'. shardStep sampleEnv (RingSample (api_event sampleBpfEvent @ [])) sampleDeps = Some (Some event, d')"
proof -
  define d1 where "d1 = countStat (\<lambda>s. s\<lparr>as_decodedEvents := as_decodedEvents s + 1\<rparr>)
    (countStat (\<lambda>s. s\<lparr>as_ringRecords := as_ringRecords s + 1\<rparr>) sampleDeps)"
  obtain res d' where s: "shardStep sampleEnv (RingSample (api_event sampleBpfEvent @ [])) sampleDeps = Some (res, d')"
    using shardStep_total [OF sampleDeps_mode] by blast
  obtain r :: resolved and ok ev d3 where a: "decodedStep sampleEnv sampleBpfEvent d1 = admitEvent sampleEnv ev ok d3"
    and ev: "ev = buildEvent (sd_mode d1) sampleBpfEvent (rs_conn r) (rs_process r) (rs_container r)"
    and f: "sd_flowFilter d3 = sd_flowFilter d1"
    by (rule decodedStep_admits [of sampleEnv sampleBpfEvent d1]) blast
  have "fst (admitEvent sampleEnv ev ok d3) \<noteq> None"
    by (rule admit_plain [where json = "ev_Payload ev"])
      (simp_all add: f d1_def sampleDeps_def, simp_all add: ev buildEvent_def sampleBpfEvent_def emptyEvent_def
        payloadSizeOf_def sampleEnv_def eventTypeData_def)
  then have "res \<noteq> None" using s
    by (auto simp: shardStep_def ring_record_roundtrip_facts(1) [OF sampleBpfEvent_capacity, of "[]", simplified] a
        simp flip: d1_def split: option.splits prod.splits)
  with s show ?thesis by blast
qed

theorem kernel_bytes_reach_worker_witness:
  "\<exists>event d'. shardStep sampleEnv (RingSample (api_event sampleBpfEvent @ [])) sampleDeps = Some (Some event, d') \<and>
     eventPayload event = ''GGGGG'' \<and> loss_Truncated (ev_Loss event) \<and> sessionKey event = ''pidfd:'' @ kafkaEventKey event"
proof -
  obtain event d' where s: "shardStep sampleEnv (RingSample (api_event sampleBpfEvent @ [])) sampleDeps = Some (Some event, d')"
    using sample_forwarded by blast
  note k = kernel_bytes_reach_worker [OF s sampleBpfEvent_capacity]
  have "take 5 (replicate 4096 CHR ''G'') = ''GGGGG''" by (simp add: numeral_eq_Suc)
  then have "eventPayload event = ''GGGGG''" using k by (simp add: sampleBpfEvent_def)
  moreover have "loss_Truncated (ev_Loss event)" using k by (simp add: sampleBpfEvent_def)
  moreover have "sessionKey event = ''pidfd:'' @ kafkaEventKey event"
    using k by (simp add: sampleBpfEvent_def emptyEvent_def)
  ultimately show ?thesis using s by blast
qed

end
