(* ===== verification/AgentControl.thy ===== *)
theory AgentControl
  imports KernelConfig Producer
begin

text \<open>
  The agent's control plane, \<^verbatim>\<open>cmd/agent/control.go\<close>: heartbeats, and the poll loop that
  fetches a configuration from the backend and applies it to the kernel's maps and the flow
  filter. \<open>transport\<close> is \<open>http.NewRequest\<close> with \<open>Client.Do\<close>: the status and the body of the
  answer, or \<open>None\<close>. Also the health endpoints of \<^verbatim>\<open>cmd/agent/health.go\<close>.
\<close>

section \<open>The client\<close>

definition seconds :: "int \<Rightarrow> duration" where
  "seconds n = n * 1000000000"

record agentControlClient =
  ac_baseURL :: bytes
  ac_token :: bytes
  ac_timeout :: duration

definition newAgentControlClient :: "bytes \<Rightarrow> bytes \<Rightarrow> duration \<Rightarrow> agentControlClient option" where
  "newAgentControlClient baseURL token timeout =
     (let base = trim_right_char CHR ''/'' (trim_space baseURL); tok = trim_space token in
      if base = [] \<or> tok = [] then None
      else Some \<lparr>ac_baseURL = base, ac_token = tok, ac_timeout = (if timeout \<le> 0 then seconds 10 else timeout)\<rparr>)"

record controlRequest =
  cq_Method :: bytes
  cq_URL :: bytes
  cq_Authorization :: bytes
  cq_ContentType :: bytes
  cq_Body :: bytes

type_synonym transport = "controlRequest \<Rightarrow> (int \<times> bytes) option"

datatype controlError = NotConfigured | TransportFailed | StatusError int bytes | DecodeFailed | MarshalFailed

definition authorize :: "agentControlClient \<Rightarrow> bytes" where
  "authorize c = ''Bearer '' @ ac_token c"

definition controlStatusError :: "int \<Rightarrow> bytes \<Rightarrow> controlError" where
  "controlStatusError status body = StatusError status (trim_space (take 512 body))"

record agentRemoteConfig =
  rc_SchemaVersion :: bytes
  rc_ConfigVersion :: bytes
  rc_PollIntervalSeconds :: int
  rc_HeartbeatIntervalSeconds :: int
  rc_TargetPorts :: "int list"
  rc_IgnorePorts :: "int list"
  rc_CaptureInbound :: bool
  rc_CaptureOutbound :: bool
  rc_CaptureReadSyscalls :: bool
  rc_CaptureWriteSyscalls :: bool
  rc_AllowNonSocketFDs :: bool
  rc_MaxPayloadSize :: int

text \<open>\<open>decode\<close> is \<open>json.Decoder.Decode\<close> into a zero configuration.\<close>

definition getConfig ::
  "transport \<Rightarrow> (bytes \<Rightarrow> agentRemoteConfig option) \<Rightarrow> agentControlClient option \<Rightarrow> controlError + agentRemoteConfig" where
  "getConfig transport decode client =
     (case client of
        None \<Rightarrow> Inl NotConfigured
      | Some c \<Rightarrow>
          (case transport \<lparr>cq_Method = ''GET'', cq_URL = ac_baseURL c @ ''/agents/config'',
               cq_Authorization = authorize c, cq_ContentType = [], cq_Body = []\<rparr> of
             None \<Rightarrow> Inl TransportFailed
           | Some (status, body) \<Rightarrow>
               if status < 200 \<or> status \<ge> 300 then Inl (controlStatusError status body)
               else (case decode (take (128 * 1024) body) of
                       None \<Rightarrow> Inl DecodeFailed
                     | Some cfg \<Rightarrow> Inr cfg)))"

record agentHeartbeatPayload =
  hb_AgentVersion :: bytes
  hb_TargetMode :: bytes
  hb_Stats :: "(bytes \<times> int) list"

definition heartbeat ::
  "transport \<Rightarrow> (agentHeartbeatPayload \<Rightarrow> bytes option) \<Rightarrow> agentControlClient option \<Rightarrow> agentHeartbeatPayload \<Rightarrow>
     controlError option" where
  "heartbeat transport marshal client payload =
     (case client of
        None \<Rightarrow> Some NotConfigured
      | Some c \<Rightarrow>
          (case marshal payload of
             None \<Rightarrow> Some MarshalFailed
           | Some body \<Rightarrow>
               (case transport \<lparr>cq_Method = ''POST'', cq_URL = ac_baseURL c @ ''/agents/heartbeat'',
                    cq_Authorization = authorize c, cq_ContentType = ''application/json'', cq_Body = body\<rparr> of
                  None \<Rightarrow> Some TransportFailed
                | Some (status, answer) \<Rightarrow>
                    if status < 200 \<or> status \<ge> 300 then Some (controlStatusError status answer) else None)))"

section \<open>Heartbeats\<close>

definition heartbeatPayload :: "bytes \<Rightarrow> agentStats \<Rightarrow> int option \<Rightarrow> agentHeartbeatPayload" where
  "heartbeatPayload targetMode stats queueDepth = \<lparr>hb_AgentVersion = [], hb_TargetMode = targetMode,
     hb_Stats =
       [(''ring_records'', uint (as_ringRecords stats)),
        (''decoded_events'', uint (as_decodedEvents stats)),
        (''metadata_misses'', uint (as_metadataMisses stats)),
        (''metadata_cache_hits'', uint (as_metadataCacheHits stats)),
        (''metadata_proc_hits'', uint (as_metadataProcHits stats)),
        (''metadata_proc_misses'', uint (as_metadataProcMisses stats)),
        (''kernel_tuple_fallbacks'', uint (as_kernelTupleFallbacks stats)),
        (''truncated_events'', uint (as_truncatedEvents stats)),
        (''produce_attempts'', uint (as_produceAttempts stats)),
        (''produce_errors'', uint (as_produceErrors stats)),
        (''kafka_errors'', uint (as_kafkaErrors stats)),
        (''broker_unavailable_events'', uint (as_brokerUnavailableEvents stats)),
        (''broker_circuit_spool'', uint (as_brokerCircuitSpool stats)),
        (''delivery_failures'', uint (as_deliveryFailures stats)),
        (''spool_writes'', uint (as_spoolWrites stats)),
        (''spool_write_errors'', uint (as_spoolWriteErrors stats)),
        (''spool_replayed'', uint (as_spoolReplayed stats)),
        (''spool_retained'', uint (as_spoolRetained stats))] @
       (case queueDepth of None \<Rightarrow> [] | Some depth \<Rightarrow> [(''local_queue_depth'', depth)])\<rparr>"

datatype heartbeatEvent = Ticked | Stopped

text \<open>The loop after the startup heartbeat: the reasons sent, for what the select receives.\<close>

fun heartbeatLoop :: "heartbeatEvent list \<Rightarrow> bytes list" where
  "heartbeatLoop [] = []"
| "heartbeatLoop (Ticked # events) = ''periodic'' # heartbeatLoop events"
| "heartbeatLoop (Stopped # events) = [''shutdown'']"

definition runAgentHeartbeat ::
  "agentControlClient option \<Rightarrow> duration \<Rightarrow> heartbeatEvent list \<Rightarrow> (duration \<times> bytes list) option" where
  "runAgentHeartbeat client interval events =
     (case client of
        None \<Rightarrow> None
      | Some c \<Rightarrow> Some (if interval \<le> 0 then seconds 30 else interval, ''startup'' # heartbeatLoop events))"

section \<open>Applying a configuration\<close>

definition applyRemoteAgentConfig ::
  "kernelFaults \<Rightarrow> bool \<Rightarrow> bool \<Rightarrow> agentRemoteConfig \<Rightarrow> agentKernel \<times> flowFilter option \<Rightarrow>
     kernelError option \<times> (agentKernel \<times> flowFilter option)" where
  "applyRemoteAgentConfig faults fdFilterEnabled cgroupFilterEnabled cfg st =
     (let (kern, filt) = st in
      case validateKernelMaxPayloadSize (rc_MaxPayloadSize cfg) of
        None \<Rightarrow> (Some InvalidPayloadSize, st)
      | Some maxPayload \<Rightarrow>
          (let targetPorts = portSetFromInts (rc_TargetPorts cfg);
               ignorePorts = portSetFromInts (rc_IgnorePorts cfg);
               targetPortsEnabled = (fdFilterEnabled \<and> targetPorts \<noteq> {});
               (err, config1) = configureKernelCapture faults maxPayload (rc_CaptureReadSyscalls cfg)
                 (rc_CaptureWriteSyscalls cfg) (rc_AllowNonSocketFDs cfg) targetPortsEnabled cgroupFilterEnabled
                 (ak_config kern);
               kern1 = kern\<lparr>ak_config := config1\<rparr>
           in if err \<noteq> None then (err, (kern1, filt))
              else if fdFilterEnabled then
                (let (err2, kern2) = configureKernelPortFilters faults targetPorts ignorePorts kern1 in
                 if err2 \<noteq> None then (err2, (kern2, filt))
                 else (None, (kern2, map_option
                   (filter_update targetPorts ignorePorts (rc_CaptureInbound cfg) (rc_CaptureOutbound cfg)) filt)))
              else (None, (kern1, filt))))"

section \<open>The poll loop\<close>

definition boundedPollInterval :: "int \<Rightarrow> duration \<Rightarrow> duration" where
  "boundedPollInterval secs fallback =
     (if secs \<le> 0 then fallback
      else let s1 = (if secs < 5 then 5 else secs); s2 = (if s1 > 3600 then 3600 else s1) in seconds s2)"

record remoteState =
  rm_currentVersion :: bytes
  rm_kernel :: agentKernel
  rm_filter :: "flowFilter option"

text \<open>One \<open>poll\<close>, for what \<open>getConfig\<close> returned: the wait until the next one, and the state.\<close>

definition poll ::
  "bool \<Rightarrow> bool \<Rightarrow> duration \<Rightarrow> kernelFaults \<Rightarrow> controlError + agentRemoteConfig \<Rightarrow> remoteState \<Rightarrow> duration \<times> remoteState" where
  "poll fdFilterEnabled cgroupFilterEnabled interval faults reply st =
     (case reply of
        Inl _ \<Rightarrow> (interval, st)
      | Inr cfg \<Rightarrow>
          if rc_ConfigVersion cfg \<noteq> [] \<and> rc_ConfigVersion cfg = rm_currentVersion st
          then (boundedPollInterval (rc_PollIntervalSeconds cfg) interval, st)
          else
            (let (err, (kern, filt)) = applyRemoteAgentConfig faults fdFilterEnabled cgroupFilterEnabled cfg
                   (rm_kernel st, rm_filter st);
                 st1 = st\<lparr>rm_kernel := kern, rm_filter := filt\<rparr>
             in if err \<noteq> None then (interval, st1)
                else (boundedPollInterval (rc_PollIntervalSeconds cfg) interval,
                      st1\<lparr>rm_currentVersion := rc_ConfigVersion cfg\<rparr>)))"

type_synonym pollRound = "kernelFaults \<times> (controlError + agentRemoteConfig)"

fun pollRounds :: "bool \<Rightarrow> bool \<Rightarrow> duration \<Rightarrow> pollRound list \<Rightarrow> remoteState \<Rightarrow> duration list \<times> remoteState" where
  "pollRounds fd cg interval [] st = ([], st)"
| "pollRounds fd cg interval ((faults, reply) # rounds) st =
     (let (wait, st1) = poll fd cg interval faults reply st;
          (waits, st2) = pollRounds fd cg interval rounds st1
      in (wait # waits, st2))"

definition runAgentRemoteConfig ::
  "bool \<Rightarrow> bool \<Rightarrow> agentControlClient option \<Rightarrow> duration \<Rightarrow> pollRound list \<Rightarrow> remoteState \<Rightarrow> duration list \<times> remoteState" where
  "runAgentRemoteConfig fd cg client interval rounds st =
     (if client = None then ([], st)
      else pollRounds fd cg (if interval \<le> 0 then seconds 30 else interval) rounds st)"

section \<open>Health\<close>

record healthSnapshot =
  hs_Status :: bytes
  hs_LocalQueueDepth :: int
  hs_SpoolBytes :: int
  hs_BrokerUnavailable :: bool

definition depth :: "queuedProducer \<Rightarrow> int" where
  "depth q = int (length (qp_queue q))"

definition spoolBytes :: "spoolFaults \<Rightarrow> queuedProducer \<Rightarrow> int" where
  "spoolBytes faults q =
     (case qp_spool q of
        None \<Rightarrow> 0
      | Some s \<Rightarrow> (case spool_size faults s of None \<Rightarrow> 0 | Some n \<Rightarrow> n))"

definition healthz :: "spoolFaults \<Rightarrow> time \<Rightarrow> queuedProducer \<Rightarrow> int \<times> healthSnapshot" where
  "healthz faults now q = (200, \<lparr>hs_Status = ''ok'', hs_LocalQueueDepth = depth q, hs_SpoolBytes = spoolBytes faults q,
     hs_BrokerUnavailable = brokerUnavailable now q\<rparr>)"

definition readyz :: "spoolFaults \<Rightarrow> time \<Rightarrow> queuedProducer \<Rightarrow> int \<times> healthSnapshot" where
  "readyz faults now q =
     (let bytes = spoolBytes faults q; down = brokerUnavailable now q in
      if depth q \<ge> int (qp_capacity q) \<or> bytes > 0 \<or> down
      then (503, \<lparr>hs_Status = ''degraded'', hs_LocalQueueDepth = depth q, hs_SpoolBytes = bytes, hs_BrokerUnavailable = down\<rparr>)
      else (200, \<lparr>hs_Status = ''ready'', hs_LocalQueueDepth = depth q, hs_SpoolBytes = bytes, hs_BrokerUnavailable = down\<rparr>))"

definition boolMetric :: "bool \<Rightarrow> int" where
  "boolMetric value = (if value then 1 else 0)"

section \<open>What an applied configuration means\<close>

lemma portSetFromInts_eq: "portSetFromInts ports = set ports \<inter> {1..65535}"
  by (induction ports) auto

definition validPorts :: "int list \<Rightarrow> portSet" where
  "validPorts ports = {p \<in> set ports. 1 \<le> p \<and> p \<le> 65535}"

lemma portSetFromInts_valid: "portSetFromInts ports = validPorts ports"
  by (auto simp: portSetFromInts_eq validPorts_def)

lemma validPorts_finite: "finite (validPorts ports)" "validPorts ports \<subseteq> {1..65535}"
  by (auto simp: validPorts_def)

definition settingOf :: "agentKernel \<Rightarrow> u32 \<Rightarrow> u32 option" where
  "settingOf kern key = Option.bind (ak_config kern) (\<lambda>m. map_of m key)"

text \<open>The kernel's capture settings are the configuration's.\<close>

definition settingsInForce :: "bool \<Rightarrow> bool \<Rightarrow> agentRemoteConfig \<Rightarrow> agentKernel \<Rightarrow> bool" where
  "settingsInForce fd cg cfg kern \<longleftrightarrow>
     settingOf kern captureConfigMaxPayloadSize = Some (word_of_int (rc_MaxPayloadSize cfg)) \<and>
     settingOf kern captureConfigCaptureReads = Some (boolToKernelConfig (rc_CaptureReadSyscalls cfg)) \<and>
     settingOf kern captureConfigCaptureWrites = Some (boolToKernelConfig (rc_CaptureWriteSyscalls cfg)) \<and>
     settingOf kern captureConfigCaptureStdio = Some (boolToKernelConfig (rc_AllowNonSocketFDs cfg)) \<and>
     settingOf kern captureConfigTargetPorts = Some (boolToKernelConfig (fd \<and> validPorts (rc_TargetPorts cfg) \<noteq> {})) \<and>
     settingOf kern captureConfigCgroupFilter = Some (boolToKernelConfig cg)"

text \<open>With the descriptor filter on, the kernel's port sets and the flow filter are the configuration's.\<close>

definition portsInForce :: "agentRemoteConfig \<Rightarrow> agentKernel \<Rightarrow> flowFilter option \<Rightarrow> bool" where
  "portsInForce cfg kern filt \<longleftrightarrow>
     map_option kernelPorts (ak_targetPorts kern) = Some (validPorts (rc_TargetPorts cfg)) \<and>
     map_option kernelPorts (ak_ignoredPorts kern) = Some (validPorts (rc_IgnorePorts cfg)) \<and>
     (\<forall>f. filt = Some f \<longrightarrow>
        ff_targetPorts f = validPorts (rc_TargetPorts cfg) \<and> ff_ignorePorts f = validPorts (rc_IgnorePorts cfg) \<and>
        ff_captureInbound f = rc_CaptureInbound cfg \<and> ff_captureOutbound f = rc_CaptureOutbound cfg \<and> ff_flows f = [])"

definition kernelLoaded :: "agentKernel \<Rightarrow> bool" where
  "kernelLoaded kern \<longleftrightarrow> ak_config kern \<noteq> None \<and> ak_targetPorts kern \<noteq> None \<and> ak_ignoredPorts kern \<noteq> None"

lemma capture_settings:
  assumes "configureKernelCapture faults mp cr cw cs tp cg configMap = (None, m')"
  shows "settingOf (kern\<lparr>ak_config := m'\<rparr>) key =
    (case map_of (captureSettings mp cr cw cs tp cg) key of
       None \<Rightarrow> Option.bind configMap (\<lambda>m. map_of m key) | Some v \<Rightarrow> Some v)"
proof (cases configMap)
  case None
  have "inOrder (kf_settingOrder faults) (captureSettings mp cr cw cs tp cg) \<noteq> []"
  proof
    assume "inOrder (kf_settingOrder faults) (captureSettings mp cr cw cs tp cg) = []"
    then have "map_of (captureSettings mp cr cw cs tp cg) captureConfigMaxPayloadSize = None"
      using inOrder_map_of [of "kf_settingOrder faults" "captureSettings mp cr cw cs tp cg" captureConfigMaxPayloadSize]
      by simp
    then show False by (simp add: captureSettings_def)
  qed
  then have False
    using assms None
    by (cases "inOrder (kf_settingOrder faults) (captureSettings mp cr cw cs tp cg)")
      (auto simp: configureKernelCapture_def putKernelCaptureConfig_def)
  then show ?thesis ..
next
  case (Some m)
  with configureKernelCapture_ok [of faults mp cr cw cs tp cg m m'] assms
  obtain m1 where "m' = Some m1" "\<And>k. map_of m1 k =
    (case map_of (captureSettings mp cr cw cs tp cg) k of None \<Rightarrow> map_of m k | Some v \<Rightarrow> Some v)" by auto
  with Some show ?thesis by (cases "map_of (captureSettings mp cr cw cs tp cg) key") (simp_all add: settingOf_def)
qed

lemma putSettings_total:
  "(\<And>k. \<not> kf_config faults k) \<Longrightarrow> fst (putSettings faults settings (Some m)) = None"
  by (induction faults settings "Some m" arbitrary: m rule: putSettings.induct)
    (auto simp: putKernelCaptureConfig_def)

lemma filters_ok:
  assumes "configureKernelPortFilters faults targets ignored kern = (None, kern')" "finite targets" "finite ignored"
  shows "map_option kernelPorts (ak_targetPorts kern') = Some targets"
    "map_option kernelPorts (ak_ignoredPorts kern') = Some ignored" "ak_config kern' = ak_config kern"
  using assms replace_ok
  by (auto simp: configureKernelPortFilters_def split: prod.splits option.splits)

lemma filters_total:
  assumes "kernelLoaded kern" "finite targets" "targets \<subseteq> {1..65535}" "finite ignored" "ignored \<subseteq> {1..65535}"
  shows "fst (configureKernelPortFilters noKernelFaults targets ignored kern) = None"
proof -
  obtain t i where m: "ak_targetPorts kern = Some t" "ak_ignoredPorts kern = Some i"
    using assms(1) by (auto simp: kernelLoaded_def)
  have r: "fst (replaceKernelPortSet noKernelFaults name ports (Some m)) = None"
    if "finite ports" "ports \<subseteq> {1..65535}" for name ports m
    using that by (intro replace_total) (simp_all add: noKernelFaults_def)
  obtain t' where "replaceKernelPortSet noKernelFaults ''target_ports'' targets (Some t) = (None, t')"
    using r [OF assms(2,3)] by (metis prod.collapse)
  moreover obtain i' where "replaceKernelPortSet noKernelFaults ''ignored_ports'' ignored (Some i) = (None, i')"
    using r [OF assms(4,5)] by (metis prod.collapse)
  ultimately show ?thesis by (simp add: configureKernelPortFilters_def m)
qed

text \<open>How one application ends: refused, failed in the kernel, or done.\<close>

lemma apply_failed:
  assumes "applyRemoteAgentConfig faults fd cg cfg (kern, filt) = (Some err, (kern', filt'))"
  shows "filt' = filt"
  using assms by (auto simp: applyRemoteAgentConfig_def Let_def split: option.splits prod.splits if_splits)

lemma apply_done:
  assumes "applyRemoteAgentConfig faults fd cg cfg (kern, filt) = (None, (kern', filt'))"
  obtains config1 where
    "1 \<le> rc_MaxPayloadSize cfg" "rc_MaxPayloadSize cfg \<le> 16384"
    "configureKernelCapture faults (word_of_int (rc_MaxPayloadSize cfg)) (rc_CaptureReadSyscalls cfg)
       (rc_CaptureWriteSyscalls cfg) (rc_AllowNonSocketFDs cfg) (fd \<and> validPorts (rc_TargetPorts cfg) \<noteq> {}) cg
       (ak_config kern) = (None, config1)"
    "fd \<Longrightarrow> configureKernelPortFilters faults (validPorts (rc_TargetPorts cfg)) (validPorts (rc_IgnorePorts cfg))
       (kern\<lparr>ak_config := config1\<rparr>) = (None, kern')"
    "fd \<Longrightarrow> filt' = map_option (filter_update (validPorts (rc_TargetPorts cfg)) (validPorts (rc_IgnorePorts cfg))
       (rc_CaptureInbound cfg) (rc_CaptureOutbound cfg)) filt"
    "\<not> fd \<Longrightarrow> kern' = kern\<lparr>ak_config := config1\<rparr> \<and> filt' = filt"
proof -
  obtain mp where mp: "validateKernelMaxPayloadSize (rc_MaxPayloadSize cfg) = Some mp"
    using assms by (auto simp: applyRemoteAgentConfig_def split: option.splits)
  then have r: "1 \<le> rc_MaxPayloadSize cfg" "rc_MaxPayloadSize cfg \<le> 16384" "mp = word_of_int (rc_MaxPayloadSize cfg)"
    by (auto simp: validateKernelMaxPayloadSize_def maxKernelPayloadSize_def split: if_splits)
  obtain err config1 where c: "configureKernelCapture faults mp (rc_CaptureReadSyscalls cfg)
       (rc_CaptureWriteSyscalls cfg) (rc_AllowNonSocketFDs cfg) (fd \<and> validPorts (rc_TargetPorts cfg) \<noteq> {}) cg
       (ak_config kern) = (err, config1)" by force
  obtain err2 kern2 where f: "configureKernelPortFilters faults (validPorts (rc_TargetPorts cfg))
      (validPorts (rc_IgnorePorts cfg)) (kern\<lparr>ak_config := config1\<rparr>) = (err2, kern2)" by force
  have eq: "(None, (kern', filt')) =
     (if err \<noteq> None then (err, (kern\<lparr>ak_config := config1\<rparr>, filt))
      else if fd then
        (if err2 \<noteq> None then (err2, (kern2, filt))
         else (None, (kern2, map_option (filter_update (validPorts (rc_TargetPorts cfg)) (validPorts (rc_IgnorePorts cfg))
           (rc_CaptureInbound cfg) (rc_CaptureOutbound cfg)) filt)))
      else (None, (kern\<lparr>ak_config := config1\<rparr>, filt)))"
    using assms [symmetric] by (simp add: applyRemoteAgentConfig_def mp portSetFromInts_valid c f)
  then have "err = None" by (auto split: if_splits)
  with eq c f r that show thesis by (auto split: if_splits)
qed

lemma remote_config_takes_effect_facts:
  assumes "applyRemoteAgentConfig faults fd cg cfg (kern, filt) = (err, (kern', filt'))"
  shows "err = None \<Longrightarrow> rc_MaxPayloadSize cfg \<in> {1..16384} \<and> settingsInForce fd cg cfg kern' \<and>
      (fd \<longrightarrow> portsInForce cfg kern' filt')"
    and "err \<noteq> None \<Longrightarrow> filt' = filt"
    and "faults = noKernelFaults \<Longrightarrow> kernelLoaded kern \<Longrightarrow> rc_MaxPayloadSize cfg \<in> {1..16384} \<Longrightarrow> err = None"
proof -
  show "err \<noteq> None \<Longrightarrow> filt' = filt" using assms apply_failed by (cases err) blast+
next
  assume "err = None"
  with assms have "applyRemoteAgentConfig faults fd cg cfg (kern, filt) = (None, (kern', filt'))" by simp
  then obtain config1 where d: "1 \<le> rc_MaxPayloadSize cfg" "rc_MaxPayloadSize cfg \<le> 16384"
    and c: "configureKernelCapture faults (word_of_int (rc_MaxPayloadSize cfg)) (rc_CaptureReadSyscalls cfg)
       (rc_CaptureWriteSyscalls cfg) (rc_AllowNonSocketFDs cfg) (fd \<and> validPorts (rc_TargetPorts cfg) \<noteq> {}) cg
       (ak_config kern) = (None, config1)"
    and f: "fd \<Longrightarrow> configureKernelPortFilters faults (validPorts (rc_TargetPorts cfg)) (validPorts (rc_IgnorePorts cfg))
       (kern\<lparr>ak_config := config1\<rparr>) = (None, kern')"
    and g: "fd \<Longrightarrow> filt' = map_option (filter_update (validPorts (rc_TargetPorts cfg)) (validPorts (rc_IgnorePorts cfg))
       (rc_CaptureInbound cfg) (rc_CaptureOutbound cfg)) filt"
    and n: "\<not> fd \<Longrightarrow> kern' = kern\<lparr>ak_config := config1\<rparr> \<and> filt' = filt"
    by (rule apply_done) blast
  have "ak_config kern' = config1"
    using filters_ok(3) [OF f] validPorts_finite n by (cases fd) auto
  then have "settingOf kern' key = settingOf (kern\<lparr>ak_config := config1\<rparr>) key" for key
    by (simp add: settingOf_def)
  then have "settingsInForce fd cg cfg kern'"
    unfolding settingsInForce_def capture_settings [OF c, of kern] by (simp add: captureSettings_def config_keys)
  moreover have "portsInForce cfg kern' filt'" if fd
    using filters_ok(1,2) [OF f [OF that]] validPorts_finite(1) g [OF that]
    by (auto simp: portsInForce_def filter_update_def)
  ultimately show "rc_MaxPayloadSize cfg \<in> {1..16384} \<and> settingsInForce fd cg cfg kern' \<and>
      (fd \<longrightarrow> portsInForce cfg kern' filt')" using d by simp
next
  assume a: "faults = noKernelFaults" "kernelLoaded kern" "rc_MaxPayloadSize cfg \<in> {1..16384}"
  then obtain m where m: "ak_config kern = Some m" by (auto simp: kernelLoaded_def)
  have "validateKernelMaxPayloadSize (rc_MaxPayloadSize cfg) = Some (word_of_int (rc_MaxPayloadSize cfg))"
    using a(3) by (auto simp: validateKernelMaxPayloadSize_def maxKernelPayloadSize_def)
  moreover have "fst (configureKernelCapture noKernelFaults mp cr cw cs tp cg' (Some m)) = None" for mp cr cw cs tp cg'
    unfolding configureKernelCapture_def by (rule putSettings_total) (simp add: noKernelFaults_def)
  moreover have "fst (configureKernelPortFilters noKernelFaults (validPorts (rc_TargetPorts cfg))
      (validPorts (rc_IgnorePorts cfg)) (kern\<lparr>ak_config := config1\<rparr>)) = None" if "config1 \<noteq> None" for config1
    using a(2) that by (intro filters_total validPorts_finite) (simp add: kernelLoaded_def)
  moreover have "snd (configureKernelCapture noKernelFaults mp cr cw cs tp cg' (Some m)) \<noteq> None" for mp cr cw cs tp cg'
  proof -
    have "fst (configureKernelCapture noKernelFaults mp cr cw cs tp cg' (Some m)) = None"
      unfolding configureKernelCapture_def by (rule putSettings_total) (simp add: noKernelFaults_def)
    then show ?thesis using configureKernelCapture_ok [of noKernelFaults mp cr cw cs tp cg' m] by (metis option.discI prod.collapse)
  qed
  ultimately have "fst (applyRemoteAgentConfig noKernelFaults fd cg cfg (kern, filt)) = None"
    by (simp add: applyRemoteAgentConfig_def m case_prod_beta Let_def portSetFromInts_valid)
  with assms a(1) show "err = None" by simp
qed

text \<open>C10. A remote configuration takes effect as a whole or is reported. When applying it succeeds, its
  payload limit is within 1..16384, the kernel runs exactly its settings, and with the descriptor
  filter on the kernel's two port sets and the flow filter's agree with its valid ports, with no
  decision left from before. When it fails the flow filter is untouched. And it succeeds whenever the
  limit is valid, the maps are loaded and the kernel does not fail.\<close>

theorem remote_config_takes_effect:
  assumes "applyRemoteAgentConfig faults fd cg cfg (kern, filt) = (err, (kern', filt'))"
  shows "(err = None \<longrightarrow> rc_MaxPayloadSize cfg \<in> {1..16384} \<and> settingsInForce fd cg cfg kern' \<and>
      (fd \<longrightarrow> portsInForce cfg kern' filt')) \<and>
    (err \<noteq> None \<longrightarrow> filt' = filt) \<and>
    (faults = noKernelFaults \<and> kernelLoaded kern \<and> rc_MaxPayloadSize cfg \<in> {1..16384} \<longrightarrow> err = None)"
  using remote_config_takes_effect_facts [OF assms] by blast

definition sampleRemote :: agentRemoteConfig where
  "sampleRemote = \<lparr>rc_SchemaVersion = ''v1'', rc_ConfigVersion = ''7'', rc_PollIntervalSeconds = 1,
     rc_HeartbeatIntervalSeconds = 30, rc_TargetPorts = [443, 0, 99999], rc_IgnorePorts = [9092],
     rc_CaptureInbound = True, rc_CaptureOutbound = False, rc_CaptureReadSyscalls = True,
     rc_CaptureWriteSyscalls = True, rc_AllowNonSocketFDs = False, rc_MaxPayloadSize = 4096\<rparr>"

definition sampleKernel :: agentKernel where
  "sampleKernel = \<lparr>ak_config = Some [], ak_targetPorts = Some [(80, 1)], ak_ignoredPorts = Some []\<rparr>"

theorem remote_config_takes_effect_witness:
  "settingsInForce True False sampleRemote
      (fst (snd (applyRemoteAgentConfig noKernelFaults True False sampleRemote (sampleKernel, None)))) \<and>
   portsInForce sampleRemote
      (fst (snd (applyRemoteAgentConfig noKernelFaults True False sampleRemote (sampleKernel, None)))) None"
proof -
  obtain err kern' filt' where a: "applyRemoteAgentConfig noKernelFaults True False sampleRemote (sampleKernel, None) =
      (err, (kern', filt'))" by (metis surj_pair)
  have l: "kernelLoaded sampleKernel" by (simp add: kernelLoaded_def sampleKernel_def)
  have "err = None"
    using remote_config_takes_effect [OF a] l by (simp add: sampleRemote_def)
  with remote_config_takes_effect [OF a] show ?thesis by (auto simp: a portsInForce_def)
qed

section \<open>The poll loop settles\<close>

lemma boundedPollInterval_range:
  "boundedPollInterval secs fallback = fallback \<or>
   boundedPollInterval secs fallback \<in> {seconds 5..seconds 3600}"
  by (auto simp: boundedPollInterval_def seconds_def Let_def)

lemma putSettings_loaded: "snd (putSettings faults settings (Some m)) \<noteq> None"
  by (induction faults settings "Some m" arbitrary: m rule: putSettings.induct)
    (auto simp: putKernelCaptureConfig_def)

lemma replace_loaded: "snd (replaceKernelPortSet faults name ports (Some m)) \<noteq> None"
proof -
  obtain e m1 where c: "clearKernelPortSet faults name (Some m) = (e, Some m1)"
    by (cases "deletePorts faults name (map fst m) m"; cases "kf_iterate faults name")
      (simp_all add: clearKernelPortSet_def)
  then show ?thesis
    by (cases e) (auto simp: replaceKernelPortSet_def putKernelPortSet_def split: prod.splits)
qed

lemma apply_loaded:
  assumes "kernelLoaded kern" "applyRemoteAgentConfig faults fd cg cfg (kern, filt) = (err, (kern', filt'))"
  shows "kernelLoaded kern'"
proof -
  obtain m t i where m: "ak_config kern = Some m" "ak_targetPorts kern = Some t" "ak_ignoredPorts kern = Some i"
    using assms(1) by (auto simp: kernelLoaded_def)
  have c: "snd (configureKernelCapture faults mp cr cw cs tp cg' (Some m)) \<noteq> None" for mp cr cw cs tp cg'
    unfolding configureKernelCapture_def by (rule putSettings_loaded)
  have f: "kernelLoaded (snd (configureKernelPortFilters faults targets ignored k))" if "kernelLoaded k" for targets ignored k
    using that replace_loaded
    by (auto simp: configureKernelPortFilters_def kernelLoaded_def split: prod.splits option.splits) (metis snd_conv)+
  have "kernelLoaded (kern\<lparr>ak_config := snd (configureKernelCapture faults mp cr cw cs tp cg' (ak_config kern))\<rparr>)"
    for mp cr cw cs tp cg'
    using c m by (auto simp: kernelLoaded_def)
  with f assms show ?thesis
    by (auto simp: applyRemoteAgentConfig_def Let_def case_prod_beta split: option.splits if_splits)
qed

lemma poll_loaded:
  "kernelLoaded (rm_kernel st) \<Longrightarrow> kernelLoaded (rm_kernel (snd (poll fd cg interval faults reply st)))"
  by (auto simp: poll_def Let_def split: sum.splits prod.splits dest: apply_loaded)

lemma poll_wait:
  "fst (poll fd cg interval faults reply st) = interval \<or>
   fst (poll fd cg interval faults reply st) \<in> {seconds 5..seconds 3600}"
  using boundedPollInterval_range by (auto simp: poll_def Let_def split: sum.splits prod.splits)

lemma pollRounds_Cons [simp]:
  "pollRounds fd cg interval (round # rounds) st =
     (fst (poll fd cg interval (fst round) (snd round) st) #
        fst (pollRounds fd cg interval rounds (snd (poll fd cg interval (fst round) (snd round) st))),
      snd (pollRounds fd cg interval rounds (snd (poll fd cg interval (fst round) (snd round) st))))"
  by (cases round) (simp add: case_prod_beta Let_def)

declare pollRounds.simps(2) [simp del]

lemma pollRounds_loaded:
  "kernelLoaded (rm_kernel st) \<Longrightarrow> kernelLoaded (rm_kernel (snd (pollRounds fd cg interval rounds st)))"
  by (induction rounds arbitrary: st) (simp_all add: poll_loaded)

lemma pollRounds_waits:
  "w \<in> set (fst (pollRounds fd cg interval rounds st)) \<Longrightarrow> w = interval \<or> w \<in> {seconds 5..seconds 3600}"
proof (induction rounds arbitrary: st)
  case (Cons round rounds)
  then show ?case using poll_wait [of fd cg interval "fst round" "snd round" st] by auto
qed simp

lemma pollRounds_append:
  "snd (pollRounds fd cg interval (xs @ ys) st) = snd (pollRounds fd cg interval ys (snd (pollRounds fd cg interval xs st)))"
  by (induction xs arbitrary: st) simp_all

text \<open>One answer that can be applied puts its configuration in force; the same answer again changes nothing.\<close>

definition configInForce :: "bool \<Rightarrow> bool \<Rightarrow> agentRemoteConfig \<Rightarrow> remoteState \<Rightarrow> bool" where
  "configInForce fd cg cfg st \<longleftrightarrow> rm_currentVersion st = rc_ConfigVersion cfg \<and>
     settingsInForce fd cg cfg (rm_kernel st) \<and> (fd \<longrightarrow> portsInForce cfg (rm_kernel st) (rm_filter st))"

lemma poll_applies:
  assumes "kernelLoaded (rm_kernel st)" "rc_MaxPayloadSize cfg \<in> {1..16384}"
    and "rm_currentVersion st \<noteq> rc_ConfigVersion cfg"
  shows "configInForce fd cg cfg (snd (poll fd cg interval noKernelFaults (Inr cfg) st))"
proof -
  obtain err kern' filt' where a: "applyRemoteAgentConfig noKernelFaults fd cg cfg (rm_kernel st, rm_filter st) =
      (err, (kern', filt'))" by (metis surj_pair)
  have "err = None" by (rule remote_config_takes_effect_facts(3) [OF a refl assms(1,2)])
  with remote_config_takes_effect_facts(1) [OF a] assms(3) show ?thesis
    by (auto simp: poll_def a configInForce_def)
qed

lemma poll_again:
  assumes "rm_currentVersion st = rc_ConfigVersion cfg" "rc_ConfigVersion cfg \<noteq> []"
  shows "snd (pollRounds fd cg interval (replicate n (noKernelFaults, Inr cfg)) st) = st"
  using assms by (induction n) (auto simp: poll_def case_prod_beta Let_def)

lemma polls_settle_facts:
  assumes "kernelLoaded (rm_kernel st)" "rc_ConfigVersion cfg \<noteq> []" "rc_MaxPayloadSize cfg \<in> {1..16384}"
    and "rm_currentVersion (snd (runAgentRemoteConfig fd cg (Some c) interval rounds st)) \<noteq> rc_ConfigVersion cfg"
  shows "configInForce fd cg cfg
      (snd (runAgentRemoteConfig fd cg (Some c) interval (rounds @ replicate (Suc n) (noKernelFaults, Inr cfg)) st))"
    and "w \<in> set (fst (runAgentRemoteConfig fd cg (Some c) interval rounds' st)) \<Longrightarrow>
      w = (if interval \<le> 0 then seconds 30 else interval) \<or> w \<in> {seconds 5..seconds 3600}"
proof -
  let ?i = "if interval \<le> 0 then seconds 30 else interval"
  let ?st = "snd (pollRounds fd cg ?i rounds st)"
  let ?st1 = "snd (poll fd cg ?i noKernelFaults (Inr cfg) ?st)"
  have ne: "rm_currentVersion ?st \<noteq> rc_ConfigVersion cfg" using assms(4) by (simp add: runAgentRemoteConfig_def)
  have f: "configInForce fd cg cfg ?st1"
    by (rule poll_applies [OF pollRounds_loaded [OF assms(1)] assms(3) ne])
  then have "rm_currentVersion ?st1 = rc_ConfigVersion cfg" by (simp add: configInForce_def)
  from poll_again [OF this assms(2)] f
  show "configInForce fd cg cfg
      (snd (runAgentRemoteConfig fd cg (Some c) interval (rounds @ replicate (Suc n) (noKernelFaults, Inr cfg)) st))"
    by (simp add: runAgentRemoteConfig_def pollRounds_append case_prod_beta Let_def)
  show "w = ?i \<or> w \<in> {seconds 5..seconds 3600}"
    if "w \<in> set (fst (runAgentRemoteConfig fd cg (Some c) interval rounds' st))"
    using that pollRounds_waits [of w fd cg ?i rounds' st] by (simp add: runAgentRemoteConfig_def)
qed

text \<open>C13. The poll loop settles: after any history of failed, refused or partly applied
  configurations, once the backend keeps answering with one valid new version and the kernel
  works, the first such answer puts that configuration in force in the kernel and in the flow
  filter, and it stays in force. In every run each wait is the configured interval (30 s if that is
  not positive) or between 5 s and an hour.\<close>

theorem polls_settle:
  assumes "kernelLoaded (rm_kernel st)" "rc_ConfigVersion cfg \<noteq> []" "rc_MaxPayloadSize cfg \<in> {1..16384}"
    and "rm_currentVersion (snd (runAgentRemoteConfig fd cg (Some c) interval rounds st)) \<noteq> rc_ConfigVersion cfg"
  shows "configInForce fd cg cfg
      (snd (runAgentRemoteConfig fd cg (Some c) interval (rounds @ replicate (Suc n) (noKernelFaults, Inr cfg)) st)) \<and>
    (\<forall>rounds'. \<forall>w \<in> set (fst (runAgentRemoteConfig fd cg (Some c) interval rounds' st)).
      w = (if interval \<le> 0 then seconds 30 else interval) \<or> w \<in> {seconds 5..seconds 3600})"
  using polls_settle_facts [OF assms] by blast

theorem polls_settle_witness:
  "configInForce True False sampleRemote
     (snd (runAgentRemoteConfig True False (Some \<lparr>ac_baseURL = ''http://b'', ac_token = ''t'', ac_timeout = 1\<rparr>) 0
       ([(noKernelFaults, Inl TransportFailed)] @ replicate (Suc 1) (noKernelFaults, Inr sampleRemote))
       \<lparr>rm_currentVersion = [], rm_kernel = sampleKernel, rm_filter = None\<rparr>))"
  by (rule polls_settle [THEN conjunct1])
    (simp_all add: kernelLoaded_def sampleKernel_def sampleRemote_def runAgentRemoteConfig_def poll_def)

end
