(* ===== verification/AgentMetrics.thy ===== *)
theory AgentMetrics
  imports AgentControl ProducerRuns
begin

text \<open>
  The agent's metrics: the kernel's drop counters and the periodic metrics event of
  \<^verbatim>\<open>cmd/agent/main.go\<close>, and the \<^verbatim>\<open>/metrics\<close> page of \<^verbatim>\<open>cmd/agent/health.go\<close>. The metrics event
  shares Kafka's client with the captured events, and with it the goroutine that reads the
  delivery reports.
\<close>

section \<open>Drop counters\<close>

record kernelDropSnapshot =
  kd_ringbufReserve :: u64
  kd_copyWrite :: u64
  kd_copyRead :: u64
  kd_iovRead :: u64
  kd_missingContext :: u64
  kd_noise :: u64
  kd_fdFilter :: u64
  kd_direction :: u64
  kd_portFilter :: u64
  kd_cgroupFilter :: u64

text \<open>\<open>dropMap idx\<close> is the value looked up; \<open>None\<close> is an error of the lookup.\<close>

definition readDropMetric :: "(u32 \<Rightarrow> u64 option) \<Rightarrow> u32 \<Rightarrow> u64" where
  "readDropMetric dropMap idx = (case dropMap idx of None \<Rightarrow> 0 | Some value \<Rightarrow> value)"

definition readKernelDropSnapshot :: "(u32 \<Rightarrow> u64 option) option \<Rightarrow> kernelDropSnapshot" where
  "readKernelDropSnapshot dropMap =
     (let read = (\<lambda>idx. case dropMap of None \<Rightarrow> 0 | Some m \<Rightarrow> readDropMetric m idx) in
      \<lparr>kd_ringbufReserve = read 0, kd_copyWrite = read 1, kd_copyRead = read 2, kd_iovRead = read 3,
       kd_missingContext = read 4, kd_noise = read 5, kd_fdFilter = read 6, kd_direction = read 7,
       kd_portFilter = read 8, kd_cgroupFilter = read 9\<rparr>)"

section \<open>The metrics event\<close>

record agentMetricsEvent =
  am_SchemaVersion :: bytes
  am_CaptureSource :: bytes
  am_CaptureMode :: bytes
  am_CreatedAt :: bytes
  am_Stats :: "(bytes \<times> u64) list"
  am_KernelDrops :: "(bytes \<times> u64) list"
  am_LocalQueueDepth :: int

definition agentMetrics :: "bytes \<Rightarrow> bytes \<Rightarrow> agentStats \<Rightarrow> kernelDropSnapshot \<Rightarrow> int \<Rightarrow> agentMetricsEvent" where
  "agentMetrics mode createdAt stats drops queueDepth = \<lparr>
     am_SchemaVersion = ''agent.metrics.v1'', am_CaptureSource = ''ebpf'', am_CaptureMode = mode,
     am_CreatedAt = createdAt,
     am_Stats = [(''ring_records'', as_ringRecords stats),
      (''decoded_events'', as_decodedEvents stats),
      (''decode_errors'', as_decodeErrors stats),
      (''data_events'', as_dataEvents stats),
      (''close_events'', as_closeEvents stats),
      (''socket_events'', as_socketEvents stats),
      (''skipped_noise'', as_skippedNoise stats),
      (''skipped_fd_filter'', as_skippedFDFilter stats),
      (''metadata_misses'', as_metadataMisses stats),
      (''metadata_cache_hits'', as_metadataCacheHits stats),
      (''metadata_proc_hits'', as_metadataProcHits stats),
      (''metadata_proc_misses'', as_metadataProcMisses stats),
      (''kernel_tuple_fallbacks'', as_kernelTupleFallbacks stats),
      (''truncated_events'', as_truncatedEvents stats),
      (''bytes_captured'', as_bytesCaptured stats),
      (''marshal_errors'', as_marshalErrors stats),
      (''produce_attempts'', as_produceAttempts stats),
      (''produce_errors'', as_produceErrors stats),
      (''produce_queue_full'', as_produceQueueFull stats),
      (''kafka_errors'', as_kafkaErrors stats),
      (''broker_unavailable_events'', as_brokerUnavailableEvents stats),
      (''broker_circuit_spool'', as_brokerCircuitSpool stats),
      (''delivery_successes'', as_deliverySuccesses stats),
      (''delivery_failures'', as_deliveryFailures stats),
      (''spool_writes'', as_spoolWrites stats),
      (''spool_write_errors'', as_spoolWriteErrors stats),
      (''spool_replayed'', as_spoolReplayed stats),
      (''spool_retained'', as_spoolRetained stats),
      (''ring_read_errors'', as_ringReadErrors stats)],
     am_KernelDrops = [(''ringbuf_reserve'', kd_ringbufReserve drops), (''copy_write'', kd_copyWrite drops),
       (''copy_read'', kd_copyRead drops), (''iov_read'', kd_iovRead drops),
       (''missing_context'', kd_missingContext drops), (''noise'', kd_noise drops),
       (''fd_filter'', kd_fdFilter drops), (''direction'', kd_direction drops),
       (''port_filter'', kd_portFilter drops), (''cgroup_filter'', kd_cgroupFilter drops)],
     am_LocalQueueDepth = queueDepth\<rparr>"

text \<open>The message handed to Kafka with its topic, if any, and the counters afterwards.
  \<open>produceFails\<close> is an error of \<open>Produce\<close>.\<close>

definition publishAgentMetrics ::
  "(agentMetricsEvent \<Rightarrow> bytes option) \<Rightarrow> bool \<Rightarrow> bytes \<Rightarrow> bytes \<Rightarrow> bytes \<Rightarrow> agentStats \<Rightarrow> kernelDropSnapshot \<Rightarrow> int \<Rightarrow>
     (bytes \<times> queuedKafkaMessage) option \<times> agentStats" where
  "publishAgentMetrics marshal produceFails topic mode createdAt stats drops queueDepth =
     (let topic1 = trim_space topic in
      if topic1 = [] then (None, stats)
      else case marshal (agentMetrics mode createdAt stats drops queueDepth) of
             None \<Rightarrow> (None, stats\<lparr>as_marshalErrors := as_marshalErrors stats + 1\<rparr>)
           | Some payload \<Rightarrow>
               if produceFails then (None, stats\<lparr>as_produceErrors := as_produceErrors stats + 1\<rparr>)
               else (Some (topic1, \<lparr>km_key = ''agent.metrics'', km_value = payload\<rparr>), stats))"

section \<open>The metrics page\<close>

definition metricsPage :: "spoolFaults \<Rightarrow> time \<Rightarrow> queuedProducer \<Rightarrow> bytes" where
  "metricsPage faults now q =
     (let stats = qp_stats q in
      concat (map (\<lambda>(name, value). name @ '' '' @ show_int value @ [CHR 0x0A])
         [(''ebpf_tracer_ring_records'', uint (as_ringRecords stats)),
          (''ebpf_tracer_decoded_events'', uint (as_decodedEvents stats)),
          (''ebpf_tracer_decode_errors'', uint (as_decodeErrors stats)),
          (''ebpf_tracer_data_events'', uint (as_dataEvents stats)),
          (''ebpf_tracer_close_events'', uint (as_closeEvents stats)),
          (''ebpf_tracer_skipped_noise'', uint (as_skippedNoise stats)),
          (''ebpf_tracer_skipped_fd_filter'', uint (as_skippedFDFilter stats)),
          (''ebpf_tracer_metadata_misses'', uint (as_metadataMisses stats)),
          (''ebpf_tracer_metadata_cache_hits'', uint (as_metadataCacheHits stats)),
          (''ebpf_tracer_metadata_proc_hits'', uint (as_metadataProcHits stats)),
          (''ebpf_tracer_metadata_proc_misses'', uint (as_metadataProcMisses stats)),
          (''ebpf_tracer_kernel_tuple_fallbacks'', uint (as_kernelTupleFallbacks stats)),
          (''ebpf_tracer_truncated_events'', uint (as_truncatedEvents stats)),
          (''ebpf_tracer_bytes_captured'', uint (as_bytesCaptured stats)),
          (''ebpf_tracer_local_queue_depth'', depth q),
          (''ebpf_tracer_local_queue_capacity'', int (qp_capacity q)),
          (''ebpf_tracer_local_queue_enqueued'', uint (as_localQueueEnqueued stats)),
          (''ebpf_tracer_local_queue_dropped'', uint (as_localQueueDropped stats)),
          (''ebpf_tracer_produce_attempts'', uint (as_produceAttempts stats)),
          (''ebpf_tracer_produce_errors'', uint (as_produceErrors stats)),
          (''ebpf_tracer_produce_queue_full'', uint (as_produceQueueFull stats)),
          (''ebpf_tracer_kafka_errors'', uint (as_kafkaErrors stats)),
          (''ebpf_tracer_broker_unavailable'', boolMetric (brokerUnavailable now q)),
          (''ebpf_tracer_broker_unavailable_events'', uint (as_brokerUnavailableEvents stats)),
          (''ebpf_tracer_broker_circuit_spool'', uint (as_brokerCircuitSpool stats)),
          (''ebpf_tracer_delivery_successes'', uint (as_deliverySuccesses stats)),
          (''ebpf_tracer_delivery_failures'', uint (as_deliveryFailures stats)),
          (''ebpf_tracer_spool_writes'', uint (as_spoolWrites stats)),
          (''ebpf_tracer_spool_write_errors'', uint (as_spoolWriteErrors stats)),
          (''ebpf_tracer_spool_replayed'', uint (as_spoolReplayed stats)),
          (''ebpf_tracer_spool_retained'', uint (as_spoolRetained stats)),
          (''ebpf_tracer_spool_bytes'', spoolBytes faults q),
          (''ebpf_tracer_ring_read_errors'', uint (as_ringReadErrors stats))]))"

section \<open>Metrics that fail come back as events\<close>

text \<open>
  A metrics message carries no delivery channel, so its report is read by the goroutine of the
  captured events. The spool does not record a topic, and what is replayed is produced to the
  topic of the raw events.
\<close>

lemma spool_then_replay:
  assumes "goodLib lib" "int L \<le> scannerLimit" "spoolable lib L msg" "reason \<in> spoolReasons"
    and "qp_spool q = Some s" "holds lib s ms" "\<forall>m \<in> set ms. spoolable lib L m"
    and "int (length (fileContent s)) < ds_maxBytes s" "length (qp_queue q) + length ms < qp_capacity q"
  shows "msg \<in> set (qp_queue (replaySpool lib noFaults noFaults later (spoolMessage lib noFaults now reason msg q)))"
proof -
  obtain s' where w: "spool_write lib noFaults now reason msg s = (True, s')" "holds lib s' (ms @ [msg])"
    using holds_write [OF assms(6,4,8)] by blast
  let ?q = "spoolMessage lib noFaults now reason msg q"
  have sp: "qp_spool ?q = Some s'" using assms(5) w(1) by (simp add: spoolMessage_def)
  have read: "spool_readAll lib noFaults s' = Some (ms @ [msg])"
    by (rule holds_read [OF assms(1) w(2) _ assms(2)]) (use assms(3,7) in \<open>auto simp: noFaults_def\<close>)
  have fits: "qp_queue (snd (replayInto msgs q0)) = qp_queue q0 @ msgs \<and> fst (replayInto msgs q0) = []"
    if "length (qp_queue q0) + length msgs \<le> qp_capacity q0" for msgs q0
    using that
  proof (induction msgs arbitrary: q0)
    case (Cons m msgs)
    then obtain q1 where t: "trySend m q0 = Some q1" by (auto simp: trySend_def)
    then have "qp_capacity q1 = qp_capacity q0" by (auto simp: trySend_def split: if_splits)
    with Cons.IH [of q1] Cons.prems trySend_effect [OF t] show ?case by (simp add: t)
  qed simp
  let ?q1 = "?q\<lparr>qp_spool := Some (s'\<lparr>ds_file := Some []\<rparr>)\<rparr>"
  obtain retained q2 where r: "replayInto (ms @ [msg]) ?q1 = (retained, q2)" by force
  have "qp_queue q2 = qp_queue q @ ms @ [msg]" "retained = []"
    using fits [of ?q1 "ms @ [msg]"] r assms(9) by simp_all
  moreover have "spool_drainAll lib noFaults s' = (Some (ms @ [msg]), s'\<lparr>ds_file := Some []\<rparr>)"
    using read by (simp add: spool_drainAll_def noFaults_def)
  ultimately show ?thesis by (simp add: replaySpool_def sp r Let_def)
qed

lemma failed_metrics_become_events_facts:
  assumes "publishAgentMetrics marshal produceFails topic mode createdAt stats drops queueDepth = (Some (t, msg), stats')"
    and "goodLib lib" "int L \<le> scannerLimit" "spoolable lib L msg"
    and "qp_spool q = Some s" "holds lib s ms" "\<forall>m \<in> set ms. spoolable lib L m"
    and "int (length (fileContent s)) < ds_maxBytes s" "length (qp_queue q) + length ms < qp_capacity q"
  shows "msg \<in> set (qp_queue (replaySpool lib noFaults noFaults later
           (handleReport lib noFaults now (DeliveryFailed unavailable msg) q)))" "km_key msg = ''agent.metrics''"
proof -
  let ?q = "q\<lparr>qp_stats := (qp_stats q)\<lparr>as_deliveryFailures := as_deliveryFailures (qp_stats q) + 1\<rparr>\<rparr>"
  let ?q2 = "if unavailable then markBrokerUnavailable now ?q else ?q"
  show "km_key msg = ''agent.metrics''"
    using assms(1) by (auto simp: publishAgentMetrics_def Let_def split: option.splits if_splits)
  have "km_value msg \<noteq> []" using assms(4) by (simp add: spoolable_def)
  then have "handleReport lib noFaults now (DeliveryFailed unavailable msg) q =
      spoolMessage lib noFaults now ''delivery_failure'' msg ?q2" by (simp add: handleReport_def Let_def)
  moreover have "msg \<in> set (qp_queue (replaySpool lib noFaults noFaults later
      (spoolMessage lib noFaults now ''delivery_failure'' msg ?q2)))"
    using assms(5-9)
    by (intro spool_then_replay [OF assms(2-4), where s = s and ms = ms]) (auto simp: spoolReasons_def)
  ultimately show "msg \<in> set (qp_queue (replaySpool lib noFaults noFaults later
           (handleReport lib noFaults now (DeliveryFailed unavailable msg) q)))" by simp
qed

text \<open>A metrics event that Kafka fails to deliver re-enters the agent as if it were a captured event:
  once its report has been read and the spool replayed, it waits in the queue whose messages are
  produced to the topic of the raw events.\<close>

theorem failed_metrics_become_events:
  assumes "publishAgentMetrics marshal produceFails topic mode createdAt stats drops queueDepth = (Some (t, msg), stats')"
    and "goodLib lib" "int L \<le> scannerLimit" "spoolable lib L msg"
    and "qp_spool q = Some s" "holds lib s ms" "\<forall>m \<in> set ms. spoolable lib L m"
    and "int (length (fileContent s)) < ds_maxBytes s" "length (qp_queue q) + length ms < qp_capacity q"
  shows "km_key msg = ''agent.metrics'' \<and> msg \<in> set (qp_queue (replaySpool lib noFaults noFaults later
      (handleReport lib noFaults now (DeliveryFailed unavailable msg) q)))"
  using failed_metrics_become_events_facts [OF assms] by blast

definition idleProducer :: queuedProducer where
  "idleProducer = newQueuedProducer sampleLib noFaults noFaults 0 backpressureBestEffort 10 zeroAgentStats
     (Some \<lparr>ds_file = None, ds_maxBytes = 1000\<rparr>) 30"

theorem failed_metrics_become_events_witness:
  "\<lparr>km_key = ''agent.metrics'', km_value = ''m''\<rparr> \<in> set (qp_queue (replaySpool sampleLib noFaults noFaults 60
     (handleReport sampleLib noFaults 30 (DeliveryFailed True \<lparr>km_key = ''agent.metrics'', km_value = ''m''\<rparr>) idleProducer)))"
proof -
  let ?m = "\<lparr>km_key = ''agent.metrics'', km_value = ''m''\<rparr>"
  have p: "publishAgentMetrics (\<lambda>e. Some ''m'') False ''karaxys.agent.metrics'' ''pid'' [] zeroAgentStats
      (readKernelDropSnapshot None) 0 = (Some (''karaxys.agent.metrics'', ?m), zeroAgentStats)"
  proof -
    have "trim_space ''karaxys.agent.metrics'' = ''karaxys.agent.metrics''" by code_simp
    then show ?thesis by (simp add: publishAgentMetrics_def)
  qed
  have "length (sl_marshal sampleLib (spoolRecord sampleLib now reason ?m)) < 200" if "reason \<in> spoolReasons" for now reason
    using spoolReasons_chars [OF that] by (simp add: sampleLib_def spoolRecord_def)
  then have s: "spoolable sampleLib 200 ?m" by (auto simp: spoolable_def lineOf_def)
  show ?thesis
    by (rule failed_metrics_become_events [where s = "\<lparr>ds_file = None, ds_maxBytes = 1000\<rparr>" and ms = "[]", THEN conjunct2, OF p sampleLib_good _ s])
      (simp_all add: scannerLimit_def idleProducer_def newQueuedProducer_def replaySpool_def spool_drainAll_def
        spool_readAll_def holds_def fileContent_def)
qed

end
