(* ===== verification/CaptureTarget.thy ===== *)
theory CaptureTarget
  imports Target
begin

text \<open>
  The targets of the one-process variant, \<^verbatim>\<open>cmd/karaxys-capture/target.go\<close>, with the two
  parsers of \<^verbatim>\<open>metadata.go\<close> that its command line needs. Every process is traced unless PIDs
  are given; a tree is found by walking from each process towards its ancestors, where the agent
  searches from the root. The manager is one more instance of \<open>synced_set\<close>.
\<close>

section \<open>The environment\<close>

text \<open>Beside what the agent's manager sees: the directories of /proc when \<open>livePIDs\<close> looks at
  them, and the order in which the map of parents is iterated.\<close>

record captureTargetEnv = targetEnv +
  ct_exists :: "u32 \<Rightarrow> bool"
  ct_parentOrder :: "u32 list"

section \<open>Finding processes\<close>

definition cap_sortedPIDs :: "u32 set \<Rightarrow> u32 list" where
  "cap_sortedPIDs pids = sorted_list_of_set pids"

definition cap_discoverAllPIDs :: "captureTargetEnv \<Rightarrow> u32 list option" where
  "cap_discoverAllPIDs env =
     (case te_entries env of
        None \<Rightarrow> None
      | Some entries \<Rightarrow> Some (cap_sortedPIDs (set (map snd (procPIDs entries)))))"

definition livePIDs :: "captureTargetEnv \<Rightarrow> u32 list \<Rightarrow> u32 list" where
  "livePIDs env pids = cap_sortedPIDs (set (filter (\<lambda>pid. pid \<noteq> 0 \<and> ct_exists env pid) pids))"

definition parentPID :: "captureTargetEnv \<Rightarrow> u32 \<Rightarrow> u32 option" where
  "parentPID env pid =
     (case te_stat env (show_nat (unat pid)) of
        None \<Rightarrow> None
      | Some raw \<Rightarrow>
          (let close = last_index CHR '')'' raw in
           if close < 0 then None
           else let fs = strings_Fields (drop (nat (close + 1)) raw) in
             if length fs < 2 then None else map_option of_nat (parse_uint 32 (fs ! 1))))"

definition parentsOf :: "captureTargetEnv \<Rightarrow> (bytes \<times> bool) list \<Rightarrow> (u32 \<Rightarrow> u32 option)" where
  "parentsOf env entries =
     fold (\<lambda>(name, pid) parent. case parentPID env pid of None \<Rightarrow> parent | Some ppid \<Rightarrow> parent(pid \<mapsto> ppid))
       (procPIDs entries) Map.empty"

text \<open>The inner loop, for the hops that are left.\<close>

fun walk :: "(u32 \<Rightarrow> u32 option) \<Rightarrow> u32 set \<Rightarrow> nat \<Rightarrow> u32 \<Rightarrow> bool" where
  "walk parent targets 0 cur = False"
| "walk parent targets (Suc hops) cur =
     (if cur \<in> targets then True
      else case parent cur of
             None \<Rightarrow> False
           | Some next \<Rightarrow> if next = cur \<or> next = 0 then False else walk parent targets hops next)"

fun markDescendants :: "(u32 \<Rightarrow> u32 option) \<Rightarrow> u32 list \<Rightarrow> u32 set \<Rightarrow> u32 set" where
  "markDescendants parent [] targets = targets"
| "markDescendants parent (pid # pids) targets =
     markDescendants parent pids (if walk parent targets 1024 pid then insert pid targets else targets)"

definition cap_discoverPIDTree :: "captureTargetEnv \<Rightarrow> u32 list \<Rightarrow> u32 list option" where
  "cap_discoverPIDTree env seed =
     (case te_entries env of
        None \<Rightarrow> None
      | Some entries \<Rightarrow>
          (let parent = parentsOf env entries;
               targets = set (filter (\<lambda>pid. pid \<noteq> 0) seed)
           in Some (livePIDs env (cap_sortedPIDs
                (markDescendants parent (mapOrder (ct_parentOrder env) (dom parent)) targets)))))"

section \<open>The manager\<close>

text \<open>\<open>discover\<close> is the closure of the constructor: every process, the given ones, or their trees.\<close>

datatype discovery = AllPIDs | GivenPIDs "u32 list" | GivenTrees "u32 list"

fun discover :: "discovery \<Rightarrow> captureTargetEnv \<Rightarrow> u32 list option" where
  "discover AllPIDs env = cap_discoverAllPIDs env"
| "discover (GivenPIDs seed) env = Some (livePIDs env seed)"
| "discover (GivenTrees seed) env = cap_discoverPIDTree env seed"

record allPIDsTargetManager =
  pm_bpfMap :: "u32 set"
  pm_maxPIDs :: int
  pm_discover :: discovery
  pm_mode :: bytes
  pm_active :: "u32 set"

definition newAllPIDsTargetManager :: "int \<Rightarrow> allPIDsTargetManager" where
  "newAllPIDsTargetManager maxPIDs =
     \<lparr>pm_bpfMap = {}, pm_maxPIDs = maxPIDs, pm_discover = AllPIDs, pm_mode = ''all-pids'', pm_active = {}\<rparr>"

definition newScopedTargetManager :: "int \<Rightarrow> u32 list \<Rightarrow> bool \<Rightarrow> allPIDsTargetManager" where
  "newScopedTargetManager maxPIDs targetPIDs pidTree =
     \<lparr>pm_bpfMap = {}, pm_maxPIDs = maxPIDs,
      pm_discover = (if pidTree then GivenTrees targetPIDs else GivenPIDs targetPIDs),
      pm_mode = (if pidTree then ''pid-tree'' else ''pids''), pm_active = {}\<rparr>"

datatype captureTargetError = DiscoverFailed bytes | PIDCountExceeds nat int | AddTargetFailed u32

definition pm_refresh :: "captureTargetEnv \<Rightarrow> allPIDsTargetManager \<Rightarrow> captureTargetError option \<times> allPIDsTargetManager" where
  "pm_refresh env m =
     (case discover (pm_discover m) env of
        None \<Rightarrow> (Some (DiscoverFailed (pm_mode m)), m)
      | Some pids \<Rightarrow>
          if pm_maxPIDs m > 0 \<and> int (length pids) > pm_maxPIDs m
          then (Some (PIDCountExceeds (length pids) (pm_maxPIDs m)), m)
          else case addTargets (te_putPID env) (pm_active m) pids (pm_bpfMap m) of
                 (Some pid, kern) \<Rightarrow> (Some (AddTargetFailed pid), m\<lparr>pm_bpfMap := kern\<rparr>)
               | (None, kern) \<Rightarrow>
                   (let next = set pids in
                    (None, m\<lparr>pm_bpfMap := removeTargets (te_deletePID env) (pm_active m) next kern, pm_active := next\<rparr>)))"

text \<open>The loop of \<open>run\<close>: one refresh per tick, whatever the last one returned.\<close>

definition pm_tick :: "captureTargetEnv \<Rightarrow> allPIDsTargetManager \<Rightarrow> allPIDsTargetManager" where
  "pm_tick env m = snd (pm_refresh env m)"

section \<open>Command line\<close>

fun parsePIDs :: "bytes list \<Rightarrow> bytes + u32 list" where
  "parsePIDs [] = Inr []"
| "parsePIDs (raw # parts) =
     (let part = trim_space raw in
      if part = [] then parsePIDs parts
      else case parse_uint 32 part of
             None \<Rightarrow> Inl part
           | Some pid \<Rightarrow>
               if pid = 0 then Inl part
               else case parsePIDs parts of
                      Inl err \<Rightarrow> Inl err
                    | Inr pids \<Rightarrow> Inr (of_nat pid # pids))"

definition parsePIDList :: "bytes \<Rightarrow> bytes + u32 list" where
  "parsePIDList raw = parsePIDs (split_on CHR '','' raw)"

text \<open>\<open>parseURL\<close> is \<open>url.Parse\<close> with \<open>Port\<close> and \<open>Scheme\<close>.\<close>

definition portFromURL :: "(bytes \<Rightarrow> (bytes \<times> bytes) option) \<Rightarrow> bytes \<Rightarrow> int" where
  "portFromURL parseURL raw =
     (case parseURL (trim_space raw) of
        None \<Rightarrow> 0
      | Some (p, scheme) \<Rightarrow>
          if p \<noteq> [] then (case atoi p of None \<Rightarrow> 0 | Some port \<Rightarrow> port)
          else if to_lower scheme = ''http'' then 80
          else if to_lower scheme = ''https'' then 443
          else 0)"

section \<open>The manager keeps the kernel in step\<close>

lemma pm_refresh_cases:
  obtains (same) "pm_tick env m = m"
  | (failed) pids pid kern where "addTargets (te_putPID env) (pm_active m) pids (pm_bpfMap m) = (Some pid, kern)"
      "pm_tick env m = m\<lparr>pm_bpfMap := kern\<rparr>"
  | (synced) pids kern where "discover (pm_discover m) env = Some pids"
      "pm_maxPIDs m > 0 \<longrightarrow> int (length pids) \<le> pm_maxPIDs m"
      "addTargets (te_putPID env) (pm_active m) pids (pm_bpfMap m) = (None, kern)"
      "pm_tick env m = m\<lparr>pm_bpfMap := removeTargets (te_deletePID env) (pm_active m) (set pids) kern, pm_active := set pids\<rparr>"
proof (cases "discover (pm_discover m) env")
  case None
  then show thesis by (intro same) (simp add: pm_tick_def pm_refresh_def)
next
  case (Some pids)
  obtain res kern where a: "addTargets (te_putPID env) (pm_active m) pids (pm_bpfMap m) = (res, kern)" by force
  show thesis
  proof (cases "pm_maxPIDs m > 0 \<and> int (length pids) > pm_maxPIDs m")
    case True
    with Some show thesis by (intro same) (simp add: pm_tick_def pm_refresh_def)
  next
    case False
    show thesis
    proof (cases res)
      case None
      show thesis
        by (rule synced [OF Some _ a [unfolded None]])
          (use False Some a None in \<open>auto simp: pm_tick_def pm_refresh_def Let_def\<close>)
    next
      case (Some pid)
      show thesis
        by (rule failed [OF a [unfolded Some]])
          (use False \<open>discover _ _ = Some pids\<close> a Some in \<open>auto simp: pm_tick_def pm_refresh_def\<close>)
    qed
  qed
qed

definition faultlessTick :: "captureTargetEnv \<Rightarrow> bool" where
  "faultlessTick env \<longleftrightarrow> (\<forall>pid. te_putPID env pid \<and> te_deletePID env pid)"

interpretation capture_pids: synced_set pm_tick pm_active pm_bpfMap faultlessTick
proof (unfold_locales, goal_cases)
  case (1 s e)
  show ?case
  proof (cases rule: pm_refresh_cases [of e s])
    case (failed pids pid kern)
    with 1 addTargets_kernel [OF failed(1)] show ?thesis by auto
  next
    case (synced pids kern)
    with 1 addTargets_kernel [OF synced(3)] show ?thesis by (auto intro!: removeTargets_keeps)
  qed (use 1 in simp)
next
  case (2 e s)
  show ?case
  proof (cases rule: pm_refresh_cases [of e s])
    case (failed pids pid kern)
    with 2(1) addTargets_kernel [OF failed(1)] show ?thesis by (auto simp: faultlessTick_def)
  next
    case (synced pids kern)
    with 2 addTargets_kernel [OF synced(3)] show ?thesis
      by (simp add: removeTargets_exact faultlessTick_def)
  qed (use 2 in simp)
next
  case (3 k s e)
  show ?case
  proof (cases rule: pm_refresh_cases [of e s])
    case (failed pids pid kern)
    with 3 addTargets_kernel [OF failed(1)] show ?thesis by auto
  next
    case (synced pids kern)
    with 3 addTargets_kernel [OF synced(3)] show ?thesis by (auto intro!: removeTargets_keeps)
  qed (use 3 in simp)
qed

definition withinLimit :: "allPIDsTargetManager \<Rightarrow> bool" where
  "withinLimit m \<longleftrightarrow> (pm_maxPIDs m > 0 \<longrightarrow> int (card (pm_active m)) \<le> pm_maxPIDs m)"

lemma tick_limit: "pm_maxPIDs (pm_tick env m) = pm_maxPIDs m"
  by (cases rule: pm_refresh_cases [of env m]) simp_all

interpretation limited_pids: step_invariant pm_tick withinLimit
proof
  fix m env assume "withinLimit m"
  then show "withinLimit (pm_tick env m)"
  proof (cases rule: pm_refresh_cases [of env m])
    case (synced pids kern)
    then show ?thesis using card_length [of pids] by (auto simp: withinLimit_def)
  qed (simp_all add: withinLimit_def)
qed

lemma capture_traces_targets_facts:
  assumes "m0 = newAllPIDsTargetManager maxPIDs \<or> m0 = newScopedTargetManager maxPIDs targetPIDs pidTree"
    and "m = fold pm_tick envs m0"
  shows "pm_active m \<subseteq> pm_bpfMap m"
    and "\<forall>env \<in> set envs. faultlessTick env \<Longrightarrow> pm_bpfMap m = pm_active m"
    and "0 < maxPIDs \<Longrightarrow> int (card (pm_active m)) \<le> maxPIDs"
proof -
  have start: "pm_active m0 = {}" "pm_bpfMap m0 = {}" "pm_maxPIDs m0 = maxPIDs"
    using assms(1) by (auto simp: newAllPIDsTargetManager_def newScopedTargetManager_def)
  show "pm_active m \<subseteq> pm_bpfMap m" using capture_pids.run_covers [of m0 envs] start assms(2) by simp
  show "\<forall>env \<in> set envs. faultlessTick env \<Longrightarrow> pm_bpfMap m = pm_active m"
    using capture_pids.run_exact [of envs m0] start assms(2) by simp
  have "pm_maxPIDs m = maxPIDs"
    unfolding assms(2) start(3) [symmetric] by (induction envs arbitrary: m0) (simp_all add: tick_limit)
  moreover have "withinLimit m" using limited_pids.run_keeps [of m0 envs] start assms(2) by (simp add: withinLimit_def)
  ultimately show "0 < maxPIDs \<Longrightarrow> int (card (pm_active m)) \<le> maxPIDs" by (simp add: withinLimit_def)
qed

text \<open>C18. Whichever processes karaxys-capture is told to trace, after any history of refreshes every
  active target is in the kernel's map, the kernel traces exactly the active targets while it accepts
  every operation, and with a limit there are never more of them than the limit.\<close>

theorem capture_traces_targets:
  assumes "m0 = newAllPIDsTargetManager maxPIDs \<or> m0 = newScopedTargetManager maxPIDs targetPIDs pidTree"
    and "m = fold pm_tick envs m0"
  shows "pm_active m \<subseteq> pm_bpfMap m \<and>
    ((\<forall>env \<in> set envs. faultlessTick env) \<longrightarrow> pm_bpfMap m = pm_active m) \<and>
    (0 < maxPIDs \<longrightarrow> int (card (pm_active m)) \<le> maxPIDs)"
  using capture_traces_targets_facts [OF assms] by blast

section \<open>The tree\<close>

definition parent_rel :: "(u32 \<Rightarrow> u32 option) \<Rightarrow> (u32 \<times> u32) set" where
  "parent_rel parent = {(p, c). parent c = Some p \<and> p \<noteq> 0 \<and> p \<noteq> c}"

lemma walk_iff: "walk parent targets n cur \<longleftrightarrow> (\<exists>k < n. \<exists>t \<in> targets. (t, cur) \<in> parent_rel parent ^^ k)"
proof (induction n arbitrary: cur)
  case (Suc n)
  have "(\<exists>k < Suc n. \<exists>t \<in> targets. (t, cur) \<in> parent_rel parent ^^ k) \<longleftrightarrow>
      cur \<in> targets \<or> (\<exists>k < n. \<exists>t \<in> targets. (t, cur) \<in> parent_rel parent ^^ Suc k)"
    unfolding less_Suc_eq_0_disj by (auto simp del: relpow.simps(2))
  also have "\<dots> \<longleftrightarrow> cur \<in> targets \<or> (\<exists>p. (p, cur) \<in> parent_rel parent \<and> walk parent targets n p)"
    by (simp only: Suc.IH relpow.simps) blast
  also have "\<dots> \<longleftrightarrow> walk parent targets (Suc n) cur"
    by (auto simp: parent_rel_def split: option.splits)
  finally show ?case by blast
qed simp

lemma mark_grows: "targets \<subseteq> markDescendants parent pids targets"
  by (induction parent pids targets rule: markDescendants.induct) (auto split: if_splits)

lemma mark_sound:
  "targets \<subseteq> (parent_rel parent)\<^sup>* `` roots \<Longrightarrow> markDescendants parent pids targets \<subseteq> (parent_rel parent)\<^sup>* `` roots"
proof (induction parent pids targets rule: markDescendants.induct)
  case (2 parent pid pids targets)
  have "pid \<in> (parent_rel parent)\<^sup>* `` roots" if "walk parent targets 1024 pid"
  proof -
    from that obtain k t where "t \<in> targets" "(t, pid) \<in> parent_rel parent ^^ k" unfolding walk_iff by blast
    then show ?thesis using 2(2) by (meson Image_iff relpow_imp_rtrancl rtrancl_trans subset_eq)
  qed
  with 2 show ?case by simp
qed simp

lemma mark_complete:
  "pid \<in> set pids \<Longrightarrow> walk parent targets 1024 pid \<Longrightarrow> pid \<in> markDescendants parent pids targets"
proof (induction parent pids targets rule: markDescendants.induct)
  case (2 parent p pids targets)
  show ?case
  proof (cases "p = pid")
    case True
    with 2(3) mark_grows [of "insert pid targets" parent pids] show ?thesis by simp
  next
    case False
    have "walk parent (if walk parent targets 1024 p then insert p targets else targets) 1024 pid"
      using 2(3) unfolding walk_iff by auto
    with 2(1,2) False show ?thesis by simp
  qed
qed simp

lemma parentsOf_eq:
  "parentsOf env entries pid = (if pid \<in> snd ` set (procPIDs entries) then parentPID env pid else None)"
proof -
  have "fold (\<lambda>(name, pid) parent. case parentPID env pid of None \<Rightarrow> parent | Some ppid \<Rightarrow> parent(pid \<mapsto> ppid)) procs m pid =
      (if pid \<in> snd ` set procs \<and> parentPID env pid \<noteq> None then parentPID env pid else m pid)" for procs m
    by (induction procs arbitrary: m) (auto split: option.splits)
  note this [of "procPIDs entries" Map.empty]
  then show ?thesis unfolding parentsOf_def by (simp split: if_splits)
qed

text \<open>What the walk finds: only descendants of the seeds that are alive, and every one less than 1024
  generations away, in whatever order the map of parents is iterated.\<close>

lemma mark_exact:
  fixes roots :: "u32 set"
  assumes "dom parent \<subseteq> set order"
  defines "M \<equiv> markDescendants parent order roots"
  shows "M \<subseteq> (parent_rel parent)\<^sup>* `` roots"
    and "s \<in> roots \<Longrightarrow> k < 1024 \<Longrightarrow> (s, p) \<in> parent_rel parent ^^ k \<Longrightarrow> p \<in> M"
proof -
  show "M \<subseteq> (parent_rel parent)\<^sup>* `` roots" unfolding M_def by (rule mark_sound) auto
  assume a: "s \<in> roots" "k < 1024" "(s, p) \<in> parent_rel parent ^^ k"
  show "p \<in> M"
  proof (cases k)
    case 0
    then have "p \<in> roots" using a by simp
    then show ?thesis unfolding M_def using mark_grows by blast
  next
    case (Suc n)
    with a(3) have "p \<in> dom parent" by (auto simp: parent_rel_def)
    then have "p \<in> set order" using assms(1) by blast
    moreover have "walk parent roots 1024 p" unfolding walk_iff using a by blast
    ultimately show ?thesis unfolding M_def by (rule mark_complete)
  qed
qed

lemma scoped_tree:
  assumes "te_entries env = Some entries" "cap_discoverPIDTree env seed = Some pids"
  defines "R \<equiv> parent_rel (parentsOf env entries)"
  shows "sorted pids" "distinct pids"
    and "p \<in> set pids \<Longrightarrow> ct_exists env p \<and> p \<noteq> 0 \<and> (\<exists>s \<in> set seed. s \<noteq> 0 \<and> (s, p) \<in> R\<^sup>*)"
    and "ct_exists env p \<Longrightarrow> p \<noteq> 0 \<Longrightarrow> s \<in> set seed \<Longrightarrow> s \<noteq> 0 \<Longrightarrow> k < 1024 \<Longrightarrow> (s, p) \<in> R ^^ k \<Longrightarrow> p \<in> set pids"
proof -
  define parent where "parent = parentsOf env entries"
  define M where "M = markDescendants parent (mapOrder (ct_parentOrder env) (dom parent)) {pid \<in> set seed. pid \<noteq> 0}"
  have pids: "pids = sorted_list_of_set {p \<in> M. p \<noteq> 0 \<and> ct_exists env p}"
    using assms(1,2) by (simp add: cap_discoverPIDTree_def livePIDs_def cap_sortedPIDs_def Let_def flip: M_def parent_def)
  then have members: "q \<in> set pids \<longleftrightarrow> q \<in> M \<and> q \<noteq> 0 \<and> ct_exists env q" for q by simp
  show "sorted pids" "distinct pids" by (simp_all add: pids)
  have "dom parent \<subseteq> set (mapOrder (ct_parentOrder env) (dom parent))" by (simp add: mapOrder_set)
  note M = mark_exact [OF this, where roots = "{pid \<in> set seed. pid \<noteq> 0}", folded M_def]
  show "p \<in> set pids \<Longrightarrow> ct_exists env p \<and> p \<noteq> 0 \<and> (\<exists>s \<in> set seed. s \<noteq> 0 \<and> (s, p) \<in> R\<^sup>*)"
    using M(1) unfolding members R_def parent_def [symmetric] by blast
  show "ct_exists env p \<Longrightarrow> p \<noteq> 0 \<Longrightarrow> s \<in> set seed \<Longrightarrow> s \<noteq> 0 \<Longrightarrow> k < 1024 \<Longrightarrow> (s, p) \<in> R ^^ k \<Longrightarrow> p \<in> set pids"
    using M(2) [of s k p] unfolding members R_def parent_def [symmetric] by simp
qed

section \<open>The agent's tree and this one\<close>

text \<open>The shape of /proc: directories are named by the number alone, and in a stat file the last
  closing parenthesis is followed by a blank.\<close>

definition canonicalProc :: "captureTargetEnv \<Rightarrow> (bytes \<times> bool) list \<Rightarrow> bool" where
  "canonicalProc env entries \<longleftrightarrow> (\<forall>(name, pid) \<in> set (procPIDs entries).
     name = show_nat (unat pid) \<and>
     (\<forall>stat. te_stat env name = Some stat \<longrightarrow> (\<exists>a b. stat = a @ '') '' @ b \<and> CHR '')'' \<notin> set b)))"

lemma Fields_Nil: "strings_Fields [] = []"
proof -
  have "trim_with go_spaces [] = []" by code_simp
  then show ?thesis by (simp add: strings_Fields.simps [of "[]"])
qed

lemma parent_parsers_agree:
  assumes "te_stat env (show_nat (unat pid)) = Some (a @ '') '' @ b)" "CHR '')'' \<notin> set b"
  shows "parentPID env pid = parsePPIDFromStat (a @ '') '' @ b)"
proof -
  have "last_index CHR '')'' (a @ CHR '')'' # CHR '' '' # b) = int (length a)"
    using assms(2) by (intro last_index_last) simp
  moreover have "drop (nat (int (length a) + 1)) (a @ CHR '')'' # CHR '' '' # b) = CHR '' '' # b"
    by (simp add: nat_add_distrib)
  moreover have "drop (nat (int (length a) + 2)) (a @ CHR '')'' # CHR '' '' # b) = b" by (rule drop_after)
  ultimately show ?thesis
    using assms by (cases "b = []") (simp_all add: parentPID_def parsePPIDFromStat_def Let_def Fields_space Fields_Nil)
qed

lemma addChild_fold:
  "c \<in> set (fold (addChild tenv) procs ch p) \<longleftrightarrow> c \<in> set (ch p) \<or> (p \<noteq> 0 \<and>
     (\<exists>name stat. (name, c) \<in> set procs \<and> te_stat tenv name = Some stat \<and> parsePPIDFromStat stat = Some p))"
  by (induction procs arbitrary: ch) (auto simp: addChild_def split: option.splits)

lemma truncate_fields [simp]:
  "te_entries (targetEnv.truncate env) = te_entries env" "te_stat (targetEnv.truncate env) = te_stat env"
  by (simp_all add: targetEnv.defs)

lemma child_rel_eq:
  assumes "te_entries env = Some entries" "processChildren (targetEnv.truncate env) = Some children"
  shows "child_rel children = {(p, c). p \<noteq> 0 \<and>
    (\<exists>name stat. (name, c) \<in> set (procPIDs entries) \<and> te_stat env name = Some stat \<and> parsePPIDFromStat stat = Some p)}"
proof -
  have "children = fold (addChild (targetEnv.truncate env)) (procPIDs entries) (\<lambda>_. [])"
    using assms by (simp add: processChildren_def)
  then show ?thesis by (simp add: child_rel_def addChild_fold)
qed

lemma rels_agree:
  assumes "te_entries env = Some entries" "canonicalProc env entries"
    and "processChildren (targetEnv.truncate env) = Some children"
  shows "parent_rel (parentsOf env entries) = child_rel children - Id"
proof -
  have "parentPID env c = Some p \<longleftrightarrow> (\<exists>stat. te_stat env name = Some stat \<and> parsePPIDFromStat stat = Some p)"
    if "(name, c) \<in> set (procPIDs entries)" for name c p
  proof -
    have n: "name = show_nat (unat c)"
      and shape: "\<And>stat. te_stat env name = Some stat \<Longrightarrow> \<exists>a b. stat = a @ '') '' @ b \<and> CHR '')'' \<notin> set b"
      using assms(2) that by (auto simp: canonicalProc_def)
    show ?thesis
    proof (cases "te_stat env name")
      case None
      then show ?thesis by (simp add: parentPID_def n)
    next
      case (Some stat)
      with shape parent_parsers_agree [of env c] show ?thesis by (auto simp: n)
    qed
  qed
  then show ?thesis
    unfolding child_rel_eq [OF assms(1,3)] parent_rel_def parentsOf_eq by (force split: if_splits)
qed


definition captureTree :: captureTargetEnv where
  "captureTree = targetEnv.extend treeEnv \<lparr>ct_exists = (\<lambda>pid. pid \<in> {1, 7, 8}), ct_parentOrder = [8]\<rparr>"


theorem capture_traces_targets_witness:
  "pm_bpfMap (fold pm_tick [captureTree, captureTree] (newScopedTargetManager 5 [7] True)) =
     pm_active (fold pm_tick [captureTree, captureTree] (newScopedTargetManager 5 [7] True))"
  using capture_traces_targets [OF disjI2 [OF refl] refl, of "[captureTree, captureTree]" 5 "[7]" True]
  by (simp add: faultlessTick_def captureTree_def treeEnv_def targetEnv.defs)

text \<open>An accepted PID list has one positive PID for every part that is not blank.\<close>

lemma parse_uint_bound: "parse_uint 32 part = Some n \<Longrightarrow> n < 2 ^ 32"
  by (auto simp: parse_uint_def split: if_splits)

lemma parsePIDs_spec:
  "parsePIDs parts = Inr pids \<Longrightarrow> 0 \<notin> set pids \<and> length pids = length (filter (\<lambda>raw. trim_space raw \<noteq> []) parts)"
proof (induction parts arbitrary: pids rule: parsePIDs.induct)
  case (2 raw parts)
  then show ?case
    by (auto simp: Let_def word_of_nat_eq_0_iff split: if_splits option.splits sum.splits
        dest!: parse_uint_bound nat_dvd_not_less)
qed simp

end
