(* ===== verification/CaptureKernel.thy ===== *)
theory CaptureKernel
  imports KernelConfig
begin

text \<open>
  What karaxys-capture writes into the kernel's maps, \<^verbatim>\<open>cmd/karaxys-capture/main.go\<close>: the
  capture configuration, the two port sets, and the socket tuples. The maps and the faults are
  those of the agent's \<open>KernelConfig\<close>; the operations differ from the agent's in what they skip,
  clear and forget.
\<close>

section \<open>The capture configuration\<close>

definition cap_captureSettings :: "u32 \<Rightarrow> bool \<Rightarrow> bool \<Rightarrow> bool \<Rightarrow> configMap" where
  "cap_captureSettings maxPayload captureReads captureWrites targetPortsEnabled =
     [(captureConfigMaxPayloadSize, maxPayload),
      (captureConfigCaptureReads, boolToKernelConfig captureReads),
      (captureConfigCaptureWrites, boolToKernelConfig captureWrites),
      (captureConfigCaptureStdio, 0),
      (captureConfigTargetPorts, boolToKernelConfig targetPortsEnabled),
      (captureConfigCgroupFilter, 0)]"

definition cap_configureKernelCapture ::
  "kernelFaults \<Rightarrow> u32 \<Rightarrow> bool \<Rightarrow> bool \<Rightarrow> bool \<Rightarrow> configMap option \<Rightarrow> kernelError option \<times> configMap option" where
  "cap_configureKernelCapture faults maxPayload captureReads captureWrites targetPortsEnabled configMap =
     putSettings faults
       (inOrder (kf_settingOrder faults)
         (cap_captureSettings maxPayload captureReads captureWrites targetPortsEnabled))
       configMap"

lemma cap_configure_agrees:
  "cap_configureKernelCapture faults mp cr cw tp = configureKernelCapture faults mp cr cw False tp False"
  by (intro ext) (simp add: cap_configureKernelCapture_def configureKernelCapture_def cap_captureSettings_def
      captureSettings_def boolToKernelConfig_def)

section \<open>The port sets\<close>

text \<open>A map that is not loaded, and a port that is none, are passed over.\<close>

fun cap_putPorts :: "kernelFaults \<Rightarrow> bytes \<Rightarrow> int list \<Rightarrow> portMap \<Rightarrow> kernelError option \<times> portMap" where
  "cap_putPorts faults name [] m = (None, m)"
| "cap_putPorts faults name (port # ports) m =
     (if port \<le> 0 \<or> port > 65535 then cap_putPorts faults name ports m
      else if kf_putPort faults name (word_of_int port) then (Some (UpdatePortFailed name port), m)
      else cap_putPorts faults name ports (AList.update (word_of_int port) 1 m))"

definition configureKernelTargetPorts ::
  "kernelFaults \<Rightarrow> portSet \<Rightarrow> portMap option \<Rightarrow> kernelError option \<times> portMap option" where
  "configureKernelTargetPorts faults targetPorts targetMap =
     (case targetMap of
        None \<Rightarrow> (None, None)
      | Some m \<Rightarrow>
          (let (err, m1) = cap_putPorts faults ''target_ports'' (mapOrder (kf_portOrder faults) targetPorts) m
           in (err, Some m1)))"

definition configureKernelIgnorePorts ::
  "kernelFaults \<Rightarrow> portSet \<Rightarrow> portMap option \<Rightarrow> kernelError option \<times> portMap option" where
  "configureKernelIgnorePorts faults ignorePorts ignoredMap =
     (case ignoredMap of
        None \<Rightarrow> (None, None)
      | Some m \<Rightarrow>
          (let (err, m1) = cap_putPorts faults ''ignored_ports'' (mapOrder (kf_portOrder faults) ignorePorts) m
           in (err, Some m1)))"

lemma cap_putPorts_ok:
  "cap_putPorts faults name ports m = (None, m1) \<Longrightarrow>
     map_of m1 k = (if k \<in> word_of_int ` (set ports \<inter> {1..65535}) then Some 1 else map_of m k)"
proof (induction faults name ports m rule: cap_putPorts.induct)
  case (2 faults name port ports m)
  then show ?case by (cases "port \<in> {1..65535}") (auto simp: update_conv' split: if_splits)
qed simp

lemma ignore_ports_ok:
  assumes "configureKernelIgnorePorts faults ports (Some m) = (None, m')" "finite ports"
  obtains m1 where "m' = Some m1" "kernelPorts m1 = kernelPorts m \<union> (ports \<inter> {1..65535})"
proof -
  obtain m1 where m1: "cap_putPorts faults ''ignored_ports'' (mapOrder (kf_portOrder faults) ports) m = (None, m1)" "m' = Some m1"
    using assms(1) by (auto simp: configureKernelIgnorePorts_def split: prod.splits)
  have "dom (map_of m1) = word_of_int ` (ports \<inter> {1..65535}) \<union> dom (map_of m)"
    using cap_putPorts_ok [OF m1(1)] mapOrder_set [OF assms(2), of "kf_portOrder faults"]
    by (auto simp: dom_def split: if_splits)
  moreover have "(\<lambda>p. uint (word_of_int p :: u16)) ` (ports \<inter> {1..65535}) = ports \<inter> {1..65535}"
    using uint_port by (auto simp: image_iff)
  ultimately have "kernelPorts m1 = kernelPorts m \<union> (ports \<inter> {1..65535})"
    by (auto simp: kernelPorts_dom image_Un image_image)
  with m1(2) show thesis by (rule that)
qed

section \<open>Socket tuples\<close>

definition cap_kernelTuple :: "ConnectionMetadata \<Rightarrow> kernelSocketTuple" where
  "cap_kernelTuple conn = \<lparr>
     kt_Family = (if conn_Family conn = ''ipv4'' then kernelAFInet
                  else if conn_Family conn = ''ipv6'' then kernelAFInet6 else 0),
     kt_LocalPort = word_of_int (conn_SrcPort conn),
     kt_RemotePort = word_of_int (conn_DstPort conn),
     kt_Role = (if conn_Role conn = ''inbound'' then socketRoleInbound
                else if conn_Role conn = ''outbound'' then socketRoleOutbound else 0),
     kt_Flags = (if conn_SrcPort conn > 0 then socketTupleLocal else 0) OR
                (if conn_DstPort conn > 0 then socketTupleRemote else 0)\<rparr>"

definition cap_remember ::
  "(flowKey \<Rightarrow> bool) \<Rightarrow> flowKey \<Rightarrow> ConnectionMetadata \<Rightarrow> kernelTupleSyncer \<Rightarrow> kernelTupleSyncer" where
  "cap_remember updateFails key conn s =
     (case ts_tuples s of
        None \<Rightarrow> s
      | Some tuples \<Rightarrow>
          if conn_Protocol conn = [] then s
          else (let tuple = cap_kernelTuple conn in
            if map_of (ts_synced s) key = Some tuple then s
            else if updateFails key then s
            else s\<lparr>ts_tuples := Some (AList.update key tuple tuples),
                   ts_synced := AList.update key tuple (ts_synced s)\<rparr>))"

definition cap_forget :: "(flowKey \<Rightarrow> bool) \<Rightarrow> flowKey \<Rightarrow> kernelTupleSyncer \<Rightarrow> kernelTupleSyncer" where
  "cap_forget deleteFails key s =
     (case ts_tuples s of
        None \<Rightarrow> s
      | Some tuples \<Rightarrow>
          if map_of (ts_synced s) key = None then s
          else s\<lparr>ts_tuples := Some (if deleteFails key then tuples else AList.delete key tuples),
                 ts_synced := AList.delete key (ts_synced s)\<rparr>)"

text \<open>Both programs write the same tuple for a connection that the agent can label.\<close>

lemma tuples_agree:
  assumes "kernelSocketTupleFromConnection conn = Some t"
    and "conn_SrcPort conn \<in> {0..65535}" "conn_DstPort conn \<in> {0..65535}"
  shows "cap_kernelTuple conn = t"
  using assms
  by (auto simp: kernelSocketTupleFromConnection_def cap_kernelTuple_def Let_def kernelFamilyFromConnection_def
      kernelRoleFromConnection_def split: if_splits)

text \<open>What the program remembers to have written is in the kernel's map.\<close>

definition cap_syncer_inv :: "kernelTupleSyncer \<Rightarrow> bool" where
  "cap_syncer_inv s \<longleftrightarrow>
     (case ts_tuples s of None \<Rightarrow> ts_synced s = []
      | Some tuples \<Rightarrow> \<forall>key t. map_of (ts_synced s) key = Some t \<longrightarrow> map_of tuples key = Some t)"

lemma cap_new_inv: "cap_syncer_inv (newKernelTupleSyncer tuples)"
  by (simp add: cap_syncer_inv_def newKernelTupleSyncer_def split: option.splits)

lemma cap_remember_inv: "cap_syncer_inv s \<Longrightarrow> cap_syncer_inv (cap_remember fails key conn s)"
  by (auto simp: cap_syncer_inv_def cap_remember_def Let_def update_conv' split: option.splits if_splits)

lemma cap_forget_inv: "cap_syncer_inv s \<Longrightarrow> cap_syncer_inv (cap_forget fails key s)"
  by (auto simp: cap_syncer_inv_def cap_forget_def delete_conv' split: option.splits if_splits)

lemma cap_forget_gone: "map_of (ts_synced (cap_forget fails key s)) key = None \<or> ts_tuples s = None"
  by (auto simp: cap_forget_def delete_conv' split: option.splits)

lemma cap_forget_kernel:
  assumes "cap_syncer_inv s" "ts_tuples s = Some tuples" "map_of (ts_synced s) key \<noteq> None" "\<not> fails key"
  shows "\<exists>tuples'. ts_tuples (cap_forget fails key s) = Some tuples' \<and> map_of tuples' key = None"
  using assms by (auto simp: cap_forget_def delete_conv')

lemma cap_remember_present:
  assumes "cap_syncer_inv s" "ts_tuples s = Some tuples" "conn_Protocol conn \<noteq> []" "\<not> fails key"
  shows "\<exists>tuples'. ts_tuples (cap_remember fails key conn s) = Some tuples' \<and>
    map_of tuples' key = Some (cap_kernelTuple conn) \<and>
    map_of (ts_synced (cap_remember fails key conn s)) key = Some (cap_kernelTuple conn)"
  using assms by (auto simp: cap_remember_def Let_def update_conv' cap_syncer_inv_def)

lemma cap_syncer_tuples: 
  "ts_tuples (cap_remember fails key conn s) = None \<longleftrightarrow> ts_tuples s = None"
  "ts_tuples (cap_forget fails key s) = None \<longleftrightarrow> ts_tuples s = None"
  by (auto simp: cap_remember_def cap_forget_def Let_def split: option.splits)

end
