(* ===== verification/AgentContainers.thy ===== *)
theory AgentContainers
  imports AgentMetadata
begin

text \<open>
  How the metadata resolver asks Docker and Kubernetes about a container, \<^verbatim>\<open>cmd/agent/metadata.go\<close>: which
  request is sent where, what of the answer is used, and why nothing that a container puts into the
  name of its cgroup can reach another path of either interface. The HTTP exchange itself and JSON
  are parameters; the two functions fill in the fields \<open>pf_dockerInspect\<close> and \<open>pf_podsByUID\<close> of \<open>procfs\<close>.
\<close>

section \<open>Requests\<close>

text \<open>A request: the unix socket it is dialled on, if any, the URL, two headers, and with TLS the
  certificates that are trusted beside the default, if any.\<close>

record metadataRequest =
  mq_socket :: "bytes option"
  mq_url :: bytes
  mq_authorization :: bytes
  mq_accept :: bytes
  mq_rootCAs :: "bytes option"

text \<open>
  The environment, the files, and the answers: \<open>None\<close> if the exchange fails, else the status
  and the decoded body, if it can be decoded. \<open>ch_badURL\<close> is the error of \<open>http.NewRequest\<close>,
  \<open>ch_certificates\<close> that of reading a certificate from PEM text.
\<close>

record containerHost =
  ch_getenv :: "bytes \<Rightarrow> bytes"
  ch_exists :: "bytes \<Rightarrow> bool"
  ch_file :: "bytes \<Rightarrow> bytes option"
  ch_certificates :: "bytes \<Rightarrow> bool"
  ch_badURL :: "bytes \<Rightarrow> bool"
  ch_inspect :: "metadataRequest \<Rightarrow> (int \<times> (bytes \<times> bytes) option) option"
  ch_pods :: "metadataRequest \<Rightarrow> (int \<times> kubePod list option) option"

text \<open>\<open>url.PathEscape\<close> and \<open>url.QueryEscape\<close>.\<close>

definition percent :: "char \<Rightarrow> bytes" where
  "percent c = [CHR ''%'', hex_upper (byte_of c div 16), hex_upper (byte_of c mod 16)]"

definition is_alnum :: "char \<Rightarrow> bool" where
  "is_alnum c \<longleftrightarrow> is_digit c \<or> in_range 65 90 c \<or> in_range 97 122 c"

definition pathEscape :: "bytes \<Rightarrow> bytes" where
  "pathEscape s = concat (map (\<lambda>c. if is_alnum c \<or> c \<in> set ''-_.~$&+:=@'' then [c] else percent c) s)"

definition queryEscape :: "bytes \<Rightarrow> bytes" where
  "queryEscape s = concat (map (\<lambda>c. if c = CHR '' '' then ''+''
     else if is_alnum c \<or> c \<in> set ''-_.~'' then [c] else percent c) s)"

definition joinHostPort :: "bytes \<Rightarrow> bytes \<Rightarrow> bytes" where
  "joinHostPort host port =
     (if CHR '':'' \<in> set host then ''['' @ host @ '']:'' @ port else host @ '':'' @ port)"

definition hostEnv :: "containerHost \<Rightarrow> bytes list \<Rightarrow> bytes" where
  "hostEnv host keys = firstNonEmpty (map (\<lambda>key. trim_space (ch_getenv host key)) keys)"

section \<open>Docker\<close>

definition defaultDockerSocketPath :: bytes where
  "defaultDockerSocketPath = ''/var/run/docker.sock''"

definition dockerSocketPath :: "containerHost \<Rightarrow> bytes" where
  "dockerSocketPath host =
     (let path = hostEnv host [''KARAXYS_DOCKER_SOCKET'', ''DOCKER_HOST_UNIX''];
          path1 = (if path = [] then defaultDockerSocketPath else path)
      in if has_prefix path1 ''unix://'' then drop 7 path1 else path1)"

definition dockerRequest :: "containerHost \<Rightarrow> bytes \<Rightarrow> metadataRequest option" where
  "dockerRequest host containerID =
     (let url = ''http://docker/containers/'' @ pathEscape containerID @ ''/json'' in
      if \<not> ch_exists host (dockerSocketPath host) then None
      else if ch_badURL host url then None
      else Some \<lparr>mq_socket = Some (dockerSocketPath host), mq_url = url, mq_authorization = [], mq_accept = [],
             mq_rootCAs = None\<rparr>)"

definition dockerBody :: "containerHost \<Rightarrow> bytes \<Rightarrow> (bytes \<times> bytes) option" where
  "dockerBody host containerID =
     (case dockerRequest host containerID of
        None \<Rightarrow> None
      | Some req \<Rightarrow>
          (case ch_inspect host req of
             None \<Rightarrow> None
           | Some (status, body) \<Rightarrow> if status \<noteq> 200 then None else body))"

definition resolveDockerContainerMetadata :: "containerHost \<Rightarrow> bytes \<Rightarrow> ContainerMetadata option" where
  "resolveDockerContainerMetadata host containerID =
     map_option (dockerContainer containerID) (dockerBody host containerID)"

section \<open>Kubernetes\<close>

definition serviceAccountTokenPath :: bytes where
  "serviceAccountTokenPath = ''/var/run/secrets/kubernetes.io/serviceaccount/token''"

definition serviceAccountCACertPath :: bytes where
  "serviceAccountCACertPath = ''/var/run/secrets/kubernetes.io/serviceaccount/ca.crt''"

definition defaultKubernetesAPIPort :: bytes where "defaultKubernetesAPIPort = ''443''"

definition kubernetesTLSConfig :: "containerHost \<Rightarrow> bytes option" where
  "kubernetesTLSConfig host =
     (case ch_file host serviceAccountCACertPath of
        None \<Rightarrow> None
      | Some pem \<Rightarrow> if ch_certificates host pem then Some pem else None)"

definition kubernetesPort :: "containerHost \<Rightarrow> bytes" where
  "kubernetesPort host =
     (let port = trim_space (ch_getenv host ''KUBERNETES_SERVICE_PORT_HTTPS'');
          port1 = (if port = [] then trim_space (ch_getenv host ''KUBERNETES_SERVICE_PORT'') else port)
      in if port1 = [] then defaultKubernetesAPIPort else port1)"

definition kubernetesRequest :: "containerHost \<Rightarrow> bytes \<Rightarrow> metadataRequest option" where
  "kubernetesRequest host podUID =
     (let server = trim_space (ch_getenv host ''KUBERNETES_SERVICE_HOST'') in
      if server = [] then None
      else case ch_file host serviceAccountTokenPath of
             None \<Rightarrow> None
           | Some token \<Rightarrow>
               if trim_space token = [] then None
               else (let url = ''https://'' @ joinHostPort server (kubernetesPort host) @ ''/api/v1/pods?fieldSelector='' @
                          queryEscape (''metadata.uid='' @ podUID) @ ''&limit='' @ queryEscape ''1''
                 in if ch_badURL host url then None
                    else Some \<lparr>mq_socket = None, mq_url = url, mq_authorization = ''Bearer '' @ trim_space token,
                           mq_accept = ''application/json'', mq_rootCAs = kubernetesTLSConfig host\<rparr>))"

definition kubernetesPods :: "containerHost \<Rightarrow> bytes \<Rightarrow> kubePod list option" where
  "kubernetesPods host podUID =
     (case kubernetesRequest host podUID of
        None \<Rightarrow> None
      | Some req \<Rightarrow>
          (case ch_pods host req of
             None \<Rightarrow> None
           | Some (status, items) \<Rightarrow> if status \<noteq> 200 then None else items))"

definition resolveKubernetesPodMetadata :: "containerHost \<Rightarrow> bytes \<Rightarrow> ContainerMetadata option" where
  "resolveKubernetesPodMetadata host podUID = decodeKubernetesPodMetadata (kubernetesPods host podUID) podUID"

text \<open>The resolver's view of a process on such a host.\<close>

definition onHost :: "containerHost \<Rightarrow> procfs \<Rightarrow> procfs" where
  "onHost host p = p\<lparr>pf_getenv := ch_getenv host, pf_dockerInspect := dockerBody host, pf_podsByUID := kubernetesPods host\<rparr>"

section \<open>What a container can make the agent ask\<close>

lemma leftmost_Some: "leftmost m s = Some x \<Longrightarrow> \<exists>n. m (drop n s) = Some x"
proof (induction s)
  case (Cons c s)
  show ?case
  proof (cases "m (c # s)")
    case None
    with Cons obtain n where "m (drop n s) = Some x" by auto
    then show ?thesis by (intro exI [of _ "Suc n"]) simp
  next
    case (Some y)
    with Cons.prems show ?thesis by (intro exI [of _ 0]) simp
  qed
qed (auto intro: exI [of _ 0])

definition hexLower :: "char \<Rightarrow> bool" where
  "hexLower c \<longleftrightarrow> is_digit c \<or> in_range 97 102 c"

lemma hex_lowered: "is_hex c \<Longrightarrow> hexLower (lower_ascii c)"
  by (cases "in_range 65 70 c")
    (auto simp: is_hex_def hexLower_def lower_ascii_def in_range_def is_digit_def)

lemma hex_run_lowered: "hex_run n s = Some h \<Longrightarrow> length h = n \<and> list_all hexLower (to_lower h)"
  by (auto simp: hex_run_def to_lower_def list_all_iff hex_lowered split: if_splits)

lemma alnum_hexLower: "hexLower c \<Longrightarrow> is_alnum c"
  by (auto simp: hexLower_def is_alnum_def in_range_def is_digit_def)

lemma identity_ID:
  "ci_ID (extractContainerIdentity cgroup) = [] \<or>
   length (ci_ID (extractContainerIdentity cgroup)) = 64 \<and> list_all hexLower (ci_ID (extractContainerIdentity cgroup))"
proof (cases "leftmost matchRuntimeAt cgroup")
  case None
  then show ?thesis
    by (auto simp: extractContainerIdentity_def to_lower_def split: option.splits
        dest!: leftmost_Some hex_run_lowered)
next
  case (Some m)
  obtain rt h where m: "m = (rt, h)" by force
  from leftmost_Some [OF Some] obtain r s where "hex_run 64 s = Some h"
    by (auto simp: matchRuntimeAt_def m split: option.splits)
  with Some m show ?thesis by (auto simp: extractContainerIdentity_def to_lower_def dest: hex_run_lowered)
qed

text \<open>A hyphen or a lower-case hexadecimal digit.\<close>

definition uidChar :: "char \<Rightarrow> bool" where
  "uidChar c \<longleftrightarrow> c = CHR ''-'' \<or> hexLower c"

lemma uid_segments:
  "take 36 u = take 8 u @ take 1 (drop 8 u) @ take 4 (drop 9 u) @ take 1 (drop 13 u) @ take 4 (drop 14 u) @
     take 1 (drop 18 u) @ take 4 (drop 19 u) @ take 1 (drop 23 u) @ take 12 (drop 24 u)"
  using take_add [of 8 28 u] take_add [of 1 27 "drop 8 u"] take_add [of 4 23 "drop 9 u"] take_add [of 1 22 "drop 13 u"]
    take_add [of 4 18 "drop 14 u"] take_add [of 1 17 "drop 18 u"] take_add [of 4 13 "drop 19 u"] take_add [of 1 12 "drop 23 u"]
  by simp

definition uidRaw :: "char \<Rightarrow> bool" where
  "uidRaw c \<longleftrightarrow> is_hex c \<or> c = CHR ''-'' \<or> c = CHR ''_''"

lemma hex_run_raw: "hex_run n s \<noteq> None \<Longrightarrow> n \<le> length s \<and> list_all uidRaw (take n s)"
  by (auto simp: hex_run_def uidRaw_def list_all_iff split: if_splits)

lemma uid_sep_raw: "uid_sep s \<Longrightarrow> list_all uidRaw (take 1 s)"
  by (cases s) (auto simp: uid_sep_def uidRaw_def)

lemma matchPodAt_raw: "matchPodAt s = Some uid \<Longrightarrow> length uid = 36 \<and> list_all uidRaw uid"
proof -
  assume m: "matchPodAt s = Some uid"
  define u where "u = drop 3 s"
  have uid: "uid = take 36 u" and parts: "hex_run 8 u \<noteq> None" "uid_sep (drop 8 u)" "hex_run 4 (drop 9 u) \<noteq> None"
    "uid_sep (drop 13 u)" "hex_run 4 (drop 14 u) \<noteq> None" "uid_sep (drop 18 u)" "hex_run 4 (drop 19 u) \<noteq> None"
    "uid_sep (drop 23 u)" "hex_run 12 (drop 24 u) \<noteq> None"
    using m by (simp_all add: matchPodAt_def u_def [symmetric] Let_def split: if_splits del: not_None_eq)
  have "list_all uidRaw uid"
    unfolding uid uid_segments [of u] list_all_append
    using hex_run_raw [OF parts(1)] uid_sep_raw [OF parts(2)] hex_run_raw [OF parts(3)] uid_sep_raw [OF parts(4)]
      hex_run_raw [OF parts(5)] uid_sep_raw [OF parts(6)] hex_run_raw [OF parts(7)] uid_sep_raw [OF parts(8)] hex_run_raw [OF parts(9)]
    by blast
  moreover have "36 \<le> length u" using hex_run_raw [OF parts(9)] unfolding length_drop by arith
  ultimately show ?thesis by (simp add: uid)
qed

lemma uidRaw_normal: "uidRaw c \<Longrightarrow> uidChar (lower_ascii (if c = CHR ''_'' then CHR ''-'' else c))"
proof -
  assume c: "uidRaw c"
  have "lower_ascii CHR ''-'' = CHR ''-''" by code_simp
  with c hex_lowered [of c] show ?thesis by (auto simp: uidRaw_def uidChar_def)
qed

lemma identity_PodUID:
  "ci_PodUID (extractContainerIdentity cgroup) = [] \<or>
   length (ci_PodUID (extractContainerIdentity cgroup)) = 36 \<and> list_all uidChar (ci_PodUID (extractContainerIdentity cgroup))"
proof -
  have uid: "ci_PodUID (extractContainerIdentity cgroup) = extractKubernetesPodUID cgroup"
    by (simp add: extractContainerIdentity_def split: option.splits)
  show ?thesis
  proof (cases "leftmost matchPodAt cgroup")
    case None
    then show ?thesis by (simp add: uid extractKubernetesPodUID_def)
  next
    case (Some m)
    from leftmost_Some [OF Some] have "length m = 36 \<and> list_all uidRaw m" using matchPodAt_raw by blast
    then show ?thesis
      by (auto simp: uid extractKubernetesPodUID_def Some to_lower_def list_all_iff uidRaw_normal simp del: if_image_distrib)
  qed
qed

lemma hex_not_escaped: "list_all hexLower s \<Longrightarrow> pathEscape s = s"
  by (induction s) (auto simp: pathEscape_def alnum_hexLower)

lemma uid_not_escaped: "list_all uidChar s \<Longrightarrow> queryEscape s = s"
proof (induction s)
  case (Cons c s)
  moreover have "\<not> is_alnum CHR '' ''" by code_simp
  ultimately show ?case using alnum_hexLower [of c] by (auto simp: queryEscape_def uidChar_def)
qed (simp add: queryEscape_def)

lemma queryEscape_append: "queryEscape (s @ t) = queryEscape s @ queryEscape t"
  by (simp add: queryEscape_def)

text \<open>C40. A container cannot steer the requests about it. Whatever text the cgroup of a process holds, Docker
  is asked on the configured socket, without credentials, for exactly one path, that of an identifier of 64
  hexadecimal digits, and the API server of the cluster, under the agent's token, for the pods with exactly one
  UID of 36 hexadecimal digits and hyphens; nothing else of the text is in either request.\<close>

theorem container_requests_confined:
  assumes "identity = extractContainerIdentity cgroup"
  shows "(\<forall>req. ci_ID identity \<noteq> [] \<longrightarrow> dockerRequest host (ci_ID identity) = Some req \<longrightarrow>
      mq_socket req = Some (dockerSocketPath host) \<and> mq_authorization req = [] \<and>
      mq_url req = ''http://docker/containers/'' @ ci_ID identity @ ''/json'' \<and>
      length (ci_ID identity) = 64 \<and> list_all hexLower (ci_ID identity)) \<and>
    (\<forall>req. ci_PodUID identity \<noteq> [] \<longrightarrow> kubernetesRequest host (ci_PodUID identity) = Some req \<longrightarrow>
      mq_socket req = None \<and>
      mq_url req = ''https://'' @ joinHostPort (trim_space (ch_getenv host ''KUBERNETES_SERVICE_HOST'')) (kubernetesPort host) @
        ''/api/v1/pods?fieldSelector=metadata.uid%3D'' @ ci_PodUID identity @ ''&limit=1'' \<and>
      length (ci_PodUID identity) = 36 \<and> list_all uidChar (ci_PodUID identity))"
proof (intro conjI allI impI)
  fix req assume "ci_ID identity \<noteq> []" "dockerRequest host (ci_ID identity) = Some req"
  then show "mq_socket req = Some (dockerSocketPath host)" "mq_authorization req = []"
    "mq_url req = ''http://docker/containers/'' @ ci_ID identity @ ''/json''"
    "length (ci_ID identity) = 64" "list_all hexLower (ci_ID identity)"
    using identity_ID [of cgroup] by (auto simp: assms dockerRequest_def Let_def hex_not_escaped split: if_splits)
next
  fix req assume r: "ci_PodUID identity \<noteq> []" "kubernetesRequest host (ci_PodUID identity) = Some req"
  then show u: "length (ci_PodUID identity) = 36" "list_all uidChar (ci_PodUID identity)"
    using identity_PodUID [of cgroup] by (auto simp: assms)
  from r(2) show "mq_socket req = None" by (auto simp: kubernetesRequest_def Let_def split: if_splits option.splits)
  have "mq_url req = ''https://'' @ joinHostPort (trim_space (ch_getenv host ''KUBERNETES_SERVICE_HOST'')) (kubernetesPort host) @
      ''/api/v1/pods?fieldSelector='' @ queryEscape (''metadata.uid='' @ ci_PodUID identity) @ ''&limit='' @ queryEscape ''1''"
    using r(2) by (auto simp: kubernetesRequest_def Let_def split: if_splits option.splits)
  also have "queryEscape (''metadata.uid='' @ ci_PodUID identity) = ''metadata.uid%3D'' @ ci_PodUID identity"
  proof -
    have "queryEscape ''metadata.uid='' = ''metadata.uid%3D''" by code_simp
    then show ?thesis unfolding queryEscape_append uid_not_escaped [OF u(2)] by (rule arg_cong)
  qed
  also have "queryEscape ''1'' = ''1''" by code_simp
  finally show "mq_url req = ''https://'' @ joinHostPort (trim_space (ch_getenv host ''KUBERNETES_SERVICE_HOST'')) (kubernetesPort host) @
      ''/api/v1/pods?fieldSelector=metadata.uid%3D'' @ ci_PodUID identity @ ''&limit=1''"
    by simp
qed

text \<open>The resolver on such a host merges what the two functions of the code return.\<close>

lemma resolveContainer_onHost:
  "pf_dockerInspect (onHost host p) i = dockerBody host i"
  "map_option (dockerContainer i) (pf_dockerInspect (onHost host p) i) = resolveDockerContainerMetadata host i"
  "decodeKubernetesPodMetadata (pf_podsByUID (onHost host p) u) u = resolveKubernetesPodMetadata host u"
  "firstNonEmptyEnv (onHost host p) keys = hostEnv host keys"
  by (simp_all add: onHost_def resolveDockerContainerMetadata_def resolveKubernetesPodMetadata_def firstNonEmptyEnv_def hostEnv_def)

section \<open>Samples\<close>

definition sampleHost :: containerHost where
  "sampleHost = \<lparr>ch_getenv = (\<lambda>key. if key = ''KUBERNETES_SERVICE_HOST'' then ''10.0.0.1'' else []),
     ch_exists = (\<lambda>path. path = defaultDockerSocketPath),
     ch_file = (\<lambda>path. if path = serviceAccountTokenPath then Some ''tok'' else None),
     ch_certificates = (\<lambda>_. False), ch_badURL = (\<lambda>_. False), ch_inspect = (\<lambda>_. None), ch_pods = (\<lambda>_. None)\<rparr>"

text \<open>Cgroups with a path traversal behind the identifier.\<close>

definition dockerCgroup :: bytes where
  "dockerCgroup = ''docker-'' @ replicate 64 CHR ''A'' @ ''/../images''"

definition podCgroup :: bytes where
  "podCgroup = ''pod01234567_89ab-cdef-0123-456789ABCDEF&limit=9''"

theorem container_requests_confined_witness:
  "\<exists>docker pods. dockerRequest sampleHost (ci_ID (extractContainerIdentity dockerCgroup)) = Some docker \<and>
     mq_url docker = ''http://docker/containers/'' @ replicate 64 CHR ''a'' @ ''/json'' \<and>
     kubernetesRequest sampleHost (ci_PodUID (extractContainerIdentity podCgroup)) = Some pods \<and>
     mq_url pods = ''https://10.0.0.1:443/api/v1/pods?fieldSelector=metadata.uid%3D01234567-89ab-cdef-0123-456789abcdef&limit=1''"
proof -
  have "leftmost matchRuntimeAt dockerCgroup = Some (''docker'', replicate 64 CHR ''A'')" "lower_ascii CHR ''A'' = CHR ''a''" by code_simp+
  then have i: "ci_ID (extractContainerIdentity dockerCgroup) = replicate 64 CHR ''a''"
    by (simp add: extractContainerIdentity_def to_lower_def)
  have "extractKubernetesPodUID podCgroup = ''01234567-89ab-cdef-0123-456789abcdef''" by code_simp
  then have u: "ci_PodUID (extractContainerIdentity podCgroup) = ''01234567-89ab-cdef-0123-456789abcdef''"
    by (simp add: extractContainerIdentity_def split: option.splits)
  have path: "dockerSocketPath sampleHost = defaultDockerSocketPath" "kubernetesPort sampleHost = ''443''"
    "trim_space (ch_getenv sampleHost ''KUBERNETES_SERVICE_HOST'') = ''10.0.0.1''"
    "joinHostPort ''10.0.0.1'' ''443'' = ''10.0.0.1:443''" "trim_space ''tok'' = ''tok''" by code_simp+
  obtain docker where d: "dockerRequest sampleHost (ci_ID (extractContainerIdentity dockerCgroup)) = Some docker"
    by (simp add: dockerRequest_def path Let_def) (simp add: sampleHost_def)
  obtain pods where p: "kubernetesRequest sampleHost (ci_PodUID (extractContainerIdentity podCgroup)) = Some pods"
    using path(5) by (simp add: kubernetesRequest_def path(1-4) Let_def) (simp add: sampleHost_def)
  have "mq_url docker = ''http://docker/containers/'' @ replicate 64 CHR ''a'' @ ''/json''"
    using container_requests_confined [OF refl, of dockerCgroup sampleHost] d i by auto
  moreover have "mq_url pods = ''https://'' @ joinHostPort ''10.0.0.1'' ''443'' @
      ''/api/v1/pods?fieldSelector=metadata.uid%3D'' @ ''01234567-89ab-cdef-0123-456789abcdef'' @ ''&limit=1''"
    using container_requests_confined [OF refl, of podCgroup sampleHost] p unfolding u path(2,3) by auto
  ultimately show ?thesis using d p path(4) by simp
qed

end
