(* ===== verification/CaptureContainers.thy ===== *)
theory CaptureContainers
  imports AgentContainers
begin

text \<open>
  Containers in the standalone capture program, \<^verbatim>\<open>cmd/karaxys-capture/metadata.go\<close>: its own functions for the
  identity in a cgroup, the cache and the requests to Docker and Kubernetes, and the proof that they are the
  agent's. Each lemma \<open>cap_x = x\<close> holds two texts against each other that are maintained apart.
\<close>

section \<open>Identity\<close>

definition cap_extractKubernetesPodUID :: "bytes \<Rightarrow> bytes" where
  "cap_extractKubernetesPodUID cgroup =
     (case leftmost matchPodAt cgroup of
        None \<Rightarrow> []
      | Some uid \<Rightarrow> to_lower (map (\<lambda>c. if c = CHR ''_'' then CHR ''-'' else c) uid))"

definition cap_containerRuntimeFromCgroup :: "bytes \<Rightarrow> bytes" where
  "cap_containerRuntimeFromCgroup cgroup =
     (let lower = to_lower cgroup in
      if contains lower ''cri-containerd'' then ''containerd''
      else if contains lower ''crio'' then ''cri-o''
      else if contains lower ''libpod'' then ''podman''
      else if contains lower ''docker'' then ''docker''
      else [])"

definition cap_normalizeContainerRuntime :: "bytes \<Rightarrow> bytes" where
  "cap_normalizeContainerRuntime rt =
     (let lower = to_lower rt in
      if lower = ''cri-containerd'' then ''containerd''
      else if lower = ''crio'' then ''cri-o''
      else if lower = ''libpod'' then ''podman''
      else lower)"

text \<open>The identity is built with the runtime of the whole text, which a match replaces.\<close>

definition cap_extractContainerIdentity :: "bytes \<Rightarrow> containerIdentity" where
  "cap_extractContainerIdentity cgroup =
     (let identity = \<lparr>ci_ID = [], ci_Runtime = cap_containerRuntimeFromCgroup cgroup,
            ci_PodUID = cap_extractKubernetesPodUID cgroup\<rparr> in
      case leftmost matchRuntimeAt cgroup of
        Some (rt, h) \<Rightarrow> identity\<lparr>ci_Runtime := cap_normalizeContainerRuntime rt, ci_ID := to_lower h\<rparr>
      | None \<Rightarrow>
          (case leftmost (hex_run 64) cgroup of
             Some h \<Rightarrow> identity\<lparr>ci_ID := to_lower h\<rparr>
           | None \<Rightarrow> identity))"

lemma runtimes_agree: "cap_normalizeContainerRuntime = normalizeContainerRuntime"
  by (rule ext) (simp add: cap_normalizeContainerRuntime_def normalizeContainerRuntime_def Let_def)

lemma identities_agree: "cap_extractContainerIdentity = extractContainerIdentity"
  by (rule ext)
    (auto simp: cap_extractContainerIdentity_def extractContainerIdentity_def runtimes_agree Let_def
      cap_extractKubernetesPodUID_def extractKubernetesPodUID_def
      cap_containerRuntimeFromCgroup_def containerRuntimeFromCgroup_def split: option.splits)

section \<open>Requests\<close>

definition cap_firstNonEmptyEnv :: "(bytes \<Rightarrow> bytes) \<Rightarrow> bytes list \<Rightarrow> bytes" where
  "cap_firstNonEmptyEnv getenv keys =
     (case find (\<lambda>key. trim_space (getenv key) \<noteq> []) keys of None \<Rightarrow> [] | Some key \<Rightarrow> trim_space (getenv key))"

definition cap_dockerSocketPath :: "containerHost \<Rightarrow> bytes" where
  "cap_dockerSocketPath host =
     (let socketPath = cap_firstNonEmptyEnv (ch_getenv host) [''KARAXYS_DOCKER_SOCKET'', ''DOCKER_HOST_UNIX''];
          socketPath1 = (if socketPath = [] then ''/var/run/docker.sock'' else socketPath)
      in if has_prefix socketPath1 ''unix://'' then drop 7 socketPath1 else socketPath1)"

text \<open>The whole function: every early return is the outcome \<open>None\<close>.\<close>

definition cap_resolveDockerContainerMetadata :: "containerHost \<Rightarrow> bytes \<Rightarrow> ContainerMetadata option" where
  "cap_resolveDockerContainerMetadata host containerID =
     (let socketPath = cap_dockerSocketPath host;
          url = ''http://docker/containers/'' @ pathEscape containerID @ ''/json''
      in if \<not> ch_exists host socketPath then None
         else if ch_badURL host url then None
         else case ch_inspect host \<lparr>mq_socket = Some socketPath, mq_url = url, mq_authorization = [],
                     mq_accept = [], mq_rootCAs = None\<rparr> of
                None \<Rightarrow> None
              | Some (status, body) \<Rightarrow>
                  if status \<noteq> 200 then None
                  else (case body of
                          None \<Rightarrow> None
                        | Some (name, img) \<Rightarrow> Some (noContainer\<lparr>cont_ID := containerID,
                            cont_Name := (if has_prefix name ''/'' then drop 1 name else name),
                            cont_Image := img, cont_Runtime := ''docker''\<rparr>)))"

definition cap_kubernetesTLSConfig :: "containerHost \<Rightarrow> bytes option" where
  "cap_kubernetesTLSConfig host =
     (case ch_file host ''/var/run/secrets/kubernetes.io/serviceaccount/ca.crt'' of
        None \<Rightarrow> None
      | Some caBytes \<Rightarrow> if ch_certificates host caBytes then Some caBytes else None)"

definition cap_kubernetesPort :: "containerHost \<Rightarrow> bytes" where
  "cap_kubernetesPort host =
     (let port = trim_space (ch_getenv host ''KUBERNETES_SERVICE_PORT_HTTPS'');
          port1 = (if port = [] then trim_space (ch_getenv host ''KUBERNETES_SERVICE_PORT'') else port)
      in if port1 = [] then ''443'' else port1)"

text \<open>The loop over the items of the answer.\<close>

fun cap_podAmong :: "kubePod list \<Rightarrow> bytes \<Rightarrow> ContainerMetadata option" where
  "cap_podAmong [] podUID = None"
| "cap_podAmong (item # items) podUID =
     (if \<not> equal_fold (kp_UID item) podUID then cap_podAmong items podUID
      else Some (noContainer\<lparr>cont_PodUID := to_lower (kp_UID item), cont_Pod := kp_Name item,
             cont_Namespace := kp_Namespace item, cont_Node := kp_NodeName item\<rparr>))"

definition cap_resolveKubernetesPodMetadata :: "containerHost \<Rightarrow> bytes \<Rightarrow> ContainerMetadata option" where
  "cap_resolveKubernetesPodMetadata host podUID =
     (let server = trim_space (ch_getenv host ''KUBERNETES_SERVICE_HOST'');
          tokenBytes = ch_file host ''/var/run/secrets/kubernetes.io/serviceaccount/token'';
          url = ''https://'' @ joinHostPort server (cap_kubernetesPort host) @ ''/api/v1/pods?fieldSelector='' @
            queryEscape (''metadata.uid='' @ podUID) @ ''&limit='' @ queryEscape ''1''
      in if server = [] then None
         else case tokenBytes of
                None \<Rightarrow> None
              | Some token \<Rightarrow>
                  if length (trim_space token) = 0 then None
                  else if ch_badURL host url then None
                  else (case ch_pods host \<lparr>mq_socket = None, mq_url = url,
                               mq_authorization = ''Bearer '' @ trim_space token,
                               mq_accept = ''application/json'', mq_rootCAs = cap_kubernetesTLSConfig host\<rparr> of
                          None \<Rightarrow> None
                        | Some (status, body) \<Rightarrow>
                            if status \<noteq> 200 then None
                            else (case body of None \<Rightarrow> None | Some items \<Rightarrow> cap_podAmong items podUID)))"

lemma envs_find:
  "firstNonEmpty (map f keys) = (case find (\<lambda>key. f key \<noteq> []) keys of None \<Rightarrow> [] | Some key \<Rightarrow> f key)"
  by (induction keys) auto

lemma env_agrees: "cap_firstNonEmptyEnv (ch_getenv host) = hostEnv host"
  "cap_firstNonEmptyEnv (pf_getenv p) = firstNonEmptyEnv p"
  by (intro ext, simp add: cap_firstNonEmptyEnv_def hostEnv_def firstNonEmptyEnv_def envs_find)+

lemma podAmong_agrees: "cap_podAmong items podUID = decodeKubernetesPodMetadata (Some items) podUID"
  by (induction items) (auto simp: decodeKubernetesPodMetadata_def)

lemma docker_agrees: "cap_resolveDockerContainerMetadata = resolveDockerContainerMetadata"
proof (intro ext)
  fix host i
  have path: "cap_dockerSocketPath host = dockerSocketPath host"
    unfolding cap_dockerSocketPath_def dockerSocketPath_def defaultDockerSocketPath_def env_agrees by (rule refl)
  show "cap_resolveDockerContainerMetadata host i = resolveDockerContainerMetadata host i"
    unfolding cap_resolveDockerContainerMetadata_def resolveDockerContainerMetadata_def dockerBody_def dockerRequest_def path Let_def
    by (simp add: dockerContainer_def split: option.split prod.split)
qed

lemma kubernetes_agrees: "cap_resolveKubernetesPodMetadata = resolveKubernetesPodMetadata"
proof (intro ext)
  fix host u
  have "cap_kubernetesPort host = kubernetesPort host" "cap_kubernetesTLSConfig host = kubernetesTLSConfig host"
    unfolding cap_kubernetesPort_def kubernetesPort_def defaultKubernetesAPIPort_def
      cap_kubernetesTLSConfig_def kubernetesTLSConfig_def serviceAccountCACertPath_def by (rule refl)+
  note parts = this podAmong_agrees
  have none: "decodeKubernetesPodMetadata None v = None" for v by (simp add: decodeKubernetesPodMetadata_def)
  show "cap_resolveKubernetesPodMetadata host u = resolveKubernetesPodMetadata host u"
    unfolding cap_resolveKubernetesPodMetadata_def resolveKubernetesPodMetadata_def kubernetesPods_def
      kubernetesRequest_def parts Let_def serviceAccountTokenPath_def
    by (simp add: none split: option.split prod.split)
qed

section \<open>The cache and the container of a process\<close>

definition cap_mergeContainerMetadata :: "ContainerMetadata \<Rightarrow> ContainerMetadata \<Rightarrow> ContainerMetadata" where
  "cap_mergeContainerMetadata dst src =
     (let d1 = (if cont_ID dst = [] then dst\<lparr>cont_ID := cont_ID src\<rparr> else dst);
          d2 = (if cont_Name d1 = [] then d1\<lparr>cont_Name := cont_Name src\<rparr> else d1);
          d3 = (if cont_Image d2 = [] then d2\<lparr>cont_Image := cont_Image src\<rparr> else d2);
          d4 = (if cont_Namespace d3 = [] then d3\<lparr>cont_Namespace := cont_Namespace src\<rparr> else d3);
          d5 = (if cont_Pod d4 = [] then d4\<lparr>cont_Pod := cont_Pod src\<rparr> else d4);
          d6 = (if cont_Node d5 = [] then d5\<lparr>cont_Node := cont_Node src\<rparr> else d5);
          d7 = (if cont_Runtime d6 = [] then d6\<lparr>cont_Runtime := cont_Runtime src\<rparr> else d6)
      in if cont_PodUID d7 = [] then d7\<lparr>cont_PodUID := cont_PodUID src\<rparr> else d7)"

definition cap_loadContainerMetadataCache ::
  "bytes \<Rightarrow> time \<Rightarrow> containerCache \<Rightarrow> ContainerMetadata option \<times> containerCache" where
  "cap_loadContainerMetadataCache key now cache =
     (if key = ''::'' then (None, cache)
      else case map_of cache key of
             None \<Rightarrow> (None, cache)
           | Some (metadata, checkedAt) \<Rightarrow>
               if now - checkedAt \<ge> 5 * 60 * 1000000000 then (None, AList.delete key cache)
               else (Some metadata, cache))"

definition cap_storeContainerMetadataCache ::
  "bytes \<Rightarrow> ContainerMetadata \<Rightarrow> time \<Rightarrow> containerCache \<Rightarrow> containerCache" where
  "cap_storeContainerMetadataCache key metadata now cache =
     (if key = ''::'' then cache
      else let cache1 = AList.update key (metadata, now) cache in
        if length cache1 > 8192
        then filter (\<lambda>(k, entry). \<not> snd entry < now - 2 * (5 * 60 * 1000000000)) cache1
        else cache1)"

definition cap_resolveContainer ::
  "procfs \<Rightarrow> u32 \<Rightarrow> time \<Rightarrow> time \<Rightarrow> containerCache \<Rightarrow> ContainerMetadata \<times> containerCache" where
  "cap_resolveContainer p pid now later cache =
     (case pf_cgroup p pid of
        None \<Rightarrow> (noContainer, cache)
      | Some cgroupBytes \<Rightarrow>
          (let identity = cap_extractContainerIdentity cgroupBytes;
               metadata = noContainer\<lparr>cont_ID := ci_ID identity, cont_Runtime := ci_Runtime identity,
                 cont_PodUID := ci_PodUID identity,
                 cont_Node := cap_firstNonEmptyEnv (pf_getenv p) [''KARAXYS_NODE_NAME'', ''NODE_NAME'']\<rparr>;
               cacheKey = ci_Runtime identity @ '':'' @ ci_ID identity @ '':'' @ ci_PodUID identity
           in if ci_ID identity = [] \<and> ci_PodUID identity = [] then (metadata, cache)
              else case cap_loadContainerMetadataCache cacheKey now cache of
                     (Some cached, cache1) \<Rightarrow>
                       (if cont_Node cached = [] then cached\<lparr>cont_Node := cont_Node metadata\<rparr> else cached, cache1)
                   | (None, cache1) \<Rightarrow>
                       (let m1 = (if ci_ID identity \<noteq> []
                              then (case map_option (dockerContainer (ci_ID identity)) (pf_dockerInspect p (ci_ID identity)) of
                                      Some dockerMeta \<Rightarrow> cap_mergeContainerMetadata metadata dockerMeta
                                    | None \<Rightarrow> metadata)
                              else metadata);
                            m2 = (if ci_PodUID identity \<noteq> []
                              then (case pf_podsByUID p (ci_PodUID identity) of
                                      None \<Rightarrow> m1
                                    | Some items \<Rightarrow>
                                        (case cap_podAmong items (ci_PodUID identity) of
                                           Some podMeta \<Rightarrow> cap_mergeContainerMetadata m1 podMeta
                                         | None \<Rightarrow> m1))
                              else m1)
                        in (m2, cap_storeContainerMetadataCache cacheKey m2 later cache1))))"

lemma merge_agrees: "cap_mergeContainerMetadata = mergeContainerMetadata"
  by (intro ext) (simp add: cap_mergeContainerMetadata_def mergeContainerMetadata_def Let_def)

lemma cache_agrees: "cap_loadContainerMetadataCache = loadContainerMetadataCache"
  "cap_storeContainerMetadataCache = storeContainerMetadataCache"
proof -
  have ttl: "containerMetadataTTL = 5 * 60 * 1000000000" by (simp add: containerMetadataTTL_def)
  show "cap_loadContainerMetadataCache = loadContainerMetadataCache"
    unfolding fun_eq_iff cap_loadContainerMetadataCache_def loadContainerMetadataCache_def ttl by blast
  show "cap_storeContainerMetadataCache = storeContainerMetadataCache"
    unfolding fun_eq_iff cap_storeContainerMetadataCache_def storeContainerMetadataCache_def ttl by blast
qed

lemma containers_agree: "cap_resolveContainer = resolveContainer"
proof (intro ext)
  fix p pid now later cache
  have none: "decodeKubernetesPodMetadata None v = None" for v by (simp add: decodeKubernetesPodMetadata_def)
  note agree = cap_resolveContainer_def resolveContainer_def identities_agree env_agrees cache_agrees merge_agrees
    podAmong_agrees Let_def
  show "cap_resolveContainer p pid now later cache = resolveContainer p pid now later cache"
  proof (cases "pf_cgroup p pid")
    case (Some cgroup)
    define i where "i = extractContainerIdentity cgroup"
    obtain c cache1 where load: "loadContainerMetadataCache (ci_Runtime i @ CHR '':'' # ci_ID i @ CHR '':'' # ci_PodUID i) now cache = (c, cache1)"
      by force
    show ?thesis
      unfolding agree Some option.case i_def [symmetric]
      by (cases "pf_dockerInspect p (ci_ID i)"; cases "pf_podsByUID p (ci_PodUID i)"; cases c)
        (simp_all add: load none split: option.split)
  qed (simp add: agree)
qed

text \<open>On a host the two answers of \<open>procfs\<close> are those of the two functions above.\<close>

lemma cap_onHost:
  "map_option (dockerContainer i) (pf_dockerInspect (onHost host p) i) = cap_resolveDockerContainerMetadata host i"
  "Option.bind (pf_podsByUID (onHost host p) u) (\<lambda>items. cap_podAmong items u) = cap_resolveKubernetesPodMetadata host u"
proof -
  show "map_option (dockerContainer i) (pf_dockerInspect (onHost host p) i) = cap_resolveDockerContainerMetadata host i"
    by (simp only: docker_agrees resolveContainer_onHost(2))
  show "Option.bind (pf_podsByUID (onHost host p) u) (\<lambda>items. cap_podAmong items u) = cap_resolveKubernetesPodMetadata host u"
    using resolveContainer_onHost(3) [of host p u]
    by (cases "pf_podsByUID (onHost host p) u")
      (simp_all add: kubernetes_agrees podAmong_agrees decodeKubernetesPodMetadata_def [of None])
qed

end
