(* ===== verification/CaptureParse.thy ===== *)
theory CaptureParse
  imports Processing
begin

text \<open>
  The pure half of karaxys-capture's stream processing, the functions of \<^verbatim>\<open>process.go\<close> and \<^verbatim>\<open>emit.go\<close> on
  bytes, messages and records, from its own text. They do what the worker's functions of the same names do; the
  equations are the collection \<open>parse_copies\<close>, by which the lemmas on the worker's functions serve both programs.
\<close>

section \<open>Keys and metadata\<close>

definition cap_sessionKey :: "ApiEvent \<Rightarrow> bytes" where
  "cap_sessionKey event =
     (if ev_CaptureSource event = ''ebpf'' \<and> ev_PID event \<noteq> 0 \<and> ev_FD event \<noteq> 0 then pidfdKey event
      else if conn_Protocol (ev_Connection event) \<noteq> [] \<and> conn_SrcIP (ev_Connection event) \<noteq> [] \<and>
              conn_DstIP (ev_Connection event) \<noteq> [] then connKey event
      else pidfdKey event)"

definition cap_mergeStreamMetadata :: "ApiEvent \<Rightarrow> StreamState \<Rightarrow> StreamState" where
  "cap_mergeStreamMetadata event state =
     (let s1 = (if st_CaptureSource state = [] then state\<lparr>st_CaptureSource := ev_CaptureSource event\<rparr> else state);
          s2 = (if st_CaptureMode s1 = [] then s1\<lparr>st_CaptureMode := ev_CaptureMode event\<rparr> else s1);
          s3 = (if conn_Protocol (st_Connection s2) = [] then s2\<lparr>st_Connection := ev_Connection event\<rparr> else s2);
          s4 = (if proc_PID (st_Process s3) = 0 then s3\<lparr>st_Process := ev_Process event\<rparr> else s3)
      in if cont_ID (st_Container s4) = [] then s4\<lparr>st_Container := ev_Container event\<rparr> else s4)"

definition cap_mergeLossMetadata :: "LossMetadata \<Rightarrow> LossMetadata \<Rightarrow> LossMetadata" where
  "cap_mergeLossMetadata base latest =
     (let base1 = (if loss_Truncated latest
          then base\<lparr>loss_Truncated := True, loss_OriginalSize := loss_OriginalSize latest,
                    loss_CapturedSize := loss_CapturedSize latest, loss_Reason := loss_Reason latest\<rparr>
          else base)
      in if loss_SequenceGap latest
         then base1\<lparr>loss_SequenceGap := True, loss_ExpectedNextSeq := loss_ExpectedNextSeq latest,
                    loss_ActualSeq := loss_ActualSeq latest\<rparr>
         else base1)"

section \<open>Markers\<close>

definition cap_httpMethods :: "bytes list" where
  "cap_httpMethods = [''GET '', ''POST '', ''PUT '', ''PATCH '', ''DELETE '', ''HEAD '', ''OPTIONS '',
     ''TRACE '', ''CONNECT '']"

definition cap_earliestMethodIndex :: "bytes \<Rightarrow> int" where
  "cap_earliestMethodIndex chunk =
     foldl (\<lambda>best method. let idx = bytes_index chunk method
       in if idx \<ge> 0 \<and> (best = - 1 \<or> idx < best) then idx else best) (- 1) cap_httpMethods"

definition cap_classifyPayload :: "bytes \<Rightarrow> payloadKind" where
  "cap_classifyPayload chunk =
     (let reqIdx = cap_earliestMethodIndex chunk; respIdx = bytes_index chunk ''HTTP/1.''
      in if reqIdx \<ge> 0 \<and> (respIdx < 0 \<or> reqIdx < respIdx) then payloadRequest
         else if respIdx \<ge> 0 then payloadResponse
         else payloadUnknown)"

definition cap_syncRequestBuffer :: "bytes \<Rightarrow> bytes \<times> nat" where
  "cap_syncRequestBuffer data =
     (if length data = 0 then (data, 0)
      else let idx = cap_earliestMethodIndex data
        in if idx > 0 then (drop (nat idx) data, nat idx)
           else if idx = - 1 \<and> length data > 16
             then (let dropped = length data - 16 in (drop dropped data, dropped))
           else (data, 0))"

definition cap_syncResponseBuffer :: "bytes \<Rightarrow> bytes \<times> nat" where
  "cap_syncResponseBuffer data =
     (if length data = 0 then (data, 0)
      else let idx = bytes_index data ''HTTP/1.''
        in if idx > 0 then (drop (nat idx) data, nat idx)
           else if idx = - 1 \<and> length data > 16
             then (let dropped = length data - 16 in (drop dropped data, dropped))
           else (data, 0))"

section \<open>One message\<close>

definition cap_prettyMaybeJSON :: "runtime \<Rightarrow> bytes \<Rightarrow> bytes" where
  "cap_prettyMaybeJSON rt body =
     (let trimmed = trim_space body in
      if trimmed = [] then body
      else if hd trimmed \<noteq> CHR ''{'' \<and> hd trimmed \<noteq> CHR ''['' then body
      else (case lib_jsonIndent rt trimmed of None \<Rightarrow> body | Some pretty \<Rightarrow> pretty))"

text \<open>Every error of the reader is an incomplete body, whatever its kind.\<close>

definition cap_readBodyStringComplete :: "runtime \<Rightarrow> (int \<Rightarrow> bytes option) option \<Rightarrow> int \<Rightarrow> bytes option" where
  "cap_readBodyStringComplete rt body maxBodyBytes =
     (case body of
        None \<Rightarrow> Some []
      | Some read \<Rightarrow>
          (case read (int64 (maxBodyBytes + 1)) of
             None \<Rightarrow> None
           | Some all \<Rightarrow>
               (let truncated = int (length all) > maxBodyBytes;
                    data = (if truncated then take (nat maxBodyBytes) all else all)
                in if utf8_valid data
                   then (let text = cap_prettyMaybeJSON rt data in
                         if truncated then Some (text @ truncatedMark) else Some text)
                   else (let encoded = ''base64:'' @ b64_encode data in
                         if truncated then Some (encoded @ truncatedMark) else Some encoded))))"

fun cap_hasChunkedTransfer :: "bytes list \<Rightarrow> bool" where
  "cap_hasChunkedTransfer [] = False"
| "cap_hasChunkedTransfer (enc # te) =
     (if equal_fold (trim_space enc) ''chunked'' then True else cap_hasChunkedTransfer te)"

definition cap_responseHasNoBody :: "http_request \<Rightarrow> http_response \<Rightarrow> bool" where
  "cap_responseHasNoBody req resp =
     (if equal_fold (req_Method req) ''HEAD'' then True
      else if resp_StatusCode resp \<ge> 100 \<and> resp_StatusCode resp < 200 then True
      else resp_StatusCode resp = 204 \<or> resp_StatusCode resp = 304)"

definition cap_responseNeedsConnectionCloseBoundary :: "http_request \<Rightarrow> http_response \<Rightarrow> bool" where
  "cap_responseNeedsConnectionCloseBoundary req resp =
     (if cap_responseHasNoBody req resp \<or> resp_ContentLength resp \<ge> 0 then False
      else \<not> cap_hasChunkedTransfer (resp_TransferEncoding resp))"

definition cap_parseOneRequest :: "runtime \<Rightarrow> bytes \<Rightarrow> int \<Rightarrow> (http_request \<times> bytes \<times> nat) option" where
  "cap_parseOneRequest rt data maxBodyBytes =
     (if length data = 0 then None
      else case lib_readRequest rt data of
        None \<Rightarrow> None
      | Some p \<Rightarrow>
          (case cap_readBodyStringComplete rt (pm_body p) maxBodyBytes of
             None \<Rightarrow> None
           | Some body \<Rightarrow>
               (let consumed = int (length data) - int (pm_unread p (int64 (maxBodyBytes + 1)))
                in if consumed \<le> 0 then None else Some (pm_message p, body, nat consumed))))"

definition cap_parseOneResponse ::
  "runtime \<Rightarrow> bytes \<Rightarrow> http_request \<Rightarrow> int \<Rightarrow> bool \<Rightarrow> (http_response \<times> bytes \<times> nat) option" where
  "cap_parseOneResponse rt data req maxBodyBytes allowCloseDelimited =
     (if length data = 0 then None
      else case lib_readResponse rt data req of
        None \<Rightarrow> None
      | Some p \<Rightarrow>
          if \<not> allowCloseDelimited \<and> cap_responseNeedsConnectionCloseBoundary req (pm_message p) then None
          else (case cap_readBodyStringComplete rt (pm_body p) maxBodyBytes of
             None \<Rightarrow> None
           | Some body \<Rightarrow>
               (let consumed = int (length data) - int (pm_unread p (int64 (maxBodyBytes + 1)))
                in if consumed \<le> 0 then None else Some (pm_message p, body, nat consumed))))"

section \<open>Helpers\<close>

fun cap_firstNonEmpty :: "bytes list \<Rightarrow> bytes" where
  "cap_firstNonEmpty [] = []"
| "cap_firstNonEmpty (v # vs) = (if v \<noteq> [] then v else cap_firstNonEmpty vs)"

definition cap_newOID :: "world \<Rightarrow> bytes \<times> world" where
  "cap_newOID w =
     (case randRead w of
        (None, w1) \<Rightarrow> (let (now, w2) = timeNow w1 in (hex24 (nat now), w2))
      | (Some b, w1) \<Rightarrow> (hex_encode b, w1))"

definition cap_isCounterNoise :: "bytes \<Rightarrow> bool" where
  "cap_isCounterNoise payload =
     (if length payload \<noteq> 8 then False
      else if payload ! 0 \<noteq> CHR 0x01 \<and> payload ! 0 \<noteq> CHR 0x02 then False
      else \<not> list_ex (\<lambda>i. payload ! i \<noteq> CHR 0x00) [1 ..< 8])"

section \<open>The equations\<close>

named_theorems parse_copies

lemma keys_copied [parse_copies]: "cap_sessionKey = sessionKey" "cap_mergeLossMetadata = mergeLossMetadata"
  unfolding fun_eq_iff cap_sessionKey_def sessionKey_def cap_mergeLossMetadata_def mergeLossMetadata_def by blast+

lemma metadata_copied [parse_copies]: "cap_mergeStreamMetadata = mergeStreamMetadata"
proof (intro ext)
  fix event :: ApiEvent and state :: StreamState
  define s1 where "s1 = state\<lparr>st_CaptureSource := (if st_CaptureSource state = [] then ev_CaptureSource event else st_CaptureSource state)\<rparr>"
  define s2 where "s2 = s1\<lparr>st_CaptureMode := (if st_CaptureMode s1 = [] then ev_CaptureMode event else st_CaptureMode s1)\<rparr>"
  define s3 where "s3 = s2\<lparr>st_Connection := (if conn_Protocol (st_Connection s2) = [] then ev_Connection event else st_Connection s2)\<rparr>"
  define s4 where "s4 = s3\<lparr>st_Process := (if proc_PID (st_Process s3) = 0 then ev_Process event else st_Process s3)\<rparr>"
  have fill: "(if st_CaptureSource state = [] then state\<lparr>st_CaptureSource := ev_CaptureSource event\<rparr> else state) = s1"
    "(if st_CaptureMode s1 = [] then s1\<lparr>st_CaptureMode := ev_CaptureMode event\<rparr> else s1) = s2"
    "(if conn_Protocol (st_Connection s2) = [] then s2\<lparr>st_Connection := ev_Connection event\<rparr> else s2) = s3"
    "(if proc_PID (st_Process s3) = 0 then s3\<lparr>st_Process := ev_Process event\<rparr> else s3) = s4"
    unfolding s1_def s2_def s3_def s4_def by simp_all
  have "cap_mergeStreamMetadata event state =
      (if cont_ID (st_Container s4) = [] then s4\<lparr>st_Container := ev_Container event\<rparr> else s4)"
    unfolding cap_mergeStreamMetadata_def fill Let_def [of s1] Let_def [of s2] Let_def [of s3] Let_def [of s4] by (rule refl)
  then show "cap_mergeStreamMetadata event state = mergeStreamMetadata event state"
    by (simp add: s4_def s3_def s2_def s1_def mergeStreamMetadata_def)
qed

lemma earliest_copied [parse_copies]: "cap_earliestMethodIndex = earliestMethodIndex"
proof
  have "earliest_from chunk best methods = foldl (\<lambda>best method. let idx = bytes_index chunk method
       in if idx \<ge> 0 \<and> (best = - 1 \<or> idx < best) then idx else best) best methods" for chunk best methods
    by (induction methods arbitrary: best) (simp_all add: Let_def)
  moreover have "cap_httpMethods = httpMethods" unfolding cap_httpMethods_def httpMethods_def by (rule refl)
  ultimately show "cap_earliestMethodIndex chunk = earliestMethodIndex chunk" for chunk
    unfolding cap_earliestMethodIndex_def earliestMethodIndex_def by (simp only:)
qed

lemma framing_copied [parse_copies]: "cap_classifyPayload = classifyPayload"
  "cap_syncRequestBuffer = syncRequestBuffer" "cap_syncResponseBuffer = syncResponseBuffer"
  unfolding fun_eq_iff cap_classifyPayload_def classifyPayload_def cap_syncRequestBuffer_def syncRequestBuffer_def
    cap_syncResponseBuffer_def syncResponseBuffer_def earliest_copied statusMarker_def
    requestStartProbeWindow_def responseStartProbeWindow_def by blast+

lemma pretty_copied [parse_copies]: "cap_prettyMaybeJSON = prettyMaybeJSON"
  by (intro ext) (simp add: cap_prettyMaybeJSON_def prettyMaybeJSON_def Let_def split: list.split)

lemma body_copied: "cap_readBodyStringComplete = readBodyStringComplete"
  by (intro ext) (simp add: cap_readBodyStringComplete_def readBodyStringComplete_def renderBody_def pretty_copied
      Let_def split: option.split)

lemma boundary_copied: "cap_responseNeedsConnectionCloseBoundary = responseNeedsConnectionCloseBoundary"
proof (intro ext)
  fix req resp
  have chunked: "cap_hasChunkedTransfer te = hasChunkedTransfer te" for te
  proof (induction te)
    case (Cons enc te)
    show ?case unfolding cap_hasChunkedTransfer.simps Cons hasChunkedTransfer_def list_ex_iff
      by (simp only: if_bool_eq_disj list.set bex_simps) blast
  qed (simp add: hasChunkedTransfer_def)
  have none: "cap_responseHasNoBody = responseHasNoBody"
    unfolding fun_eq_iff cap_responseHasNoBody_def responseHasNoBody_def by blast
  show "cap_responseNeedsConnectionCloseBoundary req resp = responseNeedsConnectionCloseBoundary req resp"
    unfolding cap_responseNeedsConnectionCloseBoundary_def responseNeedsConnectionCloseBoundary_def none chunked
    by (simp only: if_bool_eq_conj simp_thms) blast
qed

lemma messages_copied [parse_copies]: "cap_parseOneRequest = parseOneRequest" "cap_parseOneResponse = parseOneResponse"
  unfolding fun_eq_iff cap_parseOneRequest_def parseOneRequest_def cap_parseOneResponse_def parseOneResponse_def
    finishParse_def body_copied boundary_copied by blast+

lemma first_copied [parse_copies]: "cap_firstNonEmpty = firstNonEmpty"
proof
  show "cap_firstNonEmpty vs = firstNonEmpty vs" for vs by (induction vs) simp_all
qed

lemma newOID_copied [parse_copies]: "cap_newOID = newOID"
  by (intro ext) (simp add: cap_newOID_def newOID_def split: prod.split option.split)

lemma noise_copied [parse_copies]: "cap_isCounterNoise = isCounterNoise"
  by (intro ext) (simp add: cap_isCounterNoise_def isCounterNoise_def list_ex_iff list_all_iff)

end
