(* ===== verification/CaptureMetadata.thy ===== *)
theory CaptureMetadata
  imports CaptureContainers CaptureParse
begin

text \<open>
  Metadata and the flow filter of the standalone capture program, \<^verbatim>\<open>cmd/karaxys-capture/metadata.go\<close>:
  its own text of the agent's code. It differs in the guess at a payload, the test for a listening socket
  and the reading of an IPv6 address; for the rest \<open>cap_x = x\<close> is proved. The records are shared with the agent's model.
\<close>

section \<open>Port sets\<close>

text \<open>The loop over the parts; \<open>Inl part\<close> is the error that names the invalid part.\<close>

fun cap_parsePorts :: "bytes list \<Rightarrow> portSet \<Rightarrow> bytes + portSet" where
  "cap_parsePorts [] acc = Inr acc"
| "cap_parsePorts (raw # parts) acc =
     (let part = trim_space raw in
      if part = [] then cap_parsePorts parts acc
      else case atoi part of
             None \<Rightarrow> Inl part
           | Some port \<Rightarrow>
               if port < 0 \<or> port > 65535 then Inl part
               else cap_parsePorts parts (if port > 0 then insert port acc else acc))"

definition cap_parsePortSet :: "bytes \<Rightarrow> bytes + portSet" where
  "cap_parsePortSet raw = cap_parsePorts (split_on CHR '','' raw) {}"

definition cap_portSet_contains :: "portSet \<Rightarrow> int \<Rightarrow> bool" where
  "cap_portSet_contains s port = (if s = {} then False else port \<in> s)"

definition cap_matchesAny :: "portSet \<Rightarrow> int list \<Rightarrow> bool" where
  "cap_matchesAny s ports = (if s = {} then False else list_ex (cap_portSet_contains s) ports)"

lemma ports_agree [simp]: "cap_parsePortSet = parsePortSet"
proof
  have "cap_parsePorts parts acc = parsePorts parts acc" for parts acc
    by (induction parts acc rule: cap_parsePorts.induct) (auto simp: parsePort_def Let_def split: option.split)
  then show "cap_parsePortSet raw = parsePortSet raw" for raw by (simp add: cap_parsePortSet_def parsePortSet_def)
qed

lemma matches_agree: "cap_matchesAny = matchesAny"
proof -
  have same: "cap_portSet_contains = portSet_contains"
    unfolding fun_eq_iff cap_portSet_contains_def portSet_contains_def by blast
  show ?thesis unfolding fun_eq_iff cap_matchesAny_def matchesAny_def same by blast
qed

section \<open>The flow filter\<close>

definition cap_newFlowFilter :: "duration \<Rightarrow> portSet \<Rightarrow> portSet \<Rightarrow> bool \<Rightarrow> bool \<Rightarrow> flowFilter" where
  "cap_newFlowFilter ttl targetPorts ignorePorts captureInbound captureOutbound =
     \<lparr>ff_flows = [], ff_ttl = ttl, ff_targetPorts = targetPorts, ff_ignorePorts = ignorePorts,
      ff_captureInbound = captureInbound, ff_captureOutbound = captureOutbound\<rparr>"

definition cap_isLikelyHTTPPayload :: "bytes \<Rightarrow> bool" where
  "cap_isLikelyHTTPPayload payload =
     (if length payload = 0 then False
      else let payload1 = (if length payload > 64 then take 64 payload else payload)
           in cap_classifyPayload payload1 \<noteq> payloadUnknown)"

lemmas cap_isLikelyHTTPPayload_eq = cap_isLikelyHTTPPayload_def [unfolded parse_copies]

definition cap_filter_cleanup :: "time \<Rightarrow> flowFilter \<Rightarrow> flowFilter" where
  "cap_filter_cleanup now f =
     (if length (ff_flows f) < 65536 then f
      else f\<lparr>ff_flows := filter (\<lambda>(key, cached). \<not> now > cf_expiresAt cached) (ff_flows f)\<rparr>)"

definition cap_filter_lookup :: "flowKey \<Rightarrow> time \<Rightarrow> flowFilter \<Rightarrow> flowDecision option \<times> flowFilter" where
  "cap_filter_lookup key now f =
     (case map_of (ff_flows f) key of
        None \<Rightarrow> (None, cap_filter_cleanup now f)
      | Some cached \<Rightarrow>
          if now > cf_expiresAt cached
          then (None, cap_filter_cleanup now (f\<lparr>ff_flows := AList.delete key (ff_flows f)\<rparr>))
          else (Some (cf_decision cached), f))"

definition cap_filter_remember :: "flowKey \<Rightarrow> flowDecision \<Rightarrow> time \<Rightarrow> flowFilter \<Rightarrow> flowFilter" where
  "cap_filter_remember key decision now f =
     cap_filter_cleanup now (f\<lparr>ff_flows :=
       AList.update key \<lparr>cf_decision = decision, cf_expiresAt = now + ff_ttl f\<rparr> (ff_flows f)\<rparr>)"

definition cap_connectionAllowed :: "flowFilter \<Rightarrow> ConnectionMetadata \<Rightarrow> bool" where
  "cap_connectionAllowed f conn =
     (if cap_matchesAny (ff_ignorePorts f) [conn_SrcPort conn, conn_DstPort conn] then False
      else if conn_Role conn = ''inbound'' \<and> \<not> ff_captureInbound f then False
      else if conn_Role conn = ''outbound'' \<and> \<not> ff_captureOutbound f then False
      else if ff_targetPorts f = {} then True
      else cap_matchesAny (ff_targetPorts f) [conn_SrcPort conn, conn_DstPort conn])"

definition cap_filter_allow :: "ApiEvent \<Rightarrow> bool \<Rightarrow> time \<Rightarrow> flowFilter \<Rightarrow> bool \<times> flowFilter" where
  "cap_filter_allow event metadataOK now f =
     (let key = eventFlowKey event; (cached, f1) = cap_filter_lookup key now f in
      case cached of
        Some decision \<Rightarrow> (decision = flowDecisionAllow, f1)
      | None \<Rightarrow>
          if metadataOK \<and> conn_Protocol (ev_Connection event) \<noteq> [] then
            (if cap_connectionAllowed f1 (ev_Connection event)
             then (True, cap_filter_remember key flowDecisionAllow now f1)
             else (False, cap_filter_remember key flowDecisionDeny now f1))
          else if ev_EventType event = eventTypeData \<and> cap_isLikelyHTTPPayload (ev_Payload event)
          then (True, cap_filter_remember key flowDecisionAllow now f1)
          else (False, f1))"

text \<open>Both programs guess alike: the classification finds a method or a status line exactly where
  the agent finds a marker.\<close>

lemma likely_agrees: "cap_isLikelyHTTPPayload = isLikelyHTTPPayload"
proof
  fix payload
  have "classifyPayload d \<noteq> payloadUnknown \<longleftrightarrow> list_ex (contains d) httpPayloadMarkers" for d
  proof -
    have unknown: "classifyPayload d = payloadUnknown \<longleftrightarrow> bytes_index d statusMarker = - 1 \<and> earliestMethodIndex d = - 1"
      using bytes_index_ge [of d statusMarker] earliestMethodIndex_ge [of d] by (auto simp: classifyPayload_def Let_def)
    have markers: "httpPayloadMarkers = httpMethods @ [statusMarker]"
      by (simp add: httpPayloadMarkers_def httpMethods_def statusMarker_def)
    have "contains d m \<longleftrightarrow> bytes_index d m \<noteq> - 1" for m
      using bytes_index_ge [of d m] by (auto simp: contains_def)
    then show ?thesis unfolding unknown earliestMethodIndex_none markers
      by (auto simp: list_ex_iff bytes_index_none)
  qed
  then show "cap_isLikelyHTTPPayload payload = isLikelyHTTPPayload payload"
    by (simp add: cap_isLikelyHTTPPayload_eq isLikelyHTTPPayload_def Let_def)
qed

lemma filter_copies [simp]: "cap_filter_lookup = filter_lookup" "cap_filter_remember = filter_remember"
  "cap_connectionAllowed = connectionAllowed" "cap_newFlowFilter = newFlowFilter"
proof -
  have clean: "cap_filter_cleanup = filter_cleanup"
    unfolding fun_eq_iff cap_filter_cleanup_def filter_cleanup_def by blast
  show "cap_filter_lookup = filter_lookup"
    unfolding fun_eq_iff cap_filter_lookup_def filter_lookup_def clean by blast
  show "cap_filter_remember = filter_remember"
    unfolding fun_eq_iff cap_filter_remember_def filter_remember_def clean by blast
  show "cap_connectionAllowed = connectionAllowed"
    unfolding fun_eq_iff cap_connectionAllowed_def connectionAllowed_def matches_agree by blast
  show "cap_newFlowFilter = newFlowFilter"
    unfolding fun_eq_iff cap_newFlowFilter_def newFlowFilter_def by blast
qed

lemma allow_agrees: "cap_filter_allow = filter_allow"
  by (intro ext) (simp only: cap_filter_allow_def filter_allow_def likely_agrees filter_copies)

section \<open>Connections\<close>

definition cap_socketInode :: "procfs \<Rightarrow> u32 \<Rightarrow> u32 \<Rightarrow> unit + bytes" where
  "cap_socketInode p pid fd =
     (case pf_fdLink p pid fd of
        None \<Rightarrow> Inl ()
      | Some target \<Rightarrow>
          if \<not> has_prefix target ''socket:['' then Inr []
          else let start = index_byte target CHR ''[''; stop = index_byte target CHR '']'' in
            if start < 0 \<or> stop < 0 \<or> stop \<le> start + 1 then Inl ()
            else Inr (take (nat (stop - (start + 1))) (drop (nat (start + 1)) target)))"

text \<open>The loop fills the address from its last octet.\<close>

definition cap_parseIPv4Hex :: "bytes \<Rightarrow> bytes" where
  "cap_parseIPv4Hex raw =
     (if length raw \<noteq> 8 then []
      else (let octets = map (\<lambda>i. parse_hex8 (take 2 (drop (i * 2) raw))) [3, 2, 1, 0]
            in if None \<in> set octets then [] else show_ipv4 (map the octets)))"

definition cap_parseIPv6Hex :: "procfs \<Rightarrow> bytes \<Rightarrow> bytes" where
  "cap_parseIPv6Hex p raw =
     (if length raw \<noteq> 32 then []
      else
        (let octet = (\<lambda>group i. parse_hex8 (take 2 (drop (group * 8 + i * 2) raw)));
             octets = concat (map (\<lambda>group. map (octet group) [3, 2, 1, 0]) [0 ..< 4])
         in if None \<in> set octets then []
            else pf_ipString p (map (\<lambda>b. char_of (the b)) octets)))"

definition cap_parseProcNetAddr :: "procfs \<Rightarrow> bytes \<Rightarrow> bool \<Rightarrow> bytes \<times> int" where
  "cap_parseProcNetAddr p raw ipv6 =
     (case split_on CHR '':'' raw of
        [addr, port] \<Rightarrow> (if ipv6 then cap_parseIPv6Hex p addr else cap_parseIPv4Hex addr, parse_hex_int32 port)
      | _ \<Rightarrow> ([], 0))"

definition cap_isLikelyListenOrServer :: "bytes \<Rightarrow> bytes \<Rightarrow> int \<Rightarrow> bool" where
  "cap_isLikelyListenOrServer state remoteIP remotePort =
     (if state = ''0A'' then True
      else if remotePort = 0 \<and> (remoteIP = ''0.0.0.0'' \<or> remoteIP = ''::'' \<or> remoteIP = []) then True
      else False)"

fun cap_findInode :: "procfs \<Rightarrow> bytes \<Rightarrow> bool \<Rightarrow> bytes list \<Rightarrow> ConnectionMetadata option" where
  "cap_findInode p inode ipv6 [] = None"
| "cap_findInode p inode ipv6 (line # rest) =
     (let fs = strings_Fields line in
      if length fs < 10 \<or> fs ! 9 \<noteq> inode then cap_findInode p inode ipv6 rest
      else let (localIP, localPort) = cap_parseProcNetAddr p (fs ! 1) ipv6;
               (remoteIP, remotePort) = cap_parseProcNetAddr p (fs ! 2) ipv6
           in Some \<lparr>conn_SrcIP = localIP, conn_SrcPort = localPort, conn_DstIP = remoteIP,
                conn_DstPort = remotePort, conn_Protocol = ''tcp'',
                conn_Family = (if ipv6 then ''ipv6'' else ''ipv4''),
                conn_Role = (if cap_isLikelyListenOrServer (fs ! 3) remoteIP remotePort
                             then ''inbound'' else ''outbound'')\<rparr>)"

definition cap_findTCPConnection :: "procfs \<Rightarrow> u32 \<Rightarrow> bytes \<Rightarrow> bool \<Rightarrow> ConnectionMetadata option" where
  "cap_findTCPConnection p pid inode ipv6 =
     (case pf_netTCP p pid ipv6 of
        None \<Rightarrow> None
      | Some (lines, err) \<Rightarrow> cap_findInode p inode ipv6 (drop 1 lines))"

definition cap_resolveConnection :: "procfs \<Rightarrow> u32 \<Rightarrow> u32 \<Rightarrow> ConnectionMetadata option" where
  "cap_resolveConnection p pid fd =
     (case cap_socketInode p pid fd of
        Inl _ \<Rightarrow> None
      | Inr inode \<Rightarrow>
          if inode = [] then None
          else case cap_findTCPConnection p pid inode False of
                 Some conn \<Rightarrow> Some conn
               | None \<Rightarrow> cap_findTCPConnection p pid inode True)"

section \<open>The resolver\<close>

definition cap_resolveProcess :: "procfs \<Rightarrow> u32 \<Rightarrow> ProcessMetadata" where
  "cap_resolveProcess p pid = \<lparr>proc_PID = pid, proc_Name = trim_space (pf_comm p pid), proc_Exe = pf_exe p pid\<rparr>"

definition cap_resolveWithSource ::
  "procfs \<Rightarrow> flowKey \<Rightarrow> time \<Rightarrow> time \<Rightarrow> metadataResolver \<Rightarrow> (resolved \<times> metadataSource) \<times> metadataResolver" where
  "cap_resolveWithSource p key now later r =
     (let cached = resolver_fresh key now r in
      case cached of
        Some entry \<Rightarrow>
          if rs_ok entry then ((entry, metadataSourceCache), r)
          else
            (let found = cap_resolveConnection p (fk_pid key) (fk_fd key);
                 result = \<lparr>rs_conn = (case found of Some c \<Rightarrow> c | None \<Rightarrow> noConnection),
                   rs_process = rs_process entry, rs_container = rs_container entry, rs_ok = (found \<noteq> None)\<rparr>
             in ((result, if found \<noteq> None then metadataSourceProc else metadataSourceNone),
                 resolver_store key result now r))
      | None \<Rightarrow>
          (let found = cap_resolveConnection p (fk_pid key) (fk_fd key);
               (container, containers1) = cap_resolveContainer p (fk_pid key) now later (mr_containers r);
               result = \<lparr>rs_conn = (case found of Some c \<Rightarrow> c | None \<Rightarrow> noConnection),
                 rs_process = cap_resolveProcess p (fk_pid key), rs_container = container, rs_ok = (found \<noteq> None)\<rparr>
           in ((result, if found \<noteq> None then metadataSourceProc else metadataSourceNone),
               resolver_store key result now (r\<lparr>mr_containers := containers1\<rparr>))))"

definition cap_newMetadataResolver :: "duration \<Rightarrow> metadataResolver" where
  "cap_newMetadataResolver ttl = \<lparr>mr_cache = [], mr_ttl = ttl, mr_containers = []\<rparr>"

definition cap_resolver_remember :: "flowKey \<Rightarrow> resolved \<Rightarrow> time \<Rightarrow> metadataResolver \<Rightarrow> metadataResolver" where
  "cap_resolver_remember key entry now r =
     (if conn_Protocol (rs_conn entry) = [] then r
      else case map_of (mr_cache r) key of
             Some (old, checkedAt) \<Rightarrow>
               if rs_ok old \<and> now - checkedAt < mr_ttl r then r
               else r\<lparr>mr_cache := AList.update key (entry\<lparr>rs_ok := True\<rparr>, now) (mr_cache r)\<rparr>
           | None \<Rightarrow> r\<lparr>mr_cache := AList.update key (entry\<lparr>rs_ok := True\<rparr>, now) (mr_cache r)\<rparr>)"

definition cap_resolver_forget :: "flowKey \<Rightarrow> metadataResolver \<Rightarrow> metadataResolver" where
  "cap_resolver_forget key r = r\<lparr>mr_cache := AList.delete key (mr_cache r)\<rparr>"

lemma resolver_copies [simp]: "cap_newMetadataResolver = newMetadataResolver" "cap_resolver_remember = resolver_remember"
  "cap_resolver_forget = resolver_forget"
  unfolding fun_eq_iff cap_newMetadataResolver_def newMetadataResolver_def cap_resolver_remember_def
    resolver_remember_def cap_resolver_forget_def resolver_forget_def by blast+

text \<open>A result without error is a connection that was found; it is what the cache holds afterwards.\<close>

lemma cap_findInode_protocol: "cap_findInode p inode ipv6 lines = Some conn \<Longrightarrow> conn_Protocol conn = ''tcp''"
  by (induction lines) (auto simp: Let_def split: if_splits prod.splits)

lemma cap_resolveConnection_protocol:
  "cap_resolveConnection p pid fd = Some conn \<Longrightarrow> conn_Protocol conn = ''tcp''"
  by (auto simp: cap_resolveConnection_def cap_findTCPConnection_def dest: cap_findInode_protocol
      split: sum.splits if_splits option.splits)

lemma cap_resolve_cached:
  assumes "cap_resolveWithSource p key now later r = ((result, source), r')" "resolver_inv r" "0 < mr_ttl r"
  shows "resolver_fresh key now r' = Some result" "mr_ttl r' = mr_ttl r" "resolver_inv r'"
proof -
  have store: "resolver_fresh key now (resolver_store key v now (r\<lparr>mr_containers := c\<rparr>)) = Some v"
    "mr_ttl (resolver_store key v now (r\<lparr>mr_containers := c\<rparr>)) = mr_ttl r"
    "resolver_inv (resolver_store key v now (r\<lparr>mr_containers := c\<rparr>))" for v c
    using resolutions.put_same [of "r\<lparr>mr_containers := c\<rparr>" now now key v] resolutions.inv_put [of "r\<lparr>mr_containers := c\<rparr>" key v now]
      assms(2,3) by (simp_all add: resolver_store_def Let_def)
  from this [of _ "mr_containers r"] have same: "resolver_fresh key now (resolver_store key v now r) = Some v"
    "mr_ttl (resolver_store key v now r) = mr_ttl r" "resolver_inv (resolver_store key v now r)" for v by simp_all
  obtain container c where k: "cap_resolveContainer p (fk_pid key) now later (mr_containers r) = (container, c)" by force
  have "resolver_fresh key now r' = Some result \<and> mr_ttl r' = mr_ttl r \<and> resolver_inv r'"
  proof (cases "resolver_fresh key now r")
    case None
    then show ?thesis using assms(1) store k by (auto simp: cap_resolveWithSource_def Let_def)
  next
    case (Some entry)
    then show ?thesis using assms same by (auto simp: cap_resolveWithSource_def Let_def split: if_splits)
  qed
  then show "resolver_fresh key now r' = Some result" "mr_ttl r' = mr_ttl r" "resolver_inv r'" by blast+
qed

end
