(* ===== verification/CaptureTypes.thy ===== *)
theory CaptureTypes
  imports World Sink
begin

text \<open>
  The data model of the standalone capture program, \<^verbatim>\<open>cmd/karaxys-capture/types.go\<close>. Its events,
  metadata, parsed requests and emitted records have the fields of the worker's and reuse its
  records; its stream state adds the TLS and HTTP/2 flags, its counters lose the Kafka ones and
  gain the emission errors, and its sink reports whether it took a conversation.
\<close>

section \<open>Stream state and counters\<close>

definition eventFlagSSL :: u8 where "eventFlagSSL = 1"

text \<open>\<open>cs_stream\<close> holds the fields that the struct has in common with the worker's. A nil and an
  empty \<open>H2Emitted\<close> map behave alike; both are the empty set.\<close>

record captureState =
  cs_stream :: StreamState
  cs_Ssl :: bool
  cs_H2 :: bool
  cs_H2Emitted :: "u32 set"

record captureStore =
  css_sessions :: "bytes \<rightharpoonup> captureState"
  css_ttl :: duration

record processingStats =
  ps_received :: u64
  ps_droppedMalformed :: u64
  ps_droppedNoise :: u64
  ps_outOfOrder :: u64
  ps_routedReq :: u64
  ps_routedResp :: u64
  ps_routedUnknown :: u64
  ps_requestParsed :: u64
  ps_responseParsed :: u64
  ps_requestParsePending :: u64
  ps_responseParsePending :: u64
  ps_droppedNoReqStart :: u64
  ps_droppedNoRespInit :: u64
  ps_droppedReqOverflow :: u64
  ps_droppedRespOverflow :: u64
  ps_parsed :: u64
  ps_closedSessions :: u64
  ps_expiredSessions :: u64
  ps_emitErrors :: u64

definition zeroProcessing :: processingStats where
  "zeroProcessing = \<lparr>ps_received = 0, ps_droppedMalformed = 0, ps_droppedNoise = 0, ps_outOfOrder = 0,
     ps_routedReq = 0, ps_routedResp = 0, ps_routedUnknown = 0, ps_requestParsed = 0,
     ps_responseParsed = 0, ps_requestParsePending = 0, ps_responseParsePending = 0,
     ps_droppedNoReqStart = 0, ps_droppedNoRespInit = 0, ps_droppedReqOverflow = 0,
     ps_droppedRespOverflow = 0, ps_parsed = 0, ps_closedSessions = 0, ps_expiredSessions = 0,
     ps_emitErrors = 0\<rparr>"

section \<open>Configuration\<close>

text \<open>
  The field \<open>sink\<close> is an interface value: \<open>None\<close> is nil, otherwise what \<open>Emit\<close> answers to a
  payload after the payloads it was given before. \<open>cc_output\<close> tells whether \<open>output\<close> is set.
\<close>

record captureConfig =
  cc_ingestURL :: bytes
  cc_accountToken :: bytes
  cc_agentID :: bytes
  cc_sessionTTL :: duration
  cc_statsInterval :: duration
  cc_maxBodyBytes :: int
  cc_maxStreamBytes :: int
  cc_httpTimeout :: duration
  cc_httpMaxRetries :: int
  cc_httpRetryDelay :: duration
  cc_deadLetterFile :: bytes
  cc_debugPayload :: bool
  cc_output :: bool
  cc_sink :: "(bytes list \<Rightarrow> bytes \<Rightarrow> sinkError option) option"

datatype emitError = MarshalFailed | SinkFailed sinkError | NoSinkConfigured

end
