(* ===== verification/HttpTwo.thy ===== *)
theory HttpTwo
  imports CaptureTypes HttpParse "HOL-Library.AList"
begin

text \<open>
  HTTP/2 in the standalone capture program, \<^verbatim>\<open>cmd/karaxys-capture/h2.go\<close>: the client preface, the
  frames of the two directions of a connection and the streams they describe. The frame reader and
  the header decompression of \<open>golang.org/x/net/http2\<close> are parameters; a stream is what the code
  collects from their results.
\<close>

section \<open>The preface\<close>

definition h2Preface :: bytes where
  "h2Preface = ''PRI * HTTP/2.0'' @ [CHR 0x0D, CHR 0x0A, CHR 0x0D, CHR 0x0A] @ ''SM'' @
     [CHR 0x0D, CHR 0x0A, CHR 0x0D, CHR 0x0A]"

definition isH2PrefaceCandidate :: "bytes \<Rightarrow> bool" where
  "isH2PrefaceCandidate data =
     (if length data = 0 then False
      else if length data \<ge> length h2Preface then take (length h2Preface) data = h2Preface
      else data = take (length data) h2Preface)"

definition stripPreface :: "bytes \<Rightarrow> bytes" where
  "stripPreface data =
     (if length data \<ge> length h2Preface \<and> take (length h2Preface) data = h2Preface
      then drop (length h2Preface) data else data)"

section \<open>Header fields\<close>

text \<open>
  \<open>http.Header.Add\<close> and \<open>Get\<close> canonicalise the name: upper case at the start and after a hyphen,
  lower case elsewhere, and no change when it holds a byte that no header name has, such as the
  colon of a pseudo header.
\<close>

definition headerFieldByte :: "char \<Rightarrow> bool" where
  "headerFieldByte c \<longleftrightarrow>
     (let n = byte_of c :: nat in
      (48 \<le> n \<and> n \<le> 57) \<or> (65 \<le> n \<and> n \<le> 90) \<or> (97 \<le> n \<and> n \<le> 122) \<or>
      c \<in> set ''!#$%&*+-.^_|~'' \<or> c = CHR 0x27 \<or> c = CHR 0x60)"

fun canonicalBytes :: "bool \<Rightarrow> bytes \<Rightarrow> bytes" where
  "canonicalBytes upper [] = []"
| "canonicalBytes upper (c # s) =
     (let n = byte_of c :: nat;
          d = (if upper \<and> 97 \<le> n \<and> n \<le> 122 then char_of (n - 32)
               else if \<not> upper \<and> 65 \<le> n \<and> n \<le> 90 then char_of (n + 32) else c)
      in d # canonicalBytes (d = CHR ''-'') s)"

definition canonicalHeaderKey :: "bytes \<Rightarrow> bytes" where
  "canonicalHeaderKey name = (if list_all headerFieldByte name then canonicalBytes True name else name)"

definition header_Add :: "bytes \<Rightarrow> bytes \<Rightarrow> http_header \<Rightarrow> http_header" where
  "header_Add name value h =
     (let key = canonicalHeaderKey name; old = (case map_of h key of Some vs \<Rightarrow> vs | None \<Rightarrow> [])
      in AList.update key (old @ [value]) h)"

text \<open>\<open>fmt.Sscanf(value, "%d", &n)\<close>: the value that \<open>n\<close> is set to, if the scan succeeds. The digits
  end at the first other byte, a line break before them is an error.\<close>

definition sscanf_d :: "bytes \<Rightarrow> int option" where
  "sscanf_d value =
     (let s = trim_with (filter (\<lambda>c. c \<noteq> [CHR 0x0A]) go_spaces) value;
          negative = (case s of c # _ \<Rightarrow> c = CHR ''-'' | [] \<Rightarrow> False);
          rest = (case s of c # t \<Rightarrow> if c = CHR ''-'' \<or> c = CHR ''+'' then t else s | [] \<Rightarrow> []);
          digits = takeWhile is_digit rest; n = int (digits_value digits)
      in if digits = [] then None
         else if negative then (if n \<le> 2 ^ 63 then Some (- n) else None)
         else (if n < 2 ^ 63 then Some n else None))"

section \<open>Frames and streams\<close>

text \<open>The frames the code distinguishes; \<open>OtherFrame\<close> is any other type (RST_STREAM, which is only
  logged, CONTINUATION, PRIORITY, SETTINGS and so on).\<close>

datatype h2Frame =
    HeadersFrame u32 bytes bool
  | DataFrame u32 bytes bool
  | OtherFrame u32

fun frame_StreamID :: "h2Frame \<Rightarrow> u32" where
  "frame_StreamID (HeadersFrame i fragment ended) = i"
| "frame_StreamID (DataFrame i data ended) = i"
| "frame_StreamID (OtherFrame i) = i"

text \<open>
  \<open>h2_readFrames\<close> lists the frames that \<open>Framer.ReadFrame\<close> returns on a buffer before its first
  error (the end of the buffer included), with frames of at most one megabyte. \<open>h2_decodeFull\<close> is
  \<open>hpack.Decoder.DecodeFull\<close>, whose result depends on the fragments the decoder was given before.
  \<open>h2_order\<close> is the order in which Go's map iteration visits the streams, which may differ each time.
\<close>

record h2lib =
  h2_readFrames :: "bytes \<Rightarrow> h2Frame list"
  h2_decodeFull :: "bytes list \<Rightarrow> bytes \<Rightarrow> (bytes \<times> bytes) list option"
  h2_order :: "nat \<Rightarrow> u32 list \<Rightarrow> u32 list"

record h2Stream =
  h2s_requestHeaders :: http_header
  h2s_requestBody :: bytes
  h2s_responseHeaders :: http_header
  h2s_responseBody :: bytes
  h2s_method :: bytes
  h2s_path :: bytes
  h2s_statusCode :: int
  h2s_status :: bytes
  h2s_requestComplete :: bool
  h2s_responseComplete :: bool

definition newH2Stream :: h2Stream where
  "newH2Stream = \<lparr>h2s_requestHeaders = [], h2s_requestBody = [], h2s_responseHeaders = [],
     h2s_responseBody = [], h2s_method = [], h2s_path = [], h2s_statusCode = 0, h2s_status = [],
     h2s_requestComplete = False, h2s_responseComplete = False\<rparr>"

type_synonym h2Streams = "(u32 \<times> h2Stream) list"

definition requestField :: "bytes \<times> bytes \<Rightarrow> h2Stream \<Rightarrow> h2Stream" where
  "requestField hf s =
     (let s1 = s\<lparr>h2s_requestHeaders := header_Add (fst hf) (snd hf) (h2s_requestHeaders s)\<rparr> in
      if fst hf = '':method'' then s1\<lparr>h2s_method := snd hf\<rparr>
      else if fst hf = '':path'' then s1\<lparr>h2s_path := snd hf\<rparr>
      else s1)"

definition responseField :: "bytes \<times> bytes \<Rightarrow> h2Stream \<Rightarrow> h2Stream" where
  "responseField hf s =
     (let s1 = s\<lparr>h2s_responseHeaders := header_Add (fst hf) (snd hf) (h2s_responseHeaders s)\<rparr> in
      if fst hf = '':status''
      then s1\<lparr>h2s_status := snd hf,
              h2s_statusCode := (case sscanf_d (snd hf) of Some n \<Rightarrow> n | None \<Rightarrow> h2s_statusCode s1)\<rparr>
      else s1)"

definition endStream :: "bool \<Rightarrow> bool \<Rightarrow> h2Stream \<Rightarrow> h2Stream" where
  "endStream isRequest ended s =
     (if \<not> ended then s
      else if isRequest then s\<lparr>h2s_requestComplete := True\<rparr> else s\<lparr>h2s_responseComplete := True\<rparr>)"

text \<open>One frame of a stream; \<open>fragments\<close> are the header blocks decoded before it.\<close>

definition frameStep :: "h2lib \<Rightarrow> bool \<Rightarrow> bytes list \<Rightarrow> h2Frame \<Rightarrow> h2Stream \<Rightarrow> h2Stream" where
  "frameStep lib isRequest fragments frame stream =
     (case frame of
        HeadersFrame i fragment ended \<Rightarrow>
          (case h2_decodeFull lib fragments fragment of
             None \<Rightarrow> stream
           | Some headers \<Rightarrow>
               endStream isRequest ended
                 (fold (if isRequest then requestField else responseField) headers stream))
      | DataFrame i data ended \<Rightarrow>
          endStream isRequest ended
            (if isRequest then stream\<lparr>h2s_requestBody := h2s_requestBody stream @ data\<rparr>
             else stream\<lparr>h2s_responseBody := h2s_responseBody stream @ data\<rparr>)
      | OtherFrame i \<Rightarrow> stream)"

fun frameLoop :: "h2lib \<Rightarrow> bool \<Rightarrow> bytes list \<Rightarrow> h2Frame list \<Rightarrow> h2Streams \<Rightarrow> h2Streams" where
  "frameLoop lib isRequest fragments [] streams = streams"
| "frameLoop lib isRequest fragments (frame # frames) streams =
     (let streamID = frame_StreamID frame in
      if streamID = 0 then frameLoop lib isRequest fragments frames streams
      else
        let stream = (case map_of streams streamID of Some s \<Rightarrow> s | None \<Rightarrow> newH2Stream);
            fragments1 = (case frame of HeadersFrame i fragment ended \<Rightarrow> fragments @ [fragment] | _ \<Rightarrow> fragments)
        in frameLoop lib isRequest fragments1 frames
             (AList.update streamID (frameStep lib isRequest fragments frame stream) streams))"

definition parseHTTP2Frames :: "h2lib \<Rightarrow> bytes \<Rightarrow> h2Streams \<Rightarrow> bool \<Rightarrow> h2Streams" where
  "parseHTTP2Frames lib buffer streams isRequest =
     frameLoop lib isRequest [] (h2_readFrames lib buffer) streams"

text \<open>The streams of a connection as a drain sees them: responses first, then requests.\<close>

definition h2Connection :: "h2lib \<Rightarrow> bytes \<Rightarrow> bytes \<Rightarrow> h2Streams" where
  "h2Connection lib reqData respData =
     parseHTTP2Frames lib reqData (parseHTTP2Frames lib respData [] False) True"

definition streamComplete :: "h2Stream \<Rightarrow> bool" where
  "streamComplete s \<longleftrightarrow> h2s_requestComplete s \<and> h2s_responseComplete s"

end
