(* ===== verification/CaptureStream.thy ===== *)
theory CaptureStream
  imports HttpTwo CaptureParse
begin

text \<open>
  The event processor of the standalone capture program, \<^verbatim>\<open>cmd/karaxys-capture/process.go\<close>,
  \<^verbatim>\<open>session.go\<close>, \<^verbatim>\<open>emit.go\<close> and the drain of \<^verbatim>\<open>h2.go\<close>: what the worker does to the events of a
  flow, with three additions. Plaintext from the TLS probes replaces the ciphertext of the same
  descriptor, a flow that starts with the HTTP/2 preface is read as frames, and an emission may
  fail, which is counted.

  The functions on bytes, messages and records are those of \<open>CaptureParse\<close>; each equation that mentions them is
  stated a second time, as \<open>x_eq\<close>, with the worker's functions in their place.
\<close>

section \<open>Emitting a conversation\<close>

text \<open>The payloads that a sink was given so far.\<close>

fun sinkPayloads :: "emission list \<Rightarrow> bytes list" where
  "sinkPayloads [] = []"
| "sinkPayloads (SinkEmit p # es) = p # sinkPayloads es"
| "sinkPayloads (Line l # es) = sinkPayloads es"

definition emitNormalized ::
  "runtime \<Rightarrow> captureConfig \<Rightarrow> NormalizedConversation \<Rightarrow> world \<Rightarrow> emitError option \<times> world" where
  "emitNormalized rt cfg normalized w =
     (case lib_marshal rt (Normalized normalized) of
        None \<Rightarrow> (Some MarshalFailed, w)
      | Some payload \<Rightarrow>
          (case cc_sink cfg of
             Some answer \<Rightarrow>
               (map_option SinkFailed (answer (sinkPayloads (w_out w)) payload), emit [SinkEmit payload] w)
           | None \<Rightarrow>
               if \<not> cc_output cfg then (Some NoSinkConfigured, w)
               else (None, emit [Line payload] w)))"

definition captureConversation ::
  "runtime \<Rightarrow> captureConfig \<Rightarrow> bytes \<Rightarrow> parsedRequest \<Rightarrow> http_response \<Rightarrow> bytes \<Rightarrow> NormalizedConversation" where
  "captureConversation rt cfg oid parsedReq resp respBody =
     (let host = (if req_Host (pr_req parsedReq) = [] then header_Get (req_Header (pr_req parsedReq)) ''Host''
                  else req_Host (pr_req parsedReq));
          path = (if req_RequestURI (pr_req parsedReq) = [] then req_URLPath (pr_req parsedReq)
                  else req_RequestURI (pr_req parsedReq))
      in \<lparr>nc_ID = oid,
          nc_SchemaVersion = ''http.conversation.v1'',
          nc_AgentID = cc_agentID cfg,
          nc_CaptureSource = cap_firstNonEmpty [pr_captureSource parsedReq, ''ebpf''],
          nc_CaptureMode = pr_captureMode parsedReq,
          nc_CapturedAt = lib_rfc3339 rt (pr_capturedAt parsedReq),
          nc_Connection = pr_connection parsedReq,
          nc_Process = pr_process parsedReq,
          nc_Container = pr_container parsedReq,
          nc_Loss = pr_loss parsedReq,
          nc_HTTP =
            \<lparr>ex_Request =
               \<lparr>nreq_Method = req_Method (pr_req parsedReq),
                nreq_URL = ''http://'' @ host @ path,
                nreq_Host = host,
                nreq_Path = path,
                nreq_Headers = req_Header (pr_req parsedReq),
                nreq_Body = cap_prettyMaybeJSON rt (pr_body parsedReq)\<rparr>,
             ex_Response =
               \<lparr>nresp_Status = resp_Status resp,
                nresp_StatusCode = resp_StatusCode resp,
                nresp_Headers = resp_Header resp,
                nresp_Body = cap_prettyMaybeJSON rt respBody\<rparr>\<rparr>\<rparr>)"

lemmas captureConversation_eq = captureConversation_def [unfolded parse_copies]

definition cap_emitConversation ::
  "runtime \<Rightarrow> captureConfig \<Rightarrow> parsedRequest \<Rightarrow> http_response \<Rightarrow> bytes \<Rightarrow> world \<Rightarrow> emitError option \<times> world" where
  "cap_emitConversation rt cfg parsedReq resp respBody w =
     (let (oid, w1) = cap_newOID w
      in emitNormalized rt cfg (captureConversation rt cfg oid parsedReq resp respBody) w1)"

lemmas cap_emitConversation_eq = cap_emitConversation_def [unfolded parse_copies]

definition countEmitError :: "emitError option \<Rightarrow> processingStats \<Rightarrow> processingStats" where
  "countEmitError err stats =
     (if err = None then stats else stats\<lparr>ps_emitErrors := ps_emitErrors stats + 1\<rparr>)"

section \<open>Draining HTTP/1\<close>

function cap_drainRequests ::
  "runtime \<Rightarrow> captureConfig \<Rightarrow> world \<Rightarrow> processingStats \<Rightarrow> StreamState \<Rightarrow>
     world \<times> processingStats \<times> StreamState" where
  "cap_drainRequests rt cfg w stats state =
     (let (data, trimmed) = cap_syncRequestBuffer (st_ReqData state);
          stats1 = (if 0 < trimmed
            then stats\<lparr>ps_droppedNoReqStart := ps_droppedNoReqStart stats + of_nat trimmed\<rparr> else stats)
      in case cap_parseOneRequest rt data (cc_maxBodyBytes cfg) of
           None \<Rightarrow>
             (w, (if 0 < length data
                then stats1\<lparr>ps_requestParsePending := ps_requestParsePending stats1 + 1\<rparr> else stats1),
              state\<lparr>st_ReqData := data\<rparr>)
         | Some (req, reqBody, consumed) \<Rightarrow>
             (let (now, w1) = timeNow w in
              cap_drainRequests rt cfg w1 (stats1\<lparr>ps_requestParsed := ps_requestParsed stats1 + 1\<rparr>)
                (state\<lparr>st_PendingReqs := st_PendingReqs state @ [pendingRequest state req reqBody now],
                       st_ReqData := drop consumed data\<rparr>)))"
  by pat_completeness auto
termination
proof (relation "measure (\<lambda>(rt, cfg, w, stats, state). length (st_ReqData state))", goal_cases)
  case 1
  then show ?case by simp
next
  case (2 rt cfg w stats state x data trimmed stats1 r req bc body consumed y now w1)
  then have "parseOneRequest rt data (cc_maxBodyBytes cfg) = Some (req, body, consumed)"
    and sync: "syncRequestBuffer (st_ReqData state) = (data, trimmed)" unfolding parse_copies by auto
  then have "0 < consumed \<and> consumed \<le> length data" using parseOneRequest_consumed by blast
  moreover have "length data \<le> length (st_ReqData state)"
    using req_stream.sync_length [of "st_ReqData state"] sync by simp
  ultimately have "length data - consumed < length (st_ReqData state)" by arith
  then show ?case by simp
qed

declare cap_drainRequests.simps [simp del]

lemmas cap_drainRequests_eq = cap_drainRequests.simps [unfolded parse_copies]

lemmas cap_drainRequests_induct = cap_drainRequests.induct [unfolded parse_copies, case_names 1]

function cap_drainResponses ::
  "runtime \<Rightarrow> captureConfig \<Rightarrow> bool \<Rightarrow> world \<Rightarrow> processingStats \<Rightarrow> StreamState \<Rightarrow>
     world \<times> processingStats \<times> StreamState \<times> nat" where
  "cap_drainResponses rt cfg allowCloseDelimited w stats state =
     (case st_PendingReqs state of
        [] \<Rightarrow> (w, stats, state, 0)
      | parsedReq # pending \<Rightarrow>
          (let (data, trimmed) = cap_syncResponseBuffer (st_RespData state);
               stats1 = (if 0 < trimmed
                 then stats\<lparr>ps_droppedNoRespInit := ps_droppedNoRespInit stats + of_nat trimmed\<rparr> else stats)
           in case cap_parseOneResponse rt data (pr_req parsedReq) (cc_maxBodyBytes cfg) allowCloseDelimited of
                None \<Rightarrow>
                  (w, (if 0 < length data
                     then stats1\<lparr>ps_responseParsePending := ps_responseParsePending stats1 + 1\<rparr> else stats1),
                   state\<lparr>st_RespData := data\<rparr>, 0)
              | Some (resp, respBody, consumed) \<Rightarrow>
                  (let stats2 = stats1\<lparr>ps_responseParsed := ps_responseParsed stats1 + 1\<rparr>;
                       (err, w1) = cap_emitConversation rt cfg
                         (parsedReq\<lparr>pr_loss := cap_mergeLossMetadata (pr_loss parsedReq) (st_Loss state)\<rparr>)
                         resp respBody w;
                       (w2, stats3, state2, parsedCount) =
                         cap_drainResponses rt cfg allowCloseDelimited w1 (countEmitError err stats2)
                           (state\<lparr>st_PendingReqs := pending, st_RespData := drop consumed data\<rparr>)
                   in (w2, stats3, state2, Suc parsedCount))))"
  by pat_completeness auto
termination
  by (relation "measure (\<lambda>(rt, cfg, close, w, stats, state). length (st_PendingReqs state))") auto

declare cap_drainResponses.simps [simp del]

lemmas cap_drainResponses_eq = cap_drainResponses.simps [unfolded parse_copies]

lemmas cap_drainResponses_induct = cap_drainResponses.induct [unfolded parse_copies, case_names 1]

definition cap_drainParsedConversations ::
  "runtime \<Rightarrow> captureConfig \<Rightarrow> bool \<Rightarrow> world \<Rightarrow> processingStats \<Rightarrow> StreamState \<Rightarrow>
     world \<times> processingStats \<times> StreamState \<times> nat" where
  "cap_drainParsedConversations rt cfg allowCloseDelimited w stats state =
     (let (w1, stats1, state1) = cap_drainRequests rt cfg w stats state
      in cap_drainResponses rt cfg allowCloseDelimited w1 stats1 state1)"

section \<open>Draining HTTP/2\<close>

definition bodyBytesToString :: "bytes \<Rightarrow> int \<Rightarrow> bytes" where
  "bodyBytesToString data maxBodyBytes =
     (let truncated = int (length data) > maxBodyBytes;
          kept = (if truncated then take (nat maxBodyBytes) data else data);
          str = (if utf8_valid kept then kept else ''base64:'' @ b64_encode kept)
      in if truncated then str @ truncatedMark else str)"

definition h2Conversation ::
  "runtime \<Rightarrow> captureConfig \<Rightarrow> bytes \<Rightarrow> time \<Rightarrow> StreamState \<Rightarrow> h2Stream \<Rightarrow> NormalizedConversation" where
  "h2Conversation rt cfg oid now state stream =
     (let authority = header_Get (h2s_requestHeaders stream) (canonicalHeaderKey '':authority'');
          host = (if authority = [] then header_Get (h2s_requestHeaders stream) ''Host'' else authority);
          given = header_Get (h2s_requestHeaders stream) (canonicalHeaderKey '':scheme'');
          scheme = (if given = [] then ''https'' else given)
      in \<lparr>nc_ID = oid,
          nc_SchemaVersion = ''http.conversation.v1'',
          nc_AgentID = cc_agentID cfg,
          nc_CaptureSource = cap_firstNonEmpty [st_CaptureSource state, ''ebpf''],
          nc_CaptureMode = st_CaptureMode state,
          nc_CapturedAt = lib_rfc3339 rt now,
          nc_Connection = st_Connection state,
          nc_Process = st_Process state,
          nc_Container = st_Container state,
          nc_Loss = st_Loss state,
          nc_HTTP =
            \<lparr>ex_Request =
               \<lparr>nreq_Method = h2s_method stream,
                nreq_URL = scheme @ ''://'' @ host @ h2s_path stream,
                nreq_Host = host,
                nreq_Path = h2s_path stream,
                nreq_Headers = h2s_requestHeaders stream,
                nreq_Body = cap_prettyMaybeJSON rt (bodyBytesToString (h2s_requestBody stream) (cc_maxBodyBytes cfg))\<rparr>,
             ex_Response =
               \<lparr>nresp_Status = h2s_status stream,
                nresp_StatusCode = h2s_statusCode stream,
                nresp_Headers = h2s_responseHeaders stream,
                nresp_Body = cap_prettyMaybeJSON rt (bodyBytesToString (h2s_responseBody stream) (cc_maxBodyBytes cfg))\<rparr>\<rparr>\<rparr>)"

lemmas h2Conversation_eq = h2Conversation_def [unfolded parse_copies]

definition emitH2Conversation ::
  "runtime \<Rightarrow> captureConfig \<Rightarrow> StreamState \<Rightarrow> h2Stream \<Rightarrow> world \<Rightarrow> emitError option \<times> world" where
  "emitH2Conversation rt cfg state stream w =
     (let (oid, w1) = cap_newOID w; (now, w2) = timeNow w1
      in emitNormalized rt cfg (h2Conversation rt cfg oid now state stream) w2)"

lemmas emitH2Conversation_eq = emitH2Conversation_def [unfolded parse_copies]

text \<open>The loop over the streams, in the order of the map iteration.\<close>

fun emitStreams ::
  "runtime \<Rightarrow> captureConfig \<Rightarrow> StreamState \<Rightarrow> h2Streams \<Rightarrow> u32 list \<Rightarrow> u32 set \<Rightarrow> world \<Rightarrow> processingStats \<Rightarrow>
     u32 set \<times> world \<times> processingStats \<times> nat" where
  "emitStreams rt cfg state streams [] emitted w stats = (emitted, w, stats, 0)"
| "emitStreams rt cfg state streams (streamID # ids) emitted w stats =
     (case map_of streams streamID of
        None \<Rightarrow> emitStreams rt cfg state streams ids emitted w stats
      | Some stream \<Rightarrow>
          if \<not> h2s_requestComplete stream \<or> \<not> h2s_responseComplete stream
          then emitStreams rt cfg state streams ids emitted w stats
          else if streamID \<in> emitted then emitStreams rt cfg state streams ids emitted w stats
          else
            (let (err, w1) = emitH2Conversation rt cfg state stream w;
                 (emitted1, w2, stats2, parsedCount) =
                   emitStreams rt cfg state streams ids (insert streamID emitted) w1 (countEmitError err stats)
             in (emitted1, w2, stats2, Suc parsedCount)))"

definition drainH2 ::
  "h2lib \<Rightarrow> runtime \<Rightarrow> captureConfig \<Rightarrow> world \<Rightarrow> processingStats \<Rightarrow> captureState \<Rightarrow>
     world \<times> processingStats \<times> captureState \<times> nat" where
  "drainH2 lib rt cfg w stats cs =
     (let reqData = stripPreface (st_ReqData (cs_stream cs));
          respData = stripPreface (st_RespData (cs_stream cs));
          state1 = (cs_stream cs)\<lparr>st_ReqData := reqData, st_RespData := respData\<rparr>;
          streams = parseHTTP2Frames lib reqData (parseHTTP2Frames lib respData [] False) True;
          (emitted, w1, stats1, parsedCount) =
            emitStreams rt cfg state1 streams (h2_order lib (w_clockReads w) (map fst streams))
              (cs_H2Emitted cs) w stats
      in (w1, stats1, cs\<lparr>cs_stream := state1, cs_H2Emitted := emitted\<rparr>, parsedCount))"

definition drainStream ::
  "h2lib \<Rightarrow> runtime \<Rightarrow> captureConfig \<Rightarrow> bool \<Rightarrow> world \<Rightarrow> processingStats \<Rightarrow> captureState \<Rightarrow>
     world \<times> processingStats \<times> captureState \<times> nat" where
  "drainStream lib rt cfg allowCloseDelimited w stats cs =
     (if cs_H2 cs then drainH2 lib rt cfg w stats cs
      else if isH2PrefaceCandidate (st_ReqData (cs_stream cs)) then (w, stats, cs, 0)
      else
        (let (w1, stats1, state1, parsed) =
               cap_drainParsedConversations rt cfg allowCloseDelimited w stats (cs_stream cs)
         in (w1, stats1, cs\<lparr>cs_stream := state1\<rparr>, parsed)))"

section \<open>The session store\<close>

definition cap_newSessionStore :: "duration \<Rightarrow> captureStore" where
  "cap_newSessionStore ttl = \<lparr>css_sessions = Map.empty, css_ttl = ttl\<rparr>"

definition freshCapture :: "time \<Rightarrow> captureState" where
  "freshCapture now = \<lparr>cs_stream = freshState now, cs_Ssl = False, cs_H2 = False, cs_H2Emitted = {}\<rparr>"

definition cap_getOrCreate :: "bytes \<Rightarrow> world \<Rightarrow> captureStore \<Rightarrow> captureState \<times> world \<times> captureStore" where
  "cap_getOrCreate key w s =
     (case css_sessions s key of
        Some state \<Rightarrow> (state, w, s)
      | None \<Rightarrow>
          (let (now, w1) = timeNow w; state = freshCapture now
           in (state, w1, s\<lparr>css_sessions := (css_sessions s)(key \<mapsto> state)\<rparr>)))"

definition cap_get :: "bytes \<Rightarrow> captureStore \<Rightarrow> captureState option" where
  "cap_get key s = css_sessions s key"

definition cap_remove :: "bytes \<Rightarrow> captureStore \<Rightarrow> captureStore" where
  "cap_remove key s = s\<lparr>css_sessions := (css_sessions s)(key := None)\<rparr>"

text \<open>The code mutates the state behind the map's pointer; here it is written back.\<close>

definition cap_storeState :: "bytes \<Rightarrow> captureState \<Rightarrow> captureStore \<Rightarrow> captureStore" where
  "cap_storeState key state s = s\<lparr>css_sessions := (css_sessions s)(key \<mapsto> state)\<rparr>"

interpretation capture_sessions: session_store cap_get cap_storeState cap_remove
  by unfold_locales (auto simp: cap_get_def cap_storeState_def cap_remove_def)

lemmas cap_store_simps [simp] = capture_sessions.lookup_store capture_sessions.lookup_delete

fun cap_sweep :: "bytes list \<Rightarrow> time \<Rightarrow> captureStore \<Rightarrow> captureState list \<times> captureStore" where
  "cap_sweep [] cutoff s = ([], s)"
| "cap_sweep (key # keys) cutoff s =
     (case css_sessions s key of
        None \<Rightarrow> cap_sweep keys cutoff s
      | Some state \<Rightarrow>
          if st_LastActive (cs_stream state) < cutoff
          then (let (expired, s1) = cap_sweep keys cutoff (cap_remove key s) in (state # expired, s1))
          else cap_sweep keys cutoff s)"

fun cap_expireAll :: "(captureState \<Rightarrow> 'w \<Rightarrow> nat \<times> 'w) \<Rightarrow> captureState list \<Rightarrow> 'w \<Rightarrow> nat \<times> 'w" where
  "cap_expireAll onExpire [] w = (0, w)"
| "cap_expireAll onExpire (state # states) w =
     (let (n, w1) = onExpire state w; (m, w2) = cap_expireAll onExpire states w1 in (n + m, w2))"

definition cap_cleanupExpired ::
  "bytes list \<Rightarrow> time \<Rightarrow> (captureState \<Rightarrow> 'w \<Rightarrow> nat \<times> 'w) \<Rightarrow> captureStore \<Rightarrow> 'w
     \<Rightarrow> nat \<times> nat \<times> captureStore \<times> 'w" where
  "cap_cleanupExpired keys cutoff onExpire s w =
     (let (expired, s1) = cap_sweep keys cutoff s; (parsed, w1) = cap_expireAll onExpire expired w
      in (length expired, parsed, s1, w1))"

section \<open>Processing an event\<close>

record captureProc =
  cp_store :: captureStore
  cp_stats :: processingStats
  cp_world :: world

definition cap_countParsed :: "nat \<Rightarrow> processingStats \<Rightarrow> processingStats" where
  "cap_countParsed parsed stats =
     (if 0 < parsed then stats\<lparr>ps_parsed := ps_parsed stats + of_nat parsed\<rparr> else stats)"

definition cap_handleCloseEvent ::
  "h2lib \<Rightarrow> runtime \<Rightarrow> captureConfig \<Rightarrow> ApiEvent \<Rightarrow> captureProc \<Rightarrow> captureProc" where
  "cap_handleCloseEvent lib rt cfg event cp =
     (let key = cap_sessionKey event in
      case cap_get key (cp_store cp) of
        None \<Rightarrow> cp
      | Some state \<Rightarrow>
          (let (w1, stats1, state1, parsed) = drainStream lib rt cfg True (cp_world cp) (cp_stats cp) state;
               stats2 = cap_countParsed parsed stats1
           in cp\<lparr>cp_store := cap_remove key (cap_storeState key state1 (cp_store cp)),
                 cp_stats := stats2\<lparr>ps_closedSessions := ps_closedSessions stats2 + 1\<rparr>,
                 cp_world := w1\<rparr>))"

lemmas cap_handleCloseEvent_eq = cap_handleCloseEvent_def [unfolded parse_copies]

definition isSSL :: "ApiEvent \<Rightarrow> bool" where
  "isSSL event \<longleftrightarrow> ev_Flags event AND eventFlagSSL \<noteq> 0"

text \<open>The first plaintext of a flow drops what was buffered of its ciphertext.\<close>

definition tlsSwitch :: "bool \<Rightarrow> captureState \<Rightarrow> captureState" where
  "tlsSwitch ssl cs =
     (if ssl \<and> \<not> cs_Ssl cs
      then cs\<lparr>cs_stream := (cs_stream cs)\<lparr>st_ReqData := [], st_RespData := [], st_PendingReqs := []\<rparr>,
              cs_Ssl := True, cs_H2 := False, cs_H2Emitted := {}\<rparr>
      else cs)"

definition cap_appendPayload ::
  "captureConfig \<Rightarrow> bool \<Rightarrow> bytes \<Rightarrow> StreamState \<Rightarrow> processingStats \<Rightarrow>
     (StreamState \<times> processingStats) + (StreamState \<times> processingStats)" where
  "cap_appendPayload cfg asRequest payload state stats =
     (if asRequest then
        (let stats1 = stats\<lparr>ps_routedReq := ps_routedReq stats + 1\<rparr>; data = st_ReqData state @ payload in
         if int (length data) > cc_maxStreamBytes cfg
         then Inl (state\<lparr>st_ReqData := [], st_PendingReqs := []\<rparr>,
                   stats1\<lparr>ps_droppedReqOverflow := ps_droppedReqOverflow stats1 + 1\<rparr>)
         else Inr (state\<lparr>st_ReqData := data\<rparr>, stats1))
      else
        (let stats1 = stats\<lparr>ps_routedResp := ps_routedResp stats + 1\<rparr>; data = st_RespData state @ payload in
         if int (length data) > cc_maxStreamBytes cfg
         then Inl (state\<lparr>st_RespData := [], st_PendingReqs := []\<rparr>,
                   stats1\<lparr>ps_droppedRespOverflow := ps_droppedRespOverflow stats1 + 1\<rparr>)
         else Inr (state\<lparr>st_RespData := data\<rparr>, stats1)))"

definition detectH2 :: "captureState \<Rightarrow> captureState" where
  "detectH2 cs =
     (if \<not> cs_H2 cs \<and> (has_prefix (st_ReqData (cs_stream cs)) h2Preface \<or>
                        has_prefix (st_RespData (cs_stream cs)) h2Preface)
      then cs\<lparr>cs_H2 := True\<rparr> else cs)"

definition cap_processPayload ::
  "h2lib \<Rightarrow> runtime \<Rightarrow> captureConfig \<Rightarrow> ApiEvent \<Rightarrow> bytes \<Rightarrow> world \<Rightarrow> processingStats \<Rightarrow> captureState \<Rightarrow>
     world \<times> processingStats \<times> captureState" where
  "cap_processPayload lib rt cfg event payload w stats cs0 =
     (let (now, w1) = timeNow w;
          cs1 = cs0\<lparr>cs_stream := cap_mergeStreamMetadata event ((cs_stream cs0)\<lparr>st_LastActive := now\<rparr>)\<rparr>;
          cs2 = tlsSwitch (isSSL event) cs1
      in if cs_Ssl cs2 \<noteq> isSSL event then (w1, stats, cs2)
         else
           (let stats1 = (if sequenceGap (cs_stream cs2) event
                  then stats\<lparr>ps_outOfOrder := ps_outOfOrder stats + 1\<rparr> else stats);
                state3 = trackLoss event (cs_stream cs2);
                stats2 = (if cap_classifyPayload payload = payloadUnknown
                  then stats1\<lparr>ps_routedUnknown := ps_routedUnknown stats1 + 1\<rparr> else stats1)
            in case cap_appendPayload cfg (routeAsRequest event payload) payload state3 stats2 of
                 Inl (state4, stats3) \<Rightarrow> (w1, stats3, cs2\<lparr>cs_stream := state4\<rparr>)
               | Inr (state4, stats3) \<Rightarrow>
                   (let (w2, stats4, cs5, parsed) =
                          drainStream lib rt cfg False w1 stats3 (detectH2 (cs2\<lparr>cs_stream := state4\<rparr>))
                    in (w2, cap_countParsed parsed stats4, cs5))))"

lemmas cap_processPayload_eq = cap_processPayload_def [unfolded parse_copies]

definition cap_processEvent ::
  "h2lib \<Rightarrow> runtime \<Rightarrow> captureConfig \<Rightarrow> ApiEvent \<Rightarrow> captureProc \<Rightarrow> captureProc" where
  "cap_processEvent lib rt cfg event cp =
     (if ev_EventType event = eventTypeClose then cap_handleCloseEvent lib rt cfg event cp
      else if ev_EventType event \<noteq> eventTypeData
      then cp\<lparr>cp_stats := (cp_stats cp)\<lparr>ps_droppedMalformed := ps_droppedMalformed (cp_stats cp) + 1\<rparr>\<rparr>
      else if ev_Size event = 0 \<or> length (ev_Payload event) = 0
      then cp\<lparr>cp_stats := (cp_stats cp)\<lparr>ps_droppedNoise := ps_droppedNoise (cp_stats cp) + 1\<rparr>\<rparr>
      else let payload = eventPayload event in
        if cap_isCounterNoise payload
        then cp\<lparr>cp_stats := (cp_stats cp)\<lparr>ps_droppedNoise := ps_droppedNoise (cp_stats cp) + 1\<rparr>\<rparr>
        else
          (let key = cap_sessionKey event;
               (state, w1, store1) = cap_getOrCreate key (cp_world cp) (cp_store cp);
               (w2, stats2, state2) = cap_processPayload lib rt cfg event payload w1 (cp_stats cp) state
           in cp\<lparr>cp_store := cap_storeState key state2 store1, cp_stats := stats2, cp_world := w2\<rparr>))"

lemmas cap_processEvent_eq = cap_processEvent_def [unfolded parse_copies]

section \<open>The processing goroutines\<close>

text \<open>One event off the channel, or one tick of the cleanup goroutine with the order in which the
  map iteration visits the sessions. A tick is taken between two events.\<close>

datatype captureInput = ChannelEvent ApiEvent | SweepTick "bytes list"

definition cap_flush ::
  "h2lib \<Rightarrow> runtime \<Rightarrow> captureConfig \<Rightarrow> captureState \<Rightarrow> world \<times> processingStats \<Rightarrow> nat \<times> (world \<times> processingStats)" where
  "cap_flush lib rt cfg state ws =
     (let (w1, stats1, state1, n) = drainStream lib rt cfg True (fst ws) (snd ws) state in (n, (w1, stats1)))"

definition cap_cleanupTick ::
  "h2lib \<Rightarrow> runtime \<Rightarrow> captureConfig \<Rightarrow> bytes list \<Rightarrow> captureProc \<Rightarrow> captureProc" where
  "cap_cleanupTick lib rt cfg keys cp =
     (let (now, w1) = timeNow (cp_world cp);
          (removed, parsed, store1, w2, stats1) =
            cap_cleanupExpired keys (now - cc_sessionTTL cfg) (cap_flush lib rt cfg) (cp_store cp) (w1, cp_stats cp);
          stats2 = (if 0 < removed
            then stats1\<lparr>ps_expiredSessions := ps_expiredSessions stats1 + of_nat removed\<rparr> else stats1)
      in cp\<lparr>cp_store := store1, cp_stats := cap_countParsed parsed stats2, cp_world := w2\<rparr>)"

definition handleChannelEvent ::
  "h2lib \<Rightarrow> runtime \<Rightarrow> captureConfig \<Rightarrow> ApiEvent \<Rightarrow> captureProc \<Rightarrow> captureProc" where
  "handleChannelEvent lib rt cfg event cp =
     cap_processEvent lib rt cfg event
       (cp\<lparr>cp_stats := (cp_stats cp)\<lparr>ps_received := ps_received (cp_stats cp) + 1\<rparr>\<rparr>)"

fun captureStep :: "h2lib \<Rightarrow> runtime \<Rightarrow> captureConfig \<Rightarrow> captureInput \<Rightarrow> captureProc \<Rightarrow> captureProc" where
  "captureStep lib rt cfg (ChannelEvent event) cp = handleChannelEvent lib rt cfg event cp"
| "captureStep lib rt cfg (SweepTick keys) cp = cap_cleanupTick lib rt cfg keys cp"

definition initialCapture :: "captureConfig \<Rightarrow> world \<Rightarrow> captureProc" where
  "initialCapture cfg w =
     \<lparr>cp_store = cap_newSessionStore (cc_sessionTTL cfg), cp_stats = zeroProcessing, cp_world = w\<rparr>"

end
