(* ===== verification/CaptureLoop.thy ===== *)
theory CaptureLoop
  imports CaptureKernel CaptureMetadata CaptureStream AgentCapture
begin

text \<open>
  The loop that reads the ring buffers in karaxys-capture, \<^verbatim>\<open>runShardCapture\<close> in
  \<^verbatim>\<open>cmd/karaxys-capture/main.go\<close>, and the program it forms with the processing goroutine: events
  go from the eight shards through a bounded channel to \<open>processEvent\<close>. What is common to the
  agent's loop (sizes, loss, the fields of the event) is the agent's definitions.
\<close>

section \<open>State and environment\<close>

record captureStats =
  kc_ringRecords :: u64
  kc_decodedEvents :: u64
  kc_decodeErrors :: u64
  kc_dataEvents :: u64
  kc_closeEvents :: u64
  kc_socketEvents :: u64
  kc_skippedNoise :: u64
  kc_skippedFDFilter :: u64
  kc_truncatedEvents :: u64
  kc_bytesCaptured :: u64
  kc_metadataCacheHits :: u64
  kc_metadataProcHits :: u64
  kc_metadataProcMisses :: u64
  kc_metadataMisses :: u64
  kc_kernelTupleFallbacks :: u64
  kc_channelDropped :: u64
  kc_ringReadErrors :: u64

definition zeroCaptureStats :: captureStats where
  "zeroCaptureStats = \<lparr>kc_ringRecords = 0, kc_decodedEvents = 0, kc_decodeErrors = 0, kc_dataEvents = 0,
     kc_closeEvents = 0, kc_socketEvents = 0, kc_skippedNoise = 0, kc_skippedFDFilter = 0,
     kc_truncatedEvents = 0, kc_bytesCaptured = 0, kc_metadataCacheHits = 0, kc_metadataProcHits = 0,
     kc_metadataProcMisses = 0, kc_metadataMisses = 0, kc_kernelTupleFallbacks = 0,
     kc_channelDropped = 0, kc_ringReadErrors = 0\<rparr>"

definition channelBufferSize :: nat where "channelBufferSize = 50000"
definition captureMode :: bytes where "captureMode = ''host''"

text \<open>The channel is its buffer, oldest event first.\<close>

record shardCaptureDeps =
  cd_stats :: captureStats
  cd_channel :: "ApiEvent list"
  cd_capacity :: nat
  cd_kernelTuples :: kernelTupleSyncer
  cd_metadata :: metadataResolver
  cd_filter :: flowFilter

record captureLoopEnv =
  cl_proc :: procfs
  cl_now :: time
  cl_later :: time
  cl_filterNow :: time
  cl_updateFails :: "flowKey \<Rightarrow> bool"
  cl_deleteFails :: "flowKey \<Rightarrow> bool"

definition cap_count :: "(captureStats \<Rightarrow> captureStats) \<Rightarrow> shardCaptureDeps \<Rightarrow> shardCaptureDeps" where
  "cap_count f d = d\<lparr>cd_stats := f (cd_stats d)\<rparr>"

section \<open>One record\<close>

definition countDecoded :: "bpfEvent \<Rightarrow> captureStats \<Rightarrow> captureStats" where
  "countDecoded e stats =
     (let s0 = stats\<lparr>kc_decodedEvents := kc_decodedEvents stats + 1\<rparr>;
          s1 = (if originalSizeOf e > capturedSizeOf e
            then s0\<lparr>kc_truncatedEvents := kc_truncatedEvents s0 + 1\<rparr> else s0);
          s2 = s1\<lparr>kc_bytesCaptured := kc_bytesCaptured s1 + ucast (capturedSizeOf e)\<rparr>
      in if be_EventType e = eventTypeData then s2\<lparr>kc_dataEvents := kc_dataEvents s2 + 1\<rparr>
         else if be_EventType e = eventTypeClose then s2\<lparr>kc_closeEvents := kc_closeEvents s2 + 1\<rparr>
         else if be_EventType e = eventTypeSocket then s2\<lparr>kc_socketEvents := kc_socketEvents s2 + 1\<rparr>
         else s2)"

definition cap_forgetClosed :: "captureLoopEnv \<Rightarrow> bpfEvent \<Rightarrow> shardCaptureDeps \<Rightarrow> shardCaptureDeps" where
  "cap_forgetClosed env e d =
     (if be_EventType e = eventTypeClose
      then d\<lparr>cd_kernelTuples := cap_forget (cl_deleteFails env) (bpfFlowKey e) (cd_kernelTuples d),
             cd_metadata := cap_resolver_forget (bpfFlowKey e) (cd_metadata d)\<rparr>
      else d)"

definition cap_countSource :: "metadataSource \<Rightarrow> captureStats \<Rightarrow> captureStats" where
  "cap_countSource source stats =
     (case source of
        metadataSourceCache \<Rightarrow> stats\<lparr>kc_metadataCacheHits := kc_metadataCacheHits stats + 1\<rparr>
      | metadataSourceProc \<Rightarrow> stats\<lparr>kc_metadataProcHits := kc_metadataProcHits stats + 1\<rparr>
      | metadataSourceNone \<Rightarrow> stats)"

definition cap_labelEvent ::
  "captureLoopEnv \<Rightarrow> bpfEvent \<Rightarrow> bool \<Rightarrow> ApiEvent \<Rightarrow> shardCaptureDeps \<Rightarrow> ApiEvent \<times> shardCaptureDeps" where
  "cap_labelEvent env e metadataOK event d =
     (let ((r, source), metadata1) =
            cap_resolveWithSource (cl_proc env) (bpfFlowKey e) (cl_now env) (cl_later env) (cd_metadata d);
          d1 = d\<lparr>cd_metadata := metadata1\<rparr>
      in if rs_ok r
         then (event\<lparr>ev_Connection := rs_conn r, ev_Process := rs_process r, ev_Container := rs_container r\<rparr>,
               cap_count (cap_countSource source) (d1\<lparr>cd_kernelTuples :=
                 cap_remember (cl_updateFails env) (bpfFlowKey e) (rs_conn r) (cd_kernelTuples d1)\<rparr>))
         else (event,
               let d2 = cap_count (\<lambda>s. s\<lparr>kc_metadataProcMisses := kc_metadataProcMisses s + 1\<rparr>) d1 in
               if \<not> metadataOK \<and> be_Fd e > 2
               then cap_count (\<lambda>s. s\<lparr>kc_metadataMisses := kc_metadataMisses s + 1\<rparr>) d2 else d2))"

text \<open>The \<open>select\<close> with a default: a full channel drops the event.\<close>

definition cap_sendEvent :: "ApiEvent \<Rightarrow> shardCaptureDeps \<Rightarrow> ApiEvent option \<times> shardCaptureDeps" where
  "cap_sendEvent event d =
     (if length (cd_channel d) < cd_capacity d
      then (Some event, d\<lparr>cd_channel := cd_channel d @ [event]\<rparr>)
      else (None, cap_count (\<lambda>s. s\<lparr>kc_channelDropped := kc_channelDropped s + 1\<rparr>) d))"

definition cap_decodedStep ::
  "captureLoopEnv \<Rightarrow> bpfEvent \<Rightarrow> shardCaptureDeps \<Rightarrow> ApiEvent option \<times> shardCaptureDeps" where
  "cap_decodedStep env e d =
     (let d1 = cap_count (countDecoded e) d in
      if be_EventType e = eventTypeSocket then (None, d1)
      else let d2 = cap_forgetClosed env e d1 in
        if be_EventType e = eventTypeData \<and> cap_isCounterNoise (take (payloadSizeOf e) (be_Payload e))
        then (None, cap_count (\<lambda>s. s\<lparr>kc_skippedNoise := kc_skippedNoise s + 1\<rparr>) d2)
        else
          (let tuple = connectionFromKernelTuple e;
               metadataOK = (tuple \<noteq> None);
               d3 = (if metadataOK
                 then cap_count (\<lambda>s. s\<lparr>kc_kernelTupleFallbacks := kc_kernelTupleFallbacks s + 1\<rparr>) d2 else d2);
               conn = (case tuple of Some c \<Rightarrow> c | None \<Rightarrow> noConnection);
               event = buildEvent captureMode e conn noProcess noContainer;
               (allowed, f) = cap_filter_allow event metadataOK (cl_filterNow env) (cd_filter d3);
               d4 = d3\<lparr>cd_filter := f\<rparr>
           in if \<not> allowed
              then (None, cap_count (\<lambda>s. s\<lparr>kc_skippedFDFilter := kc_skippedFDFilter s + 1\<rparr>) d4)
              else (let (event1, d5) = cap_labelEvent env e metadataOK event d4 in cap_sendEvent event1 d5)))"

lemmas cap_decodedStep_eq = cap_decodedStep_def [unfolded parse_copies]

definition cap_shardStep ::
  "captureLoopEnv \<Rightarrow> ringRead \<Rightarrow> shardCaptureDeps \<Rightarrow> ApiEvent option \<times> shardCaptureDeps" where
  "cap_shardStep env read d =
     (case read of
        RingError \<Rightarrow> (None, cap_count (\<lambda>s. s\<lparr>kc_ringReadErrors := kc_ringReadErrors s + 1\<rparr>) d)
      | RingSample raw \<Rightarrow>
          (let d1 = cap_count (\<lambda>s. s\<lparr>kc_ringRecords := kc_ringRecords s + 1\<rparr>) d in
           case binaryRead raw of
             None \<Rightarrow> (None, cap_count (\<lambda>s. s\<lparr>kc_decodeErrors := kc_decodeErrors s + 1\<rparr>) d1)
           | Some e \<Rightarrow> cap_decodedStep env e d1))"

definition newShardCaptureDeps ::
  "(flowKey \<times> kernelSocketTuple) list option \<Rightarrow> duration \<Rightarrow> portSet \<Rightarrow> portSet \<Rightarrow> bool \<Rightarrow> bool \<Rightarrow> shardCaptureDeps" where
  "newShardCaptureDeps tuples metadataTTL targetPorts ignorePorts captureInbound captureOutbound =
     \<lparr>cd_stats = zeroCaptureStats, cd_channel = [], cd_capacity = channelBufferSize,
      cd_kernelTuples = newKernelTupleSyncer tuples, cd_metadata = cap_newMetadataResolver metadataTTL,
      cd_filter = cap_newFlowFilter metadataTTL targetPorts ignorePorts captureInbound captureOutbound\<rparr>"

section \<open>The whole program\<close>

text \<open>
  The goroutines that share state: the shards, the processing goroutine that ranges over the
  channel, and the cleanup ticker. Each input is one turn of one of them; a receive on an
  empty channel waits.
\<close>

record captureSystem =
  sy_deps :: shardCaptureDeps
  sy_proc :: captureProc

datatype systemInput = Shard captureLoopEnv ringRead | Receive | Cleanup "bytes list"

fun systemStep :: "h2lib \<Rightarrow> runtime \<Rightarrow> captureConfig \<Rightarrow> systemInput \<Rightarrow> captureSystem \<Rightarrow> captureSystem" where
  "systemStep lib rt cfg (Shard env read) s = s\<lparr>sy_deps := snd (cap_shardStep env read (sy_deps s))\<rparr>"
| "systemStep lib rt cfg Receive s =
     (case cd_channel (sy_deps s) of
        [] \<Rightarrow> s
      | event # rest \<Rightarrow> s\<lparr>sy_deps := (sy_deps s)\<lparr>cd_channel := rest\<rparr>,
          sy_proc := captureStep lib rt cfg (ChannelEvent event) (sy_proc s)\<rparr>)"
| "systemStep lib rt cfg (Cleanup keys) s = s\<lparr>sy_proc := captureStep lib rt cfg (SweepTick keys) (sy_proc s)\<rparr>"

section \<open>Counters\<close>

text \<open>The counters that say what became of each record, and what is left of the decoded events
  for those that were sent.\<close>

definition cap_fates :: "captureStats \<Rightarrow> u64 list" where
  "cap_fates s = [kc_ringRecords s, kc_decodeErrors s, kc_decodedEvents s, kc_socketEvents s, kc_skippedNoise s,
     kc_skippedFDFilter s, kc_channelDropped s]"

definition cap_undecided :: "captureStats \<Rightarrow> u64" where
  "cap_undecided s = kc_ringRecords s - kc_decodeErrors s - kc_decodedEvents s"

definition cap_sent :: "captureStats \<Rightarrow> u64" where
  "cap_sent s = kc_decodedEvents s - kc_socketEvents s - kc_skippedNoise s - kc_skippedFDFilter s - kc_channelDropped s"

lemma cap_fates_eq:
  "cap_fates s = cap_fates t \<Longrightarrow>
     kc_ringRecords s = kc_ringRecords t \<and> cap_undecided s = cap_undecided t \<and> cap_sent s = cap_sent t"
  by (simp add: cap_fates_def cap_undecided_def cap_sent_def)

lemma cap_sent_skips [simp]:
  "cap_sent (s\<lparr>kc_skippedNoise := kc_skippedNoise s + 1\<rparr>) = cap_sent s - 1"
  "cap_sent (s\<lparr>kc_skippedFDFilter := kc_skippedFDFilter s + 1\<rparr>) = cap_sent s - 1"
  "cap_undecided (s\<lparr>kc_skippedNoise := n\<rparr>) = cap_undecided s"
  "cap_undecided (s\<lparr>kc_skippedFDFilter := n\<rparr>) = cap_undecided s"
  by (simp_all add: cap_sent_def cap_undecided_def)

lemma cap_count_frame [simp]:
  "cd_stats (cap_count f d) = f (cd_stats d)" "cd_channel (cap_count f d) = cd_channel d"
  "cd_capacity (cap_count f d) = cd_capacity d" "cd_kernelTuples (cap_count f d) = cd_kernelTuples d"
  "cd_metadata (cap_count f d) = cd_metadata d" "cd_filter (cap_count f d) = cd_filter d"
  by (simp_all add: cap_count_def)

lemma cap_forgetClosed_frame [simp]:
  "cd_stats (cap_forgetClosed env e d) = cd_stats d" "cd_channel (cap_forgetClosed env e d) = cd_channel d"
  "cd_capacity (cap_forgetClosed env e d) = cd_capacity d" "cd_filter (cap_forgetClosed env e d) = cd_filter d"
  by (simp_all add: cap_forgetClosed_def)

lemma countDecoded_fates:
  "kc_ringRecords (countDecoded e s) = kc_ringRecords s"
  "cap_undecided (countDecoded e s) = cap_undecided s - 1"
  "cap_sent (countDecoded e s) = cap_sent s + of_bool (be_EventType e \<noteq> eventTypeSocket)"
  by (auto simp: countDecoded_def Let_def cap_undecided_def cap_sent_def eventTypeSocket_def eventTypeClose_def
      eventTypeData_def)

lemma cap_labelEvent_facts:
  assumes "cap_labelEvent env e ok event d = (event', d')"
  shows "cap_fates (cd_stats d') = cap_fates (cd_stats d)" "cd_channel d' = cd_channel d"
    "cd_capacity d' = cd_capacity d" "cd_filter d' = cd_filter d"
    "\<exists>conn process container. event' = event\<lparr>ev_Connection := conn, ev_Process := process, ev_Container := container\<rparr>"
proof -
  obtain r source metadata1 where r: "cap_resolveWithSource (cl_proc env) (bpfFlowKey e) (cl_now env) (cl_later env)
      (cd_metadata d) = ((r, source), metadata1)" by (metis prod.collapse)
  have "cap_fates (cd_stats d') = cap_fates (cd_stats d) \<and> cd_channel d' = cd_channel d \<and>
    cd_capacity d' = cd_capacity d \<and> cd_filter d' = cd_filter d \<and>
    (\<exists>conn process container. event' = event\<lparr>ev_Connection := conn, ev_Process := process, ev_Container := container\<rparr>)"
  proof (cases "rs_ok r")
    case True
    then have "event' = event\<lparr>ev_Connection := rs_conn r, ev_Process := rs_process r, ev_Container := rs_container r\<rparr>"
      using assms by (simp add: cap_labelEvent_def r Let_def)
    then have "\<exists>conn process container. event' = event\<lparr>ev_Connection := conn, ev_Process := process, ev_Container := container\<rparr>"
      by blast
    then show ?thesis
      using assms True by (auto simp: cap_labelEvent_def r Let_def cap_fates_def cap_countSource_def split: metadataSource.splits)
  next
    case False
    then have "event' = event\<lparr>ev_Connection := ev_Connection event, ev_Process := ev_Process event, ev_Container := ev_Container event\<rparr>"
      using assms by (simp add: cap_labelEvent_def r Let_def)
    then have "\<exists>conn process container. event' = event\<lparr>ev_Connection := conn, ev_Process := process, ev_Container := container\<rparr>"
      by blast
    then show ?thesis
      using assms False by (auto simp: cap_labelEvent_def r Let_def cap_fates_def)
  qed
  then show "cap_fates (cd_stats d') = cap_fates (cd_stats d)" "cd_channel d' = cd_channel d"
    "cd_capacity d' = cd_capacity d" "cd_filter d' = cd_filter d"
    "\<exists>conn process container. event' = event\<lparr>ev_Connection := conn, ev_Process := process, ev_Container := container\<rparr>"
    by blast+
qed

text \<open>The ways an event of a decoded record can go.\<close>

lemma cap_decodedStep_cases:
  assumes "cap_decodedStep env e d = (res, d')"
  obtains (socket) "be_EventType e = eventTypeSocket" "res = None" "d' = cap_count (countDecoded e) d"
  | (noise) "be_EventType e = eventTypeData" "isCounterNoise (take (payloadSizeOf e) (be_Payload e))" "res = None"
      "d' = cap_count (\<lambda>s. s\<lparr>kc_skippedNoise := kc_skippedNoise s + 1\<rparr>)
        (cap_forgetClosed env e (cap_count (countDecoded e) d))"
  | (admitted) d3 event f allowed where "be_EventType e \<noteq> eventTypeSocket"
      "\<not> (be_EventType e = eventTypeData \<and> isCounterNoise (take (payloadSizeOf e) (be_Payload e)))"
      "cap_fates (cd_stats d3) = cap_fates (countDecoded e (cd_stats d))"
      "cd_channel d3 = cd_channel d" "cd_capacity d3 = cd_capacity d" "cd_filter d3 = cd_filter d"
      "event = buildEvent captureMode e (case connectionFromKernelTuple e of Some c \<Rightarrow> c | None \<Rightarrow> noConnection)
         noProcess noContainer"
      "cap_filter_allow event (connectionFromKernelTuple e \<noteq> None) (cl_filterNow env) (cd_filter d) = (allowed, f)"
      "(res, d') =
        (if \<not> allowed
         then (None, cap_count (\<lambda>s. s\<lparr>kc_skippedFDFilter := kc_skippedFDFilter s + 1\<rparr>) (d3\<lparr>cd_filter := f\<rparr>))
         else let (event1, d5) = cap_labelEvent env e (connectionFromKernelTuple e \<noteq> None) event (d3\<lparr>cd_filter := f\<rparr>)
              in cap_sendEvent event1 d5)"
      "cd_kernelTuples d3 = cd_kernelTuples (cap_forgetClosed env e d)" "cd_metadata d3 = cd_metadata (cap_forgetClosed env e d)"
proof -
  define d2 where "d2 = cap_forgetClosed env e (cap_count (countDecoded e) d)"
  define d3 where "d3 = (if connectionFromKernelTuple e \<noteq> None
    then cap_count (\<lambda>s. s\<lparr>kc_kernelTupleFallbacks := kc_kernelTupleFallbacks s + 1\<rparr>) d2 else d2)"
  define event where "event = buildEvent captureMode e
    (case connectionFromKernelTuple e of Some c \<Rightarrow> c | None \<Rightarrow> noConnection) noProcess noContainer"
  have d3: "cap_fates (cd_stats d3) = cap_fates (countDecoded e (cd_stats d))"
    "cd_channel d3 = cd_channel d" "cd_capacity d3 = cd_capacity d" "cd_filter d3 = cd_filter d"
    "cd_kernelTuples d3 = cd_kernelTuples (cap_forgetClosed env e d)" "cd_metadata d3 = cd_metadata (cap_forgetClosed env e d)"
    by (simp_all add: d3_def d2_def cap_fates_def) (simp_all add: cap_forgetClosed_def)
  obtain allowed f where f: "cap_filter_allow event (connectionFromKernelTuple e \<noteq> None) (cl_filterNow env) (cd_filter d) = (allowed, f)"
    by force
  consider "be_EventType e = eventTypeSocket"
    | "be_EventType e = eventTypeData" "isCounterNoise (take (payloadSizeOf e) (be_Payload e))"
    | "be_EventType e \<noteq> eventTypeSocket" "\<not> (be_EventType e = eventTypeData \<and> isCounterNoise (take (payloadSizeOf e) (be_Payload e)))"
    by blast
  then show thesis
  proof cases
    case 1
    then show thesis using assms socket by (simp add: cap_decodedStep_eq Let_def)
  next
    case 2
    then show thesis using assms noise by (simp add: cap_decodedStep_eq Let_def eventTypeData_def eventTypeSocket_def)
  next
    case 3
    have "cap_decodedStep env e d =
        (if \<not> allowed
         then (None, cap_count (\<lambda>s. s\<lparr>kc_skippedFDFilter := kc_skippedFDFilter s + 1\<rparr>) (d3\<lparr>cd_filter := f\<rparr>))
         else let (event1, d5) = cap_labelEvent env e (connectionFromKernelTuple e \<noteq> None) event (d3\<lparr>cd_filter := f\<rparr>)
              in cap_sendEvent event1 d5)"
      unfolding cap_decodedStep_eq Let_def d2_def [symmetric] d3_def [symmetric] event_def [symmetric] d3(4)
        f prod.case if_not_P [OF 3(1)] if_not_P [OF 3(2)] ..
    then show thesis using assms by (intro admitted [OF 3 d3(1-4) event_def f _ d3(5,6)]) simp
  qed
qed

lemma cap_sendEvent_facts:
  assumes "cap_sendEvent event d = (res, d')"
  shows "cap_sent (cd_stats d') = cap_sent (cd_stats d) - of_bool (res = None)"
    "kc_ringRecords (cd_stats d') = kc_ringRecords (cd_stats d)" "cap_undecided (cd_stats d') = cap_undecided (cd_stats d)"
    "cd_channel d' = cd_channel d @ (case res of None \<Rightarrow> [] | Some ev \<Rightarrow> [ev])" "cd_capacity d' = cd_capacity d"
    "length (cd_channel d) \<le> cd_capacity d \<Longrightarrow> length (cd_channel d') \<le> cd_capacity d'"
    "res = Some ev \<Longrightarrow> ev = event"
  using assms by (auto simp: cap_sendEvent_def cap_sent_def cap_undecided_def split: if_splits)

text \<open>The event made of a record.\<close>

definition eventOf :: "bpfEvent \<Rightarrow> ApiEvent \<Rightarrow> bool" where
  "eventOf e event \<longleftrightarrow> clean False event \<and>
     (\<exists>conn process container. event = buildEvent captureMode e conn process container)"

definition sentList :: "ApiEvent option \<Rightarrow> ApiEvent list" where
  "sentList res = (case res of None \<Rightarrow> [] | Some ev \<Rightarrow> [ev])"

lemma buildEvent_relabel:
  "(buildEvent mode e conn process container)\<lparr>ev_Connection := conn', ev_Process := process', ev_Container := container'\<rparr> =
     buildEvent mode e conn' process' container'"
  by (simp add: buildEvent_def)

lemma buildEvent_clean:
  assumes "length (be_Payload e) = payloadCapacity" "be_EventType e \<noteq> eventTypeSocket"
    and "\<not> (be_EventType e = eventTypeData \<and> isCounterNoise (take (payloadSizeOf e) (be_Payload e)))"
  shows "clean False (buildEvent mode e conn process container)"
  using assms payloadSizeOf_le [of e] capturedSizeOf_unat [of e] by (auto simp: clean_def buildEvent_def)

lemma cap_decodedStep_accounts:
  assumes "cap_decodedStep env e d = (res, d')" "length (be_Payload e) = payloadCapacity"
  shows "cap_sent (cd_stats d') = cap_sent (cd_stats d) + of_bool (res \<noteq> None)"
    "kc_ringRecords (cd_stats d') = kc_ringRecords (cd_stats d)" "cap_undecided (cd_stats d') = cap_undecided (cd_stats d) - 1"
    "cd_channel d' = cd_channel d @ sentList res" "cd_capacity d' = cd_capacity d"
    "length (cd_channel d) \<le> cd_capacity d \<Longrightarrow> length (cd_channel d') \<le> cd_capacity d'"
    "\<forall>ev. res = Some ev \<longrightarrow> eventOf e ev"
proof -
  have "cap_sent (cd_stats d') = cap_sent (cd_stats d) + of_bool (res \<noteq> None) \<and>
    kc_ringRecords (cd_stats d') = kc_ringRecords (cd_stats d) \<and> cap_undecided (cd_stats d') = cap_undecided (cd_stats d) - 1 \<and>
    cd_channel d' = cd_channel d @ sentList res \<and> cd_capacity d' = cd_capacity d \<and>
    (length (cd_channel d) \<le> cd_capacity d \<longrightarrow> length (cd_channel d') \<le> cd_capacity d') \<and>
    (\<forall>ev. res = Some ev \<longrightarrow> eventOf e ev)"
    using assms(1)
  proof (cases rule: cap_decodedStep_cases)
    case socket
    then show ?thesis by (simp add: countDecoded_fates sentList_def)
  next
    case noise
    moreover have "be_EventType e \<noteq> eventTypeSocket" using noise(1) by (simp add: eventTypeData_def eventTypeSocket_def)
    ultimately show ?thesis
      using countDecoded_fates [of e "cd_stats d"] by (simp add: sentList_def)
  next
    case (admitted d3 event f allowed)
    note c = cap_fates_eq [OF admitted(3)]
    have d3: "cap_sent (cd_stats d3) = cap_sent (cd_stats d) + 1" "kc_ringRecords (cd_stats d3) = kc_ringRecords (cd_stats d)"
      "cap_undecided (cd_stats d3) = cap_undecided (cd_stats d) - 1"
      using c countDecoded_fates [of e "cd_stats d"] admitted(1) by simp_all
    show ?thesis
    proof (cases allowed)
      case False
      then have r: "res = None" "d' = cap_count (\<lambda>s. s\<lparr>kc_skippedFDFilter := kc_skippedFDFilter s + 1\<rparr>) (d3\<lparr>cd_filter := f\<rparr>)"
        using admitted(9) by simp_all
      then show ?thesis using d3 admitted(4,5) by (simp add: sentList_def)
    next
      case True
      obtain event1 d5 where l: "cap_labelEvent env e (connectionFromKernelTuple e \<noteq> None) event (d3\<lparr>cd_filter := f\<rparr>) = (event1, d5)"
        by force
      note lf = cap_labelEvent_facts [OF l] and s = cap_sendEvent_facts
      have se: "cap_sendEvent event1 d5 = (res, d')" using admitted(9) True l by simp
      have "eventOf e event1"
        using lf(5) buildEvent_clean [OF assms(2) admitted(1,2)] unfolding eventOf_def admitted(7) buildEvent_relabel by auto
      then show ?thesis
        using s(1-6) [OF se] s(7) [OF se] cap_fates_eq [OF lf(1)] lf(2,3) d3 admitted(4,5)
        by (cases res) (simp_all add: sentList_def)
    qed
  qed
  then show "cap_sent (cd_stats d') = cap_sent (cd_stats d) + of_bool (res \<noteq> None)"
    "kc_ringRecords (cd_stats d') = kc_ringRecords (cd_stats d)" "cap_undecided (cd_stats d') = cap_undecided (cd_stats d) - 1"
    "cd_channel d' = cd_channel d @ sentList res" "cd_capacity d' = cd_capacity d"
    "length (cd_channel d) \<le> cd_capacity d \<Longrightarrow> length (cd_channel d') \<le> cd_capacity d'"
    "\<forall>ev. res = Some ev \<longrightarrow> eventOf e ev" by blast+
qed

text \<open>One turn of a shard, whatever it read.\<close>

definition fromRing :: "ringRead \<Rightarrow> ApiEvent \<Rightarrow> bool" where
  "fromRing read event \<longleftrightarrow> (\<exists>raw e. read = RingSample raw \<and> binaryRead raw = Some e \<and> eventOf e event)"

lemma cap_shardStep_accounts:
  assumes "cap_shardStep env read d = (res, d')"
  shows "cap_sent (cd_stats d') = cap_sent (cd_stats d) + of_bool (res \<noteq> None)"
    "kc_ringRecords (cd_stats d') = kc_ringRecords (cd_stats d) + of_bool (sampled read)"
    "cap_undecided (cd_stats d') = cap_undecided (cd_stats d)"
    "cd_channel d' = cd_channel d @ sentList res" "cd_capacity d' = cd_capacity d"
    "length (cd_channel d) \<le> cd_capacity d \<Longrightarrow> length (cd_channel d') \<le> cd_capacity d'"
    "\<forall>ev. res = Some ev \<longrightarrow> fromRing read ev"
proof -
  have "cap_sent (cd_stats d') = cap_sent (cd_stats d) + of_bool (res \<noteq> None) \<and>
    kc_ringRecords (cd_stats d') = kc_ringRecords (cd_stats d) + of_bool (sampled read) \<and>
    cap_undecided (cd_stats d') = cap_undecided (cd_stats d) \<and>
    cd_channel d' = cd_channel d @ sentList res \<and> cd_capacity d' = cd_capacity d \<and>
    (length (cd_channel d) \<le> cd_capacity d \<longrightarrow> length (cd_channel d') \<le> cd_capacity d') \<and>
    (\<forall>ev. res = Some ev \<longrightarrow> fromRing read ev)"
  proof (cases read)
    case RingError
    with assms show ?thesis
      by (auto simp: cap_shardStep_def sampled_def sentList_def cap_sent_def cap_undecided_def)
  next
    case (RingSample raw)
    let ?d1 = "cap_count (\<lambda>s. s\<lparr>kc_ringRecords := kc_ringRecords s + 1\<rparr>) d"
    show ?thesis
    proof (cases "binaryRead raw")
      case None
      with assms RingSample show ?thesis
        by (auto simp: cap_shardStep_def sampled_def sentList_def cap_sent_def cap_undecided_def)
    next
      case (Some e)
      with assms RingSample have s: "cap_decodedStep env e ?d1 = (res, d')" by (simp add: cap_shardStep_def)
      note c = cap_decodedStep_accounts [OF s binaryRead_payload [OF Some]]
      have "cap_sent (cd_stats ?d1) = cap_sent (cd_stats d)" "cap_undecided (cd_stats ?d1) = cap_undecided (cd_stats d) + 1"
        by (simp_all add: cap_sent_def cap_undecided_def)
      with c RingSample Some show ?thesis by (auto simp: sampled_def fromRing_def)
    qed
  qed
  then show "cap_sent (cd_stats d') = cap_sent (cd_stats d) + of_bool (res \<noteq> None)"
    "kc_ringRecords (cd_stats d') = kc_ringRecords (cd_stats d) + of_bool (sampled read)"
    "cap_undecided (cd_stats d') = cap_undecided (cd_stats d)"
    "cd_channel d' = cd_channel d @ sentList res" "cd_capacity d' = cd_capacity d"
    "length (cd_channel d) \<le> cd_capacity d \<Longrightarrow> length (cd_channel d') \<le> cd_capacity d'"
    "\<forall>ev. res = Some ev \<longrightarrow> fromRing read ev" by blast+
qed

end
