(* ===== verification/CaptureRuns.thy ===== *)
theory CaptureRuns
  imports CaptureLoop "HOL-Library.Sublist"
begin

text \<open>
  Runs of karaxys-capture as a whole: what becomes of every record of the ring buffers on its
  way to the processing goroutine, and how the caches and the filter of the loop behave when a flow
  closes and when its connection is found late.
\<close>

section \<open>The pipeline\<close>

definition initialSystem ::
  "(flowKey \<times> kernelSocketTuple) list option \<Rightarrow> duration \<Rightarrow> portSet \<Rightarrow> portSet \<Rightarrow> bool \<Rightarrow> bool \<Rightarrow> captureProc \<Rightarrow>
     captureSystem" where
  "initialSystem tuples ttl targetPorts ignorePorts inbound outbound cp =
     \<lparr>sy_deps = newShardCaptureDeps tuples ttl targetPorts ignorePorts inbound outbound, sy_proc = cp\<rparr>"

text \<open>What the processing goroutines take from a run.\<close>

fun procInputs :: "h2lib \<Rightarrow> runtime \<Rightarrow> captureConfig \<Rightarrow> systemInput list \<Rightarrow> captureSystem \<Rightarrow> captureInput list" where
  "procInputs lib rt cfg [] s = []"
| "procInputs lib rt cfg (i # is) s =
     (case i of
        Shard env read \<Rightarrow> []
      | Receive \<Rightarrow> (case cd_channel (sy_deps s) of [] \<Rightarrow> [] | event # rest \<Rightarrow> [ChannelEvent event])
      | Cleanup keys \<Rightarrow> [SweepTick keys]) @ procInputs lib rt cfg is (systemStep lib rt cfg i s)"

fun channelEvents :: "captureInput list \<Rightarrow> ApiEvent list" where
  "channelEvents [] = []"
| "channelEvents (ChannelEvent event # ins) = event # channelEvents ins"
| "channelEvents (SweepTick keys # ins) = channelEvents ins"

fun ringReads :: "systemInput list \<Rightarrow> ringRead list" where
  "ringReads [] = []"
| "ringReads (Shard env read # is) = read # ringReads is"
| "ringReads (Receive # is) = ringReads is"
| "ringReads (Cleanup keys # is) = ringReads is"

lemma channelEvents_append [simp]: "channelEvents (xs @ ys) = channelEvents xs @ channelEvents ys"
  by (induction xs rule: channelEvents.induct) simp_all

text \<open>The facts that one turn keeps, for a run that has sent the events \<open>sent\<close> from \<open>source\<close>.\<close>

lemma pipeline_run:
  assumes "length (cd_channel (sy_deps s)) \<le> cd_capacity (sy_deps s)"
  shows "\<exists>sent source. subseq source (ringReads is) \<and> list_all2 fromRing source sent \<and>
    cd_channel (sy_deps s) @ sent =
      channelEvents (procInputs lib rt cfg is s) @ cd_channel (sy_deps (fold (systemStep lib rt cfg) is s)) \<and>
    sy_proc (fold (systemStep lib rt cfg) is s) = fold (captureStep lib rt cfg) (procInputs lib rt cfg is s) (sy_proc s) \<and>
    length (cd_channel (sy_deps (fold (systemStep lib rt cfg) is s))) \<le> cd_capacity (sy_deps s) \<and>
    cap_sent (cd_stats (sy_deps (fold (systemStep lib rt cfg) is s))) =
      cap_sent (cd_stats (sy_deps s)) + of_nat (length sent) \<and>
    kc_ringRecords (cd_stats (sy_deps (fold (systemStep lib rt cfg) is s))) =
      kc_ringRecords (cd_stats (sy_deps s)) + of_nat (length (filter sampled (ringReads is))) \<and>
    cap_undecided (cd_stats (sy_deps (fold (systemStep lib rt cfg) is s))) = cap_undecided (cd_stats (sy_deps s))"
  using assms
proof (induction "is" arbitrary: s)
  case Nil
  then show ?case by (intro exI [of _ "[]"]) simp
next
  case (Cons i "is")
  show ?case
  proof (cases i)
    case (Shard env read)
    obtain res d' where r: "cap_shardStep env read (sy_deps s) = (res, d')" by force
    note a = cap_shardStep_accounts [OF r]
    have step: "systemStep lib rt cfg i s = s\<lparr>sy_deps := d'\<rparr>" by (simp add: Shard r)
    have bound: "length (cd_channel (sy_deps (s\<lparr>sy_deps := d'\<rparr>))) \<le> cd_capacity (sy_deps (s\<lparr>sy_deps := d'\<rparr>))"
      using a(6) Cons.prems by simp
    from Cons.IH [OF bound] a obtain sent source where ih: "subseq source (ringReads is)" "list_all2 fromRing source sent"
      and rest: "cd_channel d' @ sent = channelEvents (procInputs lib rt cfg is (s\<lparr>sy_deps := d'\<rparr>)) @
          cd_channel (sy_deps (fold (systemStep lib rt cfg) is (s\<lparr>sy_deps := d'\<rparr>)))"
        "sy_proc (fold (systemStep lib rt cfg) is (s\<lparr>sy_deps := d'\<rparr>)) =
          fold (captureStep lib rt cfg) (procInputs lib rt cfg is (s\<lparr>sy_deps := d'\<rparr>)) (sy_proc s)"
        "length (cd_channel (sy_deps (fold (systemStep lib rt cfg) is (s\<lparr>sy_deps := d'\<rparr>)))) \<le> cd_capacity d'"
        "cap_sent (cd_stats (sy_deps (fold (systemStep lib rt cfg) is (s\<lparr>sy_deps := d'\<rparr>)))) =
          cap_sent (cd_stats d') + of_nat (length sent)"
        "kc_ringRecords (cd_stats (sy_deps (fold (systemStep lib rt cfg) is (s\<lparr>sy_deps := d'\<rparr>)))) =
          kc_ringRecords (cd_stats d') + of_nat (length (filter sampled (ringReads is)))"
        "cap_undecided (cd_stats (sy_deps (fold (systemStep lib rt cfg) is (s\<lparr>sy_deps := d'\<rparr>)))) = cap_undecided (cd_stats d')"
      by auto
    have "list_all2 fromRing (if res = None then source else read # source) (sentList res @ sent)"
      using ih(2) a(7) by (auto simp: sentList_def split: option.splits)
    moreover have "subseq (if res = None then source else read # source) (ringReads (i # is))"
      using ih(1) by (auto simp: Shard)
    moreover have "procInputs lib rt cfg (i # is) s = procInputs lib rt cfg is (s\<lparr>sy_deps := d'\<rparr>)"
      using step by (simp add: Shard)
    moreover have "length (sentList res) = of_bool (res \<noteq> None)" by (simp add: sentList_def split: option.splits)
    ultimately show ?thesis
      using rest a step
      by (intro exI [of _ "sentList res @ sent"] exI [of _ "if res = None then source else read # source"]) (simp add: Shard)
  next
    case Receive
    show ?thesis
    proof (cases "cd_channel (sy_deps s)")
      case Nil
      with Receive Cons.IH [OF Cons.prems] show ?thesis by simp
    next
      case (Cons event rest)
      define s1 where "s1 = s\<lparr>sy_deps := (sy_deps s)\<lparr>cd_channel := rest\<rparr>,
          sy_proc := captureStep lib rt cfg (ChannelEvent event) (sy_proc s)\<rparr>"
      have s1: "systemStep lib rt cfg i s = s1" using Receive Cons by (simp add: s1_def)
      have "length (cd_channel (sy_deps s1)) \<le> cd_capacity (sy_deps s1)" using Cons.prems Cons by (simp add: s1_def)
      from Cons.IH [OF this] show ?thesis
        using Receive Cons unfolding fold_simps s1 by (auto simp: s1 s1_def)
    qed
  next
    case (Cleanup keys)
    from Cons.IH [of "systemStep lib rt cfg i s"] Cons.prems Cleanup show ?thesis by simp
  qed
qed


section \<open>Closing a flow\<close>

lemma eventFlowKey_build [simp]: "eventFlowKey (buildEvent mode e conn process container) = bpfFlowKey e"
  by (simp add: eventFlowKey_def bpfFlowKey_def buildEvent_def)

lemma cap_sendEvent_frame [simp]:
  "cd_metadata (snd (cap_sendEvent event d)) = cd_metadata d"
  "cd_kernelTuples (snd (cap_sendEvent event d)) = cd_kernelTuples d"
  "cd_filter (snd (cap_sendEvent event d)) = cd_filter d"
  by (simp_all add: cap_sendEvent_def)

text \<open>What an allowed event does to the caches: they hold the connection that \<^verbatim>\<open>/proc\<close> shows.\<close>

lemma cap_labelEvent_fresh:
  assumes "resolver_fresh (bpfFlowKey e) (cl_now env) (cd_metadata d) = None"
    and "cap_resolveConnection (cl_proc env) (be_Pid e) (be_Fd e) = Some conn"
    and "resolver_inv (cd_metadata d)" "0 < mr_ttl (cd_metadata d)"
    and "cap_labelEvent env e ok event d = (event', d')"
  shows "ev_Connection event' = conn"
    "\<exists>r. resolver_fresh (bpfFlowKey e) (cl_now env) (cd_metadata d') = Some r \<and> rs_ok r \<and> rs_conn r = conn"
    "cd_kernelTuples d' = cap_remember (cl_updateFails env) (bpfFlowKey e) conn (cd_kernelTuples d)"
proof -
  obtain r source m where r: "cap_resolveWithSource (cl_proc env) (bpfFlowKey e) (cl_now env) (cl_later env)
      (cd_metadata d) = ((r, source), m)" by (metis prod.collapse)
  have ok: "rs_ok r" "rs_conn r = conn"
    using r assms(1,2) by (auto simp: cap_resolveWithSource_def Let_def bpfFlowKey_def split: prod.splits)
  have d': "event' = event\<lparr>ev_Connection := rs_conn r, ev_Process := rs_process r, ev_Container := rs_container r\<rparr>"
    "cd_metadata d' = m" "cd_kernelTuples d' = cap_remember (cl_updateFails env) (bpfFlowKey e) (rs_conn r) (cd_kernelTuples d)"
    using assms(5) ok by (auto simp: cap_labelEvent_def r Let_def)
  with cap_resolve_cached(1) [OF r assms(3,4)] ok
  show "ev_Connection event' = conn"
    "\<exists>r. resolver_fresh (bpfFlowKey e) (cl_now env) (cd_metadata d') = Some r \<and> rs_ok r \<and> rs_conn r = conn"
    "cd_kernelTuples d' = cap_remember (cl_updateFails env) (bpfFlowKey e) conn (cd_kernelTuples d)"
    by simp_all
qed

text \<open>C33. A close does not clear the caches of karaxys-capture. The loop forgets the flow first and resolves
  the close event afterwards, so if the flow is still allowed by the filter and the descriptor still shows a
  connection, by then possibly that of another socket, the cache of the closed flow and the kernel's map hold
  that connection again once the event is through (the agent forgets last).\<close>

theorem capture_close_remembers:
  assumes "cap_decodedStep env e d = (res, d')" "be_EventType e = eventTypeClose"
    and "filter_inv (cd_filter d)" "filter_peek (bpfFlowKey e) (cl_filterNow env) (cd_filter d) = Some flowDecisionAllow"
    and "cap_resolveConnection (cl_proc env) (be_Pid e) (be_Fd e) = Some conn"
    and "resolver_inv (cd_metadata d)" "0 < mr_ttl (cd_metadata d)"
    and "cap_syncer_inv (cd_kernelTuples d)" "ts_tuples (cd_kernelTuples d) \<noteq> None" "\<not> cl_updateFails env (bpfFlowKey e)"
  shows "(\<exists>r. resolver_fresh (bpfFlowKey e) (cl_now env) (cd_metadata d') = Some r \<and> rs_ok r \<and> rs_conn r = conn) \<and>
    (\<exists>tuples. ts_tuples (cd_kernelTuples d') = Some tuples \<and> map_of tuples (bpfFlowKey e) = Some (cap_kernelTuple conn)) \<and>
    map_of (ts_synced (cd_kernelTuples d')) (bpfFlowKey e) = Some (cap_kernelTuple conn)"
  using assms(1)
proof (cases rule: cap_decodedStep_cases)
  case (admitted d3 event f allowed)
  have allowed: allowed
    using admitted(8) filter_allow_cases [OF assms(3), of event "connectionFromKernelTuple e \<noteq> None" "cl_filterNow env"] assms(4)
    by (simp add: allow_agrees admitted(7))
  obtain event1 d5 where l: "cap_labelEvent env e (connectionFromKernelTuple e \<noteq> None) event (d3\<lparr>cd_filter := f\<rparr>) = (event1, d5)"
    by force
  have "(res, d') = cap_sendEvent event1 d5" using admitted(9) allowed l by simp
  then have d': "cd_metadata d' = cd_metadata d5" "cd_kernelTuples d' = cd_kernelTuples d5"
    using cap_sendEvent_frame [of event1 d5] by (metis snd_conv)+
  have forgotten: "cd_metadata d3 = resolver_forget (bpfFlowKey e) (cd_metadata d)"
    "cd_kernelTuples d3 = cap_forget (cl_deleteFails env) (bpfFlowKey e) (cd_kernelTuples d)"
    using admitted(10,11) assms(2) by (simp_all add: cap_forgetClosed_def)
  have meta: "resolver_fresh (bpfFlowKey e) (cl_now env) (cd_metadata d3) = None" "resolver_inv (cd_metadata d3)"
    "0 < mr_ttl (cd_metadata d3)"
    using assms(6,7) by (simp_all add: forgotten resolver_forget_def resolver_fresh_def delete_conv' resolver_inv_def distinct_delete)
  obtain tuples where t: "ts_tuples (cd_kernelTuples d3) = Some tuples"
    using assms(9) cap_syncer_tuples(2) [of "cl_deleteFails env" "bpfFlowKey e" "cd_kernelTuples d"] by (auto simp: forgotten(2))
  have inv: "cap_syncer_inv (cd_kernelTuples d3)" using cap_forget_inv [OF assms(8)] by (simp add: forgotten(2))
  have tcp: "conn_Protocol conn \<noteq> []" using cap_resolveConnection_protocol [OF assms(5)] by simp
  from cap_labelEvent_fresh [OF _ assms(5) _ _ l] meta
    cap_remember_present [OF inv t tcp, of "cl_updateFails env" "bpfFlowKey e"] assms(10) d'
  show ?thesis by auto
qed (use assms(2) in \<open>auto simp: eventTypeClose_def eventTypeSocket_def eventTypeData_def\<close>)

text \<open>A close event that the kernel could not label is refused unless the flow has a live decision, so
  the session of such a flow stays until the sweep.\<close>

lemma unlabelled_close_dropped:
  assumes "cap_decodedStep env e d = (res, d')" "be_EventType e = eventTypeClose" "be_SocketTupleFlags e = 0"
    and "filter_inv (cd_filter d)" "filter_peek (bpfFlowKey e) (cl_filterNow env) (cd_filter d) = None"
  shows "res = None"
  using assms(1)
proof (cases rule: cap_decodedStep_cases)
  case (admitted d3 event f allowed)
  have none: "connectionFromKernelTuple e = None" using assms(3) by (simp add: connectionFromKernelTuple_def)
  have "ev_EventType event \<noteq> eventTypeData" "eventFlowKey event = bpfFlowKey e"
    using assms(2) by (simp_all add: admitted(7)) (simp add: buildEvent_def eventTypeClose_def eventTypeData_def)
  then have "\<not> allowed"
    using admitted(8) filter_allow_cases [OF assms(4), of event False "cl_filterNow env"] assms(5) by (simp add: none allow_agrees)
  then show ?thesis using admitted(9) by simp
qed simp_all

section \<open>A connection found late\<close>

text \<open>C34. Ignored ports are not always ignored. A flow that the kernel could not label, whose first bytes look
  like HTTP, is let through before its connection is looked up; the event is then labelled with that
  connection and sent even if one of its ports is to be ignored, such as the port of the program's own
  ingest endpoint, and its later events are let through for the TTL.\<close>

theorem capture_ignored_port_sent:
  assumes "cap_decodedStep env e d = (res, d')" "be_EventType e = eventTypeData" "be_SocketTupleFlags e = 0"
    and "filter_inv (cd_filter d)" "filter_peek (bpfFlowKey e) (cl_filterNow env) (cd_filter d) = None"
    and "isLikelyHTTPPayload (take (payloadSizeOf e) (be_Payload e))"
    and "\<not> isCounterNoise (take (payloadSizeOf e) (be_Payload e))"
    and "resolver_fresh (bpfFlowKey e) (cl_now env) (cd_metadata d) = None" "resolver_inv (cd_metadata d)" "0 < mr_ttl (cd_metadata d)"
    and "cap_resolveConnection (cl_proc env) (be_Pid e) (be_Fd e) = Some conn"
    and "length (cd_channel d) < cd_capacity d" "conn_DstPort conn \<in> ff_ignorePorts (cd_filter d)"
    and "cl_filterNow env \<le> t" "t \<le> cl_filterNow env + ff_ttl (cd_filter d)"
  shows "\<exists>event. res = Some event \<and> ev_Connection event = conn \<and> \<not> wanted (cd_filter d') (ev_Connection event) \<and>
    filter_peek (bpfFlowKey e) t (cd_filter d') = Some flowDecisionAllow"
  using assms(1)
proof (cases rule: cap_decodedStep_cases)
  case (admitted d3 event f allowed)
  have none: "connectionFromKernelTuple e = None" using assms(3) by (simp add: connectionFromKernelTuple_def)
  have ev: "ev_EventType event = eventTypeData" "ev_Payload event = take (payloadSizeOf e) (be_Payload e)"
    "eventFlowKey event = bpfFlowKey e"
    using assms(2) by (simp_all add: admitted(7)) (simp_all add: buildEvent_def)
  have f: "filter_allow event False (cl_filterNow env) (cd_filter d) = (allowed, f)"
    using admitted(8) by (simp add: none allow_agrees)
  have allowed: allowed
    using f filter_allow_cases [OF assms(4), of event False "cl_filterNow env"] assms(5,6) by (simp add: ev)
  have peek: "filter_peek (bpfFlowKey e) t f = Some flowDecisionAllow"
    using allow_remembers [OF assms(4), of event "cl_filterNow env" t False] assms(5,6,14,15) f allowed by (simp add: ev)
  have ignored: "\<not> wanted f conn"
    using allow_config(2) [of event False "cl_filterNow env" "cd_filter d"] assms(13) by (simp add: f wanted_def)
  have same: "cd_metadata d3 = cd_metadata d"
    using admitted(11) assms(2) by (simp add: cap_forgetClosed_def eventTypeData_def eventTypeClose_def)
  obtain event1 d5 where l: "cap_labelEvent env e (connectionFromKernelTuple e \<noteq> None) event (d3\<lparr>cd_filter := f\<rparr>) = (event1, d5)"
    by force
  note facts = cap_labelEvent_facts [OF l]
  have "(res, d') = cap_sendEvent event1 d5" using admitted(9) allowed l by simp
  then have "res = Some event1" "cd_filter d' = f"
    using facts(2-4) admitted(4,5) assms(12) by (simp_all add: cap_sendEvent_def)
  with cap_labelEvent_fresh(1) [OF _ assms(11) _ _ l] assms(8-10) same peek ignored show ?thesis by simp
qed (use assms(2,7) in \<open>auto simp: eventTypeSocket_def eventTypeData_def\<close>)

section \<open>Samples\<close>

definition sampleLoopEnv :: captureLoopEnv where
  "sampleLoopEnv = \<lparr>cl_proc = sampleProc, cl_now = 1, cl_later = 1, cl_filterNow = 1, cl_updateFails = (\<lambda>k. False),
     cl_deleteFails = (\<lambda>k. False)\<rparr>"

definition sampleFlowEvent :: "u8 \<Rightarrow> bytes \<Rightarrow> bpfEvent" where
  "sampleFlowEvent kind data = emptyEvent\<lparr>be_Pid := 7, be_Fd := 3, be_EventType := kind,
     be_Size := word_of_nat (length data), be_Payload := data\<rparr>"

definition sampleShard :: shardCaptureDeps where
  "sampleShard = newShardCaptureDeps (Some []) 15 {} {40000} True True"

definition allowedShard :: shardCaptureDeps where
  "allowedShard = sampleShard\<lparr>cd_filter := filter_remember (bpfFlowKey (sampleFlowEvent 1 [])) flowDecisionAllow 1 (cd_filter sampleShard)\<rparr>"

lemma sampleShard_simps [simp]:
  "cd_filter sampleShard = newFlowFilter 15 {} {40000} True True" "cd_metadata sampleShard = newMetadataResolver 15"
  "cd_kernelTuples sampleShard = newKernelTupleSyncer (Some [])" "cd_channel sampleShard = []"
  "cd_capacity sampleShard = 50000"
  by (simp_all add: sampleShard_def newShardCaptureDeps_def channelBufferSize_def)

lemma sampleResolver_facts: "resolver_inv (newMetadataResolver 15)" "0 < mr_ttl (newMetadataResolver 15)"
  "resolver_fresh key now (newMetadataResolver 15) = None"
  by (simp_all add: newMetadataResolver_def resolver_inv_def resolver_fresh_def)

lemma sampleFlowEvent_simps [simp]:
  "be_Pid (sampleFlowEvent kind data) = 7" "be_Fd (sampleFlowEvent kind data) = 3"
  "be_EventType (sampleFlowEvent kind data) = kind" "be_SocketTupleFlags (sampleFlowEvent kind data) = 0"
  "be_Payload (sampleFlowEvent kind data) = data"
  by (simp_all add: sampleFlowEvent_def emptyEvent_def)

lemma sampleLoopEnv_simps [simp]:
  "cl_proc sampleLoopEnv = sampleProc" "cl_now sampleLoopEnv = 1" "cl_filterNow sampleLoopEnv = 1"
  "\<not> cl_updateFails sampleLoopEnv key"
  by (simp_all add: sampleLoopEnv_def)

lemma sampleConnection: "\<exists>conn. cap_resolveConnection sampleProc 7 3 = Some conn \<and> conn_DstPort conn = 40000"
proof -
  have "map_option conn_DstPort (cap_resolveConnection sampleProc 7 3) = Some 40000" by code_simp
  then show ?thesis by auto
qed

theorem capture_close_remembers_witness:
  "map_of (ts_synced (cd_kernelTuples (snd (cap_decodedStep sampleLoopEnv (sampleFlowEvent eventTypeClose []) allowedShard))))
     (bpfFlowKey (sampleFlowEvent 1 [])) \<noteq> None"
proof -
  let ?e = "sampleFlowEvent eventTypeClose []"
  obtain conn where conn: "cap_resolveConnection sampleProc 7 3 = Some conn" using sampleConnection by blast
  obtain res d' where s: "cap_decodedStep sampleLoopEnv ?e allowedShard = (res, d')" by force
  have key: "bpfFlowKey (sampleFlowEvent 1 []) = bpfFlowKey ?e" by (simp add: eventTypeClose_def)
  have d: "cd_metadata allowedShard = newMetadataResolver 15" "cd_kernelTuples allowedShard = newKernelTupleSyncer (Some [])"
    by (simp_all add: allowedShard_def)
  have f: "filter_inv (cd_filter allowedShard)"
    "filter_peek (bpfFlowKey ?e) 1 (cd_filter allowedShard) = Some flowDecisionAllow"
    by (simp_all add: allowedShard_def key filter_remember_def filter_cleanup_def newFlowFilter_def filter_inv_def filter_peek_def)
  have "map_of (ts_synced (cd_kernelTuples d')) (bpfFlowKey ?e) = Some (cap_kernelTuple conn)"
    by (rule capture_close_remembers [THEN conjunct2, THEN conjunct2, OF s _ f(1)])
      (simp_all add: f d conn sampleResolver_facts cap_new_inv, simp add: newKernelTupleSyncer_def)
  then show ?thesis by (simp add: s key)
qed

theorem capture_ignored_port_sent_witness:
  "\<exists>event d'. cap_decodedStep sampleLoopEnv (sampleFlowEvent eventTypeData ''GET / HTTP/1.1'') sampleShard = (Some event, d') \<and>
     conn_DstPort (ev_Connection event) = 40000"
proof -
  let ?e = "sampleFlowEvent eventTypeData ''GET / HTTP/1.1''"
  obtain conn where conn: "cap_resolveConnection sampleProc 7 3 = Some conn" "conn_DstPort conn = 40000"
    using sampleConnection by blast
  obtain res d' where s: "cap_decodedStep sampleLoopEnv ?e sampleShard = (res, d')" by force
  have payload: "take (payloadSizeOf ?e) ''GET / HTTP/1.1'' = ''GET / HTTP/1.1''"
    by (simp add: payloadSizeOf_def sampleFlowEvent_def)
  have likely: "isLikelyHTTPPayload ''GET / HTTP/1.1''" by code_simp
  have f: "filter_inv (newFlowFilter 15 {} {40000} True True)"
    "filter_peek (bpfFlowKey ?e) 1 (newFlowFilter 15 {} {40000} True True) = None"
    by (simp_all add: newFlowFilter_def filter_inv_def filter_peek_def)
  have "\<exists>event. res = Some event \<and> ev_Connection event = conn \<and> \<not> wanted (cd_filter d') (ev_Connection event) \<and>
      filter_peek (bpfFlowKey ?e) 9 (cd_filter d') = Some flowDecisionAllow"
    by (rule capture_ignored_port_sent [OF s])
      (simp_all only: payload sampleShard_simps sampleLoopEnv_simps sampleFlowEvent_simps sampleResolver_facts f likely conn,
       simp_all add: isCounterNoise_def newFlowFilter_def)
  with s conn(2) show ?thesis by auto
qed

end
