(* ===== verification/CaptureSink.thy ===== *)
theory CaptureSink
  imports Sink
begin

text \<open>
  The sink of karaxys-capture, \<^verbatim>\<open>cmd/karaxys-capture/sink.go\<close>: the worker's HTTP sink, but for the
  dead letters, which do not name the sink and whose own failures are ignored. What the network and the
  file system answer is an environment, as in \<open>Sink\<close>.
\<close>

section \<open>Dead letters\<close>

record captureDeadLetter =
  cdl_CreatedAt :: bytes
  cdl_Error :: bytes
  cdl_Payload :: bytes

record captureSinkEnv =
  cx_newRequest :: "bytes \<Rightarrow> bytes option"
  cx_do :: "nat \<Rightarrow> httpAnswer"
  cx_dir :: "bytes \<Rightarrow> bytes"
  cx_mkdirAll :: "bytes \<Rightarrow> bytes option"
  cx_now :: "nat \<Rightarrow> bytes"
  cx_marshalLetter :: "captureDeadLetter \<Rightarrow> bytes + bytes"
  cx_openFile :: "bytes \<Rightarrow> bytes option"
  cx_write :: "nat \<Rightarrow> bytes \<Rightarrow> bytes \<times> bytes option"

record captureSinkWorld =
  cw_posts :: "sentRequest list"
  cw_sleeps :: "duration list"
  cw_letters :: "captureDeadLetter list"
  cw_file :: bytes

definition cap_writeDeadLetter ::
  "captureSinkEnv \<Rightarrow> bytes \<Rightarrow> sinkError option \<Rightarrow> bytes \<Rightarrow> captureSinkWorld \<Rightarrow> bytes option \<times> captureSinkWorld" where
  "cap_writeDeadLetter env path emitErr payload w =
     (if path = [] then (None, w)
      else case emitErr of
        None \<Rightarrow> (None, w)
      | Some e \<Rightarrow>
          (let dir = cx_dir env path in
           case (if dir \<noteq> ''.'' \<and> dir \<noteq> [] then cx_mkdirAll env dir else None) of
             Some err \<Rightarrow> (Some err, w)
           | None \<Rightarrow>
               (let letter = \<lparr>cdl_CreatedAt = cx_now env (length (cw_letters w)), cdl_Error = error_text e,
                      cdl_Payload = payload\<rparr>;
                    w1 = w\<lparr>cw_letters := cw_letters w @ [letter]\<rparr>
                in case cx_marshalLetter env letter of
                     Inl err \<Rightarrow> (Some err, w1)
                   | Inr line \<Rightarrow>
                       (case cx_openFile env path of
                          Some err \<Rightarrow> (Some err, w1)
                        | None \<Rightarrow>
                            (let (wrote, err) = cx_write env (length (cw_letters w)) (line @ [CHR 0x0A])
                             in (err, w1\<lparr>cw_file := cw_file w1 @ wrote\<rparr>))))))"

section \<open>Posting\<close>

definition newHTTPSink :: "bytes \<Rightarrow> bytes \<Rightarrow> int \<Rightarrow> duration \<Rightarrow> bytes \<Rightarrow> httpConversationSink" where
  "newHTTPSink ingestURL accountToken maxRetries retryDelay deadLetterFile =
     \<lparr>hs_endpoint = ingestURL, hs_agentToken = accountToken, hs_maxRetries = maxRetries,
      hs_initialBackoff = retryDelay, hs_deadLetterFile = deadLetterFile\<rparr>"

definition cap_post ::
  "captureSinkEnv \<Rightarrow> httpConversationSink \<Rightarrow> bytes \<Rightarrow> captureSinkWorld \<Rightarrow> sinkError option \<times> captureSinkWorld" where
  "cap_post env s payload w =
     (case cx_newRequest env (hs_endpoint s) of
        Some err \<Rightarrow> (Some (PlainError err), w)
      | None \<Rightarrow>
          (let req = \<lparr>hr_url = hs_endpoint s, hr_authorization = ''Bearer '' @ hs_agentToken s,
                 hr_contentType = ''application/json'', hr_body = payload\<rparr>;
               w1 = w\<lparr>cw_posts := cw_posts w @ [req]\<rparr>
           in case cx_do env (length (cw_posts w)) of
                DoFailed err \<Rightarrow> (Some (PlainError err), w1)
              | Answered code body \<Rightarrow>
                  if 200 \<le> code \<and> code < 300 then (None, w1)
                  else (Some (httpSinkStatusError code (trim_space (take 512 body))), w1)))"

text \<open>\<open>retryableSinkError\<close> is the worker's text. The loop of \<open>Emit\<close> from \<open>attempt\<close> on: \<open>None\<close> is
  Go's nil, for \<open>lastErr\<close> before the first post and for success.\<close>

function cap_retryLoop ::
  "captureSinkEnv \<Rightarrow> httpConversationSink \<Rightarrow> bytes \<Rightarrow> int \<Rightarrow> duration \<Rightarrow> sinkError option \<Rightarrow> captureSinkWorld \<Rightarrow>
     sinkError option \<times> captureSinkWorld" where
  "cap_retryLoop env s payload attempt backoff lastErr w =
     (if attempt \<le> hs_maxRetries s then
        (let (backoff1, w1) =
               (if attempt > 0 \<and> backoff > 0
                then (int64 (backoff * 2), w\<lparr>cw_sleeps := cw_sleeps w @ [backoff]\<rparr>) else (backoff, w));
             (err, w2) = cap_post env s payload w1
         in case err of
              None \<Rightarrow> (None, w2)
            | Some e \<Rightarrow>
                if \<not> retryableSinkError e then (Some e, w2)
                else cap_retryLoop env s payload (attempt + 1) backoff1 (Some e) w2)
      else (lastErr, w))"
  by pat_completeness auto
termination
  by (relation "measure (\<lambda>(env, s, p, attempt, b, l, w). nat (hs_maxRetries s + 1 - attempt))") auto

declare cap_retryLoop.simps [simp del]

definition cap_Emit ::
  "captureSinkEnv \<Rightarrow> httpConversationSink \<Rightarrow> bytes \<Rightarrow> captureSinkWorld \<Rightarrow> sinkError option \<times> captureSinkWorld" where
  "cap_Emit env s payload w =
     (let (lastErr, w1) = cap_retryLoop env s payload 0 (hs_initialBackoff s) None w
      in (lastErr, if lastErr = None then w1
            else snd (cap_writeDeadLetter env (hs_deadLetterFile s) lastErr payload w1)))"

section \<open>The loop is the worker's\<close>

definition asSinkEnv :: "captureSinkEnv \<Rightarrow> sinkEnv" where
  "asSinkEnv env = \<lparr>se_newRequest = cx_newRequest env, se_do = cx_do env, se_produce = (\<lambda>_. DeliveryTimeout),
     se_dir = cx_dir env, se_mkdirAll = cx_mkdirAll env, se_now = cx_now env, se_marshalLetter = (\<lambda>l. Inl []),
     se_openFile = cx_openFile env, se_write = cx_write env\<rparr>"

definition asSinkWorld :: "captureSinkWorld \<Rightarrow> sinkWorld" where
  "asSinkWorld w = \<lparr>sw_posts = cw_posts w, sw_produced = [], sw_sleeps = cw_sleeps w, sw_letters = [], sw_file = []\<rparr>"

lemma asSinkEnv_simps [simp]: "se_newRequest (asSinkEnv env) = cx_newRequest env" "se_do (asSinkEnv env) = cx_do env"
  by (simp_all add: asSinkEnv_def)

lemma asSinkWorld_simps [simp]: "sw_posts (asSinkWorld w) = cw_posts w" "sw_sleeps (asSinkWorld w) = cw_sleeps w"
  by (simp_all add: asSinkWorld_def)

lemma post_agrees:
  "sink_post (asSinkEnv env) s payload (asSinkWorld w) = map_prod id asSinkWorld (cap_post env s payload w)"
  "cw_letters (snd (cap_post env s payload w)) = cw_letters w" "cw_file (snd (cap_post env s payload w)) = cw_file w"
  by (auto simp: sink_post_def cap_post_def Let_def asSinkWorld_def split: option.splits httpAnswer.splits)

lemma retry_agrees:
  "retryLoop (asSinkEnv env) s payload attempt b lastErr (asSinkWorld w) =
     map_prod id asSinkWorld (cap_retryLoop env s payload attempt b lastErr w) \<and>
   cw_letters (snd (cap_retryLoop env s payload attempt b lastErr w)) = cw_letters w"
proof (induction "nat (hs_maxRetries s + 1 - attempt)" arbitrary: attempt b lastErr w)
  case 0
  then show ?case by (simp add: retryLoop.simps [of _ s _ attempt] cap_retryLoop.simps [of _ s _ attempt])
next
  case (Suc n)
  then have le: "attempt \<le> hs_maxRetries s" by linarith
  define w1 where "w1 = (if attempt > 0 \<and> b > 0 then w\<lparr>cw_sleeps := cw_sleeps w @ [b]\<rparr> else w)"
  define b1 where "b1 = (if attempt > 0 \<and> b > 0 then int64 (b * 2) else b)"
  have w1: "cw_letters w1 = cw_letters w" by (simp add: w1_def)
  obtain err w2 where p: "cap_post env s payload w1 = (err, w2)" by force
  have sp: "sink_post (asSinkEnv env) s payload (asSinkWorld w1) = (err, asSinkWorld w2)" "cw_letters w2 = cw_letters w"
    using post_agrees [of env s payload w1] p w1 by simp_all
  have pair: "(if attempt > 0 \<and> b > 0 then (int64 (b * 2), w\<lparr>cw_sleeps := cw_sleeps w @ [b]\<rparr>) else (b, w)) = (b1, w1)"
    by (simp add: w1_def b1_def)
  have cap: "cap_retryLoop env s payload attempt b lastErr w =
      (case err of None \<Rightarrow> (None, w2) | Some e \<Rightarrow> if \<not> retryableSinkError e then (Some e, w2)
         else cap_retryLoop env s payload (attempt + 1) b1 (Some e) w2)"
    by (subst cap_retryLoop.simps) (simp only: le if_True pair p prod.case Let_def)
  have "(if attempt > 0 \<and> b > 0 then (int64 (b * 2), asSinkWorld w\<lparr>sw_sleeps := sw_sleeps (asSinkWorld w) @ [b]\<rparr>)
      else (b, asSinkWorld w)) = (b1, asSinkWorld w1)"
    by (simp add: w1_def b1_def asSinkWorld_def)
  with le sp have wrk: "retryLoop (asSinkEnv env) s payload attempt b lastErr (asSinkWorld w) =
      (case err of None \<Rightarrow> (None, asSinkWorld w2) | Some e \<Rightarrow> if \<not> retryableSinkError e then (Some e, asSinkWorld w2)
         else retryLoop (asSinkEnv env) s payload (attempt + 1) b1 (Some e) (asSinkWorld w2))"
    by (simp add: retryLoop.simps [of _ s _ attempt])
  have "n = nat (hs_maxRetries s + 1 - (attempt + 1))" using Suc.hyps(2) by linarith
  from Suc.hyps(1) [OF this] sp(2) show ?case unfolding cap wrk by (auto split: option.split)
qed

section \<open>The contract of a sink\<close>

definition cap_recordsLetters :: "captureSinkEnv \<Rightarrow> bytes \<Rightarrow> bool" where
  "cap_recordsLetters env path \<longleftrightarrow> path \<noteq> [] \<and>
     (cx_dir env path = ''.'' \<or> cx_dir env path = [] \<or> cx_mkdirAll env (cx_dir env path) = None)"

lemma cap_writeDeadLetter_letters:
  "map cdl_Payload (cw_letters (snd (cap_writeDeadLetter env path (Some e) payload w))) =
     map cdl_Payload (cw_letters w) @ (if cap_recordsLetters env path then [payload] else [])"
  "cw_posts (snd (cap_writeDeadLetter env path (Some e) payload w)) = cw_posts w"
  "cw_sleeps (snd (cap_writeDeadLetter env path (Some e) payload w)) = cw_sleeps w"
  by (cases "cx_mkdirAll env (cx_dir env path)";
      auto simp: cap_writeDeadLetter_def cap_recordsLetters_def Let_def split: option.splits sum.splits prod.splits)+

definition emitOutcome :: "sinkError option \<Rightarrow> emitResult" where
  "emitOutcome err = (case err of None \<Rightarrow> EmitOk | Some e \<Rightarrow> EmitFailed e)"

lemma cap_Emit_letters:
  "map cdl_Payload (cw_letters (snd (cap_Emit env s p w))) =
     map cdl_Payload (cw_letters w) @
       (if cap_recordsLetters env (hs_deadLetterFile s) \<and> fst (cap_Emit env s p w) \<noteq> None then [p] else [])"
  using retry_agrees [of env s p 0 "hs_initialBackoff s" None w]
    cap_writeDeadLetter_letters(1) [of env "hs_deadLetterFile s" _ p]
  by (auto simp: cap_Emit_def case_prod_beta Let_def)

definition reportedEmit ::
  "captureSinkEnv \<Rightarrow> httpConversationSink \<Rightarrow> bytes \<Rightarrow> captureSinkWorld \<Rightarrow> emitResult \<times> captureSinkWorld" where
  "reportedEmit env s p w = (emitOutcome (fst (cap_Emit env s p w)), snd (cap_Emit env s p w))"

interpretation capture_sink: conversation_sink "reportedEmit env s"
    "\<lambda>w. map cdl_Payload (cw_letters w)" "cap_recordsLetters env (hs_deadLetterFile s)"
  for env s
proof (unfold_locales, goal_cases)
  case (1 p w w')
  then show ?case using cap_Emit_letters [of env s p w]
    by (auto simp: reportedEmit_def emitOutcome_def split: option.splits)
next
  case (2 p w e w')
  then show ?case using cap_Emit_letters [of env s p w]
    by (auto simp: reportedEmit_def emitOutcome_def split: option.splits)
next
  case (3 p w w')
  then show ?case by (auto simp: reportedEmit_def emitOutcome_def split: option.splits)
qed

end
