(* ===== verification/CaptureAgreement.thy ===== *)
theory CaptureAgreement
  imports CaptureStream Worker SampleHttp
begin

text \<open>
  The standalone capture program and the worker process a flow of plaintext HTTP/1 alike: run on
  corresponding inputs, they keep the same streams, count the same and emit the same conversations.
  The relation holds as long as no buffer looks like the start of an HTTP/2 connection.
\<close>

section \<open>The worker that a capture configuration describes\<close>

definition asWorkerConfig :: "captureConfig \<Rightarrow> config" where
  "asWorkerConfig cfg = sampleConfig\<lparr>cfg_sessionTTL := cc_sessionTTL cfg, cfg_maxBodyBytes := cc_maxBodyBytes cfg,
     cfg_maxStreamBytes := cc_maxStreamBytes cfg, cfg_prettyOutput := False,
     cfg_outputContract := ''normalized'', cfg_agentID := cc_agentID cfg, cfg_sink := cc_sink cfg \<noteq> None\<rparr>"

text \<open>The counters that both programs have; \<open>d\<close> and \<open>k\<close> are the worker's own two.\<close>

definition asWorkerStats :: "u64 \<Rightarrow> u64 \<Rightarrow> processingStats \<Rightarrow> workerStats" where
  "asWorkerStats d k ps =
     \<lparr>ws_received = ps_received ps, ws_decoded = d, ws_droppedMalformed = ps_droppedMalformed ps,
      ws_droppedNoise = ps_droppedNoise ps, ws_outOfOrder = ps_outOfOrder ps,
      ws_routedReq = ps_routedReq ps, ws_routedResp = ps_routedResp ps, ws_routedUnknown = ps_routedUnknown ps,
      ws_requestParsed = ps_requestParsed ps, ws_responseParsed = ps_responseParsed ps,
      ws_requestParsePending = ps_requestParsePending ps, ws_responseParsePending = ps_responseParsePending ps,
      ws_droppedNoReqStart = ps_droppedNoReqStart ps, ws_droppedNoRespInit = ps_droppedNoRespInit ps,
      ws_droppedReqOverflow = ps_droppedReqOverflow ps, ws_droppedRespOverflow = ps_droppedRespOverflow ps,
      ws_parsed = ps_parsed ps, ws_closedSessions = ps_closedSessions ps, ws_kafkaErrors = k,
      ws_expiredSessions = ps_expiredSessions ps\<rparr>"

text \<open>The capture program writes somewhere: to its sink or to the test output.\<close>

definition canEmit :: "captureConfig \<Rightarrow> bool" where
  "canEmit cfg \<longleftrightarrow> cc_sink cfg \<noteq> None \<or> cc_output cfg"

lemma asWorkerConfig_fields [simp]:
  "cfg_maxBodyBytes (asWorkerConfig cfg) = cc_maxBodyBytes cfg"
  "cfg_maxStreamBytes (asWorkerConfig cfg) = cc_maxStreamBytes cfg"
  "cfg_sessionTTL (asWorkerConfig cfg) = cc_sessionTTL cfg"
  by (simp_all add: asWorkerConfig_def)

lemma asWorkerStats_fields [simp]:
  "ws_requestParsed (asWorkerStats d k ps) = ps_requestParsed ps"
  "ws_responseParsed (asWorkerStats d k ps) = ps_responseParsed ps"
  "ws_parsed (asWorkerStats d k ps) = ps_parsed ps"
  by (simp_all add: asWorkerStats_def)

lemma asWorkerStats_updates:
  "(asWorkerStats d k ps)\<lparr>ws_received := x\<rparr> = asWorkerStats d k (ps\<lparr>ps_received := x\<rparr>)"
  "(asWorkerStats d k ps)\<lparr>ws_decoded := y\<rparr> = asWorkerStats y k ps"
  "(asWorkerStats d k ps)\<lparr>ws_droppedMalformed := x\<rparr> = asWorkerStats d k (ps\<lparr>ps_droppedMalformed := x\<rparr>)"
  "(asWorkerStats d k ps)\<lparr>ws_droppedNoise := x\<rparr> = asWorkerStats d k (ps\<lparr>ps_droppedNoise := x\<rparr>)"
  "(asWorkerStats d k ps)\<lparr>ws_outOfOrder := x\<rparr> = asWorkerStats d k (ps\<lparr>ps_outOfOrder := x\<rparr>)"
  "(asWorkerStats d k ps)\<lparr>ws_routedReq := x\<rparr> = asWorkerStats d k (ps\<lparr>ps_routedReq := x\<rparr>)"
  "(asWorkerStats d k ps)\<lparr>ws_routedResp := x\<rparr> = asWorkerStats d k (ps\<lparr>ps_routedResp := x\<rparr>)"
  "(asWorkerStats d k ps)\<lparr>ws_routedUnknown := x\<rparr> = asWorkerStats d k (ps\<lparr>ps_routedUnknown := x\<rparr>)"
  "(asWorkerStats d k ps)\<lparr>ws_requestParsed := x\<rparr> = asWorkerStats d k (ps\<lparr>ps_requestParsed := x\<rparr>)"
  "(asWorkerStats d k ps)\<lparr>ws_responseParsed := x\<rparr> = asWorkerStats d k (ps\<lparr>ps_responseParsed := x\<rparr>)"
  "(asWorkerStats d k ps)\<lparr>ws_requestParsePending := x\<rparr> = asWorkerStats d k (ps\<lparr>ps_requestParsePending := x\<rparr>)"
  "(asWorkerStats d k ps)\<lparr>ws_responseParsePending := x\<rparr> = asWorkerStats d k (ps\<lparr>ps_responseParsePending := x\<rparr>)"
  "(asWorkerStats d k ps)\<lparr>ws_droppedNoReqStart := x\<rparr> = asWorkerStats d k (ps\<lparr>ps_droppedNoReqStart := x\<rparr>)"
  "(asWorkerStats d k ps)\<lparr>ws_droppedNoRespInit := x\<rparr> = asWorkerStats d k (ps\<lparr>ps_droppedNoRespInit := x\<rparr>)"
  "(asWorkerStats d k ps)\<lparr>ws_droppedReqOverflow := x\<rparr> = asWorkerStats d k (ps\<lparr>ps_droppedReqOverflow := x\<rparr>)"
  "(asWorkerStats d k ps)\<lparr>ws_droppedRespOverflow := x\<rparr> = asWorkerStats d k (ps\<lparr>ps_droppedRespOverflow := x\<rparr>)"
  "(asWorkerStats d k ps)\<lparr>ws_parsed := x\<rparr> = asWorkerStats d k (ps\<lparr>ps_parsed := x\<rparr>)"
  "(asWorkerStats d k ps)\<lparr>ws_closedSessions := x\<rparr> = asWorkerStats d k (ps\<lparr>ps_closedSessions := x\<rparr>)"
  "(asWorkerStats d k ps)\<lparr>ws_expiredSessions := x\<rparr> = asWorkerStats d k (ps\<lparr>ps_expiredSessions := x\<rparr>)"
  by (simp_all add: asWorkerStats_def)

lemma asWorkerStats_reads:
  "ws_received (asWorkerStats d k ps) = ps_received ps" "ws_decoded (asWorkerStats d k ps) = d"
  "ws_droppedMalformed (asWorkerStats d k ps) = ps_droppedMalformed ps"
  "ws_droppedNoise (asWorkerStats d k ps) = ps_droppedNoise ps"
  "ws_outOfOrder (asWorkerStats d k ps) = ps_outOfOrder ps"
  "ws_routedReq (asWorkerStats d k ps) = ps_routedReq ps" "ws_routedResp (asWorkerStats d k ps) = ps_routedResp ps"
  "ws_routedUnknown (asWorkerStats d k ps) = ps_routedUnknown ps"
  "ws_requestParsePending (asWorkerStats d k ps) = ps_requestParsePending ps"
  "ws_responseParsePending (asWorkerStats d k ps) = ps_responseParsePending ps"
  "ws_droppedNoReqStart (asWorkerStats d k ps) = ps_droppedNoReqStart ps"
  "ws_droppedNoRespInit (asWorkerStats d k ps) = ps_droppedNoRespInit ps"
  "ws_droppedReqOverflow (asWorkerStats d k ps) = ps_droppedReqOverflow ps"
  "ws_droppedRespOverflow (asWorkerStats d k ps) = ps_droppedRespOverflow ps"
  "ws_closedSessions (asWorkerStats d k ps) = ps_closedSessions ps"
  "ws_expiredSessions (asWorkerStats d k ps) = ps_expiredSessions ps"
  by (simp_all add: asWorkerStats_def)

lemmas worker_stats = asWorkerStats_updates asWorkerStats_reads

lemma asWorkerStats_emitErrors [simp]:
  "asWorkerStats d k (countEmitError err ps) = asWorkerStats d k ps"
  by (simp add: countEmitError_def asWorkerStats_def)

lemma asWorkerStats_parsed:
  "countParsed n (asWorkerStats d k ps) = asWorkerStats d k (cap_countParsed n ps)"
  by (simp add: countParsed_def cap_countParsed_def worker_stats)

lemma asWorkerStats_when:
  "(if b then asWorkerStats d k ps else asWorkerStats d k qs) = asWorkerStats d k (if b then ps else qs)"
  by simp

section \<open>Emitting and draining\<close>

lemma emit_agrees:
  assumes "canEmit cfg"
  shows "snd (cap_emitConversation rt cfg pr resp body w) = emitConversation rt (asWorkerConfig cfg) pr resp body w"
proof -
  obtain oid w1 where o: "newOID w = (oid, w1)" by force
  have n: "captureConversation rt cfg oid pr resp body = normalizedConversation rt (asWorkerConfig cfg) oid pr resp body"
    by (simp add: captureConversation_eq normalizedConversation_def conversationHost_def conversationPath_def
        asWorkerConfig_def Let_def)
  show ?thesis
    using assms o n
    by (auto simp: cap_emitConversation_eq emitConversation_def emitNormalized_def canEmit_def contractPayload_def
        printedLines_def asWorkerConfig_def sampleConfig_def Let_def split: option.splits)
qed

lemma drainRequests_agrees:
  "drainRequests rt (asWorkerConfig cfg) w (asWorkerStats d k ps) st =
     (let (w1, ps1, st1) = cap_drainRequests rt cfg w ps st in (w1, asWorkerStats d k ps1, st1))"
proof (induction rt cfg w ps st rule: cap_drainRequests_induct)
  case (1 rt cfg w ps st)
  obtain data trimmed where sync: "syncRequestBuffer (st_ReqData st) = (data, trimmed)" by force
  show ?case
  proof (cases "parseOneRequest rt data (cc_maxBodyBytes cfg)")
    case None
    with sync show ?thesis
      by (simp add: drainRequests.simps [of _ _ _ _ st] cap_drainRequests_eq [of _ _ _ _ st] worker_stats)
  next
    case (Some r)
    obtain req body n where r: "r = (req, body, n)" by (cases r) auto
    obtain now w1 where t: "timeNow w = (now, w1)" by force
    note IH = 1 [OF refl sync [symmetric] refl Some [unfolded r] refl refl refl t [symmetric]]
    show ?thesis using IH sync Some r t
      by (cases "0 < trimmed")
        (simp_all add: drainRequests.simps [of _ _ w _ st] cap_drainRequests_eq [of _ _ w _ st] worker_stats)
  qed
qed

lemma drainResponses_agrees:
  assumes "canEmit cfg"
  shows "drainResponses rt (asWorkerConfig cfg) close w (asWorkerStats d k ps) st =
     (let (w1, ps1, st1, n) = cap_drainResponses rt cfg close w ps st in (w1, asWorkerStats d k ps1, st1, n))"
  using assms
proof (induction "st_PendingReqs st" arbitrary: st w ps)
  case Nil
  from Nil(1) [symmetric] show ?case
    by (simp add: drainResponses.simps [of _ _ _ _ _ st] cap_drainResponses_eq [of _ _ _ _ _ st])
next
  case (Cons p pending)
  note pend = Cons(2) [symmetric]
  obtain data trimmed where sync: "syncResponseBuffer (st_RespData st) = (data, trimmed)" by force
  show ?case
  proof (cases "parseOneResponse rt data (pr_req p) (cc_maxBodyBytes cfg) close")
    case None
    with sync pend show ?thesis
      by (simp add: drainResponses.simps [of _ _ _ _ _ st] cap_drainResponses_eq [of _ _ _ _ _ st] worker_stats)
  next
    case (Some r)
    obtain resp body n where r: "r = (resp, body, n)" by (cases r) auto
    let ?p = "p\<lparr>pr_loss := mergeLossMetadata (pr_loss p) (st_Loss st)\<rparr>"
    obtain err w1 where e: "cap_emitConversation rt cfg ?p resp body w = (err, w1)" by force
    then have "emitConversation rt (asWorkerConfig cfg) ?p resp body w = w1"
      using emit_agrees [OF assms, of rt ?p resp body w] by simp
    moreover have "drainResponses rt (asWorkerConfig cfg) close w1 (asWorkerStats d k qs) (st\<lparr>st_PendingReqs := pending, st_RespData := drop n data\<rparr>) =
        (let (w2, ps2, st2, m) = cap_drainResponses rt cfg close w1 (countEmitError err qs)
           (st\<lparr>st_PendingReqs := pending, st_RespData := drop n data\<rparr>) in (w2, asWorkerStats d k ps2, st2, m))" for qs
      using Cons(1) [of "st\<lparr>st_PendingReqs := pending, st_RespData := drop n data\<rparr>" w1 "countEmitError err qs"] Cons(3) by simp
    ultimately show ?thesis using sync Some r pend e
      by (simp add: drainResponses.simps [of _ _ _ w _ st] cap_drainResponses_eq [of _ _ _ w _ st] worker_stats
          Let_def case_prod_beta)
  qed
qed

lemma drain_agrees:
  assumes "canEmit cfg"
  shows "drainParsedConversations rt (asWorkerConfig cfg) close w (asWorkerStats d k ps) st =
     (let (w1, ps1, st1, n) = cap_drainParsedConversations rt cfg close w ps st in (w1, asWorkerStats d k ps1, st1, n))"
  by (simp add: drainParsedConversations_def cap_drainParsedConversations_def drainRequests_agrees
      drainResponses_agrees [OF assms] Let_def case_prod_beta)

section \<open>Events\<close>

lemma merge_stream [simp]:
  "st_ReqData (mergeStreamMetadata event st) = st_ReqData st"
  "st_RespData (mergeStreamMetadata event st) = st_RespData st"
  "st_PendingReqs (mergeStreamMetadata event st) = st_PendingReqs st"
  by (simp_all add: mergeStreamMetadata_def)

lemma track_stream [simp]:
  "st_ReqData (trackLoss event st) = st_ReqData st" "st_RespData (trackLoss event st) = st_RespData st"
  "st_PendingReqs (trackLoss event st) = st_PendingReqs st"
  by (simp_all add: trackLoss_def Let_def)

lemma candidate_prefix: "has_prefix data h2Preface \<Longrightarrow> isH2PrefaceCandidate data"
  by (auto simp: isH2PrefaceCandidate_def has_prefix_conv h2Preface_def)

text \<open>The buffers once a payload is appended.\<close>

definition appendedReq :: "ApiEvent \<Rightarrow> StreamState \<Rightarrow> bytes" where
  "appendedReq event st =
     st_ReqData st @ (if routeAsRequest event (eventPayload event) then eventPayload event else [])"

definition appendedResp :: "ApiEvent \<Rightarrow> StreamState \<Rightarrow> bytes" where
  "appendedResp event st =
     st_RespData st @ (if routeAsRequest event (eventPayload event) then [] else eventPayload event)"

lemma append_agrees:
  "appendPayload (asWorkerConfig cfg) r payload st (asWorkerStats d k ps) =
     (case cap_appendPayload cfg r payload st ps of
        Inl (st1, ps1) \<Rightarrow> Inl (st1, asWorkerStats d k ps1)
      | Inr (st1, ps1) \<Rightarrow> Inr (st1, asWorkerStats d k ps1))"
  by (simp add: appendPayload_def cap_appendPayload_def worker_stats Let_def)

lemma cap_append_buffers:
  assumes "cap_appendPayload cfg (routeAsRequest event (eventPayload event)) (eventPayload event) st ps = Inr (st1, ps1)"
  shows "st_ReqData st1 = appendedReq event st" "st_RespData st1 = appendedResp event st"
  using assms by (auto simp: cap_appendPayload_def appendedReq_def appendedResp_def Let_def split: if_splits)

lemma appended_same [simp]:
  "appendedReq event (trackLoss event st) = appendedReq event st"
  "appendedReq event (mergeStreamMetadata event st) = appendedReq event st"
  "appendedReq event (st\<lparr>st_LastActive := t\<rparr>) = appendedReq event st"
  "appendedResp event (trackLoss event st) = appendedResp event st"
  "appendedResp event (mergeStreamMetadata event st) = appendedResp event st"
  "appendedResp event (st\<lparr>st_LastActive := t\<rparr>) = appendedResp event st"
  by (simp_all add: appendedReq_def appendedResp_def)

lemma appended_fresh [simp]:
  "appendedReq event (freshState t) = (if routeAsRequest event (eventPayload event) then eventPayload event else [])"
  "appendedResp event (freshState t) = (if routeAsRequest event (eventPayload event) then [] else eventPayload event)"
  by (simp_all add: appendedReq_def appendedResp_def freshState_def)

lemma drainStream_plain:
  "\<not> cs_H2 cs \<Longrightarrow> \<not> isH2PrefaceCandidate (st_ReqData (cs_stream cs)) \<Longrightarrow>
     drainStream lib rt cfg close w ps cs =
       (let (w1, ps1, st1, n) = cap_drainParsedConversations rt cfg close w ps (cs_stream cs)
        in (w1, ps1, cs\<lparr>cs_stream := st1\<rparr>, n))"
  by (simp add: drainStream_def)

text \<open>The bookkeeping before a payload is appended: the stream with the event's metadata, and the
  counters with a gap and an unknown payload counted.\<close>

definition arrived :: "ApiEvent \<Rightarrow> time \<Rightarrow> StreamState \<Rightarrow> StreamState" where
  "arrived event now st = mergeStreamMetadata event (st\<lparr>st_LastActive := now\<rparr>)"

definition countArrival :: "ApiEvent \<Rightarrow> StreamState \<Rightarrow> processingStats \<Rightarrow> processingStats" where
  "countArrival event st ps =
     (let ps1 = (if sequenceGap st event then ps\<lparr>ps_outOfOrder := ps_outOfOrder ps + 1\<rparr> else ps)
      in if classifyPayload (eventPayload event) = payloadUnknown
         then ps1\<lparr>ps_routedUnknown := ps_routedUnknown ps1 + 1\<rparr> else ps1)"

lemma arrived_appended [simp]:
  "appendedReq event (arrived event now st) = appendedReq event st"
  "appendedResp event (arrived event now st) = appendedResp event st"
  by (simp_all add: arrived_def)

text \<open>A payload of the kind that the flow takes: no switch to plaintext, no ciphertext to ignore.\<close>

lemma cap_processPayload_same:
  assumes "cs_Ssl cs = isSSL event" "timeNow w = (now, w1)"
  shows "cap_processPayload lib rt cfg event (eventPayload event) w ps cs =
     (case cap_appendPayload cfg (routeAsRequest event (eventPayload event)) (eventPayload event)
          (trackLoss event (arrived event now (cs_stream cs))) (countArrival event (arrived event now (cs_stream cs)) ps) of
        Inl (st, ps1) \<Rightarrow> (w1, ps1, cs\<lparr>cs_stream := st\<rparr>)
      | Inr (st, ps1) \<Rightarrow>
          (let (w2, ps2, cs1, n) = drainStream lib rt cfg False w1 ps1 (detectH2 (cs\<lparr>cs_stream := st\<rparr>))
           in (w2, cap_countParsed n ps2, cs1)))"
proof -
  have "tlsSwitch (isSSL event) (cs\<lparr>cs_stream := arrived event now (cs_stream cs)\<rparr>) =
      cs\<lparr>cs_stream := arrived event now (cs_stream cs)\<rparr>" using assms(1) by (simp add: tlsSwitch_def)
  with assms(1) show ?thesis
    unfolding cap_processPayload_eq countArrival_def Let_def arrived_def [symmetric] assms(2) prod.case
    by (simp split: sum.splits)
qed

lemma processPayload_same:
  assumes "timeNow w = (now, w1)"
  shows "processPayload rt (asWorkerConfig cfg) event (eventPayload event) w (asWorkerStats d k ps) st =
     (case cap_appendPayload cfg (routeAsRequest event (eventPayload event)) (eventPayload event)
          (trackLoss event (arrived event now st)) (countArrival event (arrived event now st) ps) of
        Inl (st1, ps1) \<Rightarrow> (w1, asWorkerStats d k ps1, st1)
      | Inr (st1, ps1) \<Rightarrow>
          (let (w2, ws2, st2, n) = drainParsedConversations rt (asWorkerConfig cfg) False w1 (asWorkerStats d k ps1) st1
           in (w2, countParsed n ws2, st2)))"
proof -
  have "(if classifyPayload (eventPayload event) = payloadUnknown
      then (if sequenceGap (arrived event now st) event then (asWorkerStats d k ps)\<lparr>ws_outOfOrder := ws_outOfOrder (asWorkerStats d k ps) + 1\<rparr> else asWorkerStats d k ps)
        \<lparr>ws_routedUnknown := ws_routedUnknown (if sequenceGap (arrived event now st) event then (asWorkerStats d k ps)\<lparr>ws_outOfOrder := ws_outOfOrder (asWorkerStats d k ps) + 1\<rparr> else asWorkerStats d k ps) + 1\<rparr>
      else (if sequenceGap (arrived event now st) event then (asWorkerStats d k ps)\<lparr>ws_outOfOrder := ws_outOfOrder (asWorkerStats d k ps) + 1\<rparr> else asWorkerStats d k ps))
     = asWorkerStats d k (countArrival event (arrived event now st) ps)"
    by (simp add: countArrival_def worker_stats)
  then show ?thesis
    by (simp only: processPayload_def assms Let_def prod.case arrived_def [symmetric])
      (simp add: append_agrees split: sum.splits)
qed

lemma processPayload_agrees:
  assumes "canEmit cfg" "\<not> cs_Ssl cs" "\<not> cs_H2 cs" "\<not> isSSL event"
    and "\<not> isH2PrefaceCandidate (appendedReq event (cs_stream cs))"
    and "\<not> has_prefix (appendedResp event (cs_stream cs)) h2Preface"
    and "cap_processPayload lib rt cfg event (eventPayload event) w ps cs = (w1, ps1, cs1)"
  shows "processPayload rt (asWorkerConfig cfg) event (eventPayload event) w (asWorkerStats d k ps) (cs_stream cs) =
      (w1, asWorkerStats d k ps1, cs_stream cs1) \<and> \<not> cs_Ssl cs1 \<and> \<not> cs_H2 cs1"
proof -
  obtain now w2 where t: "timeNow w = (now, w2)" by force
  have ssl: "cs_Ssl cs = isSSL event" using assms(2,4) by simp
  note run = assms(7) [unfolded cap_processPayload_same [OF ssl t]] processPayload_same [OF t, of rt cfg event d k ps "cs_stream cs"]
  let ?st = "arrived event now (cs_stream cs)"
  show ?thesis
  proof (cases "cap_appendPayload cfg (routeAsRequest event (eventPayload event)) (eventPayload event)
      (trackLoss event ?st) (countArrival event ?st ps)")
    case (Inl sp)
    then show ?thesis using run assms(2,3) by (cases sp) auto
  next
    case (Inr sp)
    obtain st4 ps3 where sp: "sp = (st4, ps3)" by force
    have b4: "st_ReqData st4 = appendedReq event (cs_stream cs)" "st_RespData st4 = appendedResp event (cs_stream cs)"
      using cap_append_buffers [of cfg event "trackLoss event ?st" _ st4 ps3] Inr sp by simp_all
    have det: "detectH2 (cs\<lparr>cs_stream := st4\<rparr>) = cs\<lparr>cs_stream := st4\<rparr>"
      using b4 assms(5,6) candidate_prefix by (auto simp: detectH2_def)
    obtain w4 ps4 st5 n where dr: "cap_drainParsedConversations rt cfg False w2 ps3 st4 = (w4, ps4, st5, n)"
      using prod_cases4 by blast
    have "drainStream lib rt cfg False w2 ps3 (cs\<lparr>cs_stream := st4\<rparr>) = (w4, ps4, cs\<lparr>cs_stream := st5\<rparr>, n)"
      using drainStream_plain [of "cs\<lparr>cs_stream := st4\<rparr>" lib rt cfg False w2 ps3] b4 assms(3,5) dr by simp
    then show ?thesis using run assms(2,3) Inr sp det drain_agrees [OF assms(1)] dr
      by (auto simp: asWorkerStats_parsed)
  qed
qed

section \<open>Runs\<close>

text \<open>The two programs agree: same clock, randomness and output, same counters, and the same stream
  under every key, none of them TLS or HTTP/2.\<close>

definition sameFlows :: "captureStore \<Rightarrow> sessionStore \<Rightarrow> bool" where
  "sameFlows cst wst \<longleftrightarrow> (\<forall>key. get_session key wst = map_option cs_stream (cap_get key cst)) \<and>
     (\<forall>key cs. cap_get key cst = Some cs \<longrightarrow> \<not> cs_Ssl cs \<and> \<not> cs_H2 cs)"

definition agrees :: "captureProc \<Rightarrow> worker \<Rightarrow> bool" where
  "agrees cp wk \<longleftrightarrow> wk_world wk = cp_world cp \<and> (\<exists>d k. wk_stats wk = asWorkerStats d k (cp_stats cp)) \<and>
     sameFlows (cp_store cp) (wk_store wk)"

text \<open>An event on the channel corresponds to the Kafka message that decodes to it.\<close>

fun corresponds :: "(bytes \<Rightarrow> ApiEvent option) \<Rightarrow> captureInput \<Rightarrow> workerInput \<Rightarrow> bool" where
  "corresponds decode (ChannelEvent event) (KafkaMessage v) = (decode v = Some event)"
| "corresponds decode (SweepTick keys) (CleanupTick keys') = (keys = keys')"
| "corresponds decode _ _ = False"

text \<open>No buffer that the input drains looks like the start of an HTTP/2 connection, and the event is
  not one of a TLS probe.\<close>

definition unresolved :: "bytes \<Rightarrow> captureProc \<Rightarrow> bool" where
  "unresolved key cp \<longleftrightarrow> (case cap_get key (cp_store cp) of None \<Rightarrow> False
     | Some cs \<Rightarrow> isH2PrefaceCandidate (st_ReqData (cs_stream cs)))"

definition plainEvent :: "ApiEvent \<Rightarrow> captureProc \<Rightarrow> bool" where
  "plainEvent event cp \<longleftrightarrow>
     (let st = (case cap_get (sessionKey event) (cp_store cp) of Some cs \<Rightarrow> cs_stream cs | None \<Rightarrow> freshState 0) in
      if ev_EventType event = eventTypeClose then \<not> unresolved (sessionKey event) cp
      else \<not> isSSL event \<and> \<not> isH2PrefaceCandidate (appendedReq event st) \<and>
           \<not> has_prefix (appendedResp event st) h2Preface)"

fun plainInput :: "captureInput \<Rightarrow> captureProc \<Rightarrow> bool" where
  "plainInput (ChannelEvent event) cp = plainEvent event cp"
| "plainInput (SweepTick keys) cp = (\<forall>key \<in> set keys. \<not> unresolved key cp)"

lemma sameFlows_store:
  "sameFlows cst wst \<Longrightarrow> \<not> cs_Ssl cs \<Longrightarrow> \<not> cs_H2 cs \<Longrightarrow>
     sameFlows (cap_storeState key cs cst) (storeState key (cs_stream cs) wst)"
  by (auto simp: sameFlows_def)

lemma sameFlows_remove: "sameFlows cst wst \<Longrightarrow> sameFlows (cap_remove key cst) (remove_session key wst)"
  by (auto simp: sameFlows_def)

lemma getOrCreate_agrees:
  assumes "sameFlows cst wst" "cap_getOrCreate key w cst = (cs, w1, cst1)"
  shows "\<exists>wst1. getOrCreate key w wst = (cs_stream cs, w1, wst1) \<and> sameFlows cst1 wst1 \<and> \<not> cs_Ssl cs \<and> \<not> cs_H2 cs \<and>
    (cap_get key cst = Some cs \<or> (\<exists>t. cap_get key cst = None \<and> cs_stream cs = freshState t))"
proof (cases "css_sessions cst key")
  case None
  then have "ss_sessions wst key = None" using assms(1) by (auto simp: sameFlows_def get_session_def cap_get_def)
  moreover have "sameFlows (cst\<lparr>css_sessions := (css_sessions cst)(key \<mapsto> freshCapture t)\<rparr>)
      (wst\<lparr>ss_sessions := (ss_sessions wst)(key \<mapsto> freshState t)\<rparr>)" for t
    using sameFlows_store [OF assms(1), of "freshCapture t" key]
    by (simp add: cap_storeState_def storeState_def freshCapture_def)
  ultimately show ?thesis using None assms(2)
    by (auto simp: cap_getOrCreate_def getOrCreate_def freshCapture_def cap_get_def Let_def split: prod.splits)
next
  case (Some cs0)
  with assms show ?thesis
    by (auto simp: sameFlows_def get_session_def cap_get_def cap_getOrCreate_def getOrCreate_def)
qed

lemma close_agrees:
  assumes "canEmit cfg" "agrees cp wk" "\<not> unresolved (sessionKey event) cp"
  shows "agrees (cap_handleCloseEvent lib rt cfg event cp) (handleCloseEvent rt (asWorkerConfig cfg) event wk)"
proof -
  let ?k = "sessionKey event"
  obtain d k where st: "wk_stats wk = asWorkerStats d k (cp_stats cp)" and w: "wk_world wk = cp_world cp"
    and fl: "sameFlows (cp_store cp) (wk_store wk)" using assms(2) by (auto simp: agrees_def)
  show ?thesis
  proof (cases "cap_get ?k (cp_store cp)")
    case None
    then have "get_session ?k (wk_store wk) = None" using fl by (simp add: sameFlows_def)
    with None assms(2) show ?thesis by (simp add: cap_handleCloseEvent_eq handleCloseEvent_def)
  next
    case (Some cs)
    then have cs: "\<not> cs_Ssl cs" "\<not> cs_H2 cs" "get_session ?k (wk_store wk) = Some (cs_stream cs)"
      using fl by (auto simp: sameFlows_def)
    obtain w1 ps1 st1 n where dr: "cap_drainParsedConversations rt cfg True (cp_world cp) (cp_stats cp) (cs_stream cs) = (w1, ps1, st1, n)"
      using prod_cases4 by blast
    have "drainStream lib rt cfg True (cp_world cp) (cp_stats cp) cs = (w1, ps1, cs\<lparr>cs_stream := st1\<rparr>, n)"
      using drainStream_plain [OF cs(2)] assms(3) Some dr by (simp add: unresolved_def)
    moreover have "drainParsedConversations rt (asWorkerConfig cfg) True (cp_world cp) (asWorkerStats d k (cp_stats cp)) (cs_stream cs) =
        (w1, asWorkerStats d k ps1, st1, n)" by (simp add: drain_agrees [OF assms(1)] dr)
    moreover have "sameFlows (cap_remove ?k (cap_storeState ?k (cs\<lparr>cs_stream := st1\<rparr>) (cp_store cp)))
        (remove_session ?k (storeState ?k st1 (wk_store wk)))"
      using sameFlows_remove [OF sameFlows_store [OF fl, of "cs\<lparr>cs_stream := st1\<rparr>" ?k]] cs by simp
    ultimately show ?thesis using Some cs(3) st w
      by (auto simp: agrees_def cap_handleCloseEvent_eq handleCloseEvent_def Let_def asWorkerStats_parsed worker_stats)
  qed
qed

lemma processEvent_agrees:
  assumes "canEmit cfg" "agrees cp wk" "plainEvent event cp"
  shows "agrees (cap_processEvent lib rt cfg event cp) (processEvent rt (asWorkerConfig cfg) event wk)"
proof (cases "carriesPayload event")
  case True
  let ?k = "sessionKey event"
  obtain d k where st: "wk_stats wk = asWorkerStats d k (cp_stats cp)" and w: "wk_world wk = cp_world cp"
    and fl: "sameFlows (cp_store cp) (wk_store wk)" using assms(2) by (auto simp: agrees_def)
  obtain cs w1 cst1 where g: "cap_getOrCreate ?k (cp_world cp) (cp_store cp) = (cs, w1, cst1)" using prod_cases3 by blast
  obtain wst1 where g': "getOrCreate ?k (cp_world cp) (wk_store wk) = (cs_stream cs, w1, wst1)" "sameFlows cst1 wst1"
    "\<not> cs_Ssl cs" "\<not> cs_H2 cs"
    and old: "cap_get ?k (cp_store cp) = Some cs \<or> (\<exists>t. cap_get ?k (cp_store cp) = None \<and> cs_stream cs = freshState t)"
    using getOrCreate_agrees [OF fl g] by blast
  have type: "ev_EventType event = eventTypeData" "ev_EventType event \<noteq> eventTypeClose"
    using True by (simp_all add: carriesPayload_def)
  have plain: "\<not> isSSL event" "\<not> isH2PrefaceCandidate (appendedReq event (cs_stream cs))"
    "\<not> has_prefix (appendedResp event (cs_stream cs)) h2Preface"
    using assms(3) old type by (auto simp: plainEvent_def Let_def)
  obtain w2 ps2 cs2 where p: "cap_processPayload lib rt cfg event (eventPayload event) w1 (cp_stats cp) cs = (w2, ps2, cs2)"
    using prod_cases3 by blast
  note pp = processPayload_agrees [OF assms(1) g'(3,4) plain p, of d k]
  have "sameFlows (cap_storeState ?k cs2 cst1) (storeState ?k (cs_stream cs2) wst1)"
    using sameFlows_store [OF g'(2)] pp by blast
  moreover have "cap_processEvent lib rt cfg event cp =
      cp\<lparr>cp_store := cap_storeState ?k cs2 cst1, cp_stats := ps2, cp_world := w2\<rparr>"
    using True g p type(2) by (simp add: cap_processEvent_eq carriesPayload_def Let_def)
  moreover have "processEvent rt (asWorkerConfig cfg) event wk =
      wk\<lparr>wk_store := storeState ?k (cs_stream cs2) wst1, wk_stats := asWorkerStats d k ps2, wk_world := w2\<rparr>"
    using True g'(1) pp type(2) st w by (simp add: processEvent_def carriesPayload_def Let_def)
  ultimately show ?thesis by (auto simp: agrees_def)
next
  case False
  obtain d k where st: "wk_stats wk = asWorkerStats d k (cp_stats cp)" and w: "wk_world wk = cp_world cp"
    and fl: "sameFlows (cp_store cp) (wk_store wk)" using assms(2) by (auto simp: agrees_def)
  have dropped: "agrees (cp\<lparr>cp_stats := ps\<rparr>) (wk\<lparr>wk_stats := asWorkerStats d k ps\<rparr>)" for ps
    using w fl by (auto simp: agrees_def)
  consider "ev_EventType event = eventTypeClose" | "ev_EventType event \<noteq> eventTypeClose" "ev_EventType event \<noteq> eventTypeData"
    | "ev_EventType event = eventTypeData" by blast
  then show ?thesis
  proof cases
    case 1
    then show ?thesis using close_agrees [OF assms(1,2)] assms(3)
      by (simp add: cap_processEvent_eq processEvent_def plainEvent_def)
  next
    case 2
    then show ?thesis using dropped by (simp add: cap_processEvent_eq processEvent_def st worker_stats)
  next
    case 3
    with False show ?thesis using dropped
      by (auto simp: cap_processEvent_eq processEvent_def carriesPayload_def st worker_stats Let_def)
  qed
qed

lemma plainEvent_stats [simp]: "plainEvent event (cp\<lparr>cp_stats := ps\<rparr>) = plainEvent event cp"
  by (simp add: plainEvent_def unresolved_def)

lemma sweep_agrees:
  assumes "sameFlows cst wst" "cap_sweep keys cutoff cst = (css, cst1)"
  shows "\<exists>wst1. sweepExpired keys cutoff wst = (map cs_stream css, wst1) \<and> sameFlows cst1 wst1 \<and>
    (\<forall>cs \<in> set css. \<exists>key \<in> set keys. cap_get key cst = Some cs)"
  using assms
proof (induction keys arbitrary: cst wst css cst1)
  case (Cons key keys)
  have same: "ss_sessions wst key = map_option cs_stream (css_sessions cst key)"
    using Cons.prems(1) by (simp add: sameFlows_def get_session_def cap_get_def)
  show ?case
  proof (cases "\<exists>cs. css_sessions cst key = Some cs \<and> st_LastActive (cs_stream cs) < cutoff")
    case True
    then obtain cs where cs: "css_sessions cst key = Some cs" "st_LastActive (cs_stream cs) < cutoff" by blast
    obtain css2 cst2 where r: "cap_sweep keys cutoff (cap_remove key cst) = (css2, cst2)" by force
    from Cons.IH [OF sameFlows_remove [OF Cons.prems(1)] r] obtain wst2 where
      ih: "sweepExpired keys cutoff (remove_session key wst) = (map cs_stream css2, wst2)" "sameFlows cst2 wst2"
      and from_keys: "\<forall>cs \<in> set css2. \<exists>k \<in> set keys. cap_get k (cap_remove key cst) = Some cs" by blast
    have "css = cs # css2" "cst1 = cst2" using Cons.prems(2) cs r by simp_all
    moreover have "\<forall>cs \<in> set css2. \<exists>k \<in> set keys. cap_get k cst = Some cs"
      using from_keys by (fastforce split: if_splits)
    ultimately show ?thesis using cs same ih by (auto simp: cap_get_def)
  next
    case False
    then have "cap_sweep keys cutoff cst = (css, cst1)" using Cons.prems(2) by (auto split: option.splits)
    from Cons.IH [OF Cons.prems(1) this] False same show ?thesis by (auto split: option.splits)
  qed
qed simp

lemma expire_agrees:
  assumes "canEmit cfg" "\<forall>cs \<in> set css. \<not> cs_H2 cs \<and> \<not> isH2PrefaceCandidate (st_ReqData (cs_stream cs))"
    and "cap_expireAll (cap_flush lib rt cfg) css (w, ps) = (n, (w1, ps1))"
  shows "expireAll (flushState rt (asWorkerConfig cfg)) (map cs_stream css) (w, asWorkerStats d k ps) =
    (n, (w1, asWorkerStats d k ps1))"
  using assms(2,3)
proof (induction css arbitrary: w ps n)
  case (Cons cs css)
  obtain w2 ps2 st2 m where dr: "cap_drainParsedConversations rt cfg True w ps (cs_stream cs) = (w2, ps2, st2, m)"
    using prod_cases4 by blast
  then have f: "cap_flush lib rt cfg cs (w, ps) = (m, (w2, ps2))"
    using drainStream_plain [of cs] Cons.prems(1) by (simp add: cap_flush_def)
  have f': "flushState rt (asWorkerConfig cfg) (cs_stream cs) (w, asWorkerStats d k ps) = (m, (w2, asWorkerStats d k ps2))"
    by (simp add: flushState_def drain_agrees [OF assms(1)] dr)
  obtain n2 where e: "cap_expireAll (cap_flush lib rt cfg) css (w2, ps2) = (n2, (w1, ps1))" "n = m + n2"
    using Cons.prems(2) f by (auto split: prod.splits)
  from Cons.IH [OF _ e(1)] Cons.prems(1) f' e(2) show ?case by simp
qed simp

lemma sweepTick_agrees:
  assumes "canEmit cfg" "agrees cp wk" "\<forall>key \<in> set keys. \<not> unresolved key cp"
  shows "agrees (cap_cleanupTick lib rt cfg keys cp) (cleanupTick rt (asWorkerConfig cfg) keys wk)"
proof -
  obtain d k where st: "wk_stats wk = asWorkerStats d k (cp_stats cp)" and w: "wk_world wk = cp_world cp"
    and fl: "sameFlows (cp_store cp) (wk_store wk)" using assms(2) by (auto simp: agrees_def)
  obtain now w1 where t: "timeNow (cp_world cp) = (now, w1)" by force
  obtain css cst1 where sw: "cap_sweep keys (now - cc_sessionTTL cfg) (cp_store cp) = (css, cst1)" by force
  obtain wst1 where sw': "sweepExpired keys (now - cc_sessionTTL cfg) (wk_store wk) = (map cs_stream css, wst1)"
    "sameFlows cst1 wst1" "\<forall>cs \<in> set css. \<exists>key \<in> set keys. cap_get key (cp_store cp) = Some cs"
    using sweep_agrees [OF fl sw] by blast
  have "\<forall>cs \<in> set css. \<not> cs_H2 cs \<and> \<not> isH2PrefaceCandidate (st_ReqData (cs_stream cs))"
    using sw'(3) fl assms(3) by (fastforce simp: sameFlows_def unresolved_def)
  moreover obtain n w2 ps2 where e: "cap_expireAll (cap_flush lib rt cfg) css (w1, cp_stats cp) = (n, (w2, ps2))"
    using prod_cases3 by blast
  ultimately have e': "expireAll (flushState rt (asWorkerConfig cfg)) (map cs_stream css) (w1, asWorkerStats d k (cp_stats cp)) =
      (n, (w2, asWorkerStats d k ps2))" by (rule expire_agrees [OF assms(1)])
  show ?thesis using sw'(1,2) st w
    by (auto simp: agrees_def cap_cleanupTick_def cleanupTick_def t sw e e' cap_cleanupExpired_def cleanupExpired_def
        worker_stats asWorkerStats_parsed Let_def)
qed

interpretation agreement: step_simulation "captureStep lib rt cfg" "workerStep decode rt (asWorkerConfig cfg)"
    agrees "corresponds decode" "\<lambda>i cp. canEmit cfg \<and> plainInput i cp"
  for lib rt cfg decode
proof
  fix cp wk i j
  assume rel: "agrees cp wk" and c: "corresponds decode i j" and g: "canEmit cfg \<and> plainInput i cp"
  show "agrees (captureStep lib rt cfg i cp) (workerStep decode rt (asWorkerConfig cfg) j wk)"
  proof (cases "(decode, i, j)" rule: corresponds.cases)
    case (1 decode' event v)
    let ?cp = "cp\<lparr>cp_stats := (cp_stats cp)\<lparr>ps_received := ps_received (cp_stats cp) + 1\<rparr>\<rparr>"
    let ?ws = "(wk_stats wk)\<lparr>ws_received := ws_received (wk_stats wk) + 1\<rparr>"
    have "agrees ?cp (wk\<lparr>wk_stats := ?ws\<lparr>ws_decoded := ws_decoded ?ws + 1\<rparr>\<rparr>)"
      using rel by (auto simp: agrees_def worker_stats) blast
    moreover have "plainEvent event ?cp" using g 1 by simp
    ultimately show ?thesis using processEvent_agrees g c 1 by (simp add: handleChannelEvent_def handleMessage_def Let_def)
  next
    case (2 decode' keys keys')
    then show ?thesis using sweepTick_agrees rel g c by simp
  qed (use c in simp_all)
qed

lemma agrees_initial: "agrees (initialCapture cfg w) (initialWorker (asWorkerConfig cfg) w)"
  by (auto simp: agrees_def sameFlows_def initialCapture_def initialWorker_def cap_newSessionStore_def
      newSessionStore_def cap_get_def get_session_def zeroProcessing_def zeroStats_def asWorkerStats_def)

end
