(* ===== verification/CaptureFlows.thy ===== *)
theory CaptureFlows
  imports CaptureAgreement WorkerRuns
begin

text \<open>
  What holds of the flows of the standalone capture program: it agrees with the worker on plaintext
  HTTP/1, plaintext replaces ciphertext, every HTTP/2 stream is emitted once, and where the HTTP/2
  support loses conversations.
\<close>

section \<open>Examples\<close>

text \<open>
  A frame reader for the examples: a frame is a type letter, a stream number, a length, an end mark
  and that many bytes; a header block is one field, its name before an equals sign.
\<close>

function sampleFrames :: "bytes \<Rightarrow> h2Frame list" where
  "sampleFrames (t # i # n # z # s) =
     (let len = byte_of n; data = take len s; sid = of_nat (byte_of i); ended = (z = CHR ''E'') in
      if length s < len then []
      else (if t = CHR ''H'' then HeadersFrame sid data ended
            else if t = CHR ''D'' then DataFrame sid data ended else OtherFrame sid)
           # sampleFrames (drop len s))"
| "sampleFrames [] = []"
| "sampleFrames [a] = []"
| "sampleFrames [a, b] = []"
| "sampleFrames [a, b, c] = []"
  by pat_completeness auto
termination
  by (relation "measure length") auto

definition sampleDecodeFull :: "bytes list \<Rightarrow> bytes \<Rightarrow> (bytes \<times> bytes) list option" where
  "sampleDecodeFull seen fragment =
     (case split_on CHR ''='' fragment of [name, value] \<Rightarrow> Some [(name, value)] | _ \<Rightarrow> None)"

definition sampleH2 :: h2lib where
  "sampleH2 = \<lparr>h2_readFrames = sampleFrames, h2_decodeFull = sampleDecodeFull, h2_order = (\<lambda>n ids. rev ids)\<rparr>"

definition sampleCapture :: captureConfig where
  "sampleCapture = \<lparr>cc_ingestURL = ''http://b/ingest'', cc_accountToken = ''token'', cc_agentID = [],
     cc_sessionTTL = 60, cc_statsInterval = 10, cc_maxBodyBytes = 100, cc_maxStreamBytes = 64,
     cc_httpTimeout = 10, cc_httpMaxRetries = 3, cc_httpRetryDelay = 1, cc_deadLetterFile = [],
     cc_debugPayload = False, cc_output = False, cc_sink = Some (\<lambda>sent payload. None)\<rparr>"

definition sampleFrame :: "char \<Rightarrow> char \<Rightarrow> char \<Rightarrow> bytes \<Rightarrow> bytes" where
  "sampleFrame t i z data = t # i # char_of (length data) # z # data"

section \<open>Agreement with the worker\<close>


definition sampleInputs :: "captureInput list" where
  "sampleInputs = map (\<lambda>v. ChannelEvent (the (sampleDecode v))) [''request'', ''other'', ''response'', ''close'']"

definition sampleMessages :: "workerInput list" where
  "sampleMessages = map KafkaMessage [''request'', ''other'', ''response'', ''close'']"


section \<open>Plaintext and ciphertext\<close>

text \<open>A data event that reaches the state of its flow.\<close>

definition feedEvent ::
  "h2lib \<Rightarrow> runtime \<Rightarrow> captureConfig \<Rightarrow> ApiEvent \<Rightarrow> world \<times> processingStats \<times> captureState \<Rightarrow>
     world \<times> processingStats \<times> captureState" where
  "feedEvent lib rt cfg event s =
     cap_processPayload lib rt cfg event (eventPayload event) (fst s) (fst (snd s)) (snd (snd s))"

definition plaintextView :: "captureState \<Rightarrow> bytes \<times> bytes \<times> parsedRequest list \<times> u32 \<times> bool \<times> bool \<times> bool \<times> u32 set" where
  "plaintextView cs = (st_ReqData (cs_stream cs), st_RespData (cs_stream cs), st_PendingReqs (cs_stream cs),
     st_LastSeq (cs_stream cs), st_HasLastSeq (cs_stream cs), cs_Ssl cs, cs_H2 cs, cs_H2Emitted cs)"

lemma arrived_stream [simp]:
  "st_ReqData (arrived event now st) = st_ReqData st" "st_RespData (arrived event now st) = st_RespData st"
  "st_PendingReqs (arrived event now st) = st_PendingReqs st"
  "st_LastSeq (arrived event now st) = st_LastSeq st" "st_HasLastSeq (arrived event now st) = st_HasLastSeq st"
  by (simp_all add: arrived_def mergeStreamMetadata_def)

lemma ciphertext_step:
  assumes "cs_Ssl cs" "\<not> isSSL event"
  shows "cap_processPayload lib rt cfg event payload w stats cs =
    (snd (timeNow w), stats, cs\<lparr>cs_stream := arrived event (fst (timeNow w)) (cs_stream cs)\<rparr>)"
  using assms by (simp add: cap_processPayload_eq arrived_def tlsSwitch_def Let_def case_prod_beta)

lemma ciphertext_run:
  assumes "\<forall>e \<in> set es. \<not> isSSL e" "cs_Ssl cs" "fold (feedEvent lib rt cfg) es (w, stats, cs) = (w', stats', cs')"
  shows "w_out w' = w_out w \<and> stats' = stats \<and> plaintextView cs' = plaintextView cs"
  using assms
proof (induction es arbitrary: w cs)
  case (Cons e es)
  let ?cs = "cs\<lparr>cs_stream := arrived e (fst (timeNow w)) (cs_stream cs)\<rparr>"
  have "feedEvent lib rt cfg e (w, stats, cs) = (snd (timeNow w), stats, ?cs)"
    using Cons.prems ciphertext_step [of cs e] by (simp add: feedEvent_def)
  then have "fold (feedEvent lib rt cfg) es (snd (timeNow w), stats, ?cs) = (w', stats', cs')"
    using Cons.prems by simp
  from Cons.IH [OF _ _ this] Cons.prems show ?case by (simp add: plaintextView_def)
qed simp

lemma drainStream_Ssl: "cs_Ssl (fst (snd (snd (drainStream lib rt cfg close w ps cs)))) = cs_Ssl cs"
  by (simp add: drainStream_def drainH2_def Let_def case_prod_beta)

text \<open>The state once the metadata is merged and a switch to plaintext is made; the rest of the step
  depends on nothing else of the old state.\<close>

definition switched :: "ApiEvent \<Rightarrow> time \<Rightarrow> captureState \<Rightarrow> captureState" where
  "switched event now cs = tlsSwitch (isSSL event) (cs\<lparr>cs_stream := arrived event now (cs_stream cs)\<rparr>)"

lemma processPayload_switched:
  assumes "switched event (fst (timeNow w)) cs = switched event (fst (timeNow w)) cs'"
  shows "cap_processPayload lib rt cfg event payload w stats cs = cap_processPayload lib rt cfg event payload w stats cs'"
  using assms unfolding cap_processPayload_eq Let_def case_prod_beta switched_def arrived_def by (simp only:)

lemma switched_Ssl [simp]: "cs_Ssl (switched event now cs) = (cs_Ssl cs \<or> isSSL event)"
  by (auto simp: switched_def tlsSwitch_def)

lemma processPayload_Ssl:
  assumes "cap_processPayload lib rt cfg event payload w stats cs = (w1, stats1, cs1)"
  shows "cs_Ssl cs1 = (cs_Ssl cs \<or> isSSL event)"
proof -
  have "cs_Ssl (snd (snd (cap_processPayload lib rt cfg event payload w stats cs))) = cs_Ssl (switched event (fst (timeNow w)) cs)"
    unfolding cap_processPayload_eq Let_def case_prod_beta arrived_def [symmetric] switched_def [symmetric]
    by (auto simp: detectH2_def drainStream_Ssl split: sum.splits)
  then show ?thesis using assms by simp
qed

text \<open>C22. For a TLS connection the plaintext of the SSL probes replaces the ciphertext of the
  system calls: whatever ciphertext the flow had buffered, queued or taken for HTTP/2, its first
  plaintext event has the effect it has on an empty flow, and every later ciphertext event changes
  neither the buffers nor the queue, the counters or the output.\<close>

theorem plaintext_replaces_ciphertext:
  assumes "isSSL event" "\<not> cs_Ssl cs" "\<forall>e \<in> set es. \<not> isSSL e"
    and "feedEvent lib rt cfg event (w, stats, cs\<lparr>cs_stream := (cs_stream cs)\<lparr>st_ReqData := [],
      st_RespData := [], st_PendingReqs := []\<rparr>, cs_H2 := False, cs_H2Emitted := {}\<rparr>) = (w1, stats1, cs1)"
    and "fold (feedEvent lib rt cfg) (event # es) (w, stats, cs) = (w2, stats2, cs2)"
  shows "plaintextView cs2 = plaintextView cs1 \<and> stats2 = stats1 \<and> w_out w2 = w_out w1 \<and> cs_Ssl cs2"
proof -
  have first: "feedEvent lib rt cfg event (w, stats, cs) = (w1, stats1, cs1)"
    unfolding assms(4) [symmetric] feedEvent_def fst_conv snd_conv
    by (rule processPayload_switched) (use assms(1,2) in
      \<open>simp add: switched_def tlsSwitch_def arrived_def mergeStreamMetadata_def\<close>)
  then have "cs_Ssl cs1" using assms(1) processPayload_Ssl by (fastforce simp: feedEvent_def)
  moreover have "fold (feedEvent lib rt cfg) es (w1, stats1, cs1) = (w2, stats2, cs2)"
    using assms(5) first by simp
  ultimately show ?thesis using ciphertext_run [OF assms(3)] by (fastforce simp: plaintextView_def)
qed

definition cipherState :: captureState where
  "cipherState = (freshCapture 0)\<lparr>cs_stream := (freshState 0)\<lparr>st_ReqData := ''POST x'', st_RespData := ''abc''\<rparr>\<rparr>"

theorem plaintext_replaces_ciphertext_witness:
  "st_ReqData (cs_stream (snd (snd (fold (feedEvent sampleH2 sampleRuntime sampleCapture)
     [(sampleEvent eventTypeData directionRead 3 ''GET /ab'')\<lparr>ev_Flags := 1\<rparr>,
      sampleEvent eventTypeData directionRead 3 ''POST y''] (sampleWorld, zeroProcessing, cipherState))))) = ''GET /ab''"
proof -
  let ?e = "(sampleEvent eventTypeData directionRead 3 ''GET /ab'')\<lparr>ev_Flags := 1\<rparr>"
    and ?c = "sampleEvent eventTypeData directionRead 3 ''POST y''"
    and ?feed = "feedEvent sampleH2 sampleRuntime sampleCapture"
  let ?clean = "cipherState\<lparr>cs_stream := (cs_stream cipherState)\<lparr>st_ReqData := [],
      st_RespData := [], st_PendingReqs := []\<rparr>, cs_H2 := False, cs_H2Emitted := {}\<rparr>"
  obtain w1 s1 c1 where one: "?feed ?e (sampleWorld, zeroProcessing, ?clean) = (w1, s1, c1)" using prod_cases3 by blast
  obtain w2 s2 c2 where two: "fold ?feed (?e # [?c]) (sampleWorld, zeroProcessing, cipherState) = (w2, s2, c2)"
    using prod_cases3 by blast
  have "isSSL ?e" "\<not> cs_Ssl cipherState" "\<forall>e \<in> set [?c]. \<not> isSSL e"
    by (simp_all add: isSSL_def eventFlagSSL_def cipherState_def freshCapture_def sampleEvent_def zeroEvent_def)
  from plaintext_replaces_ciphertext [OF this one two] have "plaintextView c2 = plaintextView c1" by blast
  moreover have "st_ReqData (cs_stream (snd (snd (?feed ?e (sampleWorld, zeroProcessing, ?clean))))) = ''GET /ab''" by code_simp
  ultimately show ?thesis using one two by (simp add: plaintextView_def)
qed

section \<open>HTTP/2 streams\<close>

text \<open>A direction of a stream ends with a DATA frame or a HEADERS frame that is marked so and whose
  header block decodes.\<close>

definition endsHere :: "h2lib \<Rightarrow> bytes list \<Rightarrow> h2Frame \<Rightarrow> bool" where
  "endsHere lib fragments frame =
     (case frame of HeadersFrame i fragment ended \<Rightarrow> ended \<and> h2_decodeFull lib fragments fragment \<noteq> None
      | DataFrame i data ended \<Rightarrow> ended | OtherFrame i \<Rightarrow> False)"

fun endsStream :: "h2lib \<Rightarrow> bytes list \<Rightarrow> h2Frame list \<Rightarrow> u32 \<Rightarrow> bool" where
  "endsStream lib fragments [] i = False"
| "endsStream lib fragments (frame # frames) i =
     (let id = frame_StreamID frame in
      if id = 0 then endsStream lib fragments frames i
      else (id = i \<and> endsHere lib fragments frame) \<or>
        endsStream lib (case frame of HeadersFrame i fragment ended \<Rightarrow> fragments @ [fragment] | _ \<Rightarrow> fragments) frames i)"

definition sideComplete :: "bool \<Rightarrow> h2Stream \<Rightarrow> bool" where
  "sideComplete request s = (if request then h2s_requestComplete s else h2s_responseComplete s)"

definition sideDone :: "bool \<Rightarrow> h2Streams \<Rightarrow> u32 \<Rightarrow> bool" where
  "sideDone request streams i = (case map_of streams i of None \<Rightarrow> False | Some s \<Rightarrow> sideComplete request s)"

lemma fields_complete [simp]:
  "h2s_requestComplete (fold requestField hs s) = h2s_requestComplete s"
  "h2s_responseComplete (fold requestField hs s) = h2s_responseComplete s"
  "h2s_requestComplete (fold responseField hs s) = h2s_requestComplete s"
  "h2s_responseComplete (fold responseField hs s) = h2s_responseComplete s"
  by (induction hs arbitrary: s) (simp_all add: requestField_def responseField_def Let_def)

lemma frameStep_complete:
  "sideComplete r (frameStep lib isRequest fragments frame s) =
     (sideComplete r s \<or> r = isRequest \<and> endsHere lib fragments frame)"
  by (cases frame) (auto simp: frameStep_def endsHere_def endStream_def sideComplete_def split: option.splits)

lemma frameLoop_done:
  "sideDone r (frameLoop lib isRequest fragments frames streams) i =
     (sideDone r streams i \<or> r = isRequest \<and> endsStream lib fragments frames i)"
proof (induction lib isRequest fragments frames streams rule: frameLoop.induct)
  case (2 lib isRequest fragments frame frames streams)
  then show ?case
    by (auto simp: Let_def sideDone_def AList.update_conv' frameStep_complete sideComplete_def newH2Stream_def
        frameStep_complete [unfolded sideComplete_def] split: option.splits)
qed simp

text \<open>The streams whose two directions have ended in the buffers.\<close>

definition completeStreams :: "h2lib \<Rightarrow> bytes \<Rightarrow> bytes \<Rightarrow> u32 set" where
  "completeStreams lib reqData respData =
     {i. endsStream lib [] (h2_readFrames lib reqData) i \<and> endsStream lib [] (h2_readFrames lib respData) i}"

lemma connection_complete:
  "(\<exists>s. map_of (parseHTTP2Frames lib reqData (parseHTTP2Frames lib respData [] False) True) i = Some s \<and>
      h2s_requestComplete s \<and> h2s_responseComplete s) \<longleftrightarrow> i \<in> completeStreams lib reqData respData"
proof -
  let ?streams = "parseHTTP2Frames lib reqData (parseHTTP2Frames lib respData [] False) True"
  have "sideDone True ?streams i \<longleftrightarrow> endsStream lib [] (h2_readFrames lib reqData) i"
    "sideDone False ?streams i \<longleftrightarrow> endsStream lib [] (h2_readFrames lib respData) i"
    by (simp_all add: parseHTTP2Frames_def frameLoop_done) (simp_all add: sideDone_def)
  then show ?thesis by (auto simp: completeStreams_def sideDone_def sideComplete_def split: option.splits)
qed

section \<open>Each stream once\<close>

definition orderVisits :: "h2lib \<Rightarrow> bool" where
  "orderVisits lib \<longleftrightarrow> (\<forall>n ids. set (h2_order lib n ids) = set ids)"

lemma emitH2_out:
  assumes "cc_sink cfg \<noteq> None" "marshals rt" "emitH2Conversation rt cfg st stream w = (err, w1)"
  shows "length (w_out w1) = Suc (length (w_out w))"
proof -
  obtain oid w2 where o: "newOID w = (oid, w2)" by force
  obtain now w3 where t: "timeNow w2 = (now, w3)" by force
  have "w_out w3 = w_out w" using newOID_frame [of w] timeNow_frame(1) [of w2] o t by simp
  moreover obtain payload where "lib_marshal rt (Normalized (h2Conversation rt cfg oid now st stream)) = Some payload"
    using assms(2) unfolding marshals_def by blast
  ultimately show ?thesis using assms(1,3) o t by (auto simp: emitH2Conversation_eq emitNormalized_def)
qed

lemma emitStreams_spec:
  assumes "cc_sink cfg \<noteq> None" "marshals rt"
  shows "emitStreams rt cfg st streams ids emitted w ps = (emitted1, w1, ps1, n) \<Longrightarrow>
    emitted1 = emitted \<union> {i \<in> set ids. \<exists>s. map_of streams i = Some s \<and> h2s_requestComplete s \<and> h2s_responseComplete s} \<and>
    (finite emitted \<longrightarrow> card emitted1 = card emitted + n) \<and> length (w_out w1) = length (w_out w) + n"
proof (induction ids arbitrary: emitted w ps n)
  case (Cons i ids)
  show ?case
  proof (cases "i \<notin> emitted \<and> (\<exists>s. map_of streams i = Some s \<and> h2s_requestComplete s \<and> h2s_responseComplete s)")
    case True
    then obtain s where s: "map_of streams i = Some s" "h2s_requestComplete s" "h2s_responseComplete s" "i \<notin> emitted" by blast
    obtain err w2 where e: "emitH2Conversation rt cfg st s w = (err, w2)" by force
    obtain m where r: "emitStreams rt cfg st streams ids (insert i emitted) w2 (countEmitError err ps) = (emitted1, w1, ps1, m)"
      and n: "n = Suc m" using Cons.prems s e by (auto split: prod.splits)
    from Cons.IH [OF r] emitH2_out [OF assms e] s n show ?thesis by auto
  next
    case False
    then have "emitStreams rt cfg st streams ids emitted w ps = (emitted1, w1, ps1, n)"
      using Cons.prems by (auto split: option.splits if_splits)
    from Cons.IH [OF this] False show ?thesis by auto
  qed
qed simp

lemma drainH2_spec:
  assumes "cc_sink cfg \<noteq> None" "marshals rt" "orderVisits lib"
    and "drainH2 lib rt cfg w ps cs = (w1, ps1, cs1, n)"
  shows "st_ReqData (cs_stream cs1) = stripPreface (st_ReqData (cs_stream cs))"
    "st_RespData (cs_stream cs1) = stripPreface (st_RespData (cs_stream cs))"
    "cs_H2Emitted cs1 = cs_H2Emitted cs \<union> completeStreams lib (st_ReqData (cs_stream cs1)) (st_RespData (cs_stream cs1))"
    "finite (cs_H2Emitted cs) \<Longrightarrow> card (cs_H2Emitted cs1) = card (cs_H2Emitted cs) + n"
    "length (w_out w1) = length (w_out w) + n" "cs_H2 cs1 = cs_H2 cs" "cs_Ssl cs1 = cs_Ssl cs"
    "finite (cs_H2Emitted cs) \<Longrightarrow> finite (cs_H2Emitted cs1)"
proof -
  let ?req = "stripPreface (st_ReqData (cs_stream cs))" and ?resp = "stripPreface (st_RespData (cs_stream cs))"
  let ?streams = "parseHTTP2Frames lib ?req (parseHTTP2Frames lib ?resp [] False) True"
  let ?st = "(cs_stream cs)\<lparr>st_ReqData := ?req, st_RespData := ?resp\<rparr>"
  obtain em where e: "emitStreams rt cfg ?st ?streams (h2_order lib (w_clockReads w) (map fst ?streams)) (cs_H2Emitted cs) w ps = (em, w1, ps1, n)"
    and cs1: "cs1 = cs\<lparr>cs_stream := ?st, cs_H2Emitted := em\<rparr>"
    using assms(4) by (auto simp: drainH2_def Let_def split: prod.splits)
  note spec = emitStreams_spec [OF assms(1,2) e]
  show bufs: "st_ReqData (cs_stream cs1) = ?req" "st_RespData (cs_stream cs1) = ?resp"
    "cs_H2 cs1 = cs_H2 cs" "cs_Ssl cs1 = cs_Ssl cs" by (simp_all add: cs1)
  have "{i \<in> set (h2_order lib (w_clockReads w) (map fst ?streams)). \<exists>s. map_of ?streams i = Some s \<and>
      h2s_requestComplete s \<and> h2s_responseComplete s} = completeStreams lib ?req ?resp"
    using assms(3) by (auto simp: orderVisits_def connection_complete [symmetric] dest: map_of_SomeD)
      (force dest: map_of_SomeD)
  with spec show "cs_H2Emitted cs1 = cs_H2Emitted cs \<union> completeStreams lib (st_ReqData (cs_stream cs1)) (st_RespData (cs_stream cs1))"
    unfolding bufs by (simp add: cs1)
  show "length (w_out w1) = length (w_out w) + n" using spec by blast
  show "finite (cs_H2Emitted cs1)" if "finite (cs_H2Emitted cs)" using spec that by (simp add: cs1)
  show "card (cs_H2Emitted cs1) = card (cs_H2Emitted cs) + n" if fin: "finite (cs_H2Emitted cs)"
  proof -
    have "card em = card (cs_H2Emitted cs) + n" using spec fin by blast
    then show ?thesis by (simp add: cs1)
  qed
qed

text \<open>Every complete stream of the buffers was emitted, and each emission is one of the sink.\<close>

definition h2Settled :: "h2lib \<Rightarrow> captureState \<Rightarrow> bool" where
  "h2Settled lib cs \<longleftrightarrow> cs_H2 cs \<and> finite (cs_H2Emitted cs) \<and>
     completeStreams lib (st_ReqData (cs_stream cs)) (st_RespData (cs_stream cs)) \<subseteq> cs_H2Emitted cs"

definition h2Ready :: "h2lib \<Rightarrow> runtime \<Rightarrow> captureConfig \<Rightarrow> bool" where
  "h2Ready lib rt cfg \<longleftrightarrow> cc_sink cfg \<noteq> None \<and> marshals rt \<and> orderVisits lib \<and> h2_readFrames lib [] = []"

lemma cap_append_overflow:
  assumes "cap_appendPayload cfg r payload st ps = Inl (st1, ps1)"
  shows "if r then st_ReqData st1 = [] \<and> st_RespData st1 = st_RespData st
    else st_RespData st1 = [] \<and> st_ReqData st1 = st_ReqData st"
  using assms by (auto simp: cap_appendPayload_def Let_def split: if_splits)

lemma completeStreams_Nil:
  "h2_readFrames lib [] = [] \<Longrightarrow> completeStreams lib [] d = {} \<and> completeStreams lib d [] = {}"
  by (simp add: completeStreams_def)

lemma feed_h2_step:
  assumes "h2Ready lib rt cfg" "cs_Ssl cs \<or> \<not> isSSL event" "cs_H2 cs" "finite (cs_H2Emitted cs)"
    and "completeStreams lib (st_ReqData (cs_stream cs)) (st_RespData (cs_stream cs)) \<subseteq> cs_H2Emitted cs"
    and "feedEvent lib rt cfg event (w, ps, cs) = (w1, ps1, cs1)"
  shows "h2Settled lib cs1 \<and> (cs_Ssl cs1 = cs_Ssl cs) \<and> cs_H2Emitted cs \<subseteq> cs_H2Emitted cs1 \<and>
    length (w_out w1) + card (cs_H2Emitted cs) = length (w_out w) + card (cs_H2Emitted cs1)"
proof (cases "cs_Ssl cs = isSSL event")
  case False
  then have "cs_Ssl cs" "\<not> isSSL event" using assms(2) by auto
  then show ?thesis using assms(3-6) by (auto simp: feedEvent_def ciphertext_step h2Settled_def)
next
  case True
  obtain now w2 where t: "timeNow w = (now, w2)" by force
  then have out: "w_out w2 = w_out w" using timeNow_frame(1) [of w] by simp
  note ready = assms(1) [unfolded h2Ready_def]
  let ?st = "arrived event now (cs_stream cs)" and ?r = "routeAsRequest event (eventPayload event)"
  note run = assms(6) [unfolded feedEvent_def fst_conv snd_conv cap_processPayload_same [OF True t]]
  show ?thesis
  proof (cases "cap_appendPayload cfg ?r (eventPayload event) (trackLoss event ?st) (countArrival event ?st ps)")
    case (Inl sp)
    obtain st4 ps3 where sp: "sp = (st4, ps3)" by force
    from cap_append_overflow [OF Inl [unfolded sp]] have
      "completeStreams lib (st_ReqData st4) (st_RespData st4) = {}"
      using completeStreams_Nil ready by (auto split: if_splits)
    then show ?thesis using run Inl sp assms(3-5) out by (auto simp: h2Settled_def)
  next
    case (Inr sp)
    obtain st4 ps3 where sp: "sp = (st4, ps3)" by force
    let ?cs = "cs\<lparr>cs_stream := st4\<rparr>"
    obtain w4 ps4 cs4 n where dr: "drainH2 lib rt cfg w2 ps3 ?cs = (w4, ps4, cs4, n)" using prod_cases4 by blast
    have "detectH2 ?cs = ?cs" using assms(3) by (simp add: detectH2_def)
    then have fin: "w1 = w4" "cs1 = cs4" using run Inr sp dr assms(3) by (auto simp: drainStream_def)
    from drainH2_spec [OF _ _ _ dr] ready have spec:
      "cs_H2Emitted cs4 = cs_H2Emitted cs \<union> completeStreams lib (st_ReqData (cs_stream cs4)) (st_RespData (cs_stream cs4))"
      "card (cs_H2Emitted cs4) = card (cs_H2Emitted cs) + n" "length (w_out w4) = length (w_out w2) + n"
      "cs_H2 cs4" "cs_Ssl cs4 = cs_Ssl cs" "finite (cs_H2Emitted cs4)" using assms(3,4) by simp_all
    with fin out show ?thesis by (auto simp: h2Settled_def)
  qed
qed

lemma feed_h2_run:
  assumes "h2Ready lib rt cfg"
  shows "\<forall>e \<in> set es. cs_Ssl cs \<or> \<not> isSSL e \<Longrightarrow> h2Settled lib cs \<Longrightarrow>
    fold (feedEvent lib rt cfg) es (w, ps, cs) = (w1, ps1, cs1) \<Longrightarrow>
    h2Settled lib cs1 \<and> cs_H2Emitted cs \<subseteq> cs_H2Emitted cs1 \<and>
    length (w_out w1) + card (cs_H2Emitted cs) = length (w_out w) + card (cs_H2Emitted cs1)"
proof (induction es arbitrary: w ps cs)
  case (Cons e es)
  obtain w2 ps2 cs2 where f: "feedEvent lib rt cfg e (w, ps, cs) = (w2, ps2, cs2)" using prod_cases3 by blast
  have step: "h2Settled lib cs2" "cs_Ssl cs2 = cs_Ssl cs" "cs_H2Emitted cs \<subseteq> cs_H2Emitted cs2"
    "length (w_out w2) + card (cs_H2Emitted cs) = length (w_out w) + card (cs_H2Emitted cs2)"
    using feed_h2_step [OF assms _ _ _ _ f] Cons.prems(1,2) by (auto simp: h2Settled_def)
  have "fold (feedEvent lib rt cfg) es (w2, ps2, cs2) = (w1, ps1, cs1)" using Cons.prems(3) f by simp
  from Cons.IH [OF _ step(1) this] Cons.prems(1) step show ?case by auto
qed simp


text \<open>The example: two streams, whose frames arrive interleaved and cut in the middle.\<close>

definition h2Events :: "ApiEvent list" where
  "h2Events =
     (let get = sampleFrame CHR ''H'' CHR 0x01 CHR ''E'' '':path=/a'';
          ok = sampleFrame CHR ''H'' CHR 0x01 CHR ''E'' '':status=200''
      in [sampleEvent eventTypeData directionRead 3 (take 5 get), sampleEvent eventTypeData directionWrite 3 ok,
          sampleEvent eventTypeData directionRead 3 (drop 5 get), sampleEvent eventTypeData directionWrite 3 ''H''])"

definition h2State :: captureState where
  "h2State = (freshCapture 0)\<lparr>cs_H2 := True\<rparr>"

lemma sampleH2_ready: "h2Ready sampleH2 sampleRuntime sampleCapture"
  by (auto simp: h2Ready_def sampleH2_def sampleCapture_def orderVisits_def marshals_def sampleRuntime_def
      sampleMarshal_def split: payload.splits)

lemma h2State_settled: "h2Settled sampleH2 h2State"
  by (simp add: h2Settled_def h2State_def freshCapture_def freshState_def completeStreams_def sampleH2_def)


section \<open>Where HTTP/2 support loses conversations\<close>

text \<open>The names that the header blocks of a direction decode to.\<close>

fun decodedNames :: "h2lib \<Rightarrow> bytes list \<Rightarrow> h2Frame list \<Rightarrow> bytes set" where
  "decodedNames lib fragments [] = {}"
| "decodedNames lib fragments (frame # frames) =
     (if frame_StreamID frame = 0 then decodedNames lib fragments frames
      else case frame of
        HeadersFrame i fragment ended \<Rightarrow>
          (case h2_decodeFull lib fragments fragment of None \<Rightarrow> {} | Some hs \<Rightarrow> fst ` set hs) \<union>
          decodedNames lib (fragments @ [fragment]) frames
      | _ \<Rightarrow> decodedNames lib fragments frames)"

definition blankRequest :: "h2Stream \<Rightarrow> bool" where
  "blankRequest s \<longleftrightarrow> h2s_method s = [] \<and> h2s_path s = []"

definition blankStatus :: "h2Stream \<Rightarrow> bool" where
  "blankStatus s \<longleftrightarrow> h2s_status s = [] \<and> h2s_statusCode s = 0"

lemma fields_blank:
  "blankStatus (fold requestField hs s) = blankStatus s" "blankRequest (fold responseField hs s) = blankRequest s"
  "'':method'' \<notin> fst ` set hs \<Longrightarrow> '':path'' \<notin> fst ` set hs \<Longrightarrow> blankRequest (fold requestField hs s) = blankRequest s"
  "'':status'' \<notin> fst ` set hs \<Longrightarrow> blankStatus (fold responseField hs s) = blankStatus s"
  by (induction hs arbitrary: s) (auto simp: requestField_def responseField_def blankRequest_def blankStatus_def Let_def)

lemma endStream_blank [simp]:
  "blankRequest (endStream r e s) = blankRequest s" "blankStatus (endStream r e s) = blankStatus s"
  by (simp_all add: endStream_def blankRequest_def blankStatus_def)

lemma body_blank [simp]:
  "blankRequest (s\<lparr>h2s_requestBody := b\<rparr>) = blankRequest s" "blankRequest (s\<lparr>h2s_responseBody := b\<rparr>) = blankRequest s"
  "blankStatus (s\<lparr>h2s_requestBody := b\<rparr>) = blankStatus s" "blankStatus (s\<lparr>h2s_responseBody := b\<rparr>) = blankStatus s"
  by (simp_all add: blankRequest_def blankStatus_def)

definition allBlank :: "(h2Stream \<Rightarrow> bool) \<Rightarrow> h2Streams \<Rightarrow> bool" where
  "allBlank blank streams \<longleftrightarrow> (\<forall>i s. map_of streams i = Some s \<longrightarrow> blank s)"

lemma frameLoop_blank:
  assumes "\<And>frame fragments s. frame_StreamID frame \<noteq> 0 \<Longrightarrow> blank s \<Longrightarrow> decodedNames lib fragments [frame] \<inter> names = {} \<Longrightarrow>
      blank (frameStep lib isRequest fragments frame s)"
    and "blank newH2Stream"
  shows "decodedNames lib fragments frames \<inter> names = {} \<Longrightarrow> allBlank blank streams \<Longrightarrow>
    allBlank blank (frameLoop lib isRequest fragments frames streams)"
proof (induction frames arbitrary: fragments streams)
  case (Cons frame frames)
  show ?case
  proof (cases "frame_StreamID frame = 0")
    case True
    with Cons show ?thesis by simp
  next
    case False
    let ?i = "frame_StreamID frame"
    let ?s = "case map_of streams ?i of Some s \<Rightarrow> s | None \<Rightarrow> newH2Stream"
    let ?frags = "case frame of HeadersFrame i fragment ended \<Rightarrow> fragments @ [fragment] | _ \<Rightarrow> fragments"
    have names: "decodedNames lib fragments [frame] \<inter> names = {}" "decodedNames lib ?frags frames \<inter> names = {}"
      using Cons.prems(1) False by (cases frame; auto split: option.splits)+
    have "blank ?s" using Cons.prems(2) assms(2) by (auto simp: allBlank_def split: option.splits)
    then have "blank (frameStep lib isRequest fragments frame ?s)" using assms(1) names(1) False by blast
    then have "allBlank blank (AList.update ?i (frameStep lib isRequest fragments frame ?s) streams)"
      using Cons.prems(2) by (auto simp: allBlank_def AList.update_conv')
    from Cons.IH [OF names(2) this] False show ?thesis by (simp add: Let_def)
  qed
qed simp

lemma frameStep_blank:
  assumes "frame_StreamID frame \<noteq> 0"
  shows "blankStatus s \<Longrightarrow> blankStatus (frameStep lib True fragments frame s)"
    "blankRequest s \<Longrightarrow> blankRequest (frameStep lib False fragments frame s)"
    "blankRequest s \<Longrightarrow> decodedNames lib fragments [frame] \<inter> {'':method'', '':path''} = {} \<Longrightarrow>
       blankRequest (frameStep lib True fragments frame s)"
    "blankStatus s \<Longrightarrow> decodedNames lib fragments [frame] \<inter> {'':status''} = {} \<Longrightarrow>
       blankStatus (frameStep lib False fragments frame s)"
  using assms by (cases frame; auto simp: frameStep_def fields_blank split: option.splits)+

text \<open>The two directions of an HTTP/2 connection are read with fixed roles: \<open>ReqData\<close>, which gets
  the bytes the process reads, as requests and \<open>RespData\<close>, which gets those it writes, as responses.
  Where the process is the client, the reads carry the responses and the writes the requests; then
  every conversation of the connection is emitted without method, path and status.\<close>

theorem h2_client_swapped:
  assumes "decodedNames lib [] (h2_readFrames lib reqData) \<inter> {'':method'', '':path''} = {}"
    and "decodedNames lib [] (h2_readFrames lib respData) \<inter> {'':status''} = {}"
    and "map_of (parseHTTP2Frames lib reqData (parseHTTP2Frames lib respData [] False) True) i = Some s"
  shows "let http = nc_HTTP (h2Conversation rt cfg oid now st s)
    in nreq_Method (ex_Request http) = [] \<and> nreq_Path (ex_Request http) = [] \<and>
       nresp_Status (ex_Response http) = [] \<and> nresp_StatusCode (ex_Response http) = 0"
proof -
  let ?resp = "parseHTTP2Frames lib respData [] False"
  have new: "blankRequest newH2Stream" "blankStatus newH2Stream"
    by (simp_all add: blankRequest_def blankStatus_def newH2Stream_def)
  have "allBlank blankRequest ?resp" unfolding parseHTTP2Frames_def
    by (rule frameLoop_blank [where names = "{}"]) (auto simp: new frameStep_blank(2) allBlank_def)
  then have "allBlank blankRequest (parseHTTP2Frames lib reqData ?resp True)"
    unfolding parseHTTP2Frames_def [of lib reqData]
    by (intro frameLoop_blank [OF frameStep_blank(3) new(1) assms(1)])
  moreover have "allBlank blankStatus ?resp" unfolding parseHTTP2Frames_def
    by (intro frameLoop_blank [OF frameStep_blank(4) new(2) assms(2)]) (simp_all add: allBlank_def)
  then have "allBlank blankStatus (parseHTTP2Frames lib reqData ?resp True)"
    unfolding parseHTTP2Frames_def [of lib reqData]
    by (rule frameLoop_blank [where names = "{}", rotated 3]) (auto simp: new frameStep_blank(1))
  ultimately have "blankRequest s" "blankStatus s" using assms(3) by (auto simp: allBlank_def)
  then show ?thesis by (simp add: h2Conversation_eq blankRequest_def blankStatus_def Let_def)
qed

definition clientWrites :: bytes where
  "clientWrites = sampleFrame CHR ''H'' CHR 0x01 CHR ''E'' '':path=/a''"

definition clientReads :: bytes where
  "clientReads = sampleFrame CHR ''H'' CHR 0x01 CHR ''E'' '':status=200''"

theorem h2_client_swapped_witness:
  "\<exists>s. map_of (parseHTTP2Frames sampleH2 clientReads (parseHTTP2Frames sampleH2 clientWrites [] False) True) 1 = Some s \<and>
     streamComplete s \<and>
     nreq_Path (ex_Request (nc_HTTP (h2Conversation sampleRuntime sampleCapture [] 0 (freshState 0) s))) = [] \<and>
     nresp_StatusCode (ex_Response (nc_HTTP (h2Conversation sampleRuntime sampleCapture [] 0 (freshState 0) s))) = 0"
proof -
  let ?streams = "parseHTTP2Frames sampleH2 clientReads (parseHTTP2Frames sampleH2 clientWrites [] False) True"
  have names: "decodedNames sampleH2 [] (h2_readFrames sampleH2 clientReads) = {'':status''}"
    "decodedNames sampleH2 [] (h2_readFrames sampleH2 clientWrites) = {'':path''}" by code_simp+
  have "(case map_of ?streams 1 of None \<Rightarrow> False | Some s \<Rightarrow> streamComplete s)" by code_simp
  then obtain s where s: "map_of ?streams 1 = Some s" "streamComplete s" by (auto split: option.splits)
  have "decodedNames sampleH2 [] (h2_readFrames sampleH2 clientReads) \<inter> {'':method'', '':path''} = {}"
    "decodedNames sampleH2 [] (h2_readFrames sampleH2 clientWrites) \<inter> {'':status''} = {}" by (simp_all add: names)
  from h2_client_swapped [OF this s(1), of sampleRuntime sampleCapture "[]" 0 "freshState 0"] s
  show ?thesis by (auto simp: Let_def)
qed

text \<open>A request buffer that may still become the preface holds the whole flow back, and a close
  or the expiry does not resolve it: when a flow is closed while its buffer is, say, the first byte of
  a POST, nothing of it is emitted, however many queued requests have their complete responses
  buffered.\<close>

theorem preface_hold_drops_flow:
  assumes "ev_EventType event = eventTypeClose" "cap_get (sessionKey event) (cp_store cp) = Some cs"
    and "\<not> cs_H2 cs" "isH2PrefaceCandidate (st_ReqData (cs_stream cs))"
  shows "w_out (cp_world (cap_processEvent lib rt cfg event cp)) = w_out (cp_world cp) \<and>
    ps_parsed (cp_stats (cap_processEvent lib rt cfg event cp)) = ps_parsed (cp_stats cp) \<and>
    cap_get (sessionKey event) (cp_store (cap_processEvent lib rt cfg event cp)) = None"
  using assms by (simp add: cap_processEvent_eq cap_handleCloseEvent_eq drainStream_def cap_countParsed_def Let_def)

text \<open>The example: a pipelined client whose next request has sent its first byte. The worker emits
  the pair that the capture program drops.\<close>

definition heldInputs :: "ApiEvent list" where
  "heldInputs = [sampleEvent eventTypeData directionRead 3 (''GET /a'' @ crlf2 @ ''P''),
     sampleEvent eventTypeData directionWrite 3 (''HTTP/1.1 200 Content-Length: 0'' @ crlf2)]"

definition heldCapture :: captureProc where
  "heldCapture = fold (cap_processEvent sampleH2 sampleRuntime sampleCapture) heldInputs (initialCapture sampleCapture sampleWorld)"

theorem preface_hold_drops_flow_witness:
  "w_out (cp_world (cap_processEvent sampleH2 sampleRuntime sampleCapture (sampleEvent eventTypeClose directionRead 3 []) heldCapture)) = [] \<and>
   length (w_out (wk_world (fold (processEvent sampleRuntime (asWorkerConfig sampleCapture))
     (heldInputs @ [sampleEvent eventTypeClose directionRead 3 []]) (initialWorker (asWorkerConfig sampleCapture) sampleWorld)))) = 1"
proof -
  let ?e = "sampleEvent eventTypeClose directionRead 3 []"
  have "case cap_get (sessionKey ?e) (cp_store heldCapture) of None \<Rightarrow> False
      | Some cs \<Rightarrow> \<not> cs_H2 cs \<and> isH2PrefaceCandidate (st_ReqData (cs_stream cs))" by code_simp
  then obtain cs where "cap_get (sessionKey ?e) (cp_store heldCapture) = Some cs" "\<not> cs_H2 cs"
    "isH2PrefaceCandidate (st_ReqData (cs_stream cs))" by (auto split: option.splits)
  from preface_hold_drops_flow [OF _ this, of sampleH2 sampleRuntime sampleCapture]
  have "w_out (cp_world (cap_processEvent sampleH2 sampleRuntime sampleCapture ?e heldCapture)) = w_out (cp_world heldCapture)"
    by (simp add: sampleEvent_def)
  moreover have "w_out (cp_world heldCapture) = []" by code_simp
  moreover have "length (w_out (wk_world (fold (processEvent sampleRuntime (asWorkerConfig sampleCapture))
     (heldInputs @ [?e]) (initialWorker (asWorkerConfig sampleCapture) sampleWorld)))) = 1" by code_simp
  ultimately show ?thesis by simp
qed

text \<open>A buffer past the preface, and one that stays so whatever is appended.\<close>

definition pastPreface :: "bytes \<Rightarrow> bool" where
  "pastPreface d \<longleftrightarrow> d \<noteq> [] \<and> \<not> isH2PrefaceCandidate d"

lemma pastPreface_append:
  assumes "pastPreface d"
  shows "pastPreface (d @ e)"
proof -
  have "take (length d) (d @ e) = take (length d) h2Preface" if "isH2PrefaceCandidate (d @ e)"
  proof (cases "length h2Preface \<le> length (d @ e)")
    case True
    with that have "take (length h2Preface) (d @ e) = h2Preface"
      by (simp only: isH2PrefaceCandidate_def split: if_splits)
    then obtain t where "d @ e = h2Preface @ t" by (metis append_take_drop_id)
    then show ?thesis using assms by (cases "length d \<le> length h2Preface")
      (auto simp: pastPreface_def isH2PrefaceCandidate_def append_eq_append_conv_if)
  next
    case False
    then have "d @ e = take (length (d @ e)) h2Preface"
      using that by (simp only: isH2PrefaceCandidate_def split: if_splits)
    then have "take (length d) (d @ e) = take (length d) (take (length (d @ e)) h2Preface)" by (rule arg_cong)
    then show ?thesis by (simp add: min_def split: if_splits)
  qed
  then show ?thesis using assms by (auto simp: pastPreface_def isH2PrefaceCandidate_def split: if_splits)
qed

lemma pastPreface_strip: "pastPreface d \<Longrightarrow> stripPreface d = d"
  by (auto simp: pastPreface_def isH2PrefaceCandidate_def stripPreface_def)

definition h2Past :: "captureState \<Rightarrow> bool" where
  "h2Past cs \<longleftrightarrow> cs_H2 cs \<and> pastPreface (st_ReqData (cs_stream cs)) \<and> pastPreface (st_RespData (cs_stream cs))"

lemma drainH2_buffers:
  "st_ReqData (cs_stream (fst (snd (snd (drainH2 lib rt cfg w ps cs))))) = stripPreface (st_ReqData (cs_stream cs))"
  "st_RespData (cs_stream (fst (snd (snd (drainH2 lib rt cfg w ps cs))))) = stripPreface (st_RespData (cs_stream cs))"
  "cs_H2 (fst (snd (snd (drainH2 lib rt cfg w ps cs)))) = cs_H2 cs"
  "cs_Ssl (fst (snd (snd (drainH2 lib rt cfg w ps cs)))) = cs_Ssl cs"
  by (simp_all add: drainH2_def Let_def case_prod_beta)

lemma feed_h2_buffers:
  assumes "h2Past cs" "cs_Ssl cs = isSSL event" "feedEvent lib rt cfg event (w, ps, cs) = (w1, ps1, cs1)"
  shows "int (length (appendedReq event (cs_stream cs))) \<le> cc_maxStreamBytes cfg \<and>
      int (length (appendedResp event (cs_stream cs))) \<le> cc_maxStreamBytes cfg \<Longrightarrow>
      h2Past cs1 \<and> cs_Ssl cs1 = cs_Ssl cs \<and> st_ReqData (cs_stream cs1) = appendedReq event (cs_stream cs) \<and>
      st_RespData (cs_stream cs1) = appendedResp event (cs_stream cs)"
    and "routeAsRequest event (eventPayload event) \<and>
      int (length (appendedReq event (cs_stream cs))) > cc_maxStreamBytes cfg \<Longrightarrow>
      cs_H2 cs1 \<and> st_ReqData (cs_stream cs1) = []"
proof -
  obtain now w2 where t: "timeNow w = (now, w2)" by force
  let ?st = "arrived event now (cs_stream cs)" and ?r = "routeAsRequest event (eventPayload event)"
  note run = assms(3) [unfolded feedEvent_def fst_conv snd_conv cap_processPayload_same [OF assms(2) t]]
  have past: "pastPreface (appendedReq event (cs_stream cs))" "pastPreface (appendedResp event (cs_stream cs))" "cs_H2 cs"
    using assms(1) pastPreface_append by (simp_all add: h2Past_def appendedReq_def appendedResp_def)
  {
    assume le: "int (length (appendedReq event (cs_stream cs))) \<le> cc_maxStreamBytes cfg \<and>
      int (length (appendedResp event (cs_stream cs))) \<le> cc_maxStreamBytes cfg"
    then obtain st4 ps3 where a: "cap_appendPayload cfg ?r (eventPayload event) (trackLoss event ?st) (countArrival event ?st ps) = Inr (st4, ps3)"
      by (cases ?r) (auto simp: cap_appendPayload_def appendedReq_def appendedResp_def Let_def)
    have b: "st_ReqData st4 = appendedReq event (cs_stream cs)" "st_RespData st4 = appendedResp event (cs_stream cs)"
      using cap_append_buffers [OF a] by simp_all
    have "detectH2 (cs\<lparr>cs_stream := st4\<rparr>) = cs\<lparr>cs_stream := st4\<rparr>" using past(3) by (simp add: detectH2_def)
    then have "cs1 = fst (snd (snd (drainH2 lib rt cfg w2 ps3 (cs\<lparr>cs_stream := st4\<rparr>))))"
      using run a past(3) by (auto simp: drainStream_def case_prod_beta)
    then show "h2Past cs1 \<and> cs_Ssl cs1 = cs_Ssl cs \<and> st_ReqData (cs_stream cs1) = appendedReq event (cs_stream cs) \<and>
      st_RespData (cs_stream cs1) = appendedResp event (cs_stream cs)"
      using past b by (simp add: drainH2_buffers pastPreface_strip h2Past_def)
  }
  assume "?r \<and> int (length (appendedReq event (cs_stream cs))) > cc_maxStreamBytes cfg"
  then show "cs_H2 cs1 \<and> st_ReqData (cs_stream cs1) = []" using run past(3)
    by (auto simp: cap_appendPayload_def appendedReq_def Let_def)
qed

definition routedBytes :: "bool \<Rightarrow> ApiEvent list \<Rightarrow> bytes" where
  "routedBytes request es = concat (map eventPayload
     (filter (\<lambda>e. routeAsRequest e (eventPayload e) = request) es))"

lemma feed_h2_history:
  "h2Past cs \<Longrightarrow> \<forall>e \<in> set es. isSSL e = cs_Ssl cs \<Longrightarrow>
   int (length (st_ReqData (cs_stream cs) @ routedBytes True es)) \<le> cc_maxStreamBytes cfg \<Longrightarrow>
   int (length (st_RespData (cs_stream cs) @ routedBytes False es)) \<le> cc_maxStreamBytes cfg \<Longrightarrow>
   fold (feedEvent lib rt cfg) es (w, ps, cs) = (w1, ps1, cs1) \<Longrightarrow>
   h2Past cs1 \<and> cs_Ssl cs1 = cs_Ssl cs \<and>
   st_ReqData (cs_stream cs1) = st_ReqData (cs_stream cs) @ routedBytes True es \<and>
   st_RespData (cs_stream cs1) = st_RespData (cs_stream cs) @ routedBytes False es"
proof (induction es arbitrary: w ps cs)
  case (Cons e es)
  obtain w2 ps2 cs2 where f: "feedEvent lib rt cfg e (w, ps, cs) = (w2, ps2, cs2)" using prod_cases3 by blast
  have eqs: "appendedReq e (cs_stream cs) @ routedBytes True es = st_ReqData (cs_stream cs) @ routedBytes True (e # es)"
    "appendedResp e (cs_stream cs) @ routedBytes False es = st_RespData (cs_stream cs) @ routedBytes False (e # es)"
    by (simp_all add: appendedReq_def appendedResp_def routedBytes_def)
  have "length (appendedReq e (cs_stream cs)) \<le> length (st_ReqData (cs_stream cs) @ routedBytes True (e # es))"
    "length (appendedResp e (cs_stream cs)) \<le> length (st_RespData (cs_stream cs) @ routedBytes False (e # es))"
    unfolding eqs [symmetric] by (simp_all only: length_append le_add1)
  then have "int (length (appendedReq e (cs_stream cs))) \<le> cc_maxStreamBytes cfg \<and>
      int (length (appendedResp e (cs_stream cs))) \<le> cc_maxStreamBytes cfg"
    using Cons.prems(3,4) by linarith
  with feed_h2_buffers(1) [OF Cons.prems(1) _ f] Cons.prems(2) have
    s: "h2Past cs2" "cs_Ssl cs2 = cs_Ssl cs" "st_ReqData (cs_stream cs2) = appendedReq e (cs_stream cs)"
      "st_RespData (cs_stream cs2) = appendedResp e (cs_stream cs)" by simp_all
  have "fold (feedEvent lib rt cfg) es (w2, ps2, cs2) = (w1, ps1, cs1)" using Cons.prems(5) f by simp
  from Cons.IH [OF s(1) _ _ _ this, unfolded s(2-4) eqs, OF _ Cons.prems(3,4)] Cons.prems(2)
  show ?case by simp
qed (simp add: routedBytes_def)


definition h2Long :: captureState where
  "h2Long = h2State\<lparr>cs_stream := (freshState 0)\<lparr>st_ReqData := replicate 60 CHR ''x'', st_RespData := ''y''\<rparr>\<rparr>"

definition h2Fits :: ApiEvent where
  "h2Fits = sampleEvent eventTypeData directionRead 3 ''ab''"

definition h2Exceeds :: ApiEvent where
  "h2Exceeds = sampleEvent eventTypeData directionRead 3 ''abc''"

lemma h2Long_past: "h2Past h2Long"
  by code_simp

lemma h2Long_requests:
  "routeAsRequest h2Fits (eventPayload h2Fits)" "routeAsRequest h2Exceeds (eventPayload h2Exceeds)"
  "eventPayload h2Fits = ''ab''" "eventPayload h2Exceeds = ''abc''"
  by code_simp+

lemma h2Long_lengths:
  "length (st_ReqData (cs_stream h2Long) @ routedBytes True [h2Fits]) = 62"
  "length (st_RespData (cs_stream h2Long) @ routedBytes False [h2Fits]) = 1"
  "length (st_ReqData (cs_stream h2Long) @ routedBytes True ([h2Fits] @ [h2Exceeds])) = 65"
  using h2Long_requests(1,2) by (simp_all add: routedBytes_def h2Long_requests(3,4) h2Long_def)

lemma h2Long_plain: "\<forall>e \<in> set ([h2Fits] @ [h2Exceeds]). isSSL e = cs_Ssl h2Long"
  by (simp add: isSSL_def h2Fits_def h2Exceeds_def sampleEvent_def zeroEvent_def h2Long_def h2State_def freshCapture_def)


end
