(* ===== verification/CaptureDelivery.thy ===== *)
theory CaptureDelivery
  imports CaptureSink CaptureFlows
begin

text \<open>
  The processing goroutines of karaxys-capture with its HTTP sink: what the counters say of the
  conversations that were handed to the sink, and what became of each of them.
\<close>

section \<open>The sink behind the configuration\<close>

text \<open>\<open>cc_sink\<close> is what \<open>Emit\<close> answers after the payloads it was given before.\<close>

fun sinkAfter :: "captureSinkEnv \<Rightarrow> httpConversationSink \<Rightarrow> bytes list \<Rightarrow> captureSinkWorld \<Rightarrow> captureSinkWorld" where
  "sinkAfter env s [] w = w"
| "sinkAfter env s (p # ps) w = sinkAfter env s ps (snd (cap_Emit env s p w))"

definition attachedSink ::
  "captureSinkEnv \<Rightarrow> httpConversationSink \<Rightarrow> captureSinkWorld \<Rightarrow> bytes list \<Rightarrow> bytes \<Rightarrow> sinkError option" where
  "attachedSink env s w sent payload = fst (cap_Emit env s payload (sinkAfter env s sent w))"

lemma sinkAfter_append [simp]: "sinkAfter env s (ps @ qs) w = sinkAfter env s qs (sinkAfter env s ps w)"
  by (induction env s ps w rule: sinkAfter.induct) simp_all

section \<open>Counting what the sink answers\<close>

fun failures :: "(bytes list \<Rightarrow> bytes \<Rightarrow> sinkError option) \<Rightarrow> bytes list \<Rightarrow> bytes list \<Rightarrow> nat" where
  "failures answer sent [] = 0"
| "failures answer sent (p # ps) = of_bool (answer sent p \<noteq> None) + failures answer (sent @ [p]) ps"

lemma failures_append:
  "failures answer sent (ps @ qs) = failures answer sent ps + failures answer (sent @ ps) qs"
  by (induction ps arbitrary: sent) simp_all

lemma sinkPayloads_append [simp]: "sinkPayloads (xs @ ys) = sinkPayloads xs @ sinkPayloads ys"
  by (induction xs rule: sinkPayloads.induct) simp_all

text \<open>The counters agree with the sink; \<open>n\<close> conversations are emitted but not yet counted as parsed.\<close>

definition accounted :: "(bytes list \<Rightarrow> bytes \<Rightarrow> sinkError option) \<Rightarrow> nat \<Rightarrow> world \<Rightarrow> processingStats \<Rightarrow> bool" where
  "accounted answer n w stats \<longleftrightarrow>
     ps_emitErrors stats = of_nat (failures answer [] (sinkPayloads (w_out w))) \<and>
     ps_parsed stats + of_nat n = of_nat (length (sinkPayloads (w_out w)))"

lemma tally_cong:
  "w_out w' = w_out w \<Longrightarrow> ps_emitErrors stats' = ps_emitErrors stats \<Longrightarrow> ps_parsed stats' = ps_parsed stats \<Longrightarrow>
     accounted answer n w' stats' = accounted answer n w stats"
  by (simp add: accounted_def)

lemma accounted_parsed:
  "accounted answer n w stats \<Longrightarrow> accounted answer 0 w (cap_countParsed n stats)"
  by (auto simp: accounted_def cap_countParsed_def)

text \<open>One emission.\<close>

lemma emit_accounted:
  assumes "cc_sink cfg = Some answer" "lib_marshal rt (Normalized conversation) \<noteq> None"
    and "emitNormalized rt cfg conversation w = (err, w')" "accounted answer n w stats"
  shows "accounted answer (Suc n) w' (countEmitError err stats)"
  using assms by (auto simp: emitNormalized_def accounted_def countEmitError_def failures_append)

lemma conversation_accounted:
  assumes "cc_sink cfg = Some answer" "marshals rt" "cap_emitConversation rt cfg req resp body w = (err, w')"
    and "accounted answer n w stats"
  shows "accounted answer (Suc n) w' (countEmitError err stats)"
proof -
  obtain oid w1 where o: "newOID w = (oid, w1)" by force
  then have "accounted answer n w1 stats" using assms(4) newOID_frame [of w] by (simp add: accounted_def)
  moreover have "lib_marshal rt p \<noteq> None" for p using assms(2) unfolding marshals_def by blast
  moreover have "emitNormalized rt cfg (captureConversation rt cfg oid req resp body) w1 = (err, w')"
    using assms(3) o by (simp add: cap_emitConversation_eq)
  ultimately show ?thesis using emit_accounted [OF assms(1)] by blast
qed

lemma h2_conversation_accounted:
  assumes "cc_sink cfg = Some answer" "marshals rt" "emitH2Conversation rt cfg st stream w = (err, w')"
    and "accounted answer n w stats"
  shows "accounted answer (Suc n) w' (countEmitError err stats)"
proof -
  obtain oid w1 where o: "newOID w = (oid, w1)" by force
  obtain now w2 where t: "timeNow w1 = (now, w2)" by force
  have "w_out w2 = w_out w" using newOID_frame [of w] timeNow_frame(1) [of w1] o t by simp
  then have a: "accounted answer n w2 stats" using assms(4) by (simp add: accounted_def)
  moreover have "lib_marshal rt p \<noteq> None" for p using assms(2) unfolding marshals_def by blast
  moreover have "emitNormalized rt cfg (h2Conversation rt cfg oid now st stream) w2 = (err, w')"
    using assms(3) o t by (simp add: emitH2Conversation_eq)
  ultimately show ?thesis using emit_accounted [OF assms(1)] a by blast
qed

section \<open>The drains\<close>

lemma drainRequests_accounted:
  "cap_drainRequests rt cfg w stats st = (w', stats', st') \<Longrightarrow> accounted answer n w stats \<Longrightarrow> accounted answer n w' stats'"
proof (induction rt cfg w stats st arbitrary: w' stats' st' rule: cap_drainRequests_induct)
  case (1 rt cfg w stats state)
  obtain data trimmed where sync: "syncRequestBuffer (st_ReqData state) = (data, trimmed)" by force
  define stats1 where "stats1 = (if 0 < trimmed
    then stats\<lparr>ps_droppedNoReqStart := ps_droppedNoReqStart stats + of_nat trimmed\<rparr> else stats)"
  have a: "accounted answer n w stats1" using "1.prems"(2) by (simp add: stats1_def accounted_def)
  show ?case
  proof (cases "parseOneRequest rt data (cc_maxBodyBytes cfg)")
    case None
    have "cap_drainRequests rt cfg w stats state = (w, (if 0 < length data
        then stats1\<lparr>ps_requestParsePending := ps_requestParsePending stats1 + 1\<rparr> else stats1), state\<lparr>st_ReqData := data\<rparr>)"
      by (subst cap_drainRequests_eq) (simp only: sync None option.case prod.case Let_def stats1_def [symmetric])
    with a "1.prems"(1) show ?thesis by (auto simp: accounted_def)
  next
    case (Some res)
    obtain req reqBody consumed where r: "res = (req, reqBody, consumed)" by (cases res) auto
    obtain now w1 where t: "timeNow w = (now, w1)" by force
    have a1: "accounted answer n w1 (stats1\<lparr>ps_requestParsed := ps_requestParsed stats1 + 1\<rparr>)"
      using a timeNow_frame(1) [of w] by (simp add: accounted_def t)
    have "cap_drainRequests rt cfg w1 (stats1\<lparr>ps_requestParsed := ps_requestParsed stats1 + 1\<rparr>)
        (state\<lparr>st_PendingReqs := st_PendingReqs state @ [pendingRequest state req reqBody now],
               st_ReqData := drop consumed data\<rparr>) = (w', stats', st')"
      using "1.prems"(1) by (subst (asm) cap_drainRequests_eq) (simp add: sync Some r t Let_def stats1_def)
    from "1.IH" [OF refl sync [symmetric] stats1_def Some r [symmetric] refl refl t [symmetric] this a1] show ?thesis .
  qed
qed

lemma drainResponses_accounted:
  assumes "cc_sink cfg = Some answer" "marshals rt"
  shows "cap_drainResponses rt cfg close w stats st = (w', stats', st', m) \<Longrightarrow> accounted answer n w stats \<Longrightarrow>
    accounted answer (n + m) w' stats'"
proof (induction "st_PendingReqs st" arbitrary: n w stats st m)
  case Nil
  from Nil(1) [symmetric] Nil(2,3) show ?case by (simp add: cap_drainResponses_eq [of _ _ _ _ _ st])
next
  case (Cons p pending)
  note pend = Cons(2) [symmetric]
  obtain data trimmed where sync: "syncResponseBuffer (st_RespData st) = (data, trimmed)" by force
  define stats1 where "stats1 = (if 0 < trimmed
    then stats\<lparr>ps_droppedNoRespInit := ps_droppedNoRespInit stats + of_nat trimmed\<rparr> else stats)"
  have a: "accounted answer n w stats1" using Cons(4) by (simp add: stats1_def accounted_def)
  show ?case
  proof (cases "parseOneResponse rt data (pr_req p) (cc_maxBodyBytes cfg) close")
    case None
    have "cap_drainResponses rt cfg close w stats st = (w, (if 0 < length data
        then stats1\<lparr>ps_responseParsePending := ps_responseParsePending stats1 + 1\<rparr> else stats1), st\<lparr>st_RespData := data\<rparr>, 0)"
      by (simp add: cap_drainResponses_eq [of _ _ _ w _ st] pend sync None stats1_def)
    with a Cons(3) show ?thesis by (auto simp: accounted_def)
  next
    case (Some r)
    obtain resp body c where r: "r = (resp, body, c)" by (cases r) auto
    let ?p = "p\<lparr>pr_loss := mergeLossMetadata (pr_loss p) (st_Loss st)\<rparr>"
    let ?st = "st\<lparr>st_PendingReqs := pending, st_RespData := drop c data\<rparr>"
    obtain err w1 where e: "cap_emitConversation rt cfg ?p resp body w = (err, w1)" by force
    define stats2 where "stats2 = stats1\<lparr>ps_responseParsed := ps_responseParsed stats1 + 1\<rparr>"
    obtain w2 stats3 st2 k where d: "cap_drainResponses rt cfg close w1 (countEmitError err stats2) ?st = (w2, stats3, st2, k)"
      by (metis prod_cases4)
    have "cap_drainResponses rt cfg close w stats st = (w2, stats3, st2, Suc k)"
      by (subst cap_drainResponses_eq)
        (simp only: pend sync Some r e d list.case option.case prod.case Let_def stats1_def [symmetric] stats2_def [symmetric])
    moreover have "accounted answer n w stats2" using a by (simp add: stats2_def accounted_def)
    ultimately show ?thesis
      using Cons(1) [of ?st w1 "countEmitError err stats2" k "Suc n"] conversation_accounted [OF assms e] d Cons(3) by simp
  qed
qed

lemma emitStreams_accounted:
  assumes "cc_sink cfg = Some answer" "marshals rt"
  shows "emitStreams rt cfg st streams ids emitted w stats = (emitted', w', stats', m) \<Longrightarrow> accounted answer n w stats \<Longrightarrow>
    accounted answer (n + m) w' stats'"
proof (induction ids arbitrary: n emitted w stats emitted' w' stats' m)
  case (Cons streamID ids)
  show ?case
  proof (cases "\<exists>stream. map_of streams streamID = Some stream \<and> h2s_requestComplete stream \<and>
      h2s_responseComplete stream \<and> streamID \<notin> emitted")
    case False
    then have "emitStreams rt cfg st streams ids emitted w stats = (emitted', w', stats', m)"
      using Cons.prems(1) by (auto split: option.splits if_splits)
    from Cons.IH [OF this Cons.prems(2)] show ?thesis .
  next
    case True
    then obtain stream where s: "map_of streams streamID = Some stream" "h2s_requestComplete stream"
      "h2s_responseComplete stream" "streamID \<notin> emitted" by blast
    obtain err w1 where e: "emitH2Conversation rt cfg st stream w = (err, w1)" by force
    obtain emitted2 w2 stats2 k where d: "emitStreams rt cfg st streams ids (insert streamID emitted) w1 (countEmitError err stats) =
        (emitted2, w2, stats2, k)" by (metis prod_cases4)
    have "(emitted', w', stats', m) = (emitted2, w2, stats2, Suc k)" using Cons.prems(1) s e d by simp
    with Cons.IH [OF d h2_conversation_accounted [OF assms e Cons.prems(2)]] show ?thesis by simp
  qed
qed simp

lemma drainStream_accounted:
  assumes "cc_sink cfg = Some answer" "marshals rt" "drainStream lib rt cfg close w stats cs = (w', stats', cs', m)"
    and "accounted answer n w stats"
  shows "accounted answer (n + m) w' stats'"
proof -
  consider "cs_H2 cs" | "\<not> cs_H2 cs" "isH2PrefaceCandidate (st_ReqData (cs_stream cs))"
    | "\<not> cs_H2 cs" "\<not> isH2PrefaceCandidate (st_ReqData (cs_stream cs))" by blast
  then show ?thesis
  proof cases
    case 1
    then show ?thesis
      using assms(3) emitStreams_accounted [OF assms(1,2) _ assms(4)]
      by (auto simp: drainStream_def drainH2_def Let_def split: prod.splits)
  next
    case 2
    then show ?thesis using assms(3,4) by (simp add: drainStream_def)
  next
    case 3
    obtain w1 stats1 st1 where q: "cap_drainRequests rt cfg w stats (cs_stream cs) = (w1, stats1, st1)" by (metis prod_cases3)
    obtain w2 stats2 st2 k where p: "cap_drainResponses rt cfg close w1 stats1 st1 = (w2, stats2, st2, k)" by (metis prod_cases4)
    have "(w', stats', m) = (w2, stats2, k)"
      using assms(3) 3 q p by (simp add: drainStream_def cap_drainParsedConversations_def)
    with drainResponses_accounted [OF assms(1,2) p drainRequests_accounted [OF q assms(4)]] show ?thesis by simp
  qed
qed

section \<open>Events and sweeps\<close>

lemma processPayload_accounted:
  assumes "cc_sink cfg = Some answer" "marshals rt" "accounted answer 0 w stats"
    and "cap_processPayload lib rt cfg event payload w stats cs = (w', stats', cs')"
  shows "accounted answer 0 w' stats'"
proof -
  obtain now w1 where t: "timeNow w = (now, w1)" by force
  define cs2 where "cs2 = tlsSwitch (isSSL event) (cs\<lparr>cs_stream := mergeStreamMetadata event ((cs_stream cs)\<lparr>st_LastActive := now\<rparr>)\<rparr>)"
  have w1: "w_out w1 = w_out w" using timeNow_frame(1) [of w] t by simp
  show ?thesis
  proof (cases "cs_Ssl cs2 = isSSL event")
    case False
    then have "(w', stats', cs') = (w1, stats, cs2)"
      using assms(4) by (simp add: cap_processPayload_eq t Let_def flip: cs2_def)
    with assms(3) w1 show ?thesis by (simp add: accounted_def)
  next
    case True
    define stats1 where "stats1 = (if sequenceGap (cs_stream cs2) event
      then stats\<lparr>ps_outOfOrder := ps_outOfOrder stats + 1\<rparr> else stats)"
    define stats2 where "stats2 = (if classifyPayload payload = payloadUnknown
      then stats1\<lparr>ps_routedUnknown := ps_routedUnknown stats1 + 1\<rparr> else stats1)"
    have c2: "ps_emitErrors stats2 = ps_emitErrors stats" "ps_parsed stats2 = ps_parsed stats"
      by (simp_all add: stats2_def stats1_def)
    let ?append = "cap_appendPayload cfg (routeAsRequest event payload) payload (trackLoss event (cs_stream cs2)) stats2"
    note def = assms(4) [unfolded cap_processPayload_eq t Let_def prod.case, folded cs2_def, folded stats1_def, folded stats2_def]
    show ?thesis
    proof (cases ?append)
      case (Inl p)
      obtain state4 stats3 where p: "p = (state4, stats3)" by force
      have c3: "ps_emitErrors stats3 = ps_emitErrors stats2" "ps_parsed stats3 = ps_parsed stats2"
        using Inl p by (auto simp: cap_appendPayload_def Let_def split: if_splits)
      have "(w', stats') = (w1, stats3)" using def True Inl p by simp
      with c2 c3 assms(3) w1 show ?thesis by (simp add: accounted_def)
    next
      case (Inr p)
      obtain state4 stats3 where p: "p = (state4, stats3)" by force
      have c3: "ps_emitErrors stats3 = ps_emitErrors stats2" "ps_parsed stats3 = ps_parsed stats2"
        using Inr p by (auto simp: cap_appendPayload_def Let_def split: if_splits)
      obtain w2 stats4 cs5 m where d: "drainStream lib rt cfg False w1 stats3 (detectH2 (cs2\<lparr>cs_stream := state4\<rparr>)) = (w2, stats4, cs5, m)"
        by (metis prod_cases4)
      have "(w', stats') = (w2, cap_countParsed m stats4)" using def True Inr p d by simp
      moreover have "accounted answer 0 w1 stats3" using c2 c3 assms(3) w1 by (simp add: accounted_def)
      ultimately show ?thesis
        using accounted_parsed drainStream_accounted [OF assms(1,2) d] by fastforce
    qed
  qed
qed

definition procAccounted :: "runtime \<Rightarrow> captureConfig \<Rightarrow> captureProc \<Rightarrow> bool" where
  "procAccounted rt cfg cp \<longleftrightarrow>
     (\<forall>answer. cc_sink cfg = Some answer \<and> marshals rt \<longrightarrow> accounted answer 0 (cp_world cp) (cp_stats cp))"

lemma getOrCreate_out: "w_out (fst (snd (cap_getOrCreate key w s))) = w_out w"
  by (simp add: cap_getOrCreate_def timeNow_def Let_def split: option.splits)

lemma processEvent_accounted:
  assumes "cc_sink cfg = Some answer" "marshals rt" "accounted answer 0 (cp_world cp) (cp_stats cp)"
  shows "accounted answer 0 (cp_world (cap_processEvent lib rt cfg event cp)) (cp_stats (cap_processEvent lib rt cfg event cp))"
proof -
  consider "ev_EventType event = eventTypeClose"
    | "ev_EventType event \<noteq> eventTypeClose" "ev_EventType event \<noteq> eventTypeData \<or> ev_Size event = 0 \<or>
        length (ev_Payload event) = 0 \<or> isCounterNoise (eventPayload event)"
    | "ev_EventType event = eventTypeData" "ev_EventType event \<noteq> eventTypeClose" "ev_Size event \<noteq> 0"
        "length (ev_Payload event) \<noteq> 0" "\<not> isCounterNoise (eventPayload event)"
    by blast
  then show ?thesis
  proof cases
    case 1
    show ?thesis
    proof (cases "cap_get (sessionKey event) (cp_store cp)")
      case None
      with 1 assms(3) show ?thesis by (simp add: cap_processEvent_eq cap_handleCloseEvent_eq)
    next
      case (Some state)
      obtain w1 stats1 state1 m where d: "drainStream lib rt cfg True (cp_world cp) (cp_stats cp) state = (w1, stats1, state1, m)"
        by (metis prod_cases4)
      have "accounted answer 0 w1 (cap_countParsed m stats1)"
        using accounted_parsed drainStream_accounted [OF assms(1,2) d assms(3)] by simp
      with 1 Some d show ?thesis
        by (simp add: cap_processEvent_eq cap_handleCloseEvent_eq Let_def) (simp add: accounted_def)
    qed
  next
    case 2
    then show ?thesis using assms(3) by (auto simp: cap_processEvent_eq accounted_def Let_def)
  next
    case 3
    obtain state w1 store1 where g: "cap_getOrCreate (sessionKey event) (cp_world cp) (cp_store cp) = (state, w1, store1)"
      by (metis prod_cases3)
    obtain w2 stats2 state2 where p: "cap_processPayload lib rt cfg event (eventPayload event) w1 (cp_stats cp) state = (w2, stats2, state2)"
      by (metis prod_cases3)
    have "w_out w1 = w_out (cp_world cp)"
      using getOrCreate_out [of "sessionKey event" "cp_world cp" "cp_store cp"] g by simp
    then have "accounted answer 0 w1 (cp_stats cp)" using assms(3) by (simp add: accounted_def)
    from processPayload_accounted [OF assms(1,2) this p] 3 g p show ?thesis by (simp add: cap_processEvent_eq)
  qed
qed

lemma expireAll_accounted:
  assumes "cc_sink cfg = Some answer" "marshals rt"
  shows "cap_expireAll (cap_flush lib rt cfg) states (w, stats) = (m, (w', stats')) \<Longrightarrow> accounted answer n w stats \<Longrightarrow>
    accounted answer (n + m) w' stats'"
proof (induction states arbitrary: n w stats m)
  case (Cons state states)
  obtain w1 stats1 state1 k where d: "drainStream lib rt cfg True w stats state = (w1, stats1, state1, k)"
    by (metis prod_cases4)
  then have flush: "cap_flush lib rt cfg state (w, stats) = (k, (w1, stats1))" by (simp add: cap_flush_def)
  obtain j where e: "cap_expireAll (cap_flush lib rt cfg) states (w1, stats1) = (j, (w', stats'))" "m = k + j"
    using Cons.prems(1) flush by (auto split: prod.splits)
  from Cons.IH [OF e(1) drainStream_accounted [OF assms d Cons.prems(2)]] e(2) show ?case by (simp add: add.assoc)
qed simp

interpretation delivery: step_invariant "captureStep lib rt cfg" "procAccounted rt cfg" for lib rt cfg
proof
  fix cp i assume inv: "procAccounted rt cfg cp"
  show "procAccounted rt cfg (captureStep lib rt cfg i cp)"
    unfolding procAccounted_def
  proof (intro allI impI, elim conjE)
    fix answer assume s: "cc_sink cfg = Some answer" "marshals rt"
    with inv have a: "accounted answer 0 (cp_world cp) (cp_stats cp)" by (simp add: procAccounted_def)
    show "accounted answer 0 (cp_world (captureStep lib rt cfg i cp)) (cp_stats (captureStep lib rt cfg i cp))"
    proof (cases i)
      case (ChannelEvent event)
      let ?cp = "cp\<lparr>cp_stats := (cp_stats cp)\<lparr>ps_received := ps_received (cp_stats cp) + 1\<rparr>\<rparr>"
      have "accounted answer 0 (cp_world ?cp) (cp_stats ?cp)" using a by (simp add: accounted_def)
      from processEvent_accounted [OF s this] show ?thesis by (simp add: ChannelEvent handleChannelEvent_def)
    next
      case (SweepTick keys)
      obtain now w1 where t: "timeNow (cp_world cp) = (now, w1)" by force
      obtain expired store1 where sw: "cap_sweep keys (now - cc_sessionTTL cfg) (cp_store cp) = (expired, store1)" by force
      obtain m w2 stats1 where e: "cap_expireAll (cap_flush lib rt cfg) expired (w1, cp_stats cp) = (m, (w2, stats1))"
        by (metis prod_cases3)
      have "accounted answer 0 w1 (cp_stats cp)" using a timeNow_frame(1) [of "cp_world cp"] t by (simp add: accounted_def)
      from expireAll_accounted [OF s e this]
      have "accounted answer m w2 (if 0 < length expired
          then stats1\<lparr>ps_expiredSessions := ps_expiredSessions stats1 + of_nat (length expired)\<rparr> else stats1)"
        by (simp add: accounted_def)
      from accounted_parsed [OF this] show ?thesis
        by (simp add: SweepTick cap_cleanupTick_def cap_cleanupExpired_def t sw e)
    qed
  qed
qed

section \<open>What became of each conversation\<close>

definition acknowledged :: "captureSinkEnv \<Rightarrow> captureSinkWorld \<Rightarrow> bytes \<Rightarrow> bool" where
  "acknowledged env w p \<longleftrightarrow> (\<exists>i < length (cw_posts w). hr_body (cw_posts w ! i) = p \<and>
     (\<exists>code body. cx_do env i = Answered code body \<and> 200 \<le> code \<and> code < 300))"

lemma acknowledged_grows:
  "acknowledged env w p \<Longrightarrow> cw_posts w' = cw_posts w @ later \<Longrightarrow> acknowledged env w' p"
  by (auto simp: acknowledged_def nth_append intro: less_le_trans)

lemma post_cases:
  assumes "cap_post env s p w = (err, w')"
  shows "\<exists>later. cw_posts w' = cw_posts w @ later" "err = None \<Longrightarrow> acknowledged env w' p"
  using assms by (auto simp: cap_post_def acknowledged_def Let_def split: option.splits httpAnswer.splits if_splits)

lemma retry_posts:
  "cap_retryLoop env s p attempt b lastErr w = (err, w') \<Longrightarrow>
     (\<exists>later. cw_posts w' = cw_posts w @ later) \<and>
     (err = None \<longrightarrow> lastErr \<noteq> None \<or> attempt \<le> hs_maxRetries s \<longrightarrow> acknowledged env w' p)"
proof (induction "nat (hs_maxRetries s + 1 - attempt)" arbitrary: attempt b lastErr w)
  case 0
  then show ?case by (simp add: cap_retryLoop.simps [of _ s _ attempt])
next
  case (Suc n)
  then have le: "attempt \<le> hs_maxRetries s" by linarith
  obtain b1 w1 where w1: "(if attempt > 0 \<and> b > 0
      then (int64 (b * 2), w\<lparr>cw_sleeps := cw_sleeps w @ [b]\<rparr>) else (b, w)) = (b1, w1)" by force
  then have p1: "cw_posts w1 = cw_posts w" by (auto split: if_splits)
  obtain e w2 where p: "cap_post env s p w1 = (e, w2)" by force
  obtain later where m: "cw_posts w2 = cw_posts w @ later" using post_cases(1) [OF p] p1 by auto
  have eq: "(err, w') = (case e of None \<Rightarrow> (None, w2) | Some x \<Rightarrow> if \<not> retryableSinkError x then (Some x, w2)
         else cap_retryLoop env s p (attempt + 1) b1 (Some x) w2)"
    using Suc.prems by (subst (asm) cap_retryLoop.simps) (simp only: le if_True w1 p prod.case Let_def)
  show ?case
  proof (cases "\<exists>x. e = Some x \<and> retryableSinkError x")
    case True
    then obtain x where x: "e = Some x" "retryableSinkError x" by blast
    with eq have r: "cap_retryLoop env s p (attempt + 1) b1 (Some x) w2 = (err, w')" by simp
    have "n = nat (hs_maxRetries s + 1 - (attempt + 1))" using Suc.hyps(2) by linarith
    from Suc.hyps(1) [OF this r] m show ?thesis by auto
  next
    case False
    with eq post_cases(2) [OF p] m show ?thesis by (auto split: option.splits if_splits)
  qed
qed

lemma cap_Emit_posts:
  assumes "cap_Emit env s p w = (err, w')"
  shows "\<exists>later. cw_posts w' = cw_posts w @ later" "err = None \<Longrightarrow> 0 \<le> hs_maxRetries s \<Longrightarrow> acknowledged env w' p"
proof -
  obtain e w1 where r: "cap_retryLoop env s p 0 (hs_initialBackoff s) None w = (e, w1)" by force
  then have e: "err = e" "cw_posts w' = cw_posts w1"
    using assms cap_writeDeadLetter_letters(2) [of env "hs_deadLetterFile s" _ p w1] by (auto simp: cap_Emit_def)
  with retry_posts [OF r] show "\<exists>later. cw_posts w' = cw_posts w @ later" by simp
  from e retry_posts [OF r] show "err = None \<Longrightarrow> 0 \<le> hs_maxRetries s \<Longrightarrow> acknowledged env w' p"
    by (auto simp: acknowledged_def)
qed

text \<open>With a negative number of retries nothing is posted, and nothing is reported.\<close>

lemma negative_retries_silent: "hs_maxRetries s < 0 \<Longrightarrow> cap_Emit env s p w = (None, w)"
  by (simp add: cap_Emit_def cap_retryLoop.simps)

lemma emitOutcome_ok: "emitOutcome e = EmitOk \<longleftrightarrow> e = None" "emitOutcome e \<noteq> EmitPanic"
  by (simp_all add: emitOutcome_def split: option.splits)

lemma reportedEmit_eq: "cap_Emit env s p w = (e, w1) \<Longrightarrow> reportedEmit env s p w = (emitOutcome e, w1)"
  by (simp add: reportedEmit_def)

lemma deliver_posts: "\<exists>later. cw_posts (snd (deliverAll (reportedEmit env s) ps w)) = cw_posts w @ later"
proof (induction ps arbitrary: w)
  case (Cons p ps)
  obtain e w1 where e: "cap_Emit env s p w = (e, w1)" by force
  from Cons.IH [of w1] cap_Emit_posts(1) [OF e] show ?case by (auto simp: reportedEmit_eq [OF e] e case_prod_beta Let_def)
qed simp

lemma deliver_acknowledged:
  assumes "0 \<le> hs_maxRetries s"
  shows "(p, EmitOk) \<in> set (fst (deliverAll (reportedEmit env s) ps w)) \<Longrightarrow> acknowledged env (snd (deliverAll (reportedEmit env s) ps w)) p"
proof (induction ps arbitrary: w)
  case (Cons q ps)
  obtain e w1 where e: "cap_Emit env s q w = (e, w1)" by force
  obtain later where m: "cw_posts (snd (deliverAll (reportedEmit env s) ps w1)) = cw_posts w1 @ later" using deliver_posts by blast
  from Cons.prems consider "p = q" "e = None" | "(p, EmitOk) \<in> set (fst (deliverAll (reportedEmit env s) ps w1))"
    by (auto simp: reportedEmit_eq [OF e] e case_prod_beta Let_def emitOutcome_ok eq_commute [of EmitOk])
  then show ?case
  proof cases
    case 1
    with cap_Emit_posts(2) [OF e _ assms] acknowledged_grows [OF _ m] show ?thesis by (simp add: reportedEmit_eq [OF e] e case_prod_beta Let_def)
  next
    case 2
    from Cons.IH [OF this] show ?thesis by (simp add: reportedEmit_eq [OF e] e case_prod_beta Let_def)
  qed
qed simp

lemma failures_delivered:
  "failures (attachedSink env s w0) sent ps =
     length (filter (\<lambda>(p, r). r \<noteq> EmitOk) (fst (deliverAll (reportedEmit env s) ps (sinkAfter env s sent w0))))"
proof (induction ps arbitrary: sent)
  case (Cons p ps)
  obtain e w1 where e: "cap_Emit env s p (sinkAfter env s sent w0) = (e, w1)" by force
  from Cons.IH [of "sent @ [p]"] e show ?case
    by (simp add: attachedSink_def reportedEmit_eq [OF e] e case_prod_beta Let_def emitOutcome_ok)
qed simp


definition flakyCaptureEnv :: captureSinkEnv where
  "flakyCaptureEnv = \<lparr>cx_newRequest = (\<lambda>_. None),
     cx_do = (\<lambda>n. if n = 0 then DoFailed ''refused'' else if n = 1 then Answered 503 [] else Answered 200 []),
     cx_dir = (\<lambda>_. ''.''), cx_mkdirAll = (\<lambda>_. None), cx_now = (\<lambda>_. ''now''),
     cx_marshalLetter = (\<lambda>l. Inr (cdl_Payload l)), cx_openFile = (\<lambda>_. None), cx_write = (\<lambda>_ s. (s, None))\<rparr>"

definition quietCapture :: captureSinkWorld where
  "quietCapture = \<lparr>cw_posts = [], cw_sleeps = [], cw_letters = [], cw_file = []\<rparr>"

definition oneRetry :: httpConversationSink where
  "oneRetry = newHTTPSink ''http://b'' ''t'' 1 500 ''dead''"


end
