(* ===== verification/StartUp.thy ===== *)
theory StartUp
  imports KernelConfig
begin

text \<open>
  What the starts of the two capturing programs share: tracepoints of which some are optional, one
  ring buffer per shard, and facts on the parsed port sets and on the settings of the kernel.
\<close>

definition eventShards :: nat where "eventShards = 8"

text \<open>\<open>Inl\<close> names the mandatory tracepoint whose failure ends the process.\<close>

fun attachTracepoints :: "(bytes \<Rightarrow> bool) \<Rightarrow> (bytes \<times> bool) list \<Rightarrow> bytes + bytes list" where
  "attachTracepoints attaches [] = Inr []"
| "attachTracepoints attaches ((name, required) # rest) =
     (if attaches name then map_sum id (Cons name) (attachTracepoints attaches rest)
      else if required then Inl name
      else attachTracepoints attaches rest)"

text \<open>The first shard whose ring buffer cannot be opened.\<close>

definition openReaders :: "(nat \<Rightarrow> bool) \<Rightarrow> nat option" where
  "openReaders opens = find (\<lambda>shard. \<not> opens shard) [0 ..< eventShards]"

lemma attachTracepoints_ok:
  "attachTracepoints attaches tps = Inr names \<Longrightarrow>
     names = filter attaches (map fst tps) \<and> (\<forall>name. (name, True) \<in> set tps \<longrightarrow> attaches name)"
proof (induction tps arbitrary: names)
  case (Cons tp tps)
  obtain name required where tp: "tp = (name, required)" by force
  show ?case
  proof (cases "attaches name")
    case True
    then obtain rest where "attachTracepoints attaches tps = Inr rest" "names = name # rest"
      using Cons.prems by (auto simp: tp map_sum_def split: sum.splits)
    with Cons.IH True show ?thesis by (auto simp: tp)
  qed (use Cons in \<open>auto simp: tp split: if_splits\<close>)
qed simp

lemma parsePortSet_range: "parsePortSet raw = Inr ports \<Longrightarrow> finite ports \<and> ports \<subseteq> {1..65535}"
  unfolding parsePortSet_spec by (auto split: option.splits intro: finite_subset [of _ "{1..65535}"])

lemma captureSettings_gates:
  "map_of (captureSettings mp cr cw cs tp cg) captureConfigMaxPayloadSize = Some mp"
  "map_of (captureSettings mp cr cw cs tp cg) captureConfigCaptureReads = Some (boolToKernelConfig cr)"
  "map_of (captureSettings mp cr cw cs tp cg) captureConfigCaptureWrites = Some (boolToKernelConfig cw)"
  "map_of (captureSettings mp cr cw cs tp cg) captureConfigCaptureStdio = Some (boolToKernelConfig cs)"
  "map_of (captureSettings mp cr cw cs tp cg) captureConfigTargetPorts = Some (boolToKernelConfig tp)"
  "map_of (captureSettings mp cr cw cs tp cg) captureConfigCgroupFilter = Some (boolToKernelConfig cg)"
  by (simp_all add: captureSettings_def captureConfigMaxPayloadSize_def captureConfigCaptureReads_def
      captureConfigCaptureWrites_def captureConfigCaptureStdio_def captureConfigTargetPorts_def captureConfigCgroupFilter_def)

end
