(* ===== verification/CaptureSSL.thy ===== *)
theory CaptureSSL
  imports GoLib
begin

text \<open>
  The TLS probes of the one-process variant, \<^verbatim>\<open>cmd/karaxys-capture/ssl.go\<close>: every interval the
  processes are searched for a mapped \<open>libssl\<close>, and the eight probes are attached to each library file
  that was not seen before. The file system and the kernel's uprobes are those of each scan.
\<close>

section \<open>The environment of a scan\<close>

text \<open>\<open>os.Stat\<close>: an error, a file without the Unix attributes, or its device and inode.\<close>

type_synonym fileStat = "bytes \<Rightarrow> (u64 \<times> u64) option option"

record sslUprobe =
  up_symbol :: bytes
  up_prog :: "bytes option"
  up_ret :: bool

record sslLink =
  lk_path :: bytes
  lk_probe :: sslUprobe

text \<open>The entries of /proc, the lines that the scanner reads of each process's maps, the files while
  the libraries are searched and when their identity is asked for, and what the kernel accepts.
  \<open>sf_order\<close> is the order in which the map of the paths is iterated.\<close>

record sslFiles =
  sf_entries :: "bytes list option"
  sf_maps :: "int \<Rightarrow> bytes list option"
  sf_stat :: fileStat
  sf_order :: "bytes list"
  sf_identityStat :: fileStat
  sf_opens :: "bytes \<Rightarrow> bool"
  sf_attaches :: "bytes \<Rightarrow> sslUprobe \<Rightarrow> bool"

section \<open>Paths\<close>

text \<open>\<open>filepath.Base\<close>, and \<open>filepath.Join\<close> where the first part is an absolute path, so that
  \<open>Clean\<close> is applied to an absolute path.\<close>

definition filepath_Base :: "bytes \<Rightarrow> bytes" where
  "filepath_Base path =
     (if path = [] then ''.''
      else let p = trim_right_char (CHR 0x2F) path in
        if p = [] then ''/'' else last (split_on (CHR 0x2F) p))"

definition cleanAbsolute :: "bytes \<Rightarrow> bytes" where
  "cleanAbsolute path =
     (let parts = fold (\<lambda>part acc. if part = [] \<or> part = ''.'' then acc
                          else if part = ''..'' then butlast acc else acc @ [part])
            (split_on (CHR 0x2F) path) []
      in if parts = [] then ''/'' else concat (map (\<lambda>part. CHR 0x2F # part) parts))"

definition filepath_Join :: "bytes \<Rightarrow> bytes \<Rightarrow> bytes" where
  "filepath_Join root path = cleanAbsolute (root @ CHR 0x2F # path)"

section \<open>Finding the libraries\<close>

definition hostAccessiblePath :: "fileStat \<Rightarrow> bytes \<Rightarrow> bytes \<Rightarrow> bytes" where
  "hostAccessiblePath stat root path =
     (if stat path \<noteq> None then path
      else let candidate = filepath_Join root path in
        if stat candidate \<noteq> None then candidate else [])"

text \<open>The part of a line of /proc/PID/maps from its first slash on, if that names a libssl.\<close>

definition libsslOf :: "bytes \<Rightarrow> bytes option" where
  "libsslOf line =
     (let path = dropWhile (\<lambda>c. c \<noteq> CHR 0x2F) line in
      if path \<noteq> [] \<and> contains (filepath_Base path) ''libssl.so'' then Some path else None)"

fun scanLines :: "fileStat \<Rightarrow> bytes \<Rightarrow> bytes list \<Rightarrow> bytes" where
  "scanLines stat root [] = []"
| "scanLines stat root (line # rest) =
     (case libsslOf line of
        None \<Rightarrow> scanLines stat root rest
      | Some path \<Rightarrow> hostAccessiblePath stat root path)"

definition procRoot :: "int \<Rightarrow> bytes" where
  "procRoot pid = ''/proc/'' @ show_int pid @ ''/root''"

definition scanProcMapsForLibssl :: "sslFiles \<Rightarrow> int \<Rightarrow> bytes" where
  "scanProcMapsForLibssl files pid =
     (case sf_maps files pid of
        None \<Rightarrow> []
      | Some lines \<Rightarrow> scanLines (sf_stat files) (procRoot pid) lines)"

definition anyOrder :: "'a list \<Rightarrow> 'a list \<Rightarrow> 'a list" where
  "anyOrder first keys =
     filter (\<lambda>k. k \<in> set keys) (remdups first) @ filter (\<lambda>k. k \<notin> set first) (remdups keys)"

definition discoverLibssl :: "sslFiles \<Rightarrow> bytes list" where
  "discoverLibssl files =
     (case sf_entries files of
        None \<Rightarrow> []
      | Some names \<Rightarrow>
          anyOrder (sf_order files)
            (filter (\<lambda>path. path \<noteq> []) (map (scanProcMapsForLibssl files) (List.map_filter atoi names))))"

definition fileIdentity :: "fileStat \<Rightarrow> bytes \<Rightarrow> bytes" where
  "fileIdentity stat path =
     (case stat path of
        Some (Some (dev, ino)) \<Rightarrow> show_nat (unat dev) @ '':'' @ show_nat (unat ino)
      | _ \<Rightarrow> path)"

section \<open>Attaching\<close>

text \<open>A program of the eBPF objects is known by its field; \<open>loaded\<close> tells which are not nil.\<close>

definition sslProbes :: "(bytes \<Rightarrow> bool) \<Rightarrow> sslUprobe list" where
  "sslProbes loaded =
     map (\<lambda>(symbol, prog, ret). \<lparr>up_symbol = symbol, up_prog = (if loaded prog then Some prog else None), up_ret = ret\<rparr>)
       [(''SSL_write'', ''ProbeEntrySSL_write'', False),
        (''SSL_write'', ''ProbeRetSSL_write'', True),
        (''SSL_read'', ''ProbeEntrySSL_read'', False),
        (''SSL_read'', ''ProbeRetSSL_read'', True),
        (''SSL_write_ex'', ''ProbeEntrySSL_writeEx'', False),
        (''SSL_write_ex'', ''ProbeRetSSL_writeEx'', True),
        (''SSL_read_ex'', ''ProbeEntrySSL_readEx'', False),
        (''SSL_read_ex'', ''ProbeRetSSL_readEx'', True)]"

record sslAttacher =
  sa_objs :: "bytes \<Rightarrow> bool"
  sa_seen :: "bytes set"
  sa_links :: "sslLink list"

definition newSSLAttacher :: "(bytes \<Rightarrow> bool) \<Rightarrow> sslAttacher" where
  "newSSLAttacher objs = \<lparr>sa_objs = objs, sa_seen = {}, sa_links = []\<rparr>"

definition attachProbes :: "sslFiles \<Rightarrow> (bytes \<Rightarrow> bool) \<Rightarrow> bytes \<Rightarrow> sslLink list" where
  "attachProbes files objs path =
     map (\<lambda>p. \<lparr>lk_path = path, lk_probe = p\<rparr>)
       (filter (\<lambda>p. up_prog p \<noteq> None \<and> sf_attaches files path p) (sslProbes objs))"

text \<open>Beside the new state, the calls of \<open>OpenExecutable\<close>: the identity, the path and what was attached.\<close>

record sslOpened =
  so_identity :: bytes
  so_path :: bytes
  so_links :: "sslLink list"

fun attachAll :: "sslFiles \<Rightarrow> bytes list \<Rightarrow> sslAttacher \<Rightarrow> sslOpened list \<times> sslAttacher" where
  "attachAll files [] a = ([], a)"
| "attachAll files (sslPath # rest) a =
     (let ident = fileIdentity (sf_identityStat files) sslPath in
      if ident \<in> sa_seen a then attachAll files rest a
      else let new = (if sf_opens files sslPath then attachProbes files (sa_objs a) sslPath else []);
               (opened, a') = attachAll files rest
                  (a\<lparr>sa_seen := insert ident (sa_seen a), sa_links := sa_links a @ new\<rparr>)
           in (\<lparr>so_identity = ident, so_path = sslPath, so_links = new\<rparr> # opened, a'))"

definition scanAndAttach :: "sslFiles \<Rightarrow> sslAttacher \<Rightarrow> sslOpened list \<times> sslAttacher" where
  "scanAndAttach files a = attachAll files (discoverLibssl files) a"

fun scanTicks :: "sslFiles list \<Rightarrow> sslAttacher \<Rightarrow> sslOpened list \<times> sslAttacher" where
  "scanTicks [] a = ([], a)"
| "scanTicks (files # ticks) a =
     (let (opened, a1) = scanAndAttach files a; (later, a2) = scanTicks ticks a1 in (opened @ later, a2))"

text \<open>\<open>run\<close>: a scan at once, then one per tick, unless the interval is not positive.\<close>

definition ssl_run :: "duration \<Rightarrow> sslFiles \<Rightarrow> sslFiles list \<Rightarrow> sslAttacher \<Rightarrow> sslOpened list \<times> sslAttacher" where
  "ssl_run interval start ticks a = scanTicks (start # (if interval \<le> 0 then [] else ticks)) a"

definition ssl_close :: "sslAttacher \<Rightarrow> sslLink list \<times> sslAttacher" where
  "ssl_close a = (sa_links a, a\<lparr>sa_links := []\<rparr>)"

section \<open>What is probed\<close>

lemma anyOrder_set: "set (anyOrder first keys) = set keys"
  by (auto simp: anyOrder_def)

text \<open>An attempt on a file that a scan found.\<close>

definition attempted :: "(bytes \<Rightarrow> bool) \<Rightarrow> sslFiles \<Rightarrow> bytes list \<Rightarrow> sslOpened \<Rightarrow> bool" where
  "attempted objs files paths attempt \<longleftrightarrow>
     so_path attempt \<in> set paths \<and> so_identity attempt = fileIdentity (sf_identityStat files) (so_path attempt) \<and>
     so_links attempt = (if sf_opens files (so_path attempt) then attachProbes files objs (so_path attempt) else [])"

definition probedOnce :: "sslAttacher \<Rightarrow> sslOpened list \<Rightarrow> sslAttacher \<Rightarrow> bool" where
  "probedOnce a opened a' \<longleftrightarrow>
     distinct (map so_identity opened) \<and> so_identity ` set opened \<inter> sa_seen a = {} \<and>
     sa_seen a' = sa_seen a \<union> so_identity ` set opened \<and>
     sa_links a' = sa_links a @ concat (map so_links opened) \<and> sa_objs a' = sa_objs a"

lemma probedOnce_none: "probedOnce a [] a"
  by (simp add: probedOnce_def)

lemma probedOnce_append:
  "probedOnce a opened a1 \<Longrightarrow> probedOnce a1 opened' a2 \<Longrightarrow> probedOnce a (opened @ opened') a2"
  by (auto simp: probedOnce_def)

lemma probedOnce_one:
  "so_identity attempt \<notin> sa_seen a \<Longrightarrow>
   probedOnce a [attempt] (a\<lparr>sa_seen := insert (so_identity attempt) (sa_seen a), sa_links := sa_links a @ so_links attempt\<rparr>)"
  by (simp add: probedOnce_def)

lemma attachAll_once:
  "attachAll files paths a = (opened, a') \<Longrightarrow>
   probedOnce a opened a' \<and> fileIdentity (sf_identityStat files) ` set paths \<subseteq> sa_seen a' \<and>
   (\<forall>attempt \<in> set opened. attempted (sa_objs a) files paths attempt)"
proof (induction paths arbitrary: a opened)
  case (Cons path rest)
  let ?ident = "fileIdentity (sf_identityStat files) path"
  show ?case
  proof (cases "?ident \<in> sa_seen a")
    case True
    then have "attachAll files rest a = (opened, a')" using Cons.prems by (simp add: Let_def)
    from Cons.IH [OF this] True show ?thesis by (auto simp: probedOnce_def attempted_def)
  next
    case False
    define attempt where "attempt = \<lparr>so_identity = ?ident, so_path = path,
        so_links = (if sf_opens files path then attachProbes files (sa_objs a) path else [])\<rparr>"
    define a1 where "a1 = a\<lparr>sa_seen := insert (so_identity attempt) (sa_seen a), sa_links := sa_links a @ so_links attempt\<rparr>"
    obtain others where rest: "attachAll files rest a1 = (others, a')" and opened: "opened = attempt # others"
      using Cons.prems False by (auto simp: Let_def a1_def attempt_def split: prod.splits)
    have first: "probedOnce a [attempt] a1"
      unfolding a1_def using False by (intro probedOnce_one) (simp add: attempt_def)
    have "attempted (sa_objs a) files (path # rest) attempt" by (simp add: attempted_def attempt_def)
    moreover have "attempted (sa_objs a1) files rest o' \<Longrightarrow> attempted (sa_objs a) files (path # rest) o'" for o'
      by (simp add: attempted_def a1_def)
    moreover note later = Cons.IH [OF rest]
    moreover have once: "probedOnce a opened a'"
      using probedOnce_append [OF first] later by (simp add: opened)
    moreover have "?ident \<in> sa_seen a'" using once by (auto simp: opened attempt_def probedOnce_def)
    ultimately show ?thesis by (auto simp: opened)
  qed
qed (simp add: probedOnce_none)

lemma scanTicks_once:
  "scanTicks scans a = (opened, a') \<Longrightarrow>
   probedOnce a opened a' \<and>
   (\<forall>files \<in> set scans. fileIdentity (sf_identityStat files) ` set (discoverLibssl files) \<subseteq> sa_seen a') \<and>
   (\<forall>attempt \<in> set opened. \<exists>files \<in> set scans. attempted (sa_objs a) files (discoverLibssl files) attempt)"
proof (induction scans arbitrary: a opened)
  case (Cons files scans)
  obtain first a1 later where first: "attachAll files (discoverLibssl files) a = (first, a1)"
    and later: "scanTicks scans a1 = (later, a')" and opened: "opened = first @ later"
    using Cons.prems by (auto simp: scanAndAttach_def split: prod.splits)
  note f = attachAll_once [OF first] and l = Cons.IH [OF later]
  moreover have "sa_objs a1 = sa_objs a" "sa_seen a1 \<subseteq> sa_seen a'" using f l by (auto simp: probedOnce_def)
  ultimately show ?case using probedOnce_append [of a first a1 later a'] by (auto simp: opened)
qed (simp add: probedOnce_none)

text \<open>C36. Each library file is probed once. In any run of the attacher, whatever the processes and the file
  system do between the scans, no file identity is opened twice; every library that a scan finds
  has been tried by then, under its identity; each attempt concerns a library that a scan found and attaches
  to it the loaded probes that the kernel accepts, or none at all if the file cannot be opened, and is not repeated then
  either; and the links held are those of the attempts, in order.\<close>

theorem tls_files_probed_once:
  assumes "ssl_run interval start ticks (newSSLAttacher objs) = (opened, a)"
    and "scans = start # (if interval \<le> 0 then [] else ticks)"
  shows "distinct (map so_identity opened) \<and> sa_links a = concat (map so_links opened) \<and>
    (\<forall>files \<in> set scans. \<forall>path \<in> set (discoverLibssl files). \<exists>attempt \<in> set opened.
       so_identity attempt = fileIdentity (sf_identityStat files) path) \<and>
    (\<forall>attempt \<in> set opened. \<exists>files \<in> set scans. so_path attempt \<in> set (discoverLibssl files) \<and>
       so_identity attempt = fileIdentity (sf_identityStat files) (so_path attempt) \<and>
       so_links attempt = (if sf_opens files (so_path attempt) then attachProbes files objs (so_path attempt) else []))"
  using scanTicks_once [OF assms(1) [unfolded ssl_run_def, folded assms(2)]]
  by (force simp: newSSLAttacher_def probedOnce_def attempted_def image_iff subset_iff)

section \<open>Libraries of containers\<close>

definition mappedLibrary :: "sslFiles \<Rightarrow> bytes \<Rightarrow> bool" where
  "mappedLibrary files path \<longleftrightarrow>
     (\<exists>pid lines line. sf_maps files pid = Some lines \<and> line \<in> set lines \<and> libsslOf line = Some path)"

lemma scanLines_host:
  "scanLines stat root lines \<noteq> [] \<Longrightarrow> (\<And>line path. line \<in> set lines \<Longrightarrow> libsslOf line = Some path \<Longrightarrow> stat path \<noteq> None) \<Longrightarrow>
     \<exists>line \<in> set lines. libsslOf line = Some (scanLines stat root lines)"
proof (induction lines)
  case (Cons line rest)
  show ?case
  proof (cases "libsslOf line")
    case None
    with Cons show ?thesis by auto
  next
    case (Some path)
    with Cons.prems(2) [of line path] show ?thesis by (auto simp: hostAccessiblePath_def)
  qed
qed simp

lemma discovered_on_host:
  assumes "path \<in> set (discoverLibssl files)" "\<And>path. mappedLibrary files path \<Longrightarrow> sf_stat files path \<noteq> None"
  shows "mappedLibrary files path"
proof -
  obtain pid where path: "path = scanProcMapsForLibssl files pid" "path \<noteq> []"
    using assms(1) by (auto simp: discoverLibssl_def anyOrder_set split: option.splits)
  then obtain lines where lines: "sf_maps files pid = Some lines" "path = scanLines (sf_stat files) (procRoot pid) lines"
    by (auto simp: scanProcMapsForLibssl_def split: option.splits)
  have "\<exists>line \<in> set lines. libsslOf line = Some (scanLines (sf_stat files) (procRoot pid) lines)"
  proof (rule scanLines_host)
    show "scanLines (sf_stat files) (procRoot pid) lines \<noteq> []" using path(2) lines(2) by simp
    show "sf_stat files path' \<noteq> None" if "line \<in> set lines" "libsslOf line = Some path'" for line path'
      using assms(2) [of path'] that lines(1) unfolding mappedLibrary_def by blast
  qed
  with lines show ?thesis by (auto simp: mappedLibrary_def)
qed

text \<open>The library of a container is not probed where the host has a file of the same name. The path of a mapping is
  one of the process's mount namespace, but it is first looked up on the host: as long as the host has some file at
  each mapped path, only these files are opened, and a file that is none of them, such as the library that a
  containerised process maps from its own root, is never probed.\<close>

theorem container_library_missed:
  assumes "ssl_run interval start ticks (newSSLAttacher objs) = (opened, a)"
    and "scans = start # (if interval \<le> 0 then [] else ticks)"
    and "\<And>files path. files \<in> set scans \<Longrightarrow> mappedLibrary files path \<Longrightarrow>
      sf_stat files path \<noteq> None \<and> fileIdentity (sf_identityStat files) path \<noteq> ident"
  shows "ident \<notin> so_identity ` set opened \<and>
    (\<forall>attempt \<in> set opened. \<exists>files \<in> set scans. mappedLibrary files (so_path attempt))"
proof -
  have "\<forall>attempt \<in> set opened. \<exists>files \<in> set scans. attempted objs files (discoverLibssl files) attempt"
    using scanTicks_once [OF assms(1) [unfolded ssl_run_def, folded assms(2)]] by (simp add: newSSLAttacher_def)
  moreover have "mappedLibrary files (so_path attempt) \<and> so_identity attempt \<noteq> ident"
    if "files \<in> set scans" "attempted objs files (discoverLibssl files) attempt" for files attempt
    using that discovered_on_host [of "so_path attempt" files] assms(3) by (auto simp: attempted_def)
  ultimately show ?thesis by blast
qed

section \<open>Samples\<close>

text \<open>A process of the host and one of a container map a libssl at the same path; the container's is another file.
  In the first scan the kernel refuses to open the file, in the second it does not.\<close>

definition hostLibrary :: bytes where "hostLibrary = ''/lib/libssl.so.3''"

definition libraryStat :: fileStat where
  "libraryStat path =
     (if path = hostLibrary then Some (Some (1, 5))
      else if path = ''/proc/20/root/lib/libssl.so.3'' then Some (Some (2, 7)) else None)"

definition sampleFiles :: "bool \<Rightarrow> bool \<Rightarrow> sslFiles" where
  "sampleFiles onHost opens = \<lparr>
     sf_entries = Some [''10'', ''self'', ''20''],
     sf_maps = (\<lambda>pid. if pid = 10 \<and> onHost \<or> pid = 20 then
        Some [''7f00-7f01 r-xp 00000000 08:01 42'', ''7f10-7f20 r-xp 00000000 08:01 43 /lib/libssl.so.3''] else None),
     sf_stat = (\<lambda>path. if path = hostLibrary \<and> \<not> onHost then None else libraryStat path), sf_order = [],
     sf_identityStat = (\<lambda>path. if path = hostLibrary \<and> \<not> onHost then None else libraryStat path),
     sf_opens = (\<lambda>_. opens), sf_attaches = (\<lambda>path p. up_symbol p \<noteq> ''SSL_read_ex'')\<rparr>"

lemma sample_libssl:
  "libsslOf ''7f00-7f01 r-xp 00000000 08:01 42'' = None"
  "libsslOf ''7f10-7f20 r-xp 00000000 08:01 43 /lib/libssl.so.3'' = Some hostLibrary"
  by code_simp+

lemma sample_mapped: "mappedLibrary (sampleFiles True opens) path \<longleftrightarrow> path = hostLibrary"
  using sample_libssl by (auto simp: mappedLibrary_def sampleFiles_def split: if_splits intro!: exI [of _ 20])

theorem tls_files_probed_once_witness:
  "\<exists>opened a. ssl_run 5 (sampleFiles True False) [sampleFiles False True, sampleFiles True True] (newSSLAttacher (\<lambda>_. True)) = (opened, a) \<and>
     map so_identity opened = [''1:5'', ''2:7''] \<and> distinct (map so_identity opened) \<and>
     length (sa_links a) = 6 \<and> sa_links a = concat (map so_links opened)"
proof -
  let ?run = "ssl_run 5 (sampleFiles True False) [sampleFiles False True, sampleFiles True True] (newSSLAttacher (\<lambda>_. True))"
  have "(map so_identity (fst ?run), length (sa_links (snd ?run))) = ([''1:5'', ''2:7''], 6)" by code_simp
  moreover obtain opened a where "?run = (opened, a)" by force
  ultimately show ?thesis using tls_files_probed_once [of 5 _ _ _ opened a] by auto
qed

theorem container_library_missed_witness:
  "\<exists>opened a. ssl_run 5 (sampleFiles True True) [sampleFiles True True] (newSSLAttacher (\<lambda>_. True)) = (opened, a) \<and>
     ''2:7'' \<notin> so_identity ` set opened \<and> opened \<noteq> []"
proof -
  let ?run = "ssl_run 5 (sampleFiles True True) [sampleFiles True True] (newSSLAttacher (\<lambda>_. True))"
  have "fst ?run \<noteq> [] \<longleftrightarrow> True" by code_simp
  moreover obtain opened a where "?run = (opened, a)" by force
  moreover have "fileIdentity (sf_identityStat (sampleFiles True True)) hostLibrary = ''1:5''"
    "sf_stat (sampleFiles True True) hostLibrary \<noteq> None" by code_simp+
  ultimately show ?thesis
    using container_library_missed [of 5 "sampleFiles True True" "[sampleFiles True True]" "\<lambda>_. True" opened a _ "''2:7''"]
    by (auto simp: sample_mapped)
qed

end
