(* ===== verification/CaptureMain.thy ===== *)
theory CaptureMain
  imports StartUp CaptureTarget CaptureDelivery CaptureRuns CaptureSSL
begin

text \<open>
  The start of karaxys-capture, \<^verbatim>\<open>main\<close> of \<^verbatim>\<open>cmd/karaxys-capture/main.go\<close>: the flags, their
  checks, and the order in which the kernel's maps, the targets, the tracepoints, the ring buffers and
  the goroutines are set up, each of which may end the process; then what a start guarantees to every run.
\<close>

section \<open>Flags\<close>

record captureFlags =
  fg_ingestURL :: bytes
  fg_accountToken :: bytes
  fg_agentID :: bytes
  fg_ignorePorts :: bytes
  fg_targetPorts :: bytes
  fg_targetPIDs :: bytes
  fg_targetPIDTree :: bool
  fg_maxPayloadSize :: int
  fg_captureInbound :: bool
  fg_captureOutbound :: bool
  fg_captureReads :: bool
  fg_captureWrites :: bool
  fg_captureTLS :: bool
  fg_allPIDsMax :: int
  fg_targetRefreshInterval :: duration
  fg_metadataTTL :: duration
  fg_sessionTTL :: duration
  fg_statsInterval :: duration
  fg_maxBodyBytes :: int
  fg_httpTimeout :: duration
  fg_httpMaxRetries :: int
  fg_deadLetterFile :: bytes
  fg_debugPayload :: bool

definition defaultMaxStreamBytes :: int where "defaultMaxStreamBytes = 8 * 1024 * 1024"
definition defaultHTTPRetryDelay :: duration where "defaultHTTPRetryDelay = 500000000"

definition defaultCaptureFlags :: "(bytes \<Rightarrow> bytes) \<Rightarrow> captureFlags" where
  "defaultCaptureFlags getenv = \<lparr>
     fg_ingestURL = getenv ''KARAXYS_INGEST_URL'',
     fg_accountToken = getenv ''KARAXYS_ACCOUNT_TOKEN'',
     fg_agentID = getenv ''KARAXYS_AGENT_ID'',
     fg_ignorePorts = ''9092,19092,27017,6379,9644,9100'',
     fg_targetPorts = [],
     fg_targetPIDs = [],
     fg_targetPIDTree = False,
     fg_maxPayloadSize = maxKernelPayloadSize,
     fg_captureInbound = True,
     fg_captureOutbound = True,
     fg_captureReads = True,
     fg_captureWrites = True,
     fg_captureTLS = True,
     fg_allPIDsMax = 8192,
     fg_targetRefreshInterval = 5000000000,
     fg_metadataTTL = 15000000000,
     fg_sessionTTL = 60000000000,
     fg_statsInterval = 10000000000,
     fg_maxBodyBytes = 1024 * 1024,
     fg_httpTimeout = 10000000000,
     fg_httpMaxRetries = 3,
     fg_deadLetterFile = getenv ''KARAXYS_DEAD_LETTER_FILE'',
     fg_debugPayload = False\<rparr>"

section \<open>The environment\<close>

text \<open>
  \<open>url.Parse\<close>; whether the memory limit can be lifted, the objects loaded, a tracepoint attached and
  a ring buffer opened; the loaded maps and programs; the faults of the maps; the processes; the network.
\<close>

record startEnv =
  en_parseURL :: "bytes \<Rightarrow> (bytes \<times> bytes) option"
  en_rlimit :: bool
  en_loads :: bool
  en_captureConfig :: configMap
  en_ignoredPorts :: portMap
  en_targetPorts :: portMap
  en_socketTuples :: "(flowKey \<times> kernelSocketTuple) list"
  en_programs :: "bytes \<Rightarrow> bool"
  en_faults :: kernelFaults
  en_targets :: captureTargetEnv
  en_tracepoint :: "bytes \<Rightarrow> bool"
  en_reader :: "nat \<Rightarrow> bool"
  en_sink :: captureSinkEnv
  en_sinkWorld :: captureSinkWorld

text \<open>The \<open>log.Fatal\<close> that ends the process, or the panic of \<open>time.NewTicker\<close> in the goroutines that log.\<close>

datatype startError =
    MissingIngestURL
  | MissingAccountToken
  | MaxPayloadOutOfRange
  | InvalidIgnorePorts bytes
  | InvalidTargetPorts bytes
  | RlimitFailed
  | LoadingFailed
  | KernelCaptureFailed kernelError
  | IgnoredPortsFailed kernelError
  | InvalidTargetPIDs bytes
  | InitialInjectionFailed captureTargetError
  | TracepointFailed bytes
  | RingReaderFailed nat
  | StatsTickerPanics

record startedCapture =
  run_cfg :: captureConfig
  run_sink :: httpConversationSink
  run_deps :: shardCaptureDeps
  run_targets :: allPIDsTargetManager
  run_captureConfig :: configMap
  run_ignoredPorts :: portMap
  run_targetPorts :: portMap
  run_tracepoints :: "bytes list"
  run_ssl :: "sslAttacher option"

section \<open>Start-up\<close>

definition checkCaptureFlags ::
  "(bytes \<Rightarrow> (bytes \<times> bytes) option) \<Rightarrow> captureFlags \<Rightarrow> startError + portSet \<times> portSet" where
  "checkCaptureFlags parseURL f =
     (if fg_ingestURL f = [] then Inl MissingIngestURL
      else if fg_accountToken f = [] then Inl MissingAccountToken
      else if fg_maxPayloadSize f \<le> 0 \<or> fg_maxPayloadSize f > maxKernelPayloadSize then Inl MaxPayloadOutOfRange
      else case cap_parsePortSet (fg_ignorePorts f) of
             Inl part \<Rightarrow> Inl (InvalidIgnorePorts part)
           | Inr ignorePorts \<Rightarrow>
               (case cap_parsePortSet (fg_targetPorts f) of
                  Inl part \<Rightarrow> Inl (InvalidTargetPorts part)
                | Inr targetPorts \<Rightarrow>
                    (let port = portFromURL parseURL (fg_ingestURL f)
                     in Inr (if port > 0 then insert port ignorePorts else ignorePorts, targetPorts))))"

text \<open>The tracepoints of the category syscalls, in order; those that are not optional must attach.\<close>

definition tracepoints :: "(bytes \<times> bool) list" where
  "tracepoints =
     [(''sys_enter_bind'', False), (''sys_enter_connect'', False), (''sys_enter_accept'', False),
      (''sys_enter_accept4'', False), (''sys_enter_write'', True), (''sys_enter_read'', True),
      (''sys_exit_read'', True), (''sys_enter_writev'', True), (''sys_enter_sendto'', True),
      (''sys_enter_sendmsg'', False), (''sys_enter_readv'', True), (''sys_exit_readv'', True),
      (''sys_enter_recvfrom'', True), (''sys_exit_recvfrom'', True), (''sys_enter_recvmsg'', False),
      (''sys_exit_recvmsg'', False), (''sys_enter_close'', True), (''sys_exit_accept'', False),
      (''sys_exit_accept4'', False)]"

text \<open>The kernel side up to the first refresh of the targets. The gate on target ports is the constant False.\<close>

definition startKernel ::
  "startEnv \<Rightarrow> captureFlags \<Rightarrow> portSet \<Rightarrow> startError + configMap \<times> portMap \<times> allPIDsTargetManager" where
  "startKernel env f ignorePorts =
     (if \<not> en_rlimit env then Inl RlimitFailed
      else if \<not> en_loads env then Inl LoadingFailed
      else case cap_configureKernelCapture (en_faults env) (word_of_int (fg_maxPayloadSize f))
                  (fg_captureReads f) (fg_captureWrites f) False (Some (en_captureConfig env)) of
             (Some err, _) \<Rightarrow> Inl (KernelCaptureFailed err)
           | (None, config) \<Rightarrow>
               (case configureKernelIgnorePorts (en_faults env) ignorePorts (Some (en_ignoredPorts env)) of
                  (Some err, _) \<Rightarrow> Inl (IgnoredPortsFailed err)
                | (None, ignored) \<Rightarrow>
                    (case parsePIDList (fg_targetPIDs f) of
                       Inl part \<Rightarrow> Inl (InvalidTargetPIDs part)
                     | Inr targetPIDs \<Rightarrow>
                         (let mgr = (if targetPIDs \<noteq> []
                            then newScopedTargetManager (fg_allPIDsMax f) targetPIDs (fg_targetPIDTree f)
                            else newAllPIDsTargetManager (fg_allPIDsMax f))
                          in case pm_refresh (en_targets env) mgr of
                               (Some err, _) \<Rightarrow> Inl (InitialInjectionFailed err)
                             | (None, mgr1) \<Rightarrow> Inr (the config, the ignored, mgr1)))))"

definition captureSinkOf :: "captureFlags \<Rightarrow> httpConversationSink" where
  "captureSinkOf f =
     newHTTPSink (fg_ingestURL f) (fg_accountToken f) (fg_httpMaxRetries f) defaultHTTPRetryDelay (fg_deadLetterFile f)"

definition captureConfigOf :: "startEnv \<Rightarrow> captureFlags \<Rightarrow> captureConfig" where
  "captureConfigOf env f = \<lparr>
     cc_ingestURL = fg_ingestURL f,
     cc_accountToken = fg_accountToken f,
     cc_agentID = fg_agentID f,
     cc_sessionTTL = fg_sessionTTL f,
     cc_statsInterval = fg_statsInterval f,
     cc_maxBodyBytes = fg_maxBodyBytes f,
     cc_maxStreamBytes = defaultMaxStreamBytes,
     cc_httpTimeout = fg_httpTimeout f,
     cc_httpMaxRetries = fg_httpMaxRetries f,
     cc_httpRetryDelay = defaultHTTPRetryDelay,
     cc_deadLetterFile = fg_deadLetterFile f,
     cc_debugPayload = fg_debugPayload f,
     cc_output = False,
     cc_sink = Some (attachedSink (en_sink env) (captureSinkOf f) (en_sinkWorld env))\<rparr>"

definition startCapture :: "startEnv \<Rightarrow> captureFlags \<Rightarrow> startError + startedCapture" where
  "startCapture env f =
     (case checkCaptureFlags (en_parseURL env) f of
        Inl err \<Rightarrow> Inl err
      | Inr (ignorePorts, targetPorts) \<Rightarrow>
          (case startKernel env f ignorePorts of
             Inl err \<Rightarrow> Inl err
           | Inr (config, ignored, mgr) \<Rightarrow>
               (case attachTracepoints (en_tracepoint env) tracepoints of
                  Inl name \<Rightarrow> Inl (TracepointFailed name)
                | Inr attached \<Rightarrow>
                    (case openReaders (en_reader env) of
                       Some shard \<Rightarrow> Inl (RingReaderFailed shard)
                     | None \<Rightarrow>
                         if fg_statsInterval f \<le> 0 then Inl StatsTickerPanics
                         else Inr \<lparr>run_cfg = captureConfigOf env f, run_sink = captureSinkOf f,
                           run_deps = newShardCaptureDeps (Some (en_socketTuples env)) (fg_metadataTTL f)
                             targetPorts ignorePorts (fg_captureInbound f) (fg_captureOutbound f),
                           run_targets = mgr, run_captureConfig = config, run_ignoredPorts = ignored,
                           run_targetPorts = en_targetPorts env, run_tracepoints = attached,
                           run_ssl = (if fg_captureTLS f then Some (newSSLAttacher (en_programs env)) else None)\<rparr>))))"

definition startedSystem :: "startedCapture \<Rightarrow> world \<Rightarrow> captureSystem" where
  "startedSystem s w = \<lparr>sy_deps = run_deps s, sy_proc = initialCapture (run_cfg s) w\<rparr>"

section \<open>What a start guarantees\<close>

lemma checkCaptureFlags_ok:
  assumes "checkCaptureFlags parseURL f = Inr (ignored, targets)"
  shows "fg_ingestURL f \<noteq> []" "fg_accountToken f \<noteq> []" "1 \<le> fg_maxPayloadSize f" "fg_maxPayloadSize f \<le> 16384"
    "finite ignored" "targets \<subseteq> {1..65535}" "0 < portFromURL parseURL (fg_ingestURL f) \<Longrightarrow> portFromURL parseURL (fg_ingestURL f) \<in> ignored"
    "\<exists>ports. parsePortSet (fg_ignorePorts f) = Inr ports \<and> ports \<subseteq> ignored"
  using assms parsePortSet_range [of "fg_ignorePorts f"] parsePortSet_range [of "fg_targetPorts f"]
  by (auto simp: checkCaptureFlags_def Let_def maxKernelPayloadSize_def split: if_splits sum.splits)

lemma startKernel_ok:
  assumes "startKernel env f ports = Inr (config, ignored, mgr)" "finite ports"
  shows "\<forall>k v. map_of (captureSettings (word_of_int (fg_maxPayloadSize f)) (fg_captureReads f) (fg_captureWrites f) False False False) k = Some v \<longrightarrow>
      map_of config k = Some v"
    "kernelPorts ignored = kernelPorts (en_ignoredPorts env) \<union> (ports \<inter> {1..65535})"
    "pm_active mgr \<subseteq> pm_bpfMap mgr" "0 < fg_allPIDsMax f \<Longrightarrow> int (card (pm_active mgr)) \<le> fg_allPIDsMax f"
proof -
  obtain e1 configOpt where c1: "cap_configureKernelCapture (en_faults env) (word_of_int (fg_maxPayloadSize f)) (fg_captureReads f)
      (fg_captureWrites f) False (Some (en_captureConfig env)) = (e1, configOpt)" by force
  obtain e2 ignoredOpt where i2: "configureKernelIgnorePorts (en_faults env) ports (Some (en_ignoredPorts env)) = (e2, ignoredOpt)" by force
  have loaded: "en_rlimit env" "en_loads env"
    using assms(1) unfolding startKernel_def by (cases "en_rlimit env"; cases "en_loads env"; simp)+
  have none: "e1 = None" "e2 = None"
    using assms(1) by (cases e1; cases e2; simp add: startKernel_def loaded c1 i2)+
  note c = c1 [unfolded none] and i = i2 [unfolded none]
  obtain pids where pids: "parsePIDList (fg_targetPIDs f) = Inr pids"
    using assms(1) by (cases "parsePIDList (fg_targetPIDs f)") (simp_all add: startKernel_def loaded c i)
  define m0 where "m0 = (if pids \<noteq> [] then newScopedTargetManager (fg_allPIDsMax f) pids (fg_targetPIDTree f)
      else newAllPIDsTargetManager (fg_allPIDsMax f))"
  have run: "(case pm_refresh (en_targets env) m0 of
      (Some err, _) \<Rightarrow> Inl (InitialInjectionFailed err)
    | (None, mgr1) \<Rightarrow> Inr (the configOpt, the ignoredOpt, mgr1)) = Inr (config, ignored, mgr)"
    using assms(1) unfolding startKernel_def m0_def by (simp only: loaded c i pids prod.case option.case sum.case Let_def if_False not_True_eq_False)
  then have m: "pm_refresh (en_targets env) m0 = (None, mgr)" "config = the configOpt" "ignored = the ignoredOpt"
    by (simp_all split: prod.splits option.splits)
  have m0: "m0 = newAllPIDsTargetManager (fg_allPIDsMax f) \<or> m0 = newScopedTargetManager (fg_allPIDsMax f) pids (fg_targetPIDTree f)"
    by (simp add: m0_def)
  from configureKernelCapture_ok [OF c [unfolded cap_configure_agrees]] obtain m1 where
    "configOpt = Some m1" "\<And>k. map_of m1 k = (case map_of (captureSettings (word_of_int (fg_maxPayloadSize f))
      (fg_captureReads f) (fg_captureWrites f) False False False) k of None \<Rightarrow> map_of (en_captureConfig env) k | Some v \<Rightarrow> Some v)"
    by blast
  with m(2) show "\<forall>k v. map_of (captureSettings (word_of_int (fg_maxPayloadSize f)) (fg_captureReads f) (fg_captureWrites f) False False False) k = Some v \<longrightarrow>
      map_of config k = Some v" by simp
  obtain m2 where "ignoredOpt = Some m2" "kernelPorts m2 = kernelPorts (en_ignoredPorts env) \<union> (ports \<inter> {1..65535})"
    using ignore_ports_ok [OF i assms(2)] by metis
  with m(3) show "kernelPorts ignored = kernelPorts (en_ignoredPorts env) \<union> (ports \<inter> {1..65535})" by simp
  have "mgr = fold pm_tick [en_targets env] m0" using m(1) by (simp add: pm_tick_def)
  from capture_traces_targets_facts [OF m0 this]
  show "pm_active mgr \<subseteq> pm_bpfMap mgr" "0 < fg_allPIDsMax f \<Longrightarrow> int (card (pm_active mgr)) \<le> fg_allPIDsMax f" by auto
qed

lemma startCapture_ok:
  assumes "startCapture env f = Inr s"
  obtains ignored targets config ports mgr attached where
    "checkCaptureFlags (en_parseURL env) f = Inr (ignored, targets)"
    "startKernel env f ignored = Inr (config, ports, mgr)"
    "attachTracepoints (en_tracepoint env) tracepoints = Inr attached"
    "0 < fg_statsInterval f"
    "s = \<lparr>run_cfg = captureConfigOf env f, run_sink = captureSinkOf f,
       run_deps = newShardCaptureDeps (Some (en_socketTuples env)) (fg_metadataTTL f) targets ignored (fg_captureInbound f) (fg_captureOutbound f),
       run_targets = mgr, run_captureConfig = config, run_ignoredPorts = ports, run_targetPorts = en_targetPorts env,
       run_tracepoints = attached, run_ssl = (if fg_captureTLS f then Some (newSSLAttacher (en_programs env)) else None)\<rparr>"
  using assms by (auto simp: startCapture_def split: sum.splits option.splits if_splits prod.splits)

text \<open>C37. What karaxys-capture starts with is well formed. If it gets past start-up, then the kernel copies at most the
  configured number of bytes, from 1 to 16384, of the directions asked for, never of stdio, with the gates on target ports
  and cgroups off; the kernel ignores the ports that were ignored before and those of the flow filter that are
  port numbers; the port of the own ingest URL is one of the filter's ignored ports; every active target is in the kernel's map, and
  there are no more than the limit; every mandatory tracepoint is attached; and there is an endpoint, a token and
  a sink for them.\<close>

theorem start_well_formed:
  assumes "startCapture env f = Inr s"
  shows "(\<exists>m. map_of (run_captureConfig s) captureConfigMaxPayloadSize = Some m \<and>
      uint m = fg_maxPayloadSize f \<and> uint m \<in> {1..16384}) \<and>
    map_of (run_captureConfig s) captureConfigCaptureReads = Some (boolToKernelConfig (fg_captureReads f)) \<and>
    map_of (run_captureConfig s) captureConfigCaptureWrites = Some (boolToKernelConfig (fg_captureWrites f)) \<and>
    (\<forall>k \<in> {captureConfigCaptureStdio, captureConfigTargetPorts, captureConfigCgroupFilter}. map_of (run_captureConfig s) k = Some 0) \<and>
    kernelPorts (run_ignoredPorts s) =
      kernelPorts (en_ignoredPorts env) \<union> (ff_ignorePorts (cd_filter (run_deps s)) \<inter> {1..65535}) \<and>
    (0 < portFromURL (en_parseURL env) (fg_ingestURL f) \<longrightarrow>
      portFromURL (en_parseURL env) (fg_ingestURL f) \<in> ff_ignorePorts (cd_filter (run_deps s))) \<and>
    pm_active (run_targets s) \<subseteq> pm_bpfMap (run_targets s) \<and>
    (0 < fg_allPIDsMax f \<longrightarrow> int (card (pm_active (run_targets s))) \<le> fg_allPIDsMax f) \<and>
    (\<forall>name. (name, True) \<in> set tracepoints \<longrightarrow> name \<in> set (run_tracepoints s)) \<and>
    hs_endpoint (run_sink s) \<noteq> [] \<and> hs_agentToken (run_sink s) \<noteq> [] \<and> cc_sink (run_cfg s) \<noteq> None \<and> 0 < cc_statsInterval (run_cfg s)"
proof -
  obtain ignored targets config ports mgr attached where flags: "checkCaptureFlags (en_parseURL env) f = Inr (ignored, targets)"
    and kernel: "startKernel env f ignored = Inr (config, ports, mgr)"
    and tps: "attachTracepoints (en_tracepoint env) tracepoints = Inr attached"
    and s: "0 < fg_statsInterval f" "run_cfg s = captureConfigOf env f" "run_sink s = captureSinkOf f"
      "ff_ignorePorts (cd_filter (run_deps s)) = ignored" "run_targets s = mgr" "run_captureConfig s = config"
      "run_ignoredPorts s = ports" "run_tracepoints s = attached"
    using assms by (rule startCapture_ok) (auto simp: newShardCaptureDeps_def newFlowFilter_def)
  note ok = checkCaptureFlags_ok [OF flags]
  note k = startKernel_ok [OF kernel ok(5)]
  have "uint (word_of_int (fg_maxPayloadSize f) :: u32) = fg_maxPayloadSize f"
    using ok(3,4) by (simp add: uint_word_of_int take_bit_int_eq_self)
  moreover have "\<forall>name. (name, True) \<in> set tracepoints \<longrightarrow> name \<in> set attached"
    using attachTracepoints_ok [OF tps] by force
  ultimately show ?thesis
    using ok k(2-4) s k(1) [rule_format, OF captureSettings_gates(1)] k(1) [rule_format, OF captureSettings_gates(2)]
      k(1) [rule_format, OF captureSettings_gates(3)] k(1) [rule_format, OF captureSettings_gates(4)]
      k(1) [rule_format, OF captureSettings_gates(5)] k(1) [rule_format, OF captureSettings_gates(6)]
    by (simp add: captureConfigOf_def captureSinkOf_def newHTTPSink_def boolToKernelConfig_def)
qed

section \<open>The own traffic\<close>

text \<open>No cached decision lets the flow through.\<close>

definition neverAllowed :: "flowKey \<Rightarrow> flowFilter \<Rightarrow> bool" where
  "neverAllowed key f \<longleftrightarrow>
     filter_inv f \<and> (\<forall>c. map_of (ff_flows f) key = Some c \<longrightarrow> cf_decision c \<noteq> flowDecisionAllow)"

lemma neverAllowed_new: "neverAllowed key (newFlowFilter ttl targets ignored inb outb)"
  by (simp add: neverAllowed_def newFlowFilter_inv) (simp add: newFlowFilter_def)

lemma neverAllowed_cleanup: "neverAllowed key f \<Longrightarrow> neverAllowed key (filter_cleanup now f)"
  using cleanup_inv [of f now] map_of_filter_snd [of "ff_flows f" "\<lambda>c. \<not> now > cf_expiresAt c" key]
  by (auto simp: neverAllowed_def filter_cleanup_def filter_inv_def split: option.splits if_splits)

lemma neverAllowed_lookup:
  assumes "neverAllowed key f" "filter_lookup key' now f = (cached, f1)"
  shows "neverAllowed key f1" "key' = key \<Longrightarrow> cached \<noteq> Some flowDecisionAllow"
proof -
  have "neverAllowed key (f\<lparr>ff_flows := AList.delete key' (ff_flows f)\<rparr>)"
    using assms(1) by (auto simp: neverAllowed_def filter_inv_def distinct_delete delete_conv')
  with assms show "neverAllowed key f1" "key' = key \<Longrightarrow> cached \<noteq> Some flowDecisionAllow"
    by (auto simp: filter_lookup_def neverAllowed_cleanup split: option.splits if_splits) (auto simp: neverAllowed_def)
qed

lemma neverAllowed_remember:
  assumes "neverAllowed key f" "key' = key \<Longrightarrow> decision \<noteq> flowDecisionAllow"
  shows "neverAllowed key (filter_remember key' decision now f)"
  unfolding filter_remember_def using assms
  by (intro neverAllowed_cleanup) (auto simp: neverAllowed_def filter_inv_def distinct_update update_conv')

text \<open>A call for an event of the flow that is labelled with an unwanted connection, or neither labelled nor data.\<close>

lemma neverAllowed_call:
  assumes "neverAllowed key f"
    and "eventFlowKey event = key \<Longrightarrow>
      (if metadataOK \<and> conn_Protocol (ev_Connection event) \<noteq> [] then \<not> wanted f (ev_Connection event)
       else ev_EventType event \<noteq> eventTypeData)"
  shows "neverAllowed key (snd (filter_allow event metadataOK now f))"
    "eventFlowKey event = key \<Longrightarrow> \<not> fst (filter_allow event metadataOK now f)"
proof -
  obtain cached f1 where l: "filter_lookup (eventFlowKey event) now f = (cached, f1)" by force
  have same: "wanted f1 conn = wanted f conn" for conn
    using lookup_config [of "eventFlowKey event" now f] by (simp add: l wanted_def)
  note never = neverAllowed_lookup [OF assms(1) l]
  show "neverAllowed key (snd (filter_allow event metadataOK now f))"
    using never assms(2) by (auto simp: filter_allow_def l Let_def connectionAllowed_wanted same intro: neverAllowed_remember split: option.splits if_splits)
  show "eventFlowKey event = key \<Longrightarrow> \<not> fst (filter_allow event metadataOK now f)"
    using never assms(2) by (auto simp: filter_allow_def l Let_def connectionAllowed_wanted same split: option.splits if_splits)
qed

text \<open>What must be known of a record of the flow: its label has the ignored port, and data is labelled.\<close>

definition labelledWith :: "int \<Rightarrow> bpfEvent \<Rightarrow> bool" where
  "labelledWith port e \<longleftrightarrow>
     (case connectionFromKernelTuple e of
        Some conn \<Rightarrow> port \<in> {conn_SrcPort conn, conn_DstPort conn}
      | None \<Rightarrow> be_EventType e \<noteq> eventTypeData)"

definition excluded :: "flowKey \<Rightarrow> int \<Rightarrow> shardCaptureDeps \<Rightarrow> bool" where
  "excluded key port d \<longleftrightarrow>
     neverAllowed key (cd_filter d) \<and> port \<in> ff_ignorePorts (cd_filter d) \<and>
     (\<forall>event \<in> set (cd_channel d). eventFlowKey event \<noteq> key)"

lemma kernelTuple_tcp: "connectionFromKernelTuple e = Some conn \<Longrightarrow> conn_Protocol conn = ''tcp''"
  by (auto simp: connectionFromKernelTuple_def Let_def split: if_splits)

lemma excluded_cong:
  "cd_filter d' = cd_filter d \<Longrightarrow> cd_channel d' = cd_channel d \<Longrightarrow> excluded key port d' = excluded key port d"
  by (simp add: excluded_def)

lemma excluded_decoded:
  assumes "excluded key port d" "bpfFlowKey e = key \<Longrightarrow> labelledWith port e" "cap_decodedStep env e d = (res, d')"
  shows "excluded key port d'"
  using assms(3)
proof (cases rule: cap_decodedStep_cases)
  case (admitted d3 event f allowed)
  let ?ok = "connectionFromKernelTuple e \<noteq> None"
  have ev: "ev_EventType event = be_EventType e"
    "ev_Connection event = (case connectionFromKernelTuple e of Some c \<Rightarrow> c | None \<Rightarrow> noConnection)"
    "eventFlowKey event = bpfFlowKey e"
    by (simp_all add: admitted(7)) (simp_all add: buildEvent_def)
  have call: "filter_allow event ?ok (cl_filterNow env) (cd_filter d) = (allowed, f)"
    using admitted(8) by (simp add: allow_agrees)
  have known: "if ?ok \<and> conn_Protocol (ev_Connection event) \<noteq> [] then \<not> wanted (cd_filter d) (ev_Connection event)
      else ev_EventType event \<noteq> eventTypeData" if "eventFlowKey event = key"
    using assms(1,2) that kernelTuple_tcp [of e]
    by (auto simp: ev labelledWith_def excluded_def wanted_def split: option.splits)
  have "neverAllowed key (cd_filter d)" using assms(1) by (simp add: excluded_def)
  note never = neverAllowed_call [OF this known, where now = "cl_filterNow env", unfolded call ev(3), simplified]
  have port: "port \<in> ff_ignorePorts f"
    using allow_config(2) [of event ?ok "cl_filterNow env" "cd_filter d", unfolded call] assms(1) by (simp add: excluded_def)
  show ?thesis
  proof (cases allowed)
    case True
    obtain event1 d5 where l: "cap_labelEvent env e ?ok event (d3\<lparr>cd_filter := f\<rparr>) = (event1, d5)" by force
    have "eventFlowKey event1 \<noteq> key"
      using cap_labelEvent_facts(5) [OF l] never(2) True ev(3) by (auto simp: eventFlowKey_def)
    then show ?thesis
      using admitted(4,9) True l cap_labelEvent_facts(2,4) [OF l] never(1) port assms(1)
      by (auto simp: cap_sendEvent_def excluded_def split: if_splits)
  next
    case False
    then show ?thesis using admitted(4,9) never(1) port assms(1) by (simp add: excluded_def)
  qed
qed (use assms(1) in \<open>simp_all add: excluded_def\<close>)

lemma excluded_shard:
  assumes "excluded key port d"
    and "\<And>raw e. read = RingSample raw \<Longrightarrow> binaryRead raw = Some e \<Longrightarrow> bpfFlowKey e = key \<Longrightarrow> labelledWith port e"
  shows "excluded key port (snd (cap_shardStep env read d))"
proof (cases read)
  case (RingSample raw)
  show ?thesis
  proof (cases "binaryRead raw")
    case (Some e)
    define d1 where "d1 = cap_count (\<lambda>s. s\<lparr>kc_ringRecords := kc_ringRecords s + 1\<rparr>) d"
    have "excluded key port d1" using assms(1) by (simp add: excluded_def d1_def)
    from excluded_decoded [OF this assms(2) [OF RingSample Some], of env] Some RingSample
    show ?thesis by (cases "cap_decodedStep env e d1") (simp add: cap_shardStep_def d1_def Let_def)
  qed (use assms(1) in \<open>simp add: cap_shardStep_def RingSample Let_def excluded_def\<close>)
qed (use assms(1) in \<open>simp add: cap_shardStep_def excluded_def\<close>)

lemma excluded_run:
  "excluded key port (sy_deps s) \<Longrightarrow>
   (\<And>raw e. RingSample raw \<in> set (ringReads is) \<Longrightarrow> binaryRead raw = Some e \<Longrightarrow> bpfFlowKey e = key \<Longrightarrow> labelledWith port e) \<Longrightarrow>
   (\<forall>event \<in> set (channelEvents (procInputs lib rt cfg is s)). eventFlowKey event \<noteq> key) \<and>
     excluded key port (sy_deps (fold (systemStep lib rt cfg) is s))"
proof (induction "is" arbitrary: s)
  case (Cons i "is")
  show ?case
  proof (cases i)
    case (Shard env read)
    have "excluded key port (snd (cap_shardStep env read (sy_deps s)))"
      by (rule excluded_shard [OF Cons.prems(1)], rule Cons.prems(2)) (auto simp: Shard)
    then have "excluded key port (sy_deps (systemStep lib rt cfg i s))" by (simp add: Shard)
    from Cons.IH [OF this] Cons.prems(2) show ?thesis by (auto simp: Shard)
  next
    case Receive
    show ?thesis
    proof (cases "cd_channel (sy_deps s)")
      case (Cons event rest)
      then have "excluded key port (sy_deps (systemStep lib rt cfg i s))" "eventFlowKey event \<noteq> key"
        using Cons.prems(1) by (auto simp: Receive excluded_def)
      with Cons.IH [OF this(1)] Cons.prems(2) Cons show ?thesis by (auto simp: Receive)
    qed (use Cons.IH [OF Cons.prems(1)] Cons.prems(2) in \<open>auto simp: Receive\<close>)
  next
    case (Cleanup keys)
    with Cons.IH [of "systemStep lib rt cfg i s"] Cons.prems show ?thesis by auto
  qed
qed simp

text \<open>C38. karaxys-capture does not feed on its own posts. Once it has started, in every interleaving of its goroutines
  no event of a flow reaches the processing goroutine or waits in the channel if the kernel labels the
  data events of the flow, and every label of the flow has the port of the ingest URL.\<close>

theorem own_posts_not_captured:
  assumes "startCapture env f = Inr s" "0 < portFromURL (en_parseURL env) (fg_ingestURL f)"
    and "\<And>raw e. RingSample raw \<in> set (ringReads is) \<Longrightarrow> binaryRead raw = Some e \<Longrightarrow> bpfFlowKey e = key \<Longrightarrow>
      labelledWith (portFromURL (en_parseURL env) (fg_ingestURL f)) e"
  shows "\<forall>event \<in> set (channelEvents (procInputs lib rt (run_cfg s) is (startedSystem s w)) @
      cd_channel (sy_deps (fold (systemStep lib rt (run_cfg s)) is (startedSystem s w)))). eventFlowKey event \<noteq> key"
proof -
  obtain ignored targets where flags: "checkCaptureFlags (en_parseURL env) f = Inr (ignored, targets)"
    and deps: "run_deps s = newShardCaptureDeps (Some (en_socketTuples env)) (fg_metadataTTL f) targets ignored
      (fg_captureInbound f) (fg_captureOutbound f)"
    using assms(1) by (rule startCapture_ok) simp
  have "excluded key (portFromURL (en_parseURL env) (fg_ingestURL f)) (sy_deps (startedSystem s w))"
    using checkCaptureFlags_ok(7) [OF flags assms(2)]
    by (simp add: excluded_def startedSystem_def deps newShardCaptureDeps_def neverAllowed_new) (simp add: newFlowFilter_def)
  then have "(\<forall>event \<in> set (channelEvents (procInputs lib rt (run_cfg s) is (startedSystem s w))). eventFlowKey event \<noteq> key) \<and>
    excluded key (portFromURL (en_parseURL env) (fg_ingestURL f)) (sy_deps (fold (systemStep lib rt (run_cfg s)) is (startedSystem s w)))"
    by (rule excluded_run [OF _ assms(3)])
  then show ?thesis by (auto simp: excluded_def)
qed

section \<open>Samples\<close>

definition sampleStart :: startEnv where
  "sampleStart = \<lparr>en_parseURL = (\<lambda>u. if u = ''http://b:8080'' then Some (''8080'', ''http'') else None),
     en_rlimit = True, en_loads = True, en_captureConfig = [], en_ignoredPorts = [], en_targetPorts = [],
     en_socketTuples = [], en_programs = (\<lambda>_. True), en_faults = noKernelFaults, en_targets = captureTree,
     en_tracepoint = (\<lambda>name. name \<noteq> ''sys_enter_recvmsg''), en_reader = (\<lambda>_. True),
     en_sink = flakyCaptureEnv, en_sinkWorld = quietCapture\<rparr>"

definition sampleFlags :: captureFlags where
  "sampleFlags = (defaultCaptureFlags (\<lambda>_. []))\<lparr>fg_ingestURL := ''http://b:8080'', fg_accountToken := ''t'',
     fg_ignorePorts := ''9092''\<rparr>"

lemma sample_flags:
  "checkCaptureFlags (en_parseURL sampleStart) sampleFlags = Inr ({8080, 9092}, {})"
  "portFromURL (en_parseURL sampleStart) (fg_ingestURL sampleFlags) = 8080"
proof -
  have "parsePortSet ''9092'' = Inr {9092}" "parsePortSet [] = Inr {}" "trim_space ''http://b:8080'' = ''http://b:8080''"
    "atoi ''8080'' = Some 8080" by code_simp+
  then show "portFromURL (en_parseURL sampleStart) (fg_ingestURL sampleFlags) = 8080"
    "checkCaptureFlags (en_parseURL sampleStart) sampleFlags = Inr ({8080, 9092}, {})"
    by (simp_all add: checkCaptureFlags_def sampleFlags_def sampleStart_def portFromURL_def defaultCaptureFlags_def
        maxKernelPayloadSize_def)
qed

lemma sample_kernel: "\<exists>config ignored mgr. startKernel sampleStart sampleFlags {8080, 9092} = Inr (config, ignored, mgr)"
proof -
  have "fst (cap_configureKernelCapture noKernelFaults 16384 True True False (Some [])) = None"
    "fst (configureKernelIgnorePorts noKernelFaults {8080, 9092} (Some [])) = None"
    "fst (pm_refresh captureTree (newAllPIDsTargetManager 8192)) = None" "parsePIDList [] = Inr []"
    by code_simp+
  then show ?thesis
    by (simp add: startKernel_def sampleStart_def sampleFlags_def defaultCaptureFlags_def maxKernelPayloadSize_def case_prod_beta)
qed

lemma sample_starts: obtains s where "startCapture sampleStart sampleFlags = Inr s"
proof -
  have "case attachTracepoints (en_tracepoint sampleStart) tracepoints of Inl _ \<Rightarrow> False | Inr _ \<Rightarrow> True"
    "openReaders (en_reader sampleStart) = None" "0 < fg_statsInterval sampleFlags" by code_simp+
  with sample_flags(1) sample_kernel that show thesis
    unfolding startCapture_def by (auto split: sum.splits)
qed

theorem start_well_formed_witness:
  "\<exists>s. startCapture sampleStart sampleFlags = Inr s \<and> 8080 \<in> kernelPorts (run_ignoredPorts s) \<and>
     map_of (run_captureConfig s) captureConfigMaxPayloadSize = Some 16384"
proof -
  obtain s where s: "startCapture sampleStart sampleFlags = Inr s" by (rule sample_starts)
  have "fg_maxPayloadSize sampleFlags = 16384"
    by (simp add: sampleFlags_def defaultCaptureFlags_def maxKernelPayloadSize_def)
  moreover have "m = 16384" if "uint m = 16384" for m :: u32
  proof -
    have "m = word_of_int (uint m)" by simp
    then show ?thesis unfolding that by simp
  qed
  ultimately show ?thesis using start_well_formed [OF s] s by (auto simp: sample_flags(2))
qed

text \<open>A data record of a flow to the ingest port.\<close>

definition samplePost :: bpfEvent where
  "samplePost = emptyEvent\<lparr>be_Pid := 7, be_Fd := 3, be_EventType := eventTypeData, be_SocketTupleFlags := socketTupleRemote,
     be_RemotePort := 8080, be_Size := 4, be_Payload := replicate payloadCapacity CHR ''P''\<rparr>"

theorem own_posts_not_captured_witness:
  "\<exists>s. startCapture sampleStart sampleFlags = Inr s \<and> binaryRead (api_event samplePost) = Some samplePost \<and>
     (\<forall>event \<in> set (cd_channel (sy_deps (fold (systemStep sampleH2 sampleRuntime (run_cfg s))
       [Shard sampleLoopEnv (RingSample (api_event samplePost))] (startedSystem s sampleWorld)))).
       eventFlowKey event \<noteq> bpfFlowKey samplePost)"
proof -
  obtain s where s: "startCapture sampleStart sampleFlags = Inr s" by (rule sample_starts)
  let ?is = "[Shard sampleLoopEnv (RingSample (api_event samplePost))]"
  have read: "binaryRead (api_event samplePost) = Some samplePost"
    using ring_record_roundtrip_facts(1) [of samplePost "[]"] by (simp add: samplePost_def)
  have tuple: "labelledWith 8080 samplePost"
    by (simp add: labelledWith_def samplePost_def connectionFromKernelTuple_def Let_def socketTupleRemote_def socketTupleLocal_def emptyEvent_def)
  have "\<forall>event \<in> set (channelEvents (procInputs sampleH2 sampleRuntime (run_cfg s) ?is (startedSystem s sampleWorld)) @
      cd_channel (sy_deps (fold (systemStep sampleH2 sampleRuntime (run_cfg s)) ?is (startedSystem s sampleWorld)))).
      eventFlowKey event \<noteq> bpfFlowKey samplePost"
    by (rule own_posts_not_captured [OF s]) (use read tuple in \<open>auto simp: sample_flags(2)\<close>)
  with s read show ?thesis by auto
qed

end
