(* ===== verification/AgentMain.thy ===== *)
theory AgentMain
  imports StartUp AgentCapture AgentControl
begin

text \<open>
  The start of the agent, \<^verbatim>\<open>main\<close> of \<^verbatim>\<open>cmd/agent/main.go\<close>: the flags, their checks in order, the kernel's
  maps, the first resolution of the targets, tracepoints, the Kafka producer, the ring buffers, and the
  state that the capture loop and the control plane begin with.
\<close>

section \<open>Flags\<close>

record agentFlags =
  af_pid :: int
  af_targetMode :: bytes
  af_container :: bytes
  af_targetRefreshInterval :: duration
  af_allowAllPIDs :: bool
  af_allPIDsMax :: int
  af_allPIDsRequireTargetPorts :: bool
  af_cgroupFilter :: bool
  af_kafkaBootstrap :: bytes
  af_topic :: bytes
  af_backendURL :: bytes
  af_agentToken :: bytes
  af_agentControlTimeout :: duration
  af_heartbeatInterval :: duration
  af_remoteConfigInterval :: duration
  af_targetPort :: int
  af_targetPorts :: bytes
  af_ignorePorts :: bytes
  af_fdFilter :: bool
  af_allowNonSocketFDs :: bool
  af_captureInbound :: bool
  af_captureOutbound :: bool
  af_captureReads :: bool
  af_captureWrites :: bool
  af_maxPayloadSize :: int
  af_statsInterval :: duration
  af_metadataTTL :: duration
  af_kafkaQueueMessages :: int
  af_kafkaQueueKBytes :: int
  af_kafkaMessageTimeoutMS :: int
  af_kafkaCircuitBreaker :: duration
  af_localQueueEvents :: int
  af_spoolFile :: bytes
  af_spoolMaxBytes :: int
  af_metricsTopic :: bytes
  af_backpressure :: bytes
  af_healthAddr :: bytes

definition defaultAgentFlags :: "(bytes \<Rightarrow> bytes) \<Rightarrow> agentFlags" where
  "defaultAgentFlags getenv = \<lparr>
     af_pid = 0,
     af_targetMode = ''pid'',
     af_container = [],
     af_targetRefreshInterval = 5000000000,
     af_allowAllPIDs = False,
     af_allPIDsMax = 512,
     af_allPIDsRequireTargetPorts = True,
     af_cgroupFilter = True,
     af_kafkaBootstrap = ''localhost:9092'',
     af_topic = ''raw-network-traffic'',
     af_backendURL = getenv ''KARAXYS_BACKEND_URL'',
     af_agentToken = getenv ''KARAXYS_AGENT_TOKEN'',
     af_agentControlTimeout = 10000000000,
     af_heartbeatInterval = 30000000000,
     af_remoteConfigInterval = 30000000000,
     af_targetPort = 0,
     af_targetPorts = [],
     af_ignorePorts = ''9092,27017,6379'',
     af_fdFilter = True,
     af_allowNonSocketFDs = False,
     af_captureInbound = True,
     af_captureOutbound = True,
     af_captureReads = True,
     af_captureWrites = True,
     af_maxPayloadSize = maxKernelPayloadSize,
     af_statsInterval = 10000000000,
     af_metadataTTL = 15000000000,
     af_kafkaQueueMessages = 200000,
     af_kafkaQueueKBytes = 262144,
     af_kafkaMessageTimeoutMS = 30000,
     af_kafkaCircuitBreaker = 15000000000,
     af_localQueueEvents = 50000,
     af_spoolFile = getenv ''KARAXYS_AGENT_SPOOL_FILE'',
     af_spoolMaxBytes = 128 * 1024 * 1024,
     af_metricsTopic = ''karaxys.agent.metrics'',
     af_backpressure = ''best-effort'',
     af_healthAddr = ''127.0.0.1:7071''\<rparr>"

section \<open>The environment\<close>

text \<open>
  The path of the spool and its file, whether its directory cannot be made; what the kernel, the loader
  and Kafka's client answer; the loaded maps; the processes; and what the replay of the spool meets.
\<close>

record agentStartEnv =
  ae_clean :: "bytes \<Rightarrow> bytes"
  ae_mkdirFails :: "bytes \<Rightarrow> bool"
  ae_spoolContent :: "bytes option"
  ae_rlimit :: bool
  ae_loads :: bool
  ae_captureConfig :: configMap
  ae_targetPorts :: portMap
  ae_ignoredPorts :: portMap
  ae_socketTuples :: "(flowKey \<times> kernelSocketTuple) list"
  ae_faults :: kernelFaults
  ae_targets :: targetEnv
  ae_tracepoint :: "bytes \<Rightarrow> bool"
  ae_producer :: bool
  ae_lib :: spoolLib
  ae_spoolFaults :: "spoolFaults \<times> spoolFaults"
  ae_now :: time
  ae_reader :: "nat \<Rightarrow> bool"

text \<open>The \<open>log.Fatal\<close> that ends the process, or the panic of \<open>time.NewTicker\<close> in the goroutine that reports.\<close>

datatype agentStartError =
    BadTargetMode targetError
  | BadTargetPorts bytes
  | AllPIDsNeedTargetPorts
  | BadIgnorePorts bytes
  | BadBackpressure bytes
  | SpoolUnusable
  | BadMaxPayload
  | AgentRlimitFailed
  | AgentLoadingFailed
  | AgentCaptureFailed kernelError
  | AgentPortFiltersFailed kernelError
  | InitialTargetsFailed targetError
  | AgentTracepointFailed bytes
  | ProducerFailed
  | AgentReaderFailed nat
  | AgentTickerPanics

record startedAgent =
  ra_kernel :: agentKernel
  ra_targets :: targetManager
  ra_tracepoints :: "bytes list"
  ra_deps :: agentShardDeps
  ra_control :: "agentControlClient option"
  ra_remote :: remoteState

section \<open>Start-up\<close>

text \<open>What the flags amount to once they are checked. The mode is \<open>None\<close> where it was accepted with blanks
  around it.\<close>

record checkedFlags =
  ck_mode :: "targetMode option"
  ck_targetPorts :: portSet
  ck_ignorePorts :: portSet
  ck_backpressure :: backpressureMode
  ck_spool :: "diskSpool option"
  ck_maxPayload :: u32

definition checkAgentFlags :: "agentStartEnv \<Rightarrow> agentFlags \<Rightarrow> agentStartError + checkedFlags" where
  "checkAgentFlags env f =
     (case parseTargetMode (af_targetMode f) of
        Inl err \<Rightarrow> Inl (BadTargetMode err)
      | Inr mode \<Rightarrow>
     (case parsePortSet (af_targetPorts f) of
        Inl part \<Rightarrow> Inl (BadTargetPorts part)
      | Inr parsed \<Rightarrow>
     (let targetPorts = (if af_targetPort f > 0 then insert (af_targetPort f) parsed else parsed) in
      if mode = Some targetModeAllPIDs \<and> af_allPIDsRequireTargetPorts f \<and> targetPorts = {}
      then Inl AllPIDsNeedTargetPorts
      else
     (case parsePortSet (af_ignorePorts f) of
        Inl part \<Rightarrow> Inl (BadIgnorePorts part)
      | Inr ignorePorts \<Rightarrow>
     (case parseBackpressureMode (af_backpressure f) of
        None \<Rightarrow> Inl (BadBackpressure (af_backpressure f))
      | Some backpressure \<Rightarrow>
     (case newDiskSpool (ae_clean env) (ae_mkdirFails env) (ae_spoolContent env) (af_spoolFile f) (af_spoolMaxBytes f) of
        Inl _ \<Rightarrow> Inl SpoolUnusable
      | Inr spool \<Rightarrow>
     (case validateKernelMaxPayloadSize (af_maxPayloadSize f) of
        None \<Rightarrow> Inl BadMaxPayload
      | Some maxPayload \<Rightarrow>
          Inr \<lparr>ck_mode = mode, ck_targetPorts = targetPorts, ck_ignorePorts = ignorePorts,
            ck_backpressure = backpressure, ck_spool = spool, ck_maxPayload = maxPayload\<rparr>)))))))"

text \<open>The two gates that depend on more than one flag.\<close>

definition kernelTargetPortsEnabled :: "agentFlags \<Rightarrow> portSet \<Rightarrow> bool" where
  "kernelTargetPortsEnabled f targetPorts \<longleftrightarrow> af_fdFilter f \<and> targetPorts \<noteq> {}"

definition kernelCgroupFilterEnabled :: "agentFlags \<Rightarrow> targetMode option \<Rightarrow> bool" where
  "kernelCgroupFilterEnabled f mode \<longleftrightarrow> af_cgroupFilter f \<and> mode = Some targetModeContainer"

definition startAgentKernel :: "agentStartEnv \<Rightarrow> agentFlags \<Rightarrow> checkedFlags \<Rightarrow> agentStartError + agentKernel" where
  "startAgentKernel env f ck =
     (if \<not> ae_rlimit env then Inl AgentRlimitFailed
      else if \<not> ae_loads env then Inl AgentLoadingFailed
      else
        (case configureKernelCapture (ae_faults env) (ck_maxPayload ck) (af_captureReads f) (af_captureWrites f)
                (af_allowNonSocketFDs f) (kernelTargetPortsEnabled f (ck_targetPorts ck))
                (kernelCgroupFilterEnabled f (ck_mode ck)) (Some (ae_captureConfig env)) of
           (Some err, _) \<Rightarrow> Inl (AgentCaptureFailed err)
         | (None, config) \<Rightarrow>
             (let kern = \<lparr>ak_config = config, ak_targetPorts = Some (ae_targetPorts env),
                    ak_ignoredPorts = Some (ae_ignoredPorts env)\<rparr>
              in if af_fdFilter f
                 then (case configureKernelPortFilters (ae_faults env) (ck_targetPorts ck) (ck_ignorePorts ck) kern of
                         (Some err, _) \<Rightarrow> Inl (AgentPortFiltersFailed err)
                       | (None, kern1) \<Rightarrow> Inr kern1)
                 else Inr kern)))"

definition startTargets :: "agentStartEnv \<Rightarrow> agentFlags \<Rightarrow> checkedFlags \<Rightarrow> agentStartError + targetManager" where
  "startTargets env f ck =
     (case ck_mode ck of
        None \<Rightarrow> Inl (InitialTargetsFailed (UnsupportedMode (af_targetMode f)))
      | Some mode \<Rightarrow>
          (let mgr = newTargetManager \<lparr>tc_mode = mode, tc_pid = af_pid f, tc_container = af_container f,
                 tc_allowAllPIDs = af_allowAllPIDs f, tc_maxPIDs = af_allPIDsMax f,
                 tc_cgroupFilter = kernelCgroupFilterEnabled f (ck_mode ck)\<rparr>
           in case target_refresh (ae_targets env) mgr of
                (Inl err, _) \<Rightarrow> Inl (InitialTargetsFailed err)
              | (Inr _, mgr1) \<Rightarrow> Inr mgr1))"

definition agentTracepoints :: "(bytes \<times> bool) list" where
  "agentTracepoints =
     [(''sys_enter_bind'', False), (''sys_enter_connect'', False), (''sys_enter_accept'', False),
      (''sys_enter_accept4'', False), (''sys_enter_write'', True), (''sys_enter_read'', True),
      (''sys_exit_read'', True), (''sys_enter_writev'', True), (''sys_enter_sendto'', True),
      (''sys_enter_sendmsg'', False), (''sys_enter_readv'', True), (''sys_exit_readv'', True),
      (''sys_enter_recvfrom'', True), (''sys_exit_recvfrom'', True), (''sys_enter_recvmsg'', False),
      (''sys_exit_recvmsg'', False), (''sys_enter_close'', True), (''sys_exit_accept'', False),
      (''sys_exit_accept4'', False)]"

definition agentProducer :: "agentStartEnv \<Rightarrow> agentFlags \<Rightarrow> checkedFlags \<Rightarrow> queuedProducer" where
  "agentProducer env f ck =
     newQueuedProducer (ae_lib env) (fst (ae_spoolFaults env)) (snd (ae_spoolFaults env)) (ae_now env)
       (ck_backpressure ck) (af_localQueueEvents f) zeroAgentStats (ck_spool ck) (af_kafkaCircuitBreaker f)"

definition agentFilter :: "agentFlags \<Rightarrow> checkedFlags \<Rightarrow> flowFilter option" where
  "agentFilter f ck =
     (if af_fdFilter f
      then Some (newFlowFilter (af_metadataTTL f) (ck_targetPorts ck) (ck_ignorePorts ck)
             (af_captureInbound f) (af_captureOutbound f))
      else None)"

definition startAgent :: "agentStartEnv \<Rightarrow> agentFlags \<Rightarrow> agentStartError + startedAgent" where
  "startAgent env f =
     (case checkAgentFlags env f of
        Inl err \<Rightarrow> Inl err
      | Inr ck \<Rightarrow>
     (case startAgentKernel env f ck of
        Inl err \<Rightarrow> Inl err
      | Inr kern \<Rightarrow>
     (case startTargets env f ck of
        Inl err \<Rightarrow> Inl err
      | Inr mgr \<Rightarrow>
     (case attachTracepoints (ae_tracepoint env) agentTracepoints of
        Inl name \<Rightarrow> Inl (AgentTracepointFailed name)
      | Inr attached \<Rightarrow>
          if \<not> ae_producer env then Inl ProducerFailed
          else case openReaders (ae_reader env) of
                 Some shard \<Rightarrow> Inl (AgentReaderFailed shard)
               | None \<Rightarrow>
                   if af_statsInterval f \<le> 0 then Inl AgentTickerPanics
                   else Inr \<lparr>ra_kernel = kern, ra_targets = mgr, ra_tracepoints = attached,
                     ra_deps = \<lparr>sd_metadata = newMetadataResolver (af_metadataTTL f),
                       sd_kernelTuples = newKernelTupleSyncer (Some (ae_socketTuples env)),
                       sd_flowFilter = agentFilter f ck, sd_mode = af_targetMode f,
                       sd_allowNonSocketFDs = af_allowNonSocketFDs f,
                       sd_queuedProducer = agentProducer env f ck\<rparr>,
                     ra_control = newAgentControlClient (af_backendURL f) (af_agentToken f) (af_agentControlTimeout f),
                     ra_remote = \<lparr>rm_currentVersion = [], rm_kernel = kern, rm_filter = agentFilter f ck\<rparr>\<rparr>))))"

section \<open>What a start guarantees\<close>

lemma checkAgentFlags_ok:
  assumes "checkAgentFlags env f = Inr ck"
  shows "1 \<le> af_maxPayloadSize f" "af_maxPayloadSize f \<le> 16384" "ck_maxPayload ck = word_of_int (af_maxPayloadSize f)"
    "finite (ck_targetPorts ck)" "finite (ck_ignorePorts ck)"
    "ck_mode ck = Some targetModeAllPIDs \<Longrightarrow> af_allPIDsRequireTargetPorts f \<Longrightarrow> ck_targetPorts ck \<noteq> {}"
proof -
  obtain mode where mode: "parseTargetMode (af_targetMode f) = Inr mode"
    using assms by (cases "parseTargetMode (af_targetMode f)") (simp_all add: checkAgentFlags_def)
  obtain parsed where parsed: "parsePortSet (af_targetPorts f) = Inr parsed"
    using assms by (cases "parsePortSet (af_targetPorts f)") (simp_all add: checkAgentFlags_def mode)
  define targetPorts where "targetPorts = (if af_targetPort f > 0 then insert (af_targetPort f) parsed else parsed)"
  have need: "\<not> (mode = Some targetModeAllPIDs \<and> af_allPIDsRequireTargetPorts f \<and> targetPorts = {})"
    using assms by (auto simp: checkAgentFlags_def mode parsed targetPorts_def Let_def split: if_splits)
  obtain ignored where ignored: "parsePortSet (af_ignorePorts f) = Inr ignored"
    using assms need by (cases "parsePortSet (af_ignorePorts f)")
      (simp_all add: checkAgentFlags_def mode parsed Let_def targetPorts_def [symmetric] del: not_None_eq)
  have rest: "(case parseBackpressureMode (af_backpressure f) of
        None \<Rightarrow> Inl (BadBackpressure (af_backpressure f))
      | Some backpressure \<Rightarrow>
     (case newDiskSpool (ae_clean env) (ae_mkdirFails env) (ae_spoolContent env) (af_spoolFile f) (af_spoolMaxBytes f) of
        Inl _ \<Rightarrow> Inl SpoolUnusable
      | Inr spool \<Rightarrow>
     (case validateKernelMaxPayloadSize (af_maxPayloadSize f) of
        None \<Rightarrow> Inl BadMaxPayload
      | Some maxPayload \<Rightarrow>
          Inr \<lparr>ck_mode = mode, ck_targetPorts = targetPorts, ck_ignorePorts = ignored,
            ck_backpressure = backpressure, ck_spool = spool, ck_maxPayload = maxPayload\<rparr>))) = Inr ck"
    using assms unfolding checkAgentFlags_def mode parsed ignored sum.case Let_def targetPorts_def [symmetric] if_not_P [OF need] .
  then obtain maxPayload where ck: "validateKernelMaxPayloadSize (af_maxPayloadSize f) = Some maxPayload"
    "ck_mode ck = mode" "ck_targetPorts ck = targetPorts" "ck_ignorePorts ck = ignored" "ck_maxPayload ck = maxPayload"
    by (auto split: option.splits sum.splits)
  then show "1 \<le> af_maxPayloadSize f" "af_maxPayloadSize f \<le> 16384" "ck_maxPayload ck = word_of_int (af_maxPayloadSize f)"
    by (auto simp: validateKernelMaxPayloadSize_def maxKernelPayloadSize_def split: if_splits)
  show "finite (ck_targetPorts ck)" "finite (ck_ignorePorts ck)"
    using parsePortSet_range [OF parsed] parsePortSet_range [OF ignored] by (simp_all add: ck targetPorts_def)
  show "ck_mode ck = Some targetModeAllPIDs \<Longrightarrow> af_allPIDsRequireTargetPorts f \<Longrightarrow> ck_targetPorts ck \<noteq> {}"
    using need by (simp add: ck)
qed

lemma startAgentKernel_ok:
  assumes "startAgentKernel env f ck = Inr kern" "finite (ck_targetPorts ck)" "finite (ck_ignorePorts ck)"
  shows "\<forall>k v. map_of (captureSettings (ck_maxPayload ck) (af_captureReads f) (af_captureWrites f) (af_allowNonSocketFDs f)
      (kernelTargetPortsEnabled f (ck_targetPorts ck)) (kernelCgroupFilterEnabled f (ck_mode ck))) k = Some v \<longrightarrow>
      settingOf kern k = Some v"
    "af_fdFilter f \<Longrightarrow> map_option kernelPorts (ak_targetPorts kern) = Some (ck_targetPorts ck) \<and>
      map_option kernelPorts (ak_ignoredPorts kern) = Some (ck_ignorePorts ck)"
proof -
  obtain err config where c: "configureKernelCapture (ae_faults env) (ck_maxPayload ck) (af_captureReads f) (af_captureWrites f)
      (af_allowNonSocketFDs f) (kernelTargetPortsEnabled f (ck_targetPorts ck))
      (kernelCgroupFilterEnabled f (ck_mode ck)) (Some (ae_captureConfig env)) = (err, config)" by force
  have none: "err = None"
    using assms(1) by (cases err; cases "ae_rlimit env"; cases "ae_loads env"; simp add: startAgentKernel_def c)
  define kern0 where "kern0 = \<lparr>ak_config = config, ak_targetPorts = Some (ae_targetPorts env), ak_ignoredPorts = Some (ae_ignoredPorts env)\<rparr>"
  have run: "(if af_fdFilter f
     then (case configureKernelPortFilters (ae_faults env) (ck_targetPorts ck) (ck_ignorePorts ck) kern0 of
             (Some err, _) \<Rightarrow> Inl (AgentPortFiltersFailed err)
           | (None, kern1) \<Rightarrow> Inr kern1)
     else Inr kern0) = Inr kern"
    using assms(1) by (cases "ae_rlimit env"; cases "ae_loads env"; simp add: startAgentKernel_def c none kern0_def Let_def split: if_splits)
  have ports: "configureKernelPortFilters (ae_faults env) (ck_targetPorts ck) (ck_ignorePorts ck) kern0 = (None, kern)" if "af_fdFilter f"
    using run that by (auto split: prod.splits option.splits)
  note ok = filters_ok [OF ports assms(2,3)]
  have same: "ak_config kern = config"
    using run ok(3) by (cases "af_fdFilter f") (auto simp: kern0_def)
  from configureKernelCapture_ok [OF c [unfolded none]] obtain m1 where "config = Some m1"
    "\<And>k. map_of m1 k = (case map_of (captureSettings (ck_maxPayload ck) (af_captureReads f) (af_captureWrites f)
       (af_allowNonSocketFDs f) (kernelTargetPortsEnabled f (ck_targetPorts ck)) (kernelCgroupFilterEnabled f (ck_mode ck))) k of
       None \<Rightarrow> map_of (ae_captureConfig env) k | Some v \<Rightarrow> Some v)"
    by blast
  with same show "\<forall>k v. map_of (captureSettings (ck_maxPayload ck) (af_captureReads f) (af_captureWrites f) (af_allowNonSocketFDs f)
      (kernelTargetPortsEnabled f (ck_targetPorts ck)) (kernelCgroupFilterEnabled f (ck_mode ck))) k = Some v \<longrightarrow>
      settingOf kern k = Some v"
    by (simp add: settingOf_def)
  show "af_fdFilter f \<Longrightarrow> map_option kernelPorts (ak_targetPorts kern) = Some (ck_targetPorts ck) \<and>
      map_option kernelPorts (ak_ignoredPorts kern) = Some (ck_ignorePorts ck)"
    using ok by blast
qed

lemma refreshCgroups_frame:
  "refreshCgroups env pids m = (err, m') \<Longrightarrow> tm_cfg m' = tm_cfg m \<and> tm_active m' = tm_active m"
  by (auto simp: refreshCgroups_def Let_def split: if_splits sum.splits prod.splits option.splits)

lemma target_refresh_ok:
  assumes "target_refresh env m = (Inr pids, m')"
  shows "tm_cfg m' = tm_cfg m" "tm_active m' = set pids" "pids \<noteq> []"
    "tc_mode (tm_cfg m) = targetModeAllPIDs \<Longrightarrow> tc_allowAllPIDs (tm_cfg m) \<and>
       (0 < tc_maxPIDs (tm_cfg m) \<longrightarrow> int (length pids) \<le> tc_maxPIDs (tm_cfg m))"
proof -
  obtain label where r: "resolveTargetPIDs env (tm_cfg m) = Inr (pids, label)" and ne: "pids \<noteq> []"
    and few: "\<not> (tc_mode (tm_cfg m) = targetModeAllPIDs \<and> tc_maxPIDs (tm_cfg m) > 0 \<and> int (length pids) > tc_maxPIDs (tm_cfg m))"
    using assms by (auto simp: target_refresh_def Let_def split: sum.splits prod.splits option.splits if_splits)
  then obtain kern where a: "addTargets (te_putPID env) (tm_active m) pids (tm_pids m) = (None, kern)"
    using assms by (auto simp: target_refresh_def Let_def split: prod.splits option.splits if_splits)
  let ?m1 = "m\<lparr>tm_pids := removeTargets (te_deletePID env) (tm_active m) (set pids) kern, tm_active := set pids, tm_lastLabel := label\<rparr>"
  obtain err m2 where c: "refreshCgroups env pids ?m1 = (err, m2)" by force
  have "m' = m2" using assms ne few by (auto simp: target_refresh_def r a c Let_def split: option.splits)
  then show "tm_cfg m' = tm_cfg m" "tm_active m' = set pids" using refreshCgroups_frame [OF c] by simp_all
  show "pids \<noteq> []" by (fact ne)
  show "tc_allowAllPIDs (tm_cfg m) \<and> (0 < tc_maxPIDs (tm_cfg m) \<longrightarrow> int (length pids) \<le> tc_maxPIDs (tm_cfg m))"
    if "tc_mode (tm_cfg m) = targetModeAllPIDs"
    using r few that by (auto simp: resolveTargetPIDs_def split: if_splits)
qed

lemma startTargets_ok:
  assumes "startTargets env f ck = Inr mgr"
  shows "ck_mode ck = Some (tc_mode (tm_cfg mgr))" "tc_cgroupFilter (tm_cfg mgr) = kernelCgroupFilterEnabled f (ck_mode ck)"
    "tm_active mgr \<noteq> {}" "tm_active mgr \<subseteq> tm_pids mgr"
    "tc_mode (tm_cfg mgr) = targetModeAllPIDs \<Longrightarrow>
       af_allowAllPIDs f \<and> (0 < af_allPIDsMax f \<longrightarrow> int (card (tm_active mgr)) \<le> af_allPIDsMax f)"
proof -
  obtain mode where mode: "ck_mode ck = Some mode"
    using assms by (cases "ck_mode ck") (simp_all add: startTargets_def)
  define m0 where "m0 = newTargetManager \<lparr>tc_mode = mode, tc_pid = af_pid f, tc_container = af_container f,
     tc_allowAllPIDs = af_allowAllPIDs f, tc_maxPIDs = af_allPIDsMax f,
     tc_cgroupFilter = kernelCgroupFilterEnabled f (ck_mode ck)\<rparr>"
  obtain pids where r: "target_refresh (ae_targets env) m0 = (Inr pids, mgr)"
    using assms by (auto simp: startTargets_def mode m0_def split: prod.splits sum.splits)
  note ok = target_refresh_ok [OF r]
  then show "ck_mode ck = Some (tc_mode (tm_cfg mgr))" "tc_cgroupFilter (tm_cfg mgr) = kernelCgroupFilterEnabled f (ck_mode ck)"
    "tm_active mgr \<noteq> {}"
    by (simp_all add: mode m0_def newTargetManager_def)
  have "mgr = fold refreshStep [ae_targets env] m0" by (simp add: refreshStep_def r)
  then show "tm_active mgr \<subseteq> tm_pids mgr"
    using pids.run_covers [of m0 "[ae_targets env]"] by (simp add: m0_def newTargetManager_def)
  show "tc_mode (tm_cfg mgr) = targetModeAllPIDs \<Longrightarrow>
       af_allowAllPIDs f \<and> (0 < af_allPIDsMax f \<longrightarrow> int (card (tm_active mgr)) \<le> af_allPIDsMax f)"
    using ok card_length [of pids] by (auto simp: m0_def newTargetManager_def)
qed

lemma startAgent_ok:
  assumes "startAgent env f = Inr s"
  obtains ck where "checkAgentFlags env f = Inr ck" "startAgentKernel env f ck = Inr (ra_kernel s)"
    "startTargets env f ck = Inr (ra_targets s)" "attachTracepoints (ae_tracepoint env) agentTracepoints = Inr (ra_tracepoints s)"
    "sd_flowFilter (ra_deps s) = agentFilter f ck" "sd_allowNonSocketFDs (ra_deps s) = af_allowNonSocketFDs f"
    "ra_remote s = \<lparr>rm_currentVersion = [], rm_kernel = ra_kernel s, rm_filter = agentFilter f ck\<rparr>"
proof -
  obtain ck where ck: "checkAgentFlags env f = Inr ck"
    using assms by (cases "checkAgentFlags env f") (simp_all add: startAgent_def)
  obtain kern where kern: "startAgentKernel env f ck = Inr kern"
    using assms by (cases "startAgentKernel env f ck") (simp_all add: startAgent_def ck)
  obtain mgr where mgr: "startTargets env f ck = Inr mgr"
    using assms by (cases "startTargets env f ck") (simp_all add: startAgent_def ck kern)
  obtain tps where tps: "attachTracepoints (ae_tracepoint env) agentTracepoints = Inr tps"
    using assms by (cases "attachTracepoints (ae_tracepoint env) agentTracepoints") (simp_all add: startAgent_def ck kern mgr)
  show thesis
    using assms by (intro that [OF ck]) (auto simp: startAgent_def ck kern mgr tps split: if_splits option.splits)
qed

text \<open>C39. What the agent starts with is consistent. If it gets past start-up, then the kernel copies at most the
  configured number of bytes, from 1 to 16384, of the directions asked for; stdio is captured by the kernel
  exactly if the loop lets it through; the cgroup gate is the target manager's; with the flow filter on, the kernel's two port
  maps hold exactly the ports of the filter and the target gate is on exactly if there are target ports, and
  without it the gate is off, whatever target ports were given; the remote configuration starts from this kernel and filter;
  some process is traced and every active one is in the kernel's map; all processes are traced only if that was acknowledged, and then
  no more than the limit; and every mandatory tracepoint is attached.\<close>

theorem agent_start_consistent:
  assumes "startAgent env f = Inr s"
  shows "(\<exists>m. settingOf (ra_kernel s) captureConfigMaxPayloadSize = Some m \<and> uint m = af_maxPayloadSize f \<and> uint m \<in> {1..16384}) \<and>
    settingOf (ra_kernel s) captureConfigCaptureReads = Some (boolToKernelConfig (af_captureReads f)) \<and>
    settingOf (ra_kernel s) captureConfigCaptureWrites = Some (boolToKernelConfig (af_captureWrites f)) \<and>
    settingOf (ra_kernel s) captureConfigCaptureStdio = Some (boolToKernelConfig (sd_allowNonSocketFDs (ra_deps s))) \<and>
    settingOf (ra_kernel s) captureConfigCgroupFilter = Some (boolToKernelConfig (tc_cgroupFilter (tm_cfg (ra_targets s)))) \<and>
    (case sd_flowFilter (ra_deps s) of
       None \<Rightarrow> \<not> af_fdFilter f \<and> settingOf (ra_kernel s) captureConfigTargetPorts = Some 0
     | Some filt \<Rightarrow> af_fdFilter f \<and>
         map_option kernelPorts (ak_targetPorts (ra_kernel s)) = Some (ff_targetPorts filt) \<and>
         map_option kernelPorts (ak_ignoredPorts (ra_kernel s)) = Some (ff_ignorePorts filt) \<and>
         settingOf (ra_kernel s) captureConfigTargetPorts = Some (boolToKernelConfig (ff_targetPorts filt \<noteq> {}))) \<and>
    rm_kernel (ra_remote s) = ra_kernel s \<and> rm_filter (ra_remote s) = sd_flowFilter (ra_deps s) \<and>
    tm_active (ra_targets s) \<noteq> {} \<and> tm_active (ra_targets s) \<subseteq> tm_pids (ra_targets s) \<and>
    (tc_mode (tm_cfg (ra_targets s)) = targetModeAllPIDs \<longrightarrow>
      af_allowAllPIDs f \<and> (0 < af_allPIDsMax f \<longrightarrow> int (card (tm_active (ra_targets s))) \<le> af_allPIDsMax f) \<and>
      (af_allPIDsRequireTargetPorts f \<longrightarrow> (\<forall>filt. sd_flowFilter (ra_deps s) = Some filt \<longrightarrow> ff_targetPorts filt \<noteq> {}))) \<and>
    (\<forall>name. (name, True) \<in> set agentTracepoints \<longrightarrow> name \<in> set (ra_tracepoints s))"
proof -
  obtain ck where flags: "checkAgentFlags env f = Inr ck" and kernel: "startAgentKernel env f ck = Inr (ra_kernel s)"
    and targets: "startTargets env f ck = Inr (ra_targets s)"
    and tps: "attachTracepoints (ae_tracepoint env) agentTracepoints = Inr (ra_tracepoints s)"
    and s: "sd_flowFilter (ra_deps s) = agentFilter f ck" "sd_allowNonSocketFDs (ra_deps s) = af_allowNonSocketFDs f"
      "ra_remote s = \<lparr>rm_currentVersion = [], rm_kernel = ra_kernel s, rm_filter = agentFilter f ck\<rparr>"
    using assms by (rule startAgent_ok)
  note ok = checkAgentFlags_ok [OF flags]
  note k = startAgentKernel_ok [OF kernel ok(4,5)] and t = startTargets_ok [OF targets]
  have size: "uint (word_of_int (af_maxPayloadSize f) :: u32) = af_maxPayloadSize f"
    using ok(1,2) by (simp add: uint_word_of_int take_bit_int_eq_self)
  have "\<forall>name. (name, True) \<in> set agentTracepoints \<longrightarrow> name \<in> set (ra_tracepoints s)"
    using attachTracepoints_ok [OF tps] by force
  moreover have "case agentFilter f ck of
       None \<Rightarrow> \<not> af_fdFilter f \<and> settingOf (ra_kernel s) captureConfigTargetPorts = Some 0
     | Some filt \<Rightarrow> af_fdFilter f \<and>
         map_option kernelPorts (ak_targetPorts (ra_kernel s)) = Some (ff_targetPorts filt) \<and>
         map_option kernelPorts (ak_ignoredPorts (ra_kernel s)) = Some (ff_ignorePorts filt) \<and>
         settingOf (ra_kernel s) captureConfigTargetPorts = Some (boolToKernelConfig (ff_targetPorts filt \<noteq> {}))"
    using k(2) k(1) [rule_format, OF captureSettings_gates(5)]
    by (simp add: agentFilter_def newFlowFilter_def kernelTargetPortsEnabled_def boolToKernelConfig_def)
  moreover have "tc_mode (tm_cfg (ra_targets s)) = targetModeAllPIDs \<longrightarrow>
      af_allowAllPIDs f \<and> (0 < af_allPIDsMax f \<longrightarrow> int (card (tm_active (ra_targets s))) \<le> af_allPIDsMax f) \<and>
      (af_allPIDsRequireTargetPorts f \<longrightarrow> (\<forall>filt. agentFilter f ck = Some filt \<longrightarrow> ff_targetPorts filt \<noteq> {}))"
    using t(1,5) ok(6) by (auto simp: agentFilter_def newFlowFilter_def split: if_splits)
  ultimately show ?thesis
    using k(1) [rule_format, OF captureSettings_gates(1)] k(1) [rule_format, OF captureSettings_gates(2)]
      k(1) [rule_format, OF captureSettings_gates(3)] k(1) [rule_format, OF captureSettings_gates(4)]
      k(1) [rule_format, OF captureSettings_gates(6)] ok(1-3) t(2-4) size
    unfolding s by simp
qed

section \<open>Samples\<close>

text \<open>All processes are traced, with target ports given but the flow filter off.\<close>

definition sampleAgentStart :: agentStartEnv where
  "sampleAgentStart = \<lparr>ae_clean = (\<lambda>p. p), ae_mkdirFails = (\<lambda>_. False), ae_spoolContent = None, ae_rlimit = True, ae_loads = True,
     ae_captureConfig = [], ae_targetPorts = [], ae_ignoredPorts = [], ae_socketTuples = [], ae_faults = noKernelFaults,
     ae_targets = treeEnv, ae_tracepoint = (\<lambda>_. True), ae_producer = True, ae_lib = sampleLib,
     ae_spoolFaults = (noFaults, noFaults), ae_now = 1, ae_reader = (\<lambda>_. True)\<rparr>"

definition sampleAgentFlags :: agentFlags where
  "sampleAgentFlags = (defaultAgentFlags (\<lambda>_. []))\<lparr>af_targetMode := ''all-pids'', af_allowAllPIDs := True,
     af_targetPort := 8080, af_ignorePorts := ''9092'', af_fdFilter := False\<rparr>"

lemma sample_agent_flags:
  "\<exists>ck. checkAgentFlags sampleAgentStart sampleAgentFlags = Inr ck \<and> ck_mode ck = Some targetModeAllPIDs"
proof -
  have "parsePortSet ''9092'' = Inr {9092}" "parsePortSet [] = Inr {}" "parseTargetMode ''all-pids'' = Inr (Some targetModeAllPIDs)"
    "parseBackpressureMode ''best-effort'' = Some backpressureBestEffort" by code_simp+
  then show ?thesis
    by (simp add: checkAgentFlags_def sampleAgentFlags_def sampleAgentStart_def defaultAgentFlags_def Let_def
        newDiskSpool_def validateKernelMaxPayloadSize_def maxKernelPayloadSize_def)
qed

lemma sample_agent_starts: obtains s where "startAgent sampleAgentStart sampleAgentFlags = Inr s"
proof -
  obtain ck where ck: "checkAgentFlags sampleAgentStart sampleAgentFlags = Inr ck" "ck_mode ck = Some targetModeAllPIDs"
    using sample_agent_flags by blast
  have flags: "\<not> af_fdFilter sampleAgentFlags" "0 < af_statsInterval sampleAgentFlags"
    by (simp_all add: sampleAgentFlags_def defaultAgentFlags_def)
  have env: "ae_rlimit sampleAgentStart" "ae_loads sampleAgentStart" "ae_producer sampleAgentStart" "ae_faults sampleAgentStart = noKernelFaults"
    "ae_captureConfig sampleAgentStart = []" by (simp_all add: sampleAgentStart_def)
  have "fst (configureKernelCapture noKernelFaults mp cr cw cs tp cg (Some m)) = None" for mp cr cw cs tp cg m
    unfolding configureKernelCapture_def by (rule putSettings_total) (simp add: noKernelFaults_def)
  then obtain kern where kern: "startAgentKernel sampleAgentStart sampleAgentFlags ck = Inr kern"
    by (simp add: startAgentKernel_def env flags case_prod_beta Let_def)
  have "(case startTargets sampleAgentStart sampleAgentFlags
      \<lparr>ck_mode = Some targetModeAllPIDs, ck_targetPorts = {}, ck_ignorePorts = {}, ck_backpressure = backpressureStrict,
       ck_spool = None, ck_maxPayload = 1\<rparr> of Inl _ \<Rightarrow> False | Inr _ \<Rightarrow> True)" by code_simp
  then obtain mgr where mgr: "startTargets sampleAgentStart sampleAgentFlags ck = Inr mgr"
    by (auto simp: startTargets_def ck(2) kernelCgroupFilterEnabled_def split: sum.splits prod.splits)
  have "case attachTracepoints (ae_tracepoint sampleAgentStart) agentTracepoints of Inl _ \<Rightarrow> False | Inr _ \<Rightarrow> True"
    "openReaders (ae_reader sampleAgentStart) = None" by code_simp+
  with ck kern mgr flags env that show thesis
    unfolding startAgent_def by (auto split: sum.splits)
qed

theorem agent_start_consistent_witness:
  "\<exists>s. startAgent sampleAgentStart sampleAgentFlags = Inr s \<and> sd_flowFilter (ra_deps s) = None \<and>
     settingOf (ra_kernel s) captureConfigTargetPorts = Some 0 \<and> tm_active (ra_targets s) \<noteq> {}"
proof -
  obtain s where s: "startAgent sampleAgentStart sampleAgentFlags = Inr s" by (rule sample_agent_starts)
  have "\<not> af_fdFilter sampleAgentFlags" by (simp add: sampleAgentFlags_def)
  with agent_start_consistent [OF s] s show ?thesis by (auto split: option.splits)
qed

end
