(* ===== verification/MetadataAgreement.thy ===== *)
theory MetadataAgreement
  imports CaptureMetadata
begin

text \<open>
  The metadata of the agent and of the standalone capture program compared: over any history both
  resolvers give the same answers but for the role of a connection, and the cases in which the roles
  differ are exactly known.
\<close>

section \<open>Addresses\<close>

text \<open>The octets of a text of hexadecimal pairs; both programs read them, one by decoding the whole text,
  the other one pair at a time.\<close>

fun hexPairs :: "bytes \<Rightarrow> nat option list" where
  "hexPairs (c # d # s) = parse_hex8 [c, d] # hexPairs s"
| "hexPairs s = []"

lemma length_hexPairs: "length (hexPairs s) = length s div 2"
  by (induction s rule: hexPairs.induct) auto

lemma nth_hexPairs: "i < length s div 2 \<Longrightarrow> hexPairs s ! i = parse_hex8 (take 2 (drop (2 * i) s))"
proof (induction s arbitrary: i rule: hexPairs.induct)
  case (1 c d s)
  have "drop (2 * Suc n) (c # d # s) = drop (2 * n) s" for n by simp
  with 1 show ?case by (cases i) (auto simp del: mult_Suc_right)
qed auto

lemma hex_value_bound: "is_hex c \<Longrightarrow> hex_value c < 16"
  by (auto simp: is_hex_def hex_value_def is_digit_def in_range_def)

lemma parse_hex8_pair:
  "parse_hex8 [c, d] = (if is_hex c \<and> is_hex d then Some (16 * hex_value c + hex_value d) else None)"
  using hex_value_bound [of c] hex_value_bound [of d]
  by (auto simp: parse_hex8_def hex_digits_value_def nat_add_distrib nat_mult_distrib)

lemma hex_decode_pairs:
  "even (length s) \<Longrightarrow>
     hex_decode s = (if None \<in> set (hexPairs s) then None else Some (map (\<lambda>b. char_of (the b)) (hexPairs s)))"
  by (induction s rule: hex_decode.induct) (auto simp: parse_hex8_pair)

lemma swap_words_map: "swap_words (map f xs) = map f (swap_words xs)"
  by (induction xs rule: swap_words.induct) auto

lemma set_swap_words: "set (swap_words xs) = set xs"
  by (induction xs rule: swap_words.induct) auto

lemma swap_words_groups:
  "length xs = 16 \<Longrightarrow> concat (map (\<lambda>g. map (\<lambda>i. xs ! (g * 4 + i)) [3, 2, 1, 0]) [0 ..< 4]) = swap_words xs"
  by (auto simp: length_Suc_conv eval_nat_numeral upt_rec)

lemma ipv4_agrees: "cap_parseIPv4Hex = parseIPv4Hex"
  by (rule ext) (auto simp: cap_parseIPv4Hex_def parseIPv4Hex_def Let_def split: option.split)

lemma ipv6_agrees: "cap_parseIPv6Hex = parseIPv6Hex"
proof (intro ext)
  fix p raw
  show "cap_parseIPv6Hex p raw = parseIPv6Hex p raw"
  proof (cases "length raw = 32")
    case True
    define ps where "ps = hexPairs raw"
    have len: "length ps = 16" by (simp add: ps_def length_hexPairs True)
    have octet: "parse_hex8 (take 2 (drop (g * 8 + i * 2) raw)) = ps ! (g * 4 + i)" if "g < 4" "i < 4" for g i
      using nth_hexPairs [of "g * 4 + i" raw] that True by (simp add: ps_def algebra_simps)
    have "concat (map (\<lambda>g. map (\<lambda>i. parse_hex8 (take 2 (drop (g * 8 + i * 2) raw))) [3, 2, 1, 0]) [0 ..< 4]) =
        concat (map (\<lambda>g. map (\<lambda>i. ps ! (g * 4 + i)) [3, 2, 1, 0]) [0 ..< 4])"
      by (intro arg_cong [of _ _ concat] map_cong)
        (auto simp: octet [of _ 3, simplified] octet [of _ 2, simplified] octet [of _ 1, simplified] octet [of _ 0, simplified])
    also have "\<dots> = swap_words ps" by (rule swap_words_groups [OF len])
    finally have read: "cap_parseIPv6Hex p raw =
        (if None \<in> set (swap_words ps) then [] else pf_ipString p (map (\<lambda>b. char_of (the b)) (swap_words ps)))"
      unfolding cap_parseIPv6Hex_def Let_def by (simp only: True simp_thms if_False)
    have decoded: "hex_decode raw = (if None \<in> set ps then None else Some (map (\<lambda>b. char_of (the b)) ps))"
      unfolding ps_def by (rule hex_decode_pairs) (simp add: True)
    show ?thesis
      by (simp add: read parseIPv6Hex_def True decoded set_swap_words swap_words_map len)
  qed (simp add: cap_parseIPv6Hex_def parseIPv6Hex_def)
qed

lemma addresses_agree: "cap_parseProcNetAddr = parseProcNetAddr"
  unfolding fun_eq_iff cap_parseProcNetAddr_def parseProcNetAddr_def ipv4_agrees ipv6_agrees by blast

section \<open>Roles\<close>

text \<open>The peer is given by halves: exactly one of the port and the address is missing.\<close>

definition halfPeer :: "ConnectionMetadata \<Rightarrow> bool" where
  "halfPeer conn \<longleftrightarrow>
     (if conn_DstPort conn = 0 then conn_DstIP conn \<notin> {''0.0.0.0'', ''::'', []}
      else conn_DstIP conn \<in> {''0.0.0.0'', ''::''})"

text \<open>The same connection, with the same role unless the peer is given by halves; then the agent may say
  inbound where the capture program says outbound.\<close>

definition sameButRole :: "ConnectionMetadata \<Rightarrow> ConnectionMetadata \<Rightarrow> bool" where
  "sameButRole a c \<longleftrightarrow> a\<lparr>conn_Role := []\<rparr> = c\<lparr>conn_Role := []\<rparr> \<and>
     (conn_Role a = conn_Role c \<or> halfPeer a \<and> conn_Role a = ''inbound'' \<and> conn_Role c = ''outbound'')"

lemma sameButRole_refl [simp]: "sameButRole c c"
  by (simp add: sameButRole_def)

lemma servers_differ:
  "isLikelyListenOrServer st ip port = cap_isLikelyListenOrServer st ip port \<or>
   isLikelyListenOrServer st ip port \<and> \<not> cap_isLikelyListenOrServer st ip port \<and>
     (if port = 0 then ip \<notin> {''0.0.0.0'', ''::'', []} else ip \<in> {''0.0.0.0'', ''::''})"
  by (auto simp: isLikelyListenOrServer_def cap_isLikelyListenOrServer_def)

lemma inodes_agree: "rel_option sameButRole (findInode p inode ipv6 lines) (cap_findInode p inode ipv6 lines)"
proof (induction lines)
  case (Cons line rest)
  define fs where "fs = strings_Fields line"
  obtain ip port where remote: "parseProcNetAddr p (fs ! 2) ipv6 = (ip, port)" by force
  show ?case using Cons servers_differ [of "fs ! 3" ip port]
    by (auto simp: Let_def addresses_agree remote sameButRole_def halfPeer_def simp flip: fs_def split: prod.split)
qed simp

lemma connections_agree: "rel_option sameButRole (resolveConnection p pid fd) (cap_resolveConnection p pid fd)"
proof -
  have inode: "cap_socketInode p pid fd = socketInode p pid fd"
    by (simp add: cap_socketInode_def socketInode_def)
  have found: "rel_option sameButRole (findTCPConnection p pid i v) (cap_findTCPConnection p pid i v)" for i v
    by (simp add: findTCPConnection_def cap_findTCPConnection_def inodes_agree split: option.split prod.split)
  show ?thesis
  proof (cases "socketInode p pid fd")
    case (Inr i)
    show ?thesis using found [of i False] found [of i True]
      by (cases "findTCPConnection p pid i False"; cases "cap_findTCPConnection p pid i False")
        (simp_all add: resolveConnection_def cap_resolveConnection_def inode Inr)
  qed (simp add: resolveConnection_def cap_resolveConnection_def inode)
qed

section \<open>The resolvers\<close>

definition sameAnswer :: "resolved \<Rightarrow> resolved \<Rightarrow> bool" where
  "sameAnswer a c \<longleftrightarrow> sameButRole (rs_conn a) (rs_conn c) \<and> rs_process a = rs_process c \<and>
     rs_container a = rs_container c \<and> rs_ok a = rs_ok c"

definition sameEntry :: "flowKey \<times> resolved \<times> time \<Rightarrow> flowKey \<times> resolved \<times> time \<Rightarrow> bool" where
  "sameEntry a c \<longleftrightarrow> fst a = fst c \<and> sameAnswer (fst (snd a)) (fst (snd c)) \<and> snd (snd a) = snd (snd c)"

lemma sameEntry_simp [simp]:
  "sameEntry (key, a, t) (key', c, t') \<longleftrightarrow> key = key' \<and> sameAnswer a c \<and> t = t'"
  by (simp add: sameEntry_def)

lemma sameEntry_pair: "sameEntry x (key, c, t) \<longleftrightarrow> (\<exists>a. x = (key, a, t) \<and> sameAnswer a c)"
  by (cases x) auto

definition sameResolver :: "metadataResolver \<Rightarrow> metadataResolver \<Rightarrow> bool" where
  "sameResolver a c \<longleftrightarrow> list_all2 sameEntry (mr_cache a) (mr_cache c) \<and> mr_ttl a = mr_ttl c \<and> mr_containers a = mr_containers c"

lemma entries_lookup:
  "list_all2 sameEntry xs ys \<Longrightarrow> rel_option (rel_prod sameAnswer (=)) (map_of xs key) (map_of ys key)"
  by (induction rule: list_all2_induct) (auto simp: sameEntry_pair)

lemma entries_update:
  "list_all2 sameEntry xs ys \<Longrightarrow> sameAnswer a c \<Longrightarrow> list_all2 sameEntry (AList.update key (a, t) xs) (AList.update key (c, t) ys)"
  by (induction rule: list_all2_induct) (auto simp: sameEntry_pair)

lemma entries_filter:
  "list_all2 sameEntry xs ys \<Longrightarrow>
     list_all2 sameEntry (filter (\<lambda>(k, v). P (snd v)) xs) (filter (\<lambda>(k, v). P (snd v)) ys)"
  by (induction rule: list_all2_induct) (auto simp: sameEntry_pair)

lemma entries_delete: "list_all2 sameEntry xs ys \<Longrightarrow> list_all2 sameEntry (AList.delete key xs) (AList.delete key ys)"
  by (induction rule: list_all2_induct) (auto simp: sameEntry_pair AList.delete_eq)

lemma fresh_agrees:
  "sameResolver a c \<Longrightarrow> rel_option sameAnswer (resolver_fresh key now a) (resolver_fresh key now c)"
  using entries_lookup [of "mr_cache a" "mr_cache c" key]
  by (cases "map_of (mr_cache a) key"; cases "map_of (mr_cache c) key")
    (auto simp: sameResolver_def resolver_fresh_def)

lemma store_agrees:
  assumes "sameResolver a c" "sameAnswer x y"
  shows "sameResolver (resolver_store key x now a) (resolver_store key y now c)"
proof -
  have "list_all2 sameEntry (AList.update key (x, now) (mr_cache a)) (AList.update key (y, now) (mr_cache c))"
    using assms entries_update unfolding sameResolver_def by blast
  then show ?thesis
    using assms(1) entries_filter [of _ _ "\<lambda>t. \<not> t < now - 2 * mr_ttl c"] list_all2_lengthD
    by (fastforce simp: sameResolver_def resolver_store_def Let_def)
qed

lemma resolve_agrees:
  assumes "sameResolver a c"
    and "resolveWithSource p key now later a = ((x, sx), a')" "cap_resolveWithSource p key now later c = ((y, sy), c')"
  shows "sameAnswer x y \<and> sx = sy \<and> sameResolver a' c'"
proof -
  have ttl: "mr_containers a = mr_containers c" using assms(1) by (simp add: sameResolver_def)
  define found foundC where f: "found = resolveConnection p (fk_pid key) (fk_fd key)"
    "foundC = cap_resolveConnection p (fk_pid key) (fk_fd key)"
  have conn: "rel_option sameButRole found foundC" unfolding f by (rule connections_agree)
  then have conns: "sameButRole (case found of Some x \<Rightarrow> x | None \<Rightarrow> noConnection) (case foundC of Some x \<Rightarrow> x | None \<Rightarrow> noConnection)"
    "(found \<noteq> None) = (foundC \<noteq> None)" by (cases found; cases foundC; simp)+
  have process: "cap_resolveProcess = resolveProcess"
    by (intro ext) (simp add: cap_resolveProcess_def resolveProcess_def)
  show ?thesis
  proof (cases "resolver_fresh key now a")
    case None
    then have none: "resolver_fresh key now c = None" using fresh_agrees [OF assms(1), of key now] by simp
    obtain k cs where k: "resolveContainer p (fk_pid key) now later (mr_containers c) = (k, cs)" by force
    have same: "sameResolver (a\<lparr>mr_containers := cs\<rparr>) (c\<lparr>mr_containers := cs\<rparr>)" using assms(1) by (simp add: sameResolver_def)
    show ?thesis
      using assms(2,3) conns store_agrees [OF same]
      by (auto simp: resolveWithSource_def cap_resolveWithSource_def Let_def None none k ttl process containers_agree sameAnswer_def
          simp flip: f)
  next
    case (Some e)
    then obtain e' where e: "resolver_fresh key now c = Some e'" "sameAnswer e e'"
      using fresh_agrees [OF assms(1), of key now] by (cases "resolver_fresh key now c") auto
    show ?thesis
      using assms conns store_agrees [OF assms(1)] e(2)
      by (auto simp: resolveWithSource_def cap_resolveWithSource_def Let_def Some e(1) sameAnswer_def simp flip: f split: if_splits)
  qed
qed

fun cap_resolverStep :: "resolverOp \<Rightarrow> metadataResolver \<Rightarrow> metadataResolver" where
  "cap_resolverStep (Resolve p key now later) r = snd (cap_resolveWithSource p key now later r)"
| "cap_resolverStep (Forget key) r = cap_resolver_forget key r"

interpretation metadata: step_simulation resolverStep cap_resolverStep sameResolver "(=)" "\<lambda>_ _. True"
proof (unfold_locales, goal_cases)
  case (1 a b i j)
  show ?case
  proof (cases i)
    case (Resolve p key now later)
    obtain x sx a' y sy b' where "resolveWithSource p key now later a = ((x, sx), a')"
      "cap_resolveWithSource p key now later b = ((y, sy), b')" by (metis surj_pair)
    then show ?thesis using resolve_agrees [OF 1(1)] 1(2) Resolve by auto
  next
    case (Forget key)
    then show ?thesis using 1 by (simp add: resolver_forget_def sameResolver_def entries_delete)
  qed
qed

text \<open>C20. The two programs label events alike. After any history of lookups and closes, on whatever the
  system shows at each of them, a lookup gives in both programs the same source, success, process, container,
  addresses and ports; the roles are the same too, unless the peer of the socket has an address without a
  port or a port without an address: then the agent may call it inbound and the capture program outbound.\<close>

theorem metadata_agrees:
  "case (resolveWithSource p key now later (fold resolverStep ops (newMetadataResolver ttl)),
         cap_resolveWithSource p key now later (fold cap_resolverStep ops (cap_newMetadataResolver ttl))) of
     (((agent, agentSource), _), ((capture, captureSource), _)) \<Rightarrow>
       sameAnswer agent capture \<and> agentSource = captureSource"
proof -
  have "sameResolver (newMetadataResolver ttl) (cap_newMetadataResolver ttl)"
    by (simp add: sameResolver_def newMetadataResolver_def cap_newMetadataResolver_def)
  then have same: "sameResolver (fold resolverStep ops (newMetadataResolver ttl)) (fold cap_resolverStep ops (cap_newMetadataResolver ttl))"
    by (intro metadata.run_simulates) (auto simp: list_all2_refl)
  show ?thesis using resolve_agrees [OF same] by (auto split: prod.split)
qed

section \<open>A sample\<close>

text \<open>A socket whose peer has the unspecified address and the port 80.\<close>

definition halfProc :: procfs where
  "halfProc = emptyProc\<lparr>pf_fdLink := (\<lambda>_ _. Some ''socket:[9]''), pf_netTCP := (\<lambda>_ ipv6. if ipv6 then None
     else Some ([''header'', ''0: 0100007F:1F90 00000000:0050 01 0 0 0 0 0 9''], False))\<rparr>"

definition halfKey :: flowKey where
  "halfKey = \<lparr>fk_pid = 7, fk_fd = 3, fk_generation = 1\<rparr>"

theorem metadata_agrees_witness:
  "\<exists>agent capture source a c. resolveWithSource halfProc halfKey 1 1 (newMetadataResolver 15) = ((agent, source), a) \<and>
     cap_resolveWithSource halfProc halfKey 1 1 (cap_newMetadataResolver 15) = ((capture, source), c) \<and>
     sameAnswer agent capture \<and> conn_Role (rs_conn agent) = ''inbound'' \<and> conn_Role (rs_conn capture) = ''outbound''"
proof -
  have roles: "map_option conn_Role (resolveConnection halfProc 7 3) = Some ''inbound''"
    "map_option conn_Role (cap_resolveConnection halfProc 7 3) = Some ''outbound''" by code_simp+
  obtain agent source a capture source' c where r:
    "resolveWithSource halfProc halfKey 1 1 (newMetadataResolver 15) = ((agent, source), a)"
    "cap_resolveWithSource halfProc halfKey 1 1 (cap_newMetadataResolver 15) = ((capture, source'), c)" by (metis surj_pair)
  moreover have "conn_Role (rs_conn agent) = ''inbound''" "conn_Role (rs_conn capture) = ''outbound''"
    using r roles by (auto simp: resolveWithSource_def cap_resolveWithSource_def newMetadataResolver_def cap_newMetadataResolver_def resolver_fresh_def
        halfKey_def Let_def split: prod.splits)
  ultimately show ?thesis using metadata_agrees [of halfProc halfKey 1 1 "[]" 15] by auto
qed

end
