(* ===== verification/SessionRace.thy ===== *)
theory SessionRace
  imports Worker SampleHttp
begin

text \<open>
  The worker's two goroutines that share the sessions, at the grain of their locks: the poll loop,
  which looks a session up under the mutex of the store and then works on its state under the mutex
  of the state, and the sweep of \<^verbatim>\<open>runSessionCleanup\<close>, which holds the store's mutex while it scans and
  takes the state's mutex for each session it flushes afterwards. A session is a cell on a heap, because both
  goroutines hold pointers to it while it may no longer be in the map. Each rule is one critical section.
\<close>

section \<open>The two goroutines\<close>

text \<open>Where the poll loop is: between two events, with the pointer of \<open>getOrCreate\<close> or of \<open>get\<close> in
  hand and the state's mutex not yet taken, or with the stream drained and the key not yet removed.\<close>

datatype procAt = AtPoll | AtState ApiEvent nat | AtClose ApiEvent nat | AtRemove bytes

text \<open>Where the sweep is: waiting for the ticker, scanning under the store's mutex with the keys it
  has still to visit and the states it has taken out, or flushing these one by one.\<close>

datatype sweepAt = AtTicker | AtScan time "bytes set" "nat list" | AtFlush "nat list" nat nat

record sharedWorker =
  sr_heap :: "nat \<Rightarrow> StreamState"
  sr_next :: nat
  sr_map :: "bytes \<Rightarrow> nat option"
  sr_stats :: workerStats
  sr_world :: world
  sr_proc :: procAt
  sr_sweep :: sweepAt

definition storeLocked :: "sharedWorker \<Rightarrow> bool" where
  "storeLocked s \<longleftrightarrow> (\<exists>cutoff todo expired. sr_sweep s = AtScan cutoff todo expired)"

definition countSkipped :: "ApiEvent \<Rightarrow> workerStats \<Rightarrow> workerStats" where
  "countSkipped event stats =
     (if ev_EventType event \<noteq> eventTypeData
      then stats\<lparr>ws_droppedMalformed := ws_droppedMalformed stats + 1\<rparr>
      else stats\<lparr>ws_droppedNoise := ws_droppedNoise stats + 1\<rparr>)"

inductive procStep :: "runtime \<Rightarrow> config \<Rightarrow> sharedWorker \<Rightarrow> sharedWorker \<Rightarrow> bool" for rt cfg where
  skipped: "sr_proc s = AtPoll \<Longrightarrow> ev_EventType event \<noteq> eventTypeClose \<Longrightarrow> \<not> carriesPayload event \<Longrightarrow>
    procStep rt cfg s (s\<lparr>sr_stats := countSkipped event (sr_stats s)\<rparr>)"
| found: "sr_proc s = AtPoll \<Longrightarrow> carriesPayload event \<Longrightarrow> \<not> storeLocked s \<Longrightarrow> sr_map s (sessionKey event) = Some a \<Longrightarrow>
    procStep rt cfg s (s\<lparr>sr_proc := AtState event a\<rparr>)"
| created: "sr_proc s = AtPoll \<Longrightarrow> carriesPayload event \<Longrightarrow> \<not> storeLocked s \<Longrightarrow> sr_map s (sessionKey event) = None \<Longrightarrow>
    timeNow (sr_world s) = (now, w1) \<Longrightarrow>
    procStep rt cfg s (s\<lparr>sr_heap := (sr_heap s)(sr_next s := freshState now), sr_next := Suc (sr_next s),
      sr_map := (sr_map s)(sessionKey event \<mapsto> sr_next s), sr_world := w1, sr_proc := AtState event (sr_next s)\<rparr>)"
| payload: "sr_proc s = AtState event a \<Longrightarrow>
    processPayload rt cfg event (eventPayload event) (sr_world s) (sr_stats s) (sr_heap s a) = (w1, stats1, state1) \<Longrightarrow>
    procStep rt cfg s (s\<lparr>sr_heap := (sr_heap s)(a := state1), sr_stats := stats1, sr_world := w1, sr_proc := AtPoll\<rparr>)"
| unknown: "sr_proc s = AtPoll \<Longrightarrow> ev_EventType event = eventTypeClose \<Longrightarrow> \<not> storeLocked s \<Longrightarrow>
    sr_map s (sessionKey event) = None \<Longrightarrow> procStep rt cfg s s"
| closing: "sr_proc s = AtPoll \<Longrightarrow> ev_EventType event = eventTypeClose \<Longrightarrow> \<not> storeLocked s \<Longrightarrow>
    sr_map s (sessionKey event) = Some a \<Longrightarrow> procStep rt cfg s (s\<lparr>sr_proc := AtClose event a\<rparr>)"
| drained: "sr_proc s = AtClose event a \<Longrightarrow>
    drainParsedConversations rt cfg True (sr_world s) (sr_stats s) (sr_heap s a) = (w1, stats1, state1, parsed) \<Longrightarrow>
    procStep rt cfg s (s\<lparr>sr_heap := (sr_heap s)(a := state1), sr_stats := countParsed parsed stats1, sr_world := w1,
      sr_proc := AtRemove (sessionKey event)\<rparr>)"
| removed: "sr_proc s = AtRemove key \<Longrightarrow> \<not> storeLocked s \<Longrightarrow>
    procStep rt cfg s (s\<lparr>sr_map := (sr_map s)(key := None),
      sr_stats := (sr_stats s)\<lparr>ws_closedSessions := ws_closedSessions (sr_stats s) + 1\<rparr>, sr_proc := AtPoll\<rparr>)"

text \<open>The order in which the scan visits the keys is that of Go's map iteration: any.\<close>

inductive sweepStep :: "runtime \<Rightarrow> config \<Rightarrow> sharedWorker \<Rightarrow> sharedWorker \<Rightarrow> bool" for rt cfg where
  tick: "sr_sweep s = AtTicker \<Longrightarrow> timeNow (sr_world s) = (now, w1) \<Longrightarrow>
    sweepStep rt cfg s (s\<lparr>sr_world := w1, sr_sweep := AtScan (now - cfg_sessionTTL cfg) (dom (sr_map s)) []\<rparr>)"
| kept: "sr_sweep s = AtScan cutoff todo expired \<Longrightarrow> key \<in> todo \<Longrightarrow> sr_map s key = Some a \<Longrightarrow>
    \<not> st_LastActive (sr_heap s a) < cutoff \<Longrightarrow>
    sweepStep rt cfg s (s\<lparr>sr_sweep := AtScan cutoff (todo - {key}) expired\<rparr>)"
| expired: "sr_sweep s = AtScan cutoff todo expired \<Longrightarrow> key \<in> todo \<Longrightarrow> sr_map s key = Some a \<Longrightarrow>
    st_LastActive (sr_heap s a) < cutoff \<Longrightarrow>
    sweepStep rt cfg s (s\<lparr>sr_map := (sr_map s)(key := None), sr_sweep := AtScan cutoff (todo - {key}) (expired @ [a])\<rparr>)"
| scanned: "sr_sweep s = AtScan cutoff {} expired \<Longrightarrow>
    sweepStep rt cfg s (s\<lparr>sr_sweep := AtFlush expired (length expired) 0\<rparr>)"
| flushed: "sr_sweep s = AtFlush (a # as) n parsed \<Longrightarrow>
    drainParsedConversations rt cfg True (sr_world s) (sr_stats s) (sr_heap s a) = (w1, stats1, state1, k) \<Longrightarrow>
    sweepStep rt cfg s (s\<lparr>sr_heap := (sr_heap s)(a := state1), sr_stats := stats1, sr_world := w1,
      sr_sweep := AtFlush as n (parsed + k)\<rparr>)"
| counted: "sr_sweep s = AtFlush [] n parsed \<Longrightarrow>
    sweepStep rt cfg s (s\<lparr>sr_stats := countParsed parsed (if 0 < n
        then (sr_stats s)\<lparr>ws_expiredSessions := ws_expiredSessions (sr_stats s) + of_nat n\<rparr> else sr_stats s),
      sr_sweep := AtTicker\<rparr>)"

inductive_cases procStepE: "procStep rt cfg s t"
inductive_cases sweepStepE: "sweepStep rt cfg s t"

definition sharedStep :: "runtime \<Rightarrow> config \<Rightarrow> sharedWorker \<Rightarrow> sharedWorker \<Rightarrow> bool" where
  "sharedStep rt cfg s t \<longleftrightarrow> procStep rt cfg s t \<or> sweepStep rt cfg s t"

definition sharedStart :: "world \<Rightarrow> sharedWorker" where
  "sharedStart w = \<lparr>sr_heap = (\<lambda>_. freshState 0), sr_next = 0, sr_map = Map.empty, sr_stats = zeroStats,
     sr_world = w, sr_proc = AtPoll, sr_sweep = AtTicker\<rparr>"

definition reachable :: "runtime \<Rightarrow> config \<Rightarrow> world \<Rightarrow> sharedWorker \<Rightarrow> bool" where
  "reachable rt cfg w s \<longleftrightarrow> (sharedStep rt cfg)\<^sup>*\<^sup>* (sharedStart w) s"

section \<open>Who owns a session\<close>

text \<open>The states taken out of the map and not flushed yet.\<close>

fun awaiting :: "sweepAt \<Rightarrow> nat list" where
  "awaiting AtTicker = []"
| "awaiting (AtScan cutoff todo expired) = expired"
| "awaiting (AtFlush as n parsed) = as"

fun inHand :: "procAt \<Rightarrow> nat option" where
  "inHand (AtState event a) = Some a"
| "inHand (AtClose event a) = Some a"
| "inHand _ = None"

text \<open>A state has at most one key, is in the map or waits for its flush but not both, and is flushed once.\<close>

definition owned :: "sharedWorker \<Rightarrow> bool" where
  "owned s \<longleftrightarrow>
     (\<forall>k k' a. sr_map s k = Some a \<longrightarrow> sr_map s k' = Some a \<longrightarrow> k = k') \<and>
     (\<forall>k a. sr_map s k = Some a \<longrightarrow> a < sr_next s \<and> a \<notin> set (awaiting (sr_sweep s))) \<and>
     distinct (awaiting (sr_sweep s)) \<and> (\<forall>a \<in> set (awaiting (sr_sweep s)). a < sr_next s) \<and>
     (\<forall>a. inHand (sr_proc s) = Some a \<longrightarrow> a < sr_next s) \<and>
     (\<forall>cutoff todo expired. sr_sweep s = AtScan cutoff todo expired \<longrightarrow> todo \<subseteq> dom (sr_map s)) \<and>
     finite (dom (sr_map s))"

lemma owned_start: "owned (sharedStart w)"
  by (simp add: owned_def sharedStart_def)

lemma owned_proc: "procStep rt cfg s t \<Longrightarrow> owned s \<Longrightarrow> owned t"
proof (induction rule: procStep.induct)
  case (created s event now w1)
  then show ?case by (auto simp: owned_def storeLocked_def less_Suc_eq split: if_splits)
next
  case (removed s key)
  then show ?case by (auto simp: owned_def storeLocked_def split: if_splits)
qed (auto simp: owned_def)

lemma owned_sweep: "sweepStep rt cfg s t \<Longrightarrow> owned s \<Longrightarrow> owned t"
proof (induction rule: sweepStep.induct)
  case (expired s cutoff todo expired key a)
  then show ?case by (auto simp: owned_def split: if_splits)
next
  case (flushed s a as n parsed w1 stats1 state1 k)
  then show ?case by (auto simp: owned_def)
qed (auto simp: owned_def)

lemma owned_run: "(sharedStep rt cfg)\<^sup>*\<^sup>* s t \<Longrightarrow> owned s \<Longrightarrow> owned t"
  by (induction rule: rtranclp_induct) (auto simp: sharedStep_def dest: owned_proc owned_sweep)

section \<open>Apart, the goroutines are the worker\<close>

definition asWorker :: "config \<Rightarrow> sharedWorker \<Rightarrow> worker" where
  "asWorker cfg s = \<lparr>wk_store = \<lparr>ss_sessions = (\<lambda>key. map_option (sr_heap s) (sr_map s key)), ss_ttl = cfg_sessionTTL cfg\<rparr>,
     wk_stats = sr_stats s, wk_world = sr_world s\<rparr>"

lemma asWorker_simps [simp]:
  "wk_stats (asWorker cfg s) = sr_stats s" "wk_world (asWorker cfg s) = sr_world s"
  "get_session key (wk_store (asWorker cfg s)) = map_option (sr_heap s) (sr_map s key)"
  "asWorker cfg (s\<lparr>sr_proc := p\<rparr>) = asWorker cfg s" "asWorker cfg (s\<lparr>sr_sweep := q\<rparr>) = asWorker cfg s"
  by (simp_all add: asWorker_def get_session_def)

text \<open>Writing a cell writes the session that owns it.\<close>

lemma store_cell:
  assumes "owned s" "sr_map s key = Some a"
  shows "(\<lambda>k. map_option ((sr_heap s)(a := st)) (sr_map s k)) =
    (\<lambda>k. map_option (sr_heap s) (sr_map s k))(key \<mapsto> st)"
proof
  fix k
  have "sr_map s k = Some a \<longleftrightarrow> k = key" using assms by (auto simp: owned_def)
  then show "map_option ((sr_heap s)(a := st)) (sr_map s k) = ((\<lambda>k. map_option (sr_heap s) (sr_map s k))(key \<mapsto> st)) k"
    using assms(2) by (cases "sr_map s k") auto
qed

text \<open>How far the poll loop is with the events that it has taken.\<close>

definition handling :: "runtime \<Rightarrow> config \<Rightarrow> worker \<Rightarrow> sharedWorker \<Rightarrow> bool" where
  "handling rt cfg wk0 s \<longleftrightarrow> (\<exists>events. let wk = fold (processEvent rt cfg) events wk0 in
     case sr_proc s of
       AtPoll \<Rightarrow> asWorker cfg s = wk
     | AtState event a \<Rightarrow> carriesPayload event \<and> sr_map s (sessionKey event) = Some a \<and> wk_stats wk = sr_stats s \<and>
         getOrCreate (sessionKey event) (wk_world wk) (wk_store wk) = (sr_heap s a, sr_world s, wk_store (asWorker cfg s))
     | AtClose event a \<Rightarrow> asWorker cfg s = wk \<and> ev_EventType event = eventTypeClose \<and> sr_map s (sessionKey event) = Some a
     | AtRemove key \<Rightarrow> (\<exists>event state stats1 state1 parsed. ev_EventType event = eventTypeClose \<and> key = sessionKey event \<and>
         get_session key (wk_store wk) = Some state \<and>
         drainParsedConversations rt cfg True (wk_world wk) (wk_stats wk) state = (sr_world s, stats1, state1, parsed) \<and>
         sr_stats s = countParsed parsed stats1 \<and> wk_store (asWorker cfg s) = storeState key state1 (wk_store wk)))"

lemma processEvent_skipped:
  "ev_EventType event \<noteq> eventTypeClose \<Longrightarrow> \<not> carriesPayload event \<Longrightarrow>
     processEvent rt cfg event wk = wk\<lparr>wk_stats := countSkipped event (wk_stats wk)\<rparr>"
  by (auto simp: processEvent_def carriesPayload_def countSkipped_def Let_def)

lemma handling_step:
  assumes "procStep rt cfg s t" "owned s" "handling rt cfg wk0 s"
  shows "handling rt cfg wk0 t"
  using assms
proof (induction rule: procStep.induct)
  case (skipped s event)
  then obtain events where e: "asWorker cfg s = fold (processEvent rt cfg) events wk0" by (auto simp: handling_def)
  have "asWorker cfg (s\<lparr>sr_stats := countSkipped event (sr_stats s)\<rparr>) = fold (processEvent rt cfg) (events @ [event]) wk0"
    using processEvent_skipped [OF skipped(2,3), of rt cfg "asWorker cfg s"] by (simp add: e [symmetric]) (simp add: asWorker_def)
  with skipped(1) show ?case unfolding handling_def Let_def by (intro exI [of _ "events @ [event]"]) simp
next
  case (found s event a)
  then obtain events where e: "asWorker cfg s = fold (processEvent rt cfg) events wk0" by (auto simp: handling_def)
  have "getOrCreate (sessionKey event) (sr_world s) (wk_store (asWorker cfg s)) = (sr_heap s a, sr_world s, wk_store (asWorker cfg s))"
    using found(4) by (simp add: getOrCreate_def asWorker_def)
  with found(2,4) show ?case
    unfolding handling_def Let_def by (intro exI [of _ events]) (simp flip: e)
next
  case (created s event now w1)
  then obtain events where e: "asWorker cfg s = fold (processEvent rt cfg) events wk0" by (auto simp: handling_def)
  define t where "t = s\<lparr>sr_heap := (sr_heap s)(sr_next s := freshState now), sr_next := Suc (sr_next s),
      sr_map := (sr_map s)(sessionKey event \<mapsto> sr_next s), sr_world := w1, sr_proc := AtState event (sr_next s)\<rparr>"
  have "sr_map s k \<noteq> Some (sr_next s)" for k using created(6) by (auto simp: owned_def)
  then have "map_option ((sr_heap s)(sr_next s := freshState now)) (sr_map s k) = map_option (sr_heap s) (sr_map s k)" for k
    by (cases "sr_map s k") auto
  then have "getOrCreate (sessionKey event) (sr_world s) (wk_store (asWorker cfg s)) = (sr_heap t (sr_next s), sr_world t, wk_store (asWorker cfg t))"
    using created(4,5) by (auto simp: getOrCreate_def asWorker_def t_def Let_def fun_eq_iff)
  moreover have "sr_proc t = AtState event (sr_next s)" "sr_map t (sessionKey event) = Some (sr_next s)" "sr_stats t = sr_stats s"
    by (simp_all add: t_def)
  ultimately have "handling rt cfg wk0 t" using created(2)
    unfolding handling_def Let_def by (intro exI [of _ events]) (simp flip: e)
  then show ?case by (simp add: t_def)
next
  case (payload s event a w1 stats1 state1)
  then obtain events where e: "carriesPayload event" "sr_map s (sessionKey event) = Some a"
    and wk: "wk_stats (fold (processEvent rt cfg) events wk0) = sr_stats s"
      "getOrCreate (sessionKey event) (wk_world (fold (processEvent rt cfg) events wk0)) (wk_store (fold (processEvent rt cfg) events wk0)) =
        (sr_heap s a, sr_world s, wk_store (asWorker cfg s))"
    by (auto simp: handling_def Let_def)
  define wk where "wk = fold (processEvent rt cfg) events wk0"
  define t where "t = s\<lparr>sr_heap := (sr_heap s)(a := state1), sr_stats := stats1, sr_world := w1, sr_proc := AtPoll\<rparr>"
  have "processEvent rt cfg event wk = wk\<lparr>wk_store := storeState (sessionKey event) state1 (wk_store (asWorker cfg s)),
      wk_stats := stats1, wk_world := w1\<rparr>"
    using e(1) wk payload(2) by (simp add: processEvent_def carriesPayload_def wk_def Let_def)
  also have "\<dots> = asWorker cfg t"
    using store_cell [OF payload(3) e(2), of state1] by (simp add: asWorker_def storeState_def t_def)
  finally have "asWorker cfg t = fold (processEvent rt cfg) (events @ [event]) wk0" by (simp add: wk_def)
  moreover have "sr_proc t = AtPoll" by (simp add: t_def)
  ultimately have "handling rt cfg wk0 t" unfolding handling_def Let_def by (intro exI [of _ "events @ [event]"]) simp
  then show ?case by (simp add: t_def)
next
  case (unknown s event)
  then show ?case by simp
next
  case (closing s event a)
  then show ?case by (auto simp: handling_def Let_def)
next
  case (drained s event a w1 stats1 state1 parsed)
  then obtain events where e: "asWorker cfg s = fold (processEvent rt cfg) events wk0" "ev_EventType event = eventTypeClose"
    "sr_map s (sessionKey event) = Some a"
    by (auto simp: handling_def Let_def)
  define t where "t = s\<lparr>sr_heap := (sr_heap s)(a := state1), sr_stats := countParsed parsed stats1, sr_world := w1,
      sr_proc := AtRemove (sessionKey event)\<rparr>"
  have "wk_store (asWorker cfg t) = storeState (sessionKey event) state1 (wk_store (asWorker cfg s))"
    using store_cell [OF drained(3) e(3), of state1] by (simp add: asWorker_def storeState_def t_def)
  moreover have "sr_proc t = AtRemove (sessionKey event)" "sr_world t = w1" "sr_stats t = countParsed parsed stats1"
    by (simp_all add: t_def)
  moreover have "get_session (sessionKey event) (wk_store (asWorker cfg s)) = Some (sr_heap s a)" using e(3) by simp
  ultimately have "handling rt cfg wk0 t" using e(2) drained(2)
    unfolding handling_def Let_def by (intro exI [of _ events]) (auto simp flip: e(1))
  then show ?case by (simp add: t_def)
next
  case (removed s key)
  then obtain events event state stats1 state1 parsed where e: "ev_EventType event = eventTypeClose" "key = sessionKey event"
    and wk: "get_session key (wk_store (fold (processEvent rt cfg) events wk0)) = Some state"
      "drainParsedConversations rt cfg True (wk_world (fold (processEvent rt cfg) events wk0))
        (wk_stats (fold (processEvent rt cfg) events wk0)) state = (sr_world s, stats1, state1, parsed)"
      "sr_stats s = countParsed parsed stats1"
      "wk_store (asWorker cfg s) = storeState key state1 (wk_store (fold (processEvent rt cfg) events wk0))"
    by (auto simp: handling_def Let_def)
  define wk where "wk = fold (processEvent rt cfg) events wk0"
  define t where "t = s\<lparr>sr_map := (sr_map s)(key := None),
      sr_stats := (sr_stats s)\<lparr>ws_closedSessions := ws_closedSessions (sr_stats s) + 1\<rparr>, sr_proc := AtPoll\<rparr>"
  have "processEvent rt cfg event wk = wk\<lparr>wk_store := remove_session key (wk_store (asWorker cfg s)), wk_stats := sr_stats t, wk_world := sr_world s\<rparr>"
    using e wk by (simp add: processEvent_def handleCloseEvent_def wk_def Let_def t_def)
  also have "\<dots> = asWorker cfg t"
    by (rule worker.equality) (auto simp: asWorker_def remove_session_def t_def fun_eq_iff)
  finally have "asWorker cfg t = fold (processEvent rt cfg) (events @ [event]) wk0" by (simp add: wk_def)
  moreover have "sr_proc t = AtPoll" by (simp add: t_def)
  ultimately have "handling rt cfg wk0 t" unfolding handling_def Let_def by (intro exI [of _ "events @ [event]"]) simp
  then show ?case by (simp add: t_def)
qed

lemma proc_alone:
  assumes "(procStep rt cfg)\<^sup>*\<^sup>* s t" "owned s" "sr_proc s = AtPoll" "sr_proc t = AtPoll"
  shows "\<exists>events. asWorker cfg t = fold (processEvent rt cfg) events (asWorker cfg s)"
proof -
  have "handling rt cfg (asWorker cfg s) s" using assms(3) by (auto simp: handling_def intro: exI [of _ "[]"])
  with assms(1,2) have "handling rt cfg (asWorker cfg s) t \<and> owned t"
    by (induction rule: rtranclp_induct) (auto dest: handling_step owned_proc)
  with assms(4) show ?thesis by (simp add: handling_def)
qed

text \<open>The sweep alone: a scan in some order of the keys, and the flushes.\<close>

lemma sweepExpired_snoc:
  "sweepExpired (keys @ [key]) cutoff st =
     (let (expired, st1) = sweepExpired keys cutoff st in
      case ss_sessions st1 key of
        None \<Rightarrow> (expired, st1)
      | Some state \<Rightarrow> if st_LastActive state < cutoff then (expired @ [state], remove_session key st1) else (expired, st1))"
  by (induction keys arbitrary: st) (auto simp: Let_def case_prod_beta split: option.splits)

lemma expireAll_snoc:
  "expireAll f (xs @ [x]) w = (let (n, w1) = expireAll f xs w; (m, w2) = f x w1 in (n + m, w2))"
  by (induction xs arbitrary: w) (auto simp: Let_def case_prod_beta)

definition sweptOnce :: "runtime \<Rightarrow> config \<Rightarrow> worker \<Rightarrow> worker \<Rightarrow> bool" where
  "sweptOnce rt cfg wk wk' \<longleftrightarrow> (\<exists>keys. distinct keys \<and> set keys = dom (ss_sessions (wk_store wk)) \<and>
     wk' = cleanupTick rt cfg keys wk)"

definition sweeping :: "runtime \<Rightarrow> config \<Rightarrow> worker \<Rightarrow> sharedWorker \<Rightarrow> bool" where
  "sweeping rt cfg wk0 s \<longleftrightarrow> (\<exists>wk. (sweptOnce rt cfg)\<^sup>*\<^sup>* wk0 wk \<and>
     (case sr_sweep s of
        AtTicker \<Rightarrow> asWorker cfg s = wk
      | AtScan cutoff todo expired \<Rightarrow> (\<exists>now keys. timeNow (wk_world wk) = (now, sr_world s) \<and> cutoff = now - cfg_sessionTTL cfg \<and>
          sweepExpired keys cutoff (wk_store wk) = (map (sr_heap s) expired, wk_store (asWorker cfg s)) \<and>
          sr_stats s = wk_stats wk \<and> distinct keys \<and> set keys \<inter> todo = {} \<and>
          set keys \<union> todo = dom (ss_sessions (wk_store wk)))
      | AtFlush as n parsed \<Rightarrow> (\<exists>now w1 keys before. timeNow (wk_world wk) = (now, w1) \<and>
          sweepExpired keys (now - cfg_sessionTTL cfg) (wk_store wk) = (before @ map (sr_heap s) as, wk_store (asWorker cfg s)) \<and>
          n = length before + length as \<and>
          expireAll (flushState rt cfg) before (w1, wk_stats wk) = (parsed, (sr_world s, sr_stats s)) \<and>
          distinct keys \<and> set keys = dom (ss_sessions (wk_store wk)))))"

lemma sweeping_step:
  assumes "sweepStep rt cfg s t" "owned s" "sweeping rt cfg wk0 s"
  shows "sweeping rt cfg wk0 t"
  using assms
proof (induction rule: sweepStep.induct)
  case (tick s now w1)
  then have wk: "(sweptOnce rt cfg)\<^sup>*\<^sup>* wk0 (asWorker cfg s)" by (auto simp: sweeping_def)
  have "set [] \<union> dom (sr_map s) = dom (ss_sessions (wk_store (asWorker cfg s)))" by (auto simp: asWorker_def dom_def)
  with tick(2) wk show ?case
    unfolding sweeping_def by (intro exI [of _ "asWorker cfg s"]) (auto simp: asWorker_def intro!: exI [of _ "[]"])
next
  case (kept s cutoff todo expired key a)
  then obtain wk now keys where wk: "(sweptOnce rt cfg)\<^sup>*\<^sup>* wk0 wk" and k: "timeNow (wk_world wk) = (now, sr_world s)"
    "cutoff = now - cfg_sessionTTL cfg" "sweepExpired keys cutoff (wk_store wk) = (map (sr_heap s) expired, wk_store (asWorker cfg s))"
    "sr_stats s = wk_stats wk" "distinct keys" "set keys \<inter> todo = {}" "set keys \<union> todo = dom (ss_sessions (wk_store wk))"
    by (auto simp: sweeping_def)
  have "sweepExpired (keys @ [key]) cutoff (wk_store wk) = (map (sr_heap s) expired, wk_store (asWorker cfg s))"
    using kept(3,4) by (simp add: sweepExpired_snoc k(3)) (simp add: asWorker_def)
  moreover have "distinct (keys @ [key])" "set (keys @ [key]) \<inter> (todo - {key}) = {}"
    "set (keys @ [key]) \<union> (todo - {key}) = dom (ss_sessions (wk_store wk))"
    using k(5-7) kept(2) by auto
  ultimately show ?case using wk k(1,2,4)
    unfolding sweeping_def by (intro exI [of _ wk]) (auto simp del: distinct_append set_append intro!: exI [of _ now] exI [of _ "keys @ [key]"])
next
  case (expired s cutoff todo expired key a)
  then obtain wk now keys where wk: "(sweptOnce rt cfg)\<^sup>*\<^sup>* wk0 wk" and k: "timeNow (wk_world wk) = (now, sr_world s)"
    "cutoff = now - cfg_sessionTTL cfg" "sweepExpired keys cutoff (wk_store wk) = (map (sr_heap s) expired, wk_store (asWorker cfg s))"
    "sr_stats s = wk_stats wk" "distinct keys" "set keys \<inter> todo = {}" "set keys \<union> todo = dom (ss_sessions (wk_store wk))"
    by (auto simp: sweeping_def)
  define t where "t = s\<lparr>sr_map := (sr_map s)(key := None), sr_sweep := AtScan cutoff (todo - {key}) (expired @ [a])\<rparr>"
  have "wk_store (asWorker cfg t) = remove_session key (wk_store (asWorker cfg s))"
    by (auto simp: asWorker_def remove_session_def t_def)
  then have "sweepExpired (keys @ [key]) cutoff (wk_store wk) = (map (sr_heap t) (expired @ [a]), wk_store (asWorker cfg t))"
    using expired(3,4) by (simp add: sweepExpired_snoc k(3)) (simp add: asWorker_def t_def)
  moreover have "distinct (keys @ [key])" "set (keys @ [key]) \<inter> (todo - {key}) = {}"
    "set (keys @ [key]) \<union> (todo - {key}) = dom (ss_sessions (wk_store wk))"
    using k(5-7) expired(2) by auto
  moreover have "sr_sweep t = AtScan cutoff (todo - {key}) (expired @ [a])" "sr_world t = sr_world s" "sr_stats t = sr_stats s"
    by (simp_all add: t_def)
  ultimately have "sweeping rt cfg wk0 t" using wk k(1,2,4)
    unfolding sweeping_def by (intro exI [of _ wk])
      (auto simp del: distinct_append set_append map_append intro!: exI [of _ now] exI [of _ "keys @ [key]"])
  then show ?case by (simp add: t_def)
next
  case (scanned s cutoff expired)
  then obtain wk now keys where wk: "(sweptOnce rt cfg)\<^sup>*\<^sup>* wk0 wk" and k: "timeNow (wk_world wk) = (now, sr_world s)"
    "cutoff = now - cfg_sessionTTL cfg" "sweepExpired keys cutoff (wk_store wk) = (map (sr_heap s) expired, wk_store (asWorker cfg s))"
    "sr_stats s = wk_stats wk" "distinct keys" "set keys = dom (ss_sessions (wk_store wk))"
    by (auto simp: sweeping_def)
  then show ?case
    unfolding sweeping_def by (intro exI [of _ wk])
      (auto intro!: exI [of _ now] exI [of _ "sr_world s"] exI [of _ keys] exI [of _ "[] :: StreamState list"])
next
  case (flushed s a as n parsed w1 stats1 state1 m)
  then obtain wk now w0 keys before where wk: "(sweptOnce rt cfg)\<^sup>*\<^sup>* wk0 wk" and k: "timeNow (wk_world wk) = (now, w0)"
    "sweepExpired keys (now - cfg_sessionTTL cfg) (wk_store wk) = (before @ sr_heap s a # map (sr_heap s) as, wk_store (asWorker cfg s))"
    "n = length before + Suc (length as)" "expireAll (flushState rt cfg) before (w0, wk_stats wk) = (parsed, (sr_world s, sr_stats s))"
    "distinct keys" "set keys = dom (ss_sessions (wk_store wk))"
    by (auto simp: sweeping_def)
  define t where "t = s\<lparr>sr_heap := (sr_heap s)(a := state1), sr_stats := stats1, sr_world := w1, sr_sweep := AtFlush as n (parsed + m)\<rparr>"
  have a: "sr_map s key \<noteq> Some a" "a \<notin> set as" for key
    using flushed(3) unfolding owned_def flushed(1) by auto
  have "map_option (sr_heap t) (sr_map s key) = map_option (sr_heap s) (sr_map s key)" for key
    using a(1) [of key] by (cases "sr_map s key") (auto simp: t_def)
  then have "wk_store (asWorker cfg t) = wk_store (asWorker cfg s)" by (simp add: asWorker_def t_def)
  moreover have "map (sr_heap t) as = map (sr_heap s) as" using a(2) by (auto simp: t_def)
  moreover have "expireAll (flushState rt cfg) (before @ [sr_heap s a]) (w0, wk_stats wk) = (parsed + m, (sr_world t, sr_stats t))"
    using flushed(2) by (simp add: expireAll_snoc k(4) flushState_def t_def)
  moreover have "sr_sweep t = AtFlush as n (parsed + m)" by (simp add: t_def)
  ultimately have "sweeping rt cfg wk0 t" using wk k(1,2,3,5,6)
    unfolding sweeping_def by (intro exI [of _ wk])
      (auto intro!: exI [of _ now] exI [of _ w0] exI [of _ keys] exI [of _ "before @ [sr_heap s a]"])
  then show ?case by (simp add: t_def)
next
  case (counted s n parsed)
  then obtain wk now w0 keys before where wk: "(sweptOnce rt cfg)\<^sup>*\<^sup>* wk0 wk" and k: "timeNow (wk_world wk) = (now, w0)"
    "sweepExpired keys (now - cfg_sessionTTL cfg) (wk_store wk) = (before, wk_store (asWorker cfg s))"
    "n = length before" "expireAll (flushState rt cfg) before (w0, wk_stats wk) = (parsed, (sr_world s, sr_stats s))"
    "distinct keys" "set keys = dom (ss_sessions (wk_store wk))"
    by (auto simp: sweeping_def)
  define t where "t = s\<lparr>sr_stats := countParsed parsed (if 0 < n
        then (sr_stats s)\<lparr>ws_expiredSessions := ws_expiredSessions (sr_stats s) + of_nat n\<rparr> else sr_stats s), sr_sweep := AtTicker\<rparr>"
  have "cleanupTick rt cfg keys wk = asWorker cfg t"
    by (rule worker.equality) (simp_all add: cleanupTick_def cleanupExpired_def k(1-4) Let_def asWorker_def t_def)
  with wk k(5,6) have "(sweptOnce rt cfg)\<^sup>*\<^sup>* wk0 (asWorker cfg t)"
    by (metis rtranclp.rtrancl_into_rtrancl sweptOnce_def)
  then have "sweeping rt cfg wk0 t" unfolding sweeping_def by (auto simp: t_def)
  then show ?case by (simp add: t_def)
qed

lemma sweep_alone:
  assumes "(sweepStep rt cfg)\<^sup>*\<^sup>* s t" "owned s" "sr_sweep s = AtTicker" "sr_sweep t = AtTicker"
  shows "(sweptOnce rt cfg)\<^sup>*\<^sup>* (asWorker cfg s) (asWorker cfg t)"
proof -
  have "sweeping rt cfg (asWorker cfg s) s" using assms(3) by (auto simp: sweeping_def)
  with assms(1,2) have "sweeping rt cfg (asWorker cfg s) t \<and> owned t"
    by (induction rule: rtranclp_induct) (auto dest: sweeping_step owned_sweep)
  with assms(4) show ?thesis by (auto simp: sweeping_def)
qed

definition turn :: "runtime \<Rightarrow> config \<Rightarrow> sharedWorker \<Rightarrow> sharedWorker \<Rightarrow> bool" where
  "turn rt cfg s t \<longleftrightarrow>
     (procStep rt cfg)\<^sup>*\<^sup>* s t \<and> sr_proc s = AtPoll \<and> sr_proc t = AtPoll \<or>
     (sweepStep rt cfg)\<^sup>*\<^sup>* s t \<and> sr_sweep s = AtTicker \<and> sr_sweep t = AtTicker"

definition atomicStep :: "runtime \<Rightarrow> config \<Rightarrow> worker \<Rightarrow> worker \<Rightarrow> bool" where
  "atomicStep rt cfg wk wk' \<longleftrightarrow> (\<exists>event. wk' = processEvent rt cfg event wk) \<or> sweptOnce rt cfg wk wk'"

text \<open>C25. Where the two goroutines do not overlap, the sessions behave as in the sequential model: take any
  run of the concurrent worker in which, one after the other, the poll loop handles any number of
  events while the sweep waits, or the sweep makes any number of rounds while the poll loop is between two
  events. Then the sessions, the counters and the output are those of a sequence of \<open>processEvent\<close> and
  \<open>cleanupTick\<close>, each tick visiting every session once.\<close>

theorem turns_are_atomic:
  assumes "(turn rt cfg)\<^sup>*\<^sup>* (sharedStart w) s"
  shows "(atomicStep rt cfg)\<^sup>*\<^sup>* (initialWorker cfg w) (asWorker cfg s)"
proof -
  have fold: "(atomicStep rt cfg)\<^sup>*\<^sup>* wk (fold (processEvent rt cfg) events wk)" for events wk
  proof (induction events arbitrary: wk)
    case (Cons event events)
    have "atomicStep rt cfg wk (processEvent rt cfg event wk)" by (auto simp: atomicStep_def)
    with Cons show ?case by (metis converse_rtranclp_into_rtranclp fold_simps(2))
  qed simp
  have swept: "(sweptOnce rt cfg)\<^sup>*\<^sup>* wk wk' \<Longrightarrow> (atomicStep rt cfg)\<^sup>*\<^sup>* wk wk'" for wk wk'
    by (erule rtranclp_mono [THEN predicate2D, rotated]) (auto simp: atomicStep_def)
  have run: "(procStep rt cfg)\<^sup>*\<^sup>* s t \<Longrightarrow> (sharedStep rt cfg)\<^sup>*\<^sup>* s t" "(sweepStep rt cfg)\<^sup>*\<^sup>* s t \<Longrightarrow> (sharedStep rt cfg)\<^sup>*\<^sup>* s t" for s t
    by (erule rtranclp_mono [THEN predicate2D, rotated], auto simp: sharedStep_def)+
  have step: "(atomicStep rt cfg)\<^sup>*\<^sup>* (asWorker cfg s) (asWorker cfg t) \<and> owned t" if "turn rt cfg s t" "owned s" for s t
  proof -
    from that(1) have "(atomicStep rt cfg)\<^sup>*\<^sup>* (asWorker cfg s) (asWorker cfg t)"
      unfolding turn_def using proc_alone [OF _ that(2)] sweep_alone [OF _ that(2)] fold swept by metis
    with that run owned_run show ?thesis unfolding turn_def by blast
  qed
  have "asWorker cfg (sharedStart w) = initialWorker cfg w"
    by (simp add: asWorker_def sharedStart_def initialWorker_def newSessionStore_def)
  moreover have "(atomicStep rt cfg)\<^sup>*\<^sup>* (asWorker cfg (sharedStart w)) (asWorker cfg s) \<and> owned s"
    using assms by (induction rule: rtranclp_induct) (auto simp: owned_start dest: step intro: rtranclp_trans)
  ultimately show ?thesis by simp
qed

section \<open>Waiting\<close>

fun sweepLeft :: "sweepAt \<Rightarrow> nat" where
  "sweepLeft AtTicker = 0"
| "sweepLeft (AtScan cutoff todo expired) = 2 * card todo + length expired + 2"
| "sweepLeft (AtFlush as n parsed) = length as + 1"

lemma proc_keeps_sweep: "procStep rt cfg s t \<Longrightarrow> sr_sweep t = sr_sweep s"
  by (auto elim: procStepE)

lemma sweep_shrinks:
  "sweepStep rt cfg s t \<Longrightarrow> owned s \<Longrightarrow> sr_sweep s \<noteq> AtTicker \<Longrightarrow> sweepLeft (sr_sweep t) < sweepLeft (sr_sweep s)"
proof (induction rule: sweepStep.induct)
  case (kept s cutoff todo expired key a)
  then have "finite todo" unfolding owned_def by (meson finite_subset)
  from card_Diff1_less [OF this kept(2)] kept(1) show ?case by simp
next
  case (expired s cutoff todo expired key a)
  then have "finite todo" unfolding owned_def by (meson finite_subset)
  from card_Diff1_less [OF this expired(2)] expired(1) show ?case by simp
qed simp_all

lemma sweep_enabled:
  assumes "owned s"
  shows "\<exists>t. sweepStep rt cfg s t"
proof (cases "sr_sweep s")
  case AtTicker
  obtain now w1 where "timeNow (sr_world s) = (now, w1)" by force
  from sweepStep.tick [OF AtTicker this] show ?thesis by blast
next
  case (AtScan cutoff todo expired)
  show ?thesis
  proof (cases "todo = {}")
    case True
    with AtScan sweepStep.scanned show ?thesis by blast
  next
    case False
    then obtain key a where k: "key \<in> todo" "sr_map s key = Some a"
      using assms AtScan unfolding owned_def by (metis domIff ex_in_conv not_None_eq subsetD)
    from sweepStep.kept [OF AtScan k] sweepStep.expired [OF AtScan k] show ?thesis by blast
  qed
next
  case (AtFlush as n parsed)
  show ?thesis
  proof (cases as)
    case Nil
    with AtFlush sweepStep.counted show ?thesis by blast
  next
    case (Cons a as')
    obtain w1 stats1 state1 k where
      "drainParsedConversations rt cfg True (sr_world s) (sr_stats s) (sr_heap s a) = (w1, stats1, state1, k)"
      by (metis prod_cases4)
    from sweepStep.flushed [OF AtFlush [unfolded Cons] this] show ?thesis by blast
  qed
qed

lemma proc_enabled:
  assumes "sr_proc s \<noteq> AtPoll" "\<not> storeLocked s"
  shows "\<exists>t. procStep rt cfg s t"
proof (cases "sr_proc s")
  case (AtState event a)
  obtain w1 stats1 state1 where
    "processPayload rt cfg event (eventPayload event) (sr_world s) (sr_stats s) (sr_heap s a) = (w1, stats1, state1)"
    by (metis prod_cases3)
  from procStep.payload [OF AtState this] show ?thesis by blast
next
  case (AtClose event a)
  obtain w1 stats1 state1 k where
    "drainParsedConversations rt cfg True (sr_world s) (sr_stats s) (sr_heap s a) = (w1, stats1, state1, k)"
    by (metis prod_cases4)
  from procStep.drained [OF AtClose this] show ?thesis by blast
next
  case (AtRemove key)
  from procStep.removed [OF AtRemove assms(2)] show ?thesis by blast
qed (use assms in simp)

text \<open>C26. The two goroutines cannot deadlock, and a sweep ends. In every reachable state the sweep can go on;
  while it is under way each of its steps leaves it less to do, down to nothing, and no step of the poll loop
  gives it more; and the poll loop, once it has taken an event, can always go on unless the sweep is scanning.\<close>

theorem sweep_ends:
  assumes "reachable rt cfg w s"
  shows "(\<exists>t. sweepStep rt cfg s t) \<and>
    (\<forall>t. sweepStep rt cfg s t \<longrightarrow> sr_sweep s \<noteq> AtTicker \<longrightarrow> sweepLeft (sr_sweep t) < sweepLeft (sr_sweep s)) \<and>
    (\<forall>t. procStep rt cfg s t \<longrightarrow> sweepLeft (sr_sweep t) = sweepLeft (sr_sweep s)) \<and>
    (sr_proc s = AtPoll \<or> storeLocked s \<or> (\<exists>t. procStep rt cfg s t))"
proof -
  have "owned s" using assms owned_run owned_start unfolding reachable_def by blast
  then show ?thesis using sweep_enabled sweep_shrinks proc_keeps_sweep proc_enabled by metis
qed

section \<open>The race\<close>

text \<open>A state that nobody can reach any more: no key, no flush to come, no pointer in hand.\<close>

definition abandoned :: "sharedWorker \<Rightarrow> nat \<Rightarrow> bool" where
  "abandoned s a \<longleftrightarrow> a < sr_next s \<and> (\<forall>key. sr_map s key \<noteq> Some a) \<and> a \<notin> set (awaiting (sr_sweep s)) \<and>
     inHand (sr_proc s) \<noteq> Some a"

lemma abandoned_proc: "procStep rt cfg s t \<Longrightarrow> abandoned s a \<Longrightarrow> abandoned t a \<and> sr_heap t a = sr_heap s a"
  by (auto simp: abandoned_def elim!: procStepE split: if_splits)

lemma abandoned_sweep: "sweepStep rt cfg s t \<Longrightarrow> abandoned s a \<Longrightarrow> abandoned t a \<and> sr_heap t a = sr_heap s a"
  by (auto simp: abandoned_def elim!: sweepStepE split: if_splits)

lemma abandoned_stays:
  "(sharedStep rt cfg)\<^sup>*\<^sup>* s t \<Longrightarrow> abandoned s a \<Longrightarrow> abandoned t a \<and> sr_heap t a = sr_heap s a"
  by (induction rule: rtranclp_induct) (auto simp: sharedStep_def dest: abandoned_proc abandoned_sweep)

text \<open>C27. The sweep can take a session away from under an event. If the sweep expires and flushes a session
  after the poll loop has looked it up and before it has the state's mutex, the event is processed on a
  state that no key leads to: what it leaves in the buffers and the queue of that state stays there
  for ever, never completed by later events of the flow, which start a new session, and never flushed.\<close>

theorem raced_event_lost:
  assumes "reachable rt cfg w s" "sr_proc s = AtState event a"
    and "\<forall>key. sr_map s key \<noteq> Some a" "a \<notin> set (awaiting (sr_sweep s))"
    and "procStep rt cfg s t" "(sharedStep rt cfg)\<^sup>*\<^sup>* t u"
  shows "sr_heap u a = snd (snd (processPayload rt cfg event (eventPayload event) (sr_world s) (sr_stats s) (sr_heap s a))) \<and>
    (\<forall>key. sr_map u key \<noteq> Some a) \<and> a \<notin> set (awaiting (sr_sweep u)) \<and> inHand (sr_proc u) \<noteq> Some a"
proof -
  have "owned s" using assms(1) owned_run owned_start unfolding reachable_def by blast
  then have a: "a < sr_next s" using assms(2) by (simp add: owned_def)
  obtain w1 stats1 state1 where p: "processPayload rt cfg event (eventPayload event) (sr_world s) (sr_stats s) (sr_heap s a) = (w1, stats1, state1)"
    by (metis prod_cases3)
  have "t = s\<lparr>sr_heap := (sr_heap s)(a := state1), sr_stats := stats1, sr_world := w1, sr_proc := AtPoll\<rparr>"
    using assms(2,5) p by (auto elim: procStepE)
  then have "abandoned t a" "sr_heap t a = state1" using a assms(3,4) by (simp_all add: abandoned_def)
  with abandoned_stays [OF assms(6)] p show ?thesis by (simp add: abandoned_def)
qed

section \<open>Samples\<close>

text \<open>A clock that advances by 100 with each reading, and two chunks of one request.\<close>

definition slowWorld :: world where
  "slowWorld = sampleWorld\<lparr>w_clock := (\<lambda>n. 100 * int n)\<rparr>"

definition chunk :: "bytes \<Rightarrow> ApiEvent" where
  "chunk payload = sampleEvent eventTypeData directionRead 3 payload"

lemma chunk_key: "sessionKey (chunk d) = sessionKey (chunk [])"
  by (simp add: chunk_def sampleEvent_def sessionKey_def pidfdKey_def)

lemma turn_proc: "procStep rt cfg s t \<Longrightarrow> (sharedStep rt cfg)\<^sup>*\<^sup>* s0 s \<Longrightarrow> (sharedStep rt cfg)\<^sup>*\<^sup>* s0 t"
  by (metis rtranclp.rtrancl_into_rtrancl sharedStep_def)

lemma turn_sweep: "sweepStep rt cfg s t \<Longrightarrow> (sharedStep rt cfg)\<^sup>*\<^sup>* s0 s \<Longrightarrow> (sharedStep rt cfg)\<^sup>*\<^sup>* s0 t"
  by (metis rtranclp.rtrancl_into_rtrancl sharedStep_def)

text \<open>What the second chunk leaves: the request is still incomplete.\<close>

lemma waiting_request:
  assumes "st_PendingReqs st = []" "st_ReqData st \<in> {''POST /c'', ''POST /cd''}"
    and "drainParsedConversations sampleRuntime sampleConfig close w stats st = (w', stats', st', n)"
  shows "st_ReqData st' = st_ReqData st" "st_PendingReqs st' = []"
proof -
  have "syncRequestBuffer ''POST /c'' = (''POST /c'', 0)" "syncRequestBuffer ''POST /cd'' = (''POST /cd'', 0)"
    "parseOneRequest sampleRuntime ''POST /c'' (cfg_maxBodyBytes sampleConfig) = None"
    "parseOneRequest sampleRuntime ''POST /cd'' (cfg_maxBodyBytes sampleConfig) = None" by code_simp+
  with assms show "st_ReqData st' = st_ReqData st" "st_PendingReqs st' = []"
    by (auto simp: drainParsedConversations_def drainRequests.simps [of _ _ _ _ st]
        drainResponses.simps [of _ _ _ _ _ "st\<lparr>st_ReqData := _\<rparr>"])
qed

lemma second_chunk:
  assumes "st_PendingReqs st = []" "st_ReqData st = ''POST /c''"
  shows "st_ReqData (snd (snd (processPayload sampleRuntime sampleConfig (chunk ''d'') (eventPayload (chunk ''d'')) w stats st))) = ''POST /cd''"
proof -
  have e: "eventPayload (chunk ''d'') = ''d''" "classifyPayload ''d'' = payloadUnknown" "routeAsRequest (chunk ''d'') ''d''" by code_simp+
  have keep: "st_ReqData (trackLoss ev (mergeStreamMetadata ev (st\<lparr>st_LastActive := now\<rparr>))) = st_ReqData st"
    "st_PendingReqs (trackLoss ev (mergeStreamMetadata ev (st\<lparr>st_LastActive := now\<rparr>))) = st_PendingReqs st" for ev now
    by (auto simp: trackLoss_def mergeStreamMetadata_def Let_def)
  let ?st = "\<lambda>now. (trackLoss (chunk ''d'') (mergeStreamMetadata (chunk ''d'') (st\<lparr>st_LastActive := now\<rparr>)))\<lparr>st_ReqData := ''POST /cd''\<rparr>"
  have "st_ReqData (fst (snd (snd (drainParsedConversations sampleRuntime sampleConfig False w' stats' (?st now))))) = ''POST /cd''" for w' stats' now
  proof -
    obtain w2 stats2 st2 n where d: "drainParsedConversations sampleRuntime sampleConfig False w' stats' (?st now) = (w2, stats2, st2, n)"
      by (metis prod_cases4)
    have "st_PendingReqs (?st now) = []" using assms keep by simp
    from waiting_request(1) [OF this _ d] show ?thesis by (simp add: d)
  qed
  then show ?thesis
    using assms by (simp add: processPayload_def e appendPayload_def keep sampleConfig_def Let_def case_prod_beta)
qed

text \<open>The first chunk creates the session 0.\<close>

lemma first_chunk:
  obtains s where "(procStep sampleRuntime sampleConfig)\<^sup>*\<^sup>* (sharedStart slowWorld) s" "sr_proc s = AtPoll" "sr_sweep s = AtTicker"
    "sr_map s = Map.empty(sessionKey (chunk []) \<mapsto> 0)" "st_ReqData (sr_heap s 0) = ''POST /c''" "st_LastActive (sr_heap s 0) = 100"
    "st_PendingReqs (sr_heap s 0) = []" "w_clock (sr_world s) (w_clockReads (sr_world s)) = 200"
proof -
  let ?e = "chunk ''POST /c''" and ?w = "slowWorld\<lparr>w_clockReads := Suc 0\<rparr>"
  obtain w1 stats1 state1 where p: "processPayload sampleRuntime sampleConfig ?e (eventPayload ?e) ?w zeroStats (freshState 0) = (w1, stats1, state1)"
    by (metis prod_cases3)
  have "(st_ReqData state1, st_LastActive state1, st_PendingReqs state1, w_clock w1 (w_clockReads w1)) = (''POST /c'', 100, [], 200)"
  proof -
    have "(\<lambda>(w, _, st). (st_ReqData st, st_LastActive st, map pr_body (st_PendingReqs st), w_clock w (w_clockReads w)))
        (processPayload sampleRuntime sampleConfig ?e (eventPayload ?e) ?w zeroStats (freshState 0)) = (''POST /c'', 100, [], 200)"
      by code_simp
    from this [unfolded p] show ?thesis by simp
  qed
  then have r: "st_ReqData state1 = ''POST /c''" "st_LastActive state1 = 100" "st_PendingReqs state1 = []" "w_clock w1 (w_clockReads w1) = 200"
    by simp_all
  define s1 where "s1 = (sharedStart slowWorld)\<lparr>sr_heap := (sr_heap (sharedStart slowWorld))(0 := freshState 0), sr_next := Suc 0,
      sr_map := (sr_map (sharedStart slowWorld))(sessionKey ?e \<mapsto> 0), sr_world := ?w, sr_proc := AtState ?e 0\<rparr>"
  define s2 where "s2 = s1\<lparr>sr_heap := (sr_heap s1)(0 := state1), sr_stats := stats1, sr_world := w1, sr_proc := AtPoll\<rparr>"
  have carries: "carriesPayload ?e" unfolding carriesPayload_def by code_simp
  have now: "timeNow slowWorld = (0, ?w)" by (simp add: timeNow_def slowWorld_def sampleWorld_def)
  have c1: "procStep sampleRuntime sampleConfig (sharedStart slowWorld) s1"
    using procStep.created [of "sharedStart slowWorld" ?e 0 ?w sampleRuntime sampleConfig] carries now
    by (simp add: s1_def sharedStart_def storeLocked_def)
  have c2: "procStep sampleRuntime sampleConfig s1 s2"
    unfolding s2_def by (rule procStep.payload [of _ ?e]) (simp_all add: s1_def sharedStart_def p)
  have "sr_proc s2 = AtPoll" "sr_sweep s2 = AtTicker" "sr_map s2 = Map.empty(sessionKey (chunk []) \<mapsto> 0)" "sr_heap s2 0 = state1" "sr_world s2 = w1"
    by (simp_all add: s2_def s1_def sharedStart_def chunk_key [of "''POST /c''"])
  with r c1 c2 show thesis by (intro that [of s2]) (auto intro: rtranclp.intros)
qed

theorem turns_are_atomic_witness:
  "\<exists>s. st_ReqData (sr_heap s 0) = ''POST /c'' \<and>
     (atomicStep sampleRuntime sampleConfig)\<^sup>*\<^sup>* (initialWorker sampleConfig slowWorld) (asWorker sampleConfig s)"
proof -
  obtain s where s: "(procStep sampleRuntime sampleConfig)\<^sup>*\<^sup>* (sharedStart slowWorld) s" "sr_proc s = AtPoll"
    "st_ReqData (sr_heap s 0) = ''POST /c''"
    by (rule first_chunk) blast
  then have "turn sampleRuntime sampleConfig (sharedStart slowWorld) s" by (simp add: turn_def sharedStart_def)
  with turns_are_atomic [of sampleRuntime sampleConfig slowWorld s] s(3) show ?thesis by blast
qed

theorem sweep_ends_witness:
  "\<exists>s. (\<exists>cutoff key. sr_sweep s = AtScan cutoff {key} []) \<and>
     (\<forall>t. sweepStep sampleRuntime sampleConfig s t \<longrightarrow> sweepLeft (sr_sweep t) < 4)"
proof -
  obtain s where s: "(procStep sampleRuntime sampleConfig)\<^sup>*\<^sup>* (sharedStart slowWorld) s" "sr_sweep s = AtTicker"
    "sr_map s = Map.empty(sessionKey (chunk []) \<mapsto> 0)"
    by (rule first_chunk) blast
  obtain now w1 where t: "timeNow (sr_world s) = (now, w1)" by force
  define s1 where "s1 = s\<lparr>sr_world := w1, sr_sweep := AtScan (now - cfg_sessionTTL sampleConfig) (dom (sr_map s)) []\<rparr>"
  have "(sharedStep sampleRuntime sampleConfig)\<^sup>*\<^sup>* (sharedStart slowWorld) s"
    by (rule rtranclp_mono [THEN predicate2D, OF _ s(1)]) (auto simp: sharedStep_def)
  from turn_sweep [OF sweepStep.tick [OF s(2) t] this]
  have "reachable sampleRuntime sampleConfig slowWorld s1" by (simp add: reachable_def s1_def)
  moreover have sw: "sr_sweep s1 = AtScan (now - 60) {sessionKey (chunk [])} []"
    by (simp add: s1_def s(3) sampleConfig_def)
  ultimately have "\<forall>t. sweepStep sampleRuntime sampleConfig s1 t \<longrightarrow> sweepLeft (sr_sweep t) < 4"
    using sweep_ends [of sampleRuntime sampleConfig slowWorld s1] by simp
  with sw show ?thesis by blast
qed

theorem raced_event_lost_witness:
  "\<exists>t. reachable sampleRuntime sampleConfig slowWorld t \<and>
     (\<forall>u. (sharedStep sampleRuntime sampleConfig)\<^sup>*\<^sup>* t u \<longrightarrow>
        st_ReqData (sr_heap u 0) = ''POST /cd'' \<and> (\<forall>key. sr_map u key \<noteq> Some 0))"
proof -
  let ?rt = sampleRuntime and ?cfg = sampleConfig and ?e = "chunk ''d''"
  obtain s where s: "(procStep ?rt ?cfg)\<^sup>*\<^sup>* (sharedStart slowWorld) s" "sr_proc s = AtPoll" "sr_sweep s = AtTicker"
    "sr_map s = Map.empty(sessionKey (chunk []) \<mapsto> 0)" "st_ReqData (sr_heap s 0) = ''POST /c''" "st_LastActive (sr_heap s 0) = 100"
    "st_PendingReqs (sr_heap s 0) = []" "w_clock (sr_world s) (w_clockReads (sr_world s)) = 200"
    by (rule first_chunk) blast
  have carries: "carriesPayload ?e" unfolding carriesPayload_def by code_simp
  define s1 where "s1 = s\<lparr>sr_proc := AtState ?e 0\<rparr>"
  define s2 where "s2 = s1\<lparr>sr_world := snd (timeNow (sr_world s1)), sr_sweep := AtScan 140 {sessionKey (chunk [])} []\<rparr>"
  define s3 where "s3 = s2\<lparr>sr_map := (sr_map s2)(sessionKey (chunk []) := None),
      sr_sweep := AtScan 140 ({sessionKey (chunk [])} - {sessionKey (chunk [])}) ([] @ [0])\<rparr>"
  define s4 where "s4 = s3\<lparr>sr_sweep := AtFlush [0] (length [0::nat]) 0\<rparr>"
  have run0: "(sharedStep ?rt ?cfg)\<^sup>*\<^sup>* (sharedStart slowWorld) s"
    by (rule rtranclp_mono [THEN predicate2D, OF _ s(1)]) (auto simp: sharedStep_def)
  have "procStep ?rt ?cfg s s1"
    unfolding s1_def by (rule procStep.found) (simp_all add: s carries storeLocked_def chunk_key [of "''d''"])
  note run1 = turn_proc [OF this run0]
  have "sweepStep ?rt ?cfg s1 s2"
    using sweepStep.tick [of s1 200 "snd (timeNow (sr_world s1))" ?rt ?cfg] s(3,4,8)
    by (simp add: s2_def s1_def timeNow_def sampleConfig_def)
  note run2 = turn_sweep [OF this run1]
  have "sweepStep ?rt ?cfg s2 s3"
    unfolding s3_def by (rule sweepStep.expired [of _ _ _ _ _ 0]) (simp_all add: s2_def s1_def s(4,6))
  note run3 = turn_sweep [OF this run2]
  have "sweepStep ?rt ?cfg s3 s4"
    using sweepStep.scanned [of s3 140 "[0]" ?rt ?cfg] by (simp add: s4_def s3_def)
  note run4 = turn_sweep [OF this run3]
  obtain w5 stats5 st5 k where d: "drainParsedConversations ?rt ?cfg True (sr_world s4) (sr_stats s4) (sr_heap s4 0) = (w5, stats5, st5, k)"
    by (metis prod_cases4)
  define s5 where "s5 = s4\<lparr>sr_heap := (sr_heap s4)(0 := st5), sr_stats := stats5, sr_world := w5, sr_sweep := AtFlush [] (length [0::nat]) (0 + k)\<rparr>"
  have "sweepStep ?rt ?cfg s4 s5"
    unfolding s5_def by (rule sweepStep.flushed [OF _ d]) (simp add: s4_def)
  from turn_sweep [OF this run4] have reach: "reachable ?rt ?cfg slowWorld s5" by (simp add: reachable_def)
  have at: "sr_proc s5 = AtState ?e 0" "\<forall>key. sr_map s5 key \<noteq> Some 0" "0 \<notin> set (awaiting (sr_sweep s5))"
    by (simp_all add: s5_def s4_def s3_def s2_def s1_def s(4))
  obtain w6 stats6 st6 where p: "processPayload ?rt ?cfg ?e (eventPayload ?e) (sr_world s5) (sr_stats s5) (sr_heap s5 0) = (w6, stats6, st6)"
    by (metis prod_cases3)
  from procStep.payload [OF at(1) p] obtain t where t: "procStep ?rt ?cfg s5 t" by blast
  have "sr_heap s4 0 = sr_heap s 0" by (simp add: s4_def s3_def s2_def s1_def)
  with waiting_request [OF _ _ d] s(5,7) have "st_ReqData st5 = ''POST /c''" "st_PendingReqs st5 = []" by simp_all
  then have "st_ReqData st6 = ''POST /cd''"
    using second_chunk [of "sr_heap s5 0" "sr_world s5" "sr_stats s5"] p by (simp add: s5_def)
  with raced_event_lost [OF reach at t] p have "\<forall>u. (sharedStep ?rt ?cfg)\<^sup>*\<^sup>* t u \<longrightarrow>
      st_ReqData (sr_heap u 0) = ''POST /cd'' \<and> (\<forall>key. sr_map u key \<noteq> Some 0)" by auto
  moreover have "reachable ?rt ?cfg slowWorld t" using reach turn_proc [OF t] by (simp add: reachable_def)
  ultimately show ?thesis by blast
qed

end
