(* ===== verification/CaptureShutdown.thy ===== *)
theory CaptureShutdown
  imports CaptureRuns CaptureFlows
begin

text \<open>
  The end of karaxys-capture, the second half of \<open>main\<close> in \<^verbatim>\<open>cmd/karaxys-capture/main.go\<close>: after a signal the
  readers of the ring buffers are closed one by one, each shard returns from its next read, then \<open>main\<close>
  closes the stop channel and the event channel and sleeps for two seconds while the processing goroutine
  empties the channel. The life of the program is a step relation over the system of \<open>CaptureLoop\<close> and the
  places where its goroutines stand; every step is labelled with the turn of the system that it takes, if any.
\<close>

section \<open>The goroutines\<close>

text \<open>A shard is in \<open>Read\<close>, has a record in its hands, or has returned.\<close>

datatype shardAt = Reading | Holding captureLoopEnv ringRead | Returned

text \<open>\<open>main\<close> waits for the shards, has closed the stop channel, has closed the event channel and sleeps, or has
  returned, which ends every goroutine.\<close>

datatype mainAt = Waiting | Stopping | Draining | Exited

text \<open>\<open>lf_signal\<close> is \<open>None\<close> before the signal, then the number of readers that are closed. A panic ends the program.\<close>

record captureLife =
  lf_system :: captureSystem
  lf_shards :: "shardAt list"
  lf_signal :: "nat option"
  lf_main :: mainAt
  lf_processing :: bool
  lf_sweeping :: bool
  lf_panicked :: bool

definition lifeStart :: "nat \<Rightarrow> captureSystem \<Rightarrow> captureLife" where
  "lifeStart n s = \<lparr>lf_system = s, lf_shards = replicate n Reading, lf_signal = None, lf_main = Waiting,
     lf_processing = True, lf_sweeping = True, lf_panicked = False\<rparr>"

definition readerClosed :: "nat \<Rightarrow> captureLife \<Rightarrow> bool" where
  "readerClosed i l = (case lf_signal l of None \<Rightarrow> False | Some k \<Rightarrow> i < k)"

definition alive :: "captureLife \<Rightarrow> bool" where
  "alive l \<longleftrightarrow> lf_main l \<noteq> Exited \<and> \<not> lf_panicked l"

text \<open>The closing of the event channel is what the processing goroutine's \<open>range\<close> and a sender see.\<close>

definition eventChClosed :: "captureLife \<Rightarrow> bool" where
  "eventChClosed l \<longleftrightarrow> lf_main l = Draining \<or> lf_main l = Exited"

definition stopChClosed :: "captureLife \<Rightarrow> bool" where
  "stopChClosed l \<longleftrightarrow> lf_main l \<noteq> Waiting"

text \<open>The loop arrives at the \<open>select\<close> that sends: with room in the channel the event would go in. On a closed
  channel this panics, full or not.\<close>

definition arrivesAtSend :: "captureLoopEnv \<Rightarrow> ringRead \<Rightarrow> shardCaptureDeps \<Rightarrow> bool" where
  "arrivesAtSend env read d \<longleftrightarrow>
     fst (cap_shardStep env read (d\<lparr>cd_capacity := Suc (length (cd_channel d))\<rparr>)) \<noteq> None"

inductive lifeStep ::
  "h2lib \<Rightarrow> runtime \<Rightarrow> captureConfig \<Rightarrow> captureLife \<Rightarrow> systemInput list \<Rightarrow> captureLife \<Rightarrow> bool" for lib rt cfg where
  signal: "alive l \<Longrightarrow> lf_signal l = None \<Longrightarrow> lifeStep lib rt cfg l [] (l\<lparr>lf_signal := Some 0\<rparr>)"
| close_reader: "alive l \<Longrightarrow> lf_signal l = Some k \<Longrightarrow> k < length (lf_shards l) \<Longrightarrow>
    lifeStep lib rt cfg l [] (l\<lparr>lf_signal := Some (Suc k)\<rparr>)"
| read: "alive l \<Longrightarrow> i < length (lf_shards l) \<Longrightarrow> lf_shards l ! i = Reading \<Longrightarrow> \<not> readerClosed i l \<Longrightarrow>
    lifeStep lib rt cfg l [] (l\<lparr>lf_shards := (lf_shards l)[i := Holding env rd]\<rparr>)"
| handled: "alive l \<Longrightarrow> i < length (lf_shards l) \<Longrightarrow> lf_shards l ! i = Holding env rd \<Longrightarrow>
    \<not> (eventChClosed l \<and> arrivesAtSend env rd (sy_deps (lf_system l))) \<Longrightarrow>
    lifeStep lib rt cfg l [Shard env rd] (l\<lparr>lf_shards := (lf_shards l)[i := Reading],
      lf_system := systemStep lib rt cfg (Shard env rd) (lf_system l)\<rparr>)"
| panic: "alive l \<Longrightarrow> i < length (lf_shards l) \<Longrightarrow> lf_shards l ! i = Holding env rd \<Longrightarrow>
    eventChClosed l \<Longrightarrow> arrivesAtSend env rd (sy_deps (lf_system l)) \<Longrightarrow>
    lifeStep lib rt cfg l [] (l\<lparr>lf_panicked := True\<rparr>)"
| returned: "alive l \<Longrightarrow> i < length (lf_shards l) \<Longrightarrow> lf_shards l ! i = Reading \<Longrightarrow> readerClosed i l \<Longrightarrow>
    lifeStep lib rt cfg l [] (l\<lparr>lf_shards := (lf_shards l)[i := Returned]\<rparr>)"
| stop: "alive l \<Longrightarrow> lf_main l = Waiting \<Longrightarrow> set (lf_shards l) \<subseteq> {Returned} \<Longrightarrow>
    lifeStep lib rt cfg l [] (l\<lparr>lf_main := Stopping\<rparr>)"
| close_events: "alive l \<Longrightarrow> lf_main l = Stopping \<Longrightarrow> lifeStep lib rt cfg l [] (l\<lparr>lf_main := Draining\<rparr>)"
| receive: "alive l \<Longrightarrow> lf_processing l \<Longrightarrow> cd_channel (sy_deps (lf_system l)) \<noteq> [] \<Longrightarrow>
    lifeStep lib rt cfg l [Receive] (l\<lparr>lf_system := systemStep lib rt cfg Receive (lf_system l)\<rparr>)"
| drained: "alive l \<Longrightarrow> lf_processing l \<Longrightarrow> cd_channel (sy_deps (lf_system l)) = [] \<Longrightarrow> eventChClosed l \<Longrightarrow>
    lifeStep lib rt cfg l [] (l\<lparr>lf_processing := False\<rparr>)"
| tick: "alive l \<Longrightarrow> lf_sweeping l \<Longrightarrow>
    lifeStep lib rt cfg l [Cleanup keys] (l\<lparr>lf_system := systemStep lib rt cfg (Cleanup keys) (lf_system l)\<rparr>)"
| sweeper_ends: "alive l \<Longrightarrow> lf_sweeping l \<Longrightarrow> stopChClosed l \<Longrightarrow>
    lifeStep lib rt cfg l [] (l\<lparr>lf_sweeping := False\<rparr>)"
| exit: "alive l \<Longrightarrow> lf_main l = Draining \<Longrightarrow> lifeStep lib rt cfg l [] (l\<lparr>lf_main := Exited\<rparr>)"

inductive_cases lifeStepE: "lifeStep lib rt cfg l turn l'"

text \<open>Several steps, with the turns that the system took.\<close>

inductive lifeRun ::
  "h2lib \<Rightarrow> runtime \<Rightarrow> captureConfig \<Rightarrow> captureLife \<Rightarrow> systemInput list \<Rightarrow> captureLife \<Rightarrow> bool" for lib rt cfg where
  none: "lifeRun lib rt cfg l [] l"
| more: "lifeRun lib rt cfg l turns l' \<Longrightarrow> lifeStep lib rt cfg l' turn l'' \<Longrightarrow> lifeRun lib rt cfg l (turns @ turn) l''"

section \<open>Order\<close>

definition orderly :: "nat \<Rightarrow> captureLife \<Rightarrow> bool" where
  "orderly n l \<longleftrightarrow> length (lf_shards l) = n \<and> \<not> lf_panicked l \<and>
     (stopChClosed l \<longrightarrow> set (lf_shards l) \<subseteq> {Returned}) \<and>
     (lf_processing l \<or> eventChClosed l \<and> cd_channel (sy_deps (lf_system l)) = []) \<and>
     (\<forall>k. lf_signal l = Some k \<longrightarrow> k \<le> n)"

lemma orderly_start: "orderly n (lifeStart n s)"
  by (simp add: orderly_def lifeStart_def stopChClosed_def)

text \<open>A shard that has not returned stands in the way of everything that closes a channel.\<close>

lemma returned_all:
  "orderly n l \<Longrightarrow> stopChClosed l \<Longrightarrow> i < length (lf_shards l) \<Longrightarrow> lf_shards l ! i = Returned"
  unfolding orderly_def using nth_mem by blast

lemma closed_stopped: "eventChClosed l \<Longrightarrow> stopChClosed l"
  by (auto simp: eventChClosed_def stopChClosed_def)

lemma orderly_step:
  assumes "lifeStep lib rt cfg l turn l'" "orderly n l"
  shows "orderly n l'"
  using assms(1)
proof cases
  case (read i env rd)
  with returned_all [OF assms(2), of i] show ?thesis
    using assms(2) by (auto simp: orderly_def stopChClosed_def eventChClosed_def)
next
  case (handled i env rd)
  with returned_all [OF assms(2), of i] have "\<not> stopChClosed l" by auto
  then show ?thesis
    using assms(2) closed_stopped [of l] handled(2) by (auto simp: orderly_def stopChClosed_def eventChClosed_def)
next
  case (panic i env rd)
  with returned_all [OF assms(2) closed_stopped, of i] show ?thesis by simp
next
  case (returned i)
  then show ?thesis using assms(2) set_update_subset_insert [of "lf_shards l" i Returned]
    by (auto simp: orderly_def stopChClosed_def eventChClosed_def)
next
  case receive
  then show ?thesis using assms(2) by (auto simp: orderly_def stopChClosed_def eventChClosed_def)
next
  case (tick keys)
  then show ?thesis using assms(2) by (auto simp: orderly_def stopChClosed_def eventChClosed_def)
qed (use assms(2) in \<open>auto simp: orderly_def stopChClosed_def eventChClosed_def Suc_le_eq\<close>)

lemma orderly_run: "lifeRun lib rt cfg l turns l' \<Longrightarrow> orderly n l \<Longrightarrow> orderly n l'"
  by (induction rule: lifeRun.induct) (auto intro: orderly_step)

text \<open>What the program does to its system is a run of the system.\<close>

lemma step_system: "lifeStep lib rt cfg l turn l' \<Longrightarrow> lf_system l' = fold (systemStep lib rt cfg) turn (lf_system l)"
  by (auto elim!: lifeStepE)

lemma run_system: "lifeRun lib rt cfg l turns l' \<Longrightarrow> lf_system l' = fold (systemStep lib rt cfg) turns (lf_system l)"
  by (induction rule: lifeRun.induct) (auto dest: step_system)

text \<open>C29. karaxys-capture ends in order. In every interleaving of the signal, the shards, the processing
  goroutine, the cleanup and \<open>main\<close>, nothing is ever sent on the closed event channel, which would panic: when
  it closes, every shard has returned, with no record in its hands. At every moment the processing state is
  what the received events make of the start, and the events sent are those received and those still in the
  channel; once the processing goroutine has ended, all that was ever sent has been processed.\<close>

theorem shutdown_orderly:
  assumes "s = initialSystem tuples ttl targets ignored inb outb cp" "lifeRun lib rt cfg (lifeStart n s) turns l"
  shows "\<not> lf_panicked l \<and>
    (eventChClosed l \<longrightarrow> lf_shards l = replicate n Returned) \<and>
    (let received = channelEvents (procInputs lib rt cfg turns s); deps = sy_deps (lf_system l) in
      sy_proc (lf_system l) = fold (captureStep lib rt cfg) (procInputs lib rt cfg turns s) cp \<and>
      cap_sent (cd_stats deps) = of_nat (length received + length (cd_channel deps)) \<and>
      (\<not> lf_processing l \<longrightarrow> cap_sent (cd_stats deps) = of_nat (length received)))"
proof -
  have o: "orderly n l" by (rule orderly_run [OF assms(2) orderly_start])
  have sys: "lf_system l = fold (systemStep lib rt cfg) turns s" using run_system [OF assms(2)] by (simp add: lifeStart_def)
  have start: "cd_channel (sy_deps s) = []" "sy_proc s = cp" "cap_sent (cd_stats (sy_deps s)) = 0"
    by (simp_all add: assms(1) initialSystem_def newShardCaptureDeps_def zeroCaptureStats_def cap_sent_def)
  have "length (cd_channel (sy_deps s)) \<le> cd_capacity (sy_deps s)" by (simp add: start)
  from pipeline_run [OF this, of turns lib rt cfg] obtain sent where
    "sent = channelEvents (procInputs lib rt cfg turns s) @ cd_channel (sy_deps (lf_system l))"
    "sy_proc (lf_system l) = fold (captureStep lib rt cfg) (procInputs lib rt cfg turns s) cp"
    "cap_sent (cd_stats (sy_deps (lf_system l))) = of_nat (length sent)"
    unfolding start sys [symmetric] by auto
  moreover have "eventChClosed l \<longrightarrow> lf_shards l = replicate n Returned"
    using o closed_stopped [of l] by (intro impI replicate_eqI) (auto simp: orderly_def)
  ultimately show ?thesis using o by (auto simp: orderly_def Let_def)
qed

section \<open>The end comes\<close>

fun shardLeft :: "shardAt \<Rightarrow> nat" where
  "shardLeft (Holding env rd) = 3"
| "shardLeft Reading = 1"
| "shardLeft Returned = 0"

fun mainLeft :: "mainAt \<Rightarrow> nat" where
  "mainLeft Waiting = 3"
| "mainLeft Stopping = 2"
| "mainLeft Draining = 1"
| "mainLeft Exited = 0"

definition lifeLeft :: "captureLife \<Rightarrow> nat" where
  "lifeLeft l = sum_list (map shardLeft (lf_shards l)) + mainLeft (lf_main l) + length (cd_channel (sy_deps (lf_system l))) +
     of_bool (lf_processing l) + of_bool (lf_sweeping l) + of_bool (\<not> lf_panicked l)"

definition readersClosed :: "captureLife \<Rightarrow> bool" where
  "readersClosed l \<longleftrightarrow> lf_signal l = Some (length (lf_shards l))"

definition sweepTurn :: "systemInput list \<Rightarrow> bool" where
  "sweepTurn turn \<longleftrightarrow> (\<exists>keys. turn = [Cleanup keys])"

lemma sweepTurn_simps [simp]: "\<not> sweepTurn []" "\<not> sweepTurn [Shard env rd]" "\<not> sweepTurn [Receive]"
  by (simp_all add: sweepTurn_def)

lemma shardLeft_update:
  "i < length shards \<Longrightarrow> sum_list (map shardLeft (shards[i := a])) + shardLeft (shards ! i) =
     sum_list (map shardLeft shards) + shardLeft a"
  by (induction shards arbitrary: i) (auto split: nat.splits simp: nth_Cons')

lemma shard_channel:
  "length (cd_channel (sy_deps (systemStep lib rt cfg (Shard env rd) s))) \<le> Suc (length (cd_channel (sy_deps s)))"
proof -
  obtain res d' where r: "cap_shardStep env rd (sy_deps s) = (res, d')" by force
  with cap_shardStep_accounts(4) [OF r] show ?thesis by (simp add: sentList_def split: option.splits)
qed

lemma receive_channel:
  "cd_channel (sy_deps s) \<noteq> [] \<Longrightarrow>
     length (cd_channel (sy_deps (systemStep lib rt cfg Receive s))) < length (cd_channel (sy_deps s))"
  by (cases "cd_channel (sy_deps s)") auto

lemma step_left:
  assumes "lifeStep lib rt cfg l turn l'" "readersClosed l"
  shows "readersClosed l' \<and> (if sweepTurn turn then lifeLeft l' = lifeLeft l else lifeLeft l' < lifeLeft l)"
  using assms(1)
proof cases
  case (read i env rd)
  then show ?thesis using assms(2) by (simp add: readersClosed_def readerClosed_def)
next
  case (handled i env rd)
  with shardLeft_update [of i "lf_shards l" Reading] shard_channel [of lib rt cfg env rd "lf_system l"] assms(2)
  show ?thesis by (simp add: lifeLeft_def readersClosed_def sweepTurn_def)
next
  case (returned i)
  with shardLeft_update [of i "lf_shards l" Returned] assms(2)
  show ?thesis by (simp add: lifeLeft_def readersClosed_def sweepTurn_def)
next
  case receive
  with receive_channel [of "lf_system l" lib rt cfg] assms(2)
  show ?thesis by (simp add: lifeLeft_def readersClosed_def sweepTurn_def)
qed (use assms(2) in \<open>auto simp: lifeLeft_def readersClosed_def sweepTurn_def alive_def\<close>)

lemma can_step:
  assumes "alive l" "readersClosed l"
  shows "\<exists>turn l'. lifeStep lib rt cfg l turn l' \<and> \<not> sweepTurn turn"
proof (cases "set (lf_shards l) \<subseteq> {Returned}")
  case True
  have "\<exists>l'. lifeStep lib rt cfg l [] l'"
  proof (cases "lf_main l")
    case Waiting
    with True assms(1) show ?thesis by (blast intro: lifeStep.stop)
  next
    case Stopping
    with assms(1) show ?thesis by (blast intro: lifeStep.close_events)
  next
    case Draining
    with assms(1) show ?thesis by (blast intro: lifeStep.exit)
  next
    case Exited
    with assms(1) show ?thesis by (simp add: alive_def)
  qed
  then show ?thesis using sweepTurn_simps(1) by blast
next
  case False
  then obtain a where "a \<in> set (lf_shards l)" "a \<noteq> Returned" by blast
  then obtain i where i: "i < length (lf_shards l)" "lf_shards l ! i \<noteq> Returned" by (auto simp: in_set_conv_nth)
  show ?thesis
  proof (cases "lf_shards l ! i")
    case Reading
    have "readerClosed i l" using assms(2) i(1) by (simp add: readersClosed_def readerClosed_def)
    from lifeStep.returned [OF assms(1) i(1) Reading this, of lib rt cfg] sweepTurn_simps(1) show ?thesis by blast
  next
    case (Holding env rd)
    show ?thesis
    proof (cases "eventChClosed l \<and> arrivesAtSend env rd (sy_deps (lf_system l))")
      case True
      then show ?thesis using lifeStep.panic [OF assms(1) i(1) Holding, of lib rt cfg] sweepTurn_simps(1) by blast
    next
      case False
      then show ?thesis using lifeStep.handled [OF assms(1) i(1) Holding, of lib rt cfg] sweepTurn_simps(2) by blast
    qed
  next
    case Returned
    with i(2) show ?thesis by simp
  qed
qed

text \<open>C30. The shutdown ends. Once the readers are closed, the program can go on until \<open>main\<close> has returned, and each
  step, of whatever goroutine, leaves it less to do, but for a sweep of the sessions, which leaves as much: there
  is no deadlock, no shard is left behind, and the number of steps beside the sweeps is at most \<open>lifeLeft\<close>.\<close>

theorem shutdown_ends:
  assumes "lifeRun lib rt cfg (lifeStart n s) turns l" "readersClosed l"
  shows "(lf_main l = Exited \<or> (\<exists>turn l'. lifeStep lib rt cfg l turn l' \<and> \<not> sweepTurn turn)) \<and>
    (\<forall>turn l'. lifeStep lib rt cfg l turn l' \<longrightarrow>
       readersClosed l' \<and> (if sweepTurn turn then lifeLeft l' = lifeLeft l else lifeLeft l' < lifeLeft l))"
proof -
  have "\<not> lf_panicked l" using orderly_run [OF assms(1) orderly_start] by (simp add: orderly_def)
  then show ?thesis
    using step_left [OF _ assms(2), of lib rt cfg] can_step [OF _ assms(2), of lib rt cfg] by (auto simp: alive_def)
qed

section \<open>What the end leaves behind\<close>

text \<open>The shards from \<open>i\<close> on return, one after the other.\<close>

lemma all_return:
  assumes "alive l" "readersClosed l" "k \<le> length (lf_shards l)" "\<forall>i < length (lf_shards l). lf_shards l ! i = (if i < k then Returned else Reading)"
  shows "lifeRun lib rt cfg l0 turns l \<Longrightarrow> lifeRun lib rt cfg l0 turns (l\<lparr>lf_shards := replicate (length (lf_shards l)) Returned\<rparr>)"
  using assms
proof (induction "length (lf_shards l) - k" arbitrary: k l)
  case 0
  then have same: "replicate (length (lf_shards l)) Returned = lf_shards l" by (intro nth_equalityI) auto
  have "l\<lparr>lf_shards := lf_shards l\<rparr> = l" by simp
  with 0(2) show ?case by (simp only: same)
next
  case (Suc m)
  then have k: "k < length (lf_shards l)" by linarith
  let ?l = "l\<lparr>lf_shards := (lf_shards l)[k := Returned]\<rparr>"
  have "lifeStep lib rt cfg l [] ?l"
    using Suc.prems k by (intro lifeStep.returned) (auto simp: readersClosed_def readerClosed_def)
  then have "lifeRun lib rt cfg l0 (turns @ []) ?l" by (rule lifeRun.more [OF Suc.prems(1)])
  then have "lifeRun lib rt cfg l0 turns ?l" by simp
  moreover have "m = length (lf_shards ?l) - Suc k" using Suc.hyps(2) k by simp
  moreover have "\<forall>i < length (lf_shards ?l). lf_shards ?l ! i = (if i < Suc k then Returned else Reading)"
    using Suc.prems(5) k by (auto simp: nth_list_update less_Suc_eq)
  ultimately have "lifeRun lib rt cfg l0 turns (?l\<lparr>lf_shards := replicate (length (lf_shards ?l)) Returned\<rparr>)"
    using Suc.hyps(1) [of ?l "Suc k"] Suc.prems(2,3) k by (simp add: alive_def readersClosed_def)
  then show ?case by simp
qed

text \<open>The readers from the \<open>k\<close>-th on are closed.\<close>

lemma all_closed:
  assumes "alive l" "lf_signal l = Some k" "k \<le> length (lf_shards l)" "lifeRun lib rt cfg l0 turns l"
  shows "lifeRun lib rt cfg l0 turns (l\<lparr>lf_signal := Some (length (lf_shards l))\<rparr>)"
  using assms
proof (induction "length (lf_shards l) - k" arbitrary: k l)
  case 0
  then have same: "Some (length (lf_shards l)) = lf_signal l" by simp
  have "l\<lparr>lf_signal := lf_signal l\<rparr> = l" by simp
  with 0(5) show ?case by (simp only: same)
next
  case (Suc m)
  then have k: "k < length (lf_shards l)" by linarith
  let ?l = "l\<lparr>lf_signal := Some (Suc k)\<rparr>"
  have "lifeRun lib rt cfg l0 (turns @ []) ?l"
    using lifeRun.more [OF Suc.prems(4) lifeStep.close_reader [OF Suc.prems(1,2) k]] by simp
  then have "lifeRun lib rt cfg l0 turns (?l\<lparr>lf_signal := Some (length (lf_shards ?l))\<rparr>)"
    using Suc.hyps(1) [of ?l "Suc k"] Suc.hyps(2) Suc.prems(1) k by (simp add: alive_def)
  then show ?case by simp
qed

lemma run_quiet: "lifeRun lib rt cfg l0 turns l \<Longrightarrow> lifeStep lib rt cfg l [] l' \<Longrightarrow> lifeRun lib rt cfg l0 turns l'"
  using lifeRun.more by fastforce

text \<open>No record in hand, no event in the channel.\<close>

definition atRest :: "captureLife \<Rightarrow> bool" where
  "atRest l \<longleftrightarrow> lf_main l = Waiting \<and> set (lf_shards l) \<subseteq> {Reading} \<and> cd_channel (sy_deps (lf_system l)) = []"

definition ended :: "captureLife \<Rightarrow> captureLife" where
  "ended l = l\<lparr>lf_signal := Some (length (lf_shards l)), lf_shards := replicate (length (lf_shards l)) Returned,
     lf_processing := False, lf_main := Exited\<rparr>"

text \<open>From rest a signal can bring every goroutine but the cleanup to its end, with no turn of the system.\<close>

lemma quiet_end:
  assumes "lifeRun lib rt cfg (lifeStart n s) turns l" "atRest l"
  shows "lifeRun lib rt cfg (lifeStart n s) turns (ended l)"
proof -
  have o: "orderly n l" by (rule orderly_run [OF assms(1) orderly_start])
  then have a: "alive l" "lf_processing l" "length (lf_shards l) = n"
    using assms(2) by (auto simp: alive_def atRest_def orderly_def eventChClosed_def)
  obtain l1 where l1: "lifeRun lib rt cfg (lifeStart n s) turns l1" "\<exists>k \<le> n. l1 = l\<lparr>lf_signal := Some k\<rparr>"
  proof (cases "lf_signal l")
    case None
    then show thesis using that run_quiet [OF assms(1) lifeStep.signal [OF a(1)]] by blast
  next
    case (Some k)
    then have "l = l\<lparr>lf_signal := Some k\<rparr>" "k \<le> n" using o by (simp_all add: orderly_def)
    then show thesis using that assms(1) by blast
  qed
  then have "lifeRun lib rt cfg (lifeStart n s) turns (l1\<lparr>lf_signal := Some (length (lf_shards l1))\<rparr>)"
    using all_closed [of l1] a by (auto simp: alive_def)
  then have l2: "lifeRun lib rt cfg (lifeStart n s) turns (l\<lparr>lf_signal := Some n\<rparr>)"
    using l1(2) a(3) by auto
  have reading: "\<forall>i < n. lf_shards l ! i = Reading" using assms(2) a(3) unfolding atRest_def using nth_mem by blast
  define l3 where "l3 = l\<lparr>lf_signal := Some n, lf_shards := replicate n Returned\<rparr>"
  have "lifeRun lib rt cfg (lifeStart n s) turns l3"
    using all_return [OF _ _ _ _ l2, of 0] a reading by (simp add: l3_def alive_def readersClosed_def)
  then have "lifeRun lib rt cfg (lifeStart n s) turns (l3\<lparr>lf_main := Stopping\<rparr>)"
    using assms(2) a by (elim run_quiet) (auto intro!: lifeStep.stop simp: l3_def alive_def atRest_def)
  then have "lifeRun lib rt cfg (lifeStart n s) turns (l3\<lparr>lf_main := Stopping, lf_main := Draining\<rparr>)"
    using a by (elim run_quiet) (use lifeStep.close_events [of "l3\<lparr>lf_main := Stopping\<rparr>"] in \<open>simp add: l3_def alive_def\<close>)
  then have "lifeRun lib rt cfg (lifeStart n s) turns (l3\<lparr>lf_main := Draining, lf_processing := False\<rparr>)"
    using assms(2) a lifeStep.drained [of "l3\<lparr>lf_main := Draining\<rparr>"]
    by (elim run_quiet) (simp add: l3_def alive_def atRest_def eventChClosed_def)
  then have "lifeRun lib rt cfg (lifeStart n s) turns (l3\<lparr>lf_main := Draining, lf_processing := False, lf_main := Exited\<rparr>)"
    using a lifeStep.exit [of "l3\<lparr>lf_main := Draining, lf_processing := False\<rparr>"]
    by (elim run_quiet) (simp add: l3_def alive_def)
  then show ?thesis using a by (simp add: l3_def ended_def)
qed

text \<open>C32. The sessions are not flushed at the end, although the log says so. From every moment at which the program
  is at rest, a signal can bring it to a clean end, with every shard returned, the channel empty and the
  processing goroutine ended, that leaves the state of the processing as it was: what the sessions
  hold of half-finished conversations is neither drained nor emitted nor counted.\<close>

theorem shutdown_keeps_sessions:
  assumes "lifeRun lib rt cfg (lifeStart n s) turns l" "atRest l"
  shows "\<exists>l'. lifeRun lib rt cfg (lifeStart n s) turns l' \<and> lf_main l' = Exited \<and> \<not> lf_panicked l' \<and>
    \<not> lf_processing l' \<and> lf_shards l' = replicate n Returned \<and> sy_proc (lf_system l') = sy_proc (lf_system l)"
proof -
  have "orderly n l" by (rule orderly_run [OF assms(1) orderly_start])
  then show ?thesis using quiet_end [OF assms] by (intro exI [of _ "ended l"]) (simp add: ended_def orderly_def)
qed

section \<open>Samples\<close>

text \<open>A request and a response that only the end of the connection delimits.\<close>

definition pendingProc :: captureProc where
  "pendingProc = fold (captureStep sampleH2 sampleRuntime sampleCapture)
     [ChannelEvent (sampleEvent eventTypeData directionRead 3 (''GET /a'' @ crlf2)),
      ChannelEvent (sampleEvent eventTypeData directionWrite 3 (''HTTP/1.1 200'' @ crlf2 @ ''hi''))]
     (initialCapture sampleCapture sampleWorld)"

definition pendingSystem :: captureSystem where
  "pendingSystem = initialSystem (Some []) 15 {} {} True True pendingProc"

lemma pending_rest: "atRest (lifeStart n pendingSystem)"
  by (auto simp: atRest_def lifeStart_def pendingSystem_def initialSystem_def newShardCaptureDeps_def)

text \<open>The conversation is complete as soon as the flow is flushed, yet the program ends with nothing emitted.\<close>

theorem shutdown_keeps_sessions_witness:
  "\<exists>turns l' state. lifeRun sampleH2 sampleRuntime sampleCapture (lifeStart 1 pendingSystem) turns l' \<and> lf_main l' = Exited \<and>
     w_out (cp_world (sy_proc (lf_system l'))) = [] \<and>
     cap_get (sessionKey (sampleEvent 1 0 3 [])) (cp_store (sy_proc (lf_system l'))) = Some state \<and>
     fst (cap_flush sampleH2 sampleRuntime sampleCapture state (cp_world (sy_proc (lf_system l')), zeroProcessing)) = 1"
proof -
  obtain l' where l': "lifeRun sampleH2 sampleRuntime sampleCapture (lifeStart 1 pendingSystem) [] l'" "lf_main l' = Exited"
    "sy_proc (lf_system l') = pendingProc"
    using shutdown_keeps_sessions [OF lifeRun.none pending_rest, of sampleH2 sampleRuntime sampleCapture 1]
    by (auto simp: lifeStart_def pendingSystem_def initialSystem_def)
  have "w_out (cp_world pendingProc) = []" by code_simp
  moreover have "map_option (\<lambda>state. fst (cap_flush sampleH2 sampleRuntime sampleCapture state (cp_world pendingProc, zeroProcessing)))
      (cap_get (sessionKey (sampleEvent 1 0 3 [])) (cp_store pendingProc)) = Some 1" by code_simp
  then obtain state where "cap_get (sessionKey (sampleEvent 1 0 3 [])) (cp_store pendingProc) = Some state"
    "fst (cap_flush sampleH2 sampleRuntime sampleCapture state (cp_world pendingProc, zeroProcessing)) = 1" by auto
  ultimately show ?thesis using l' by (intro exI [of _ "[]"] exI [of _ l'] exI [of _ state]) simp
qed

theorem shutdown_orderly_witness:
  "\<exists>l. lifeRun sampleH2 sampleRuntime sampleCapture (lifeStart 1 pendingSystem) [Shard sampleLoopEnv RingError] l \<and>
     eventChClosed l \<and> lf_shards l = [Returned] \<and> \<not> lf_panicked l \<and> cap_sent (cd_stats (sy_deps (lf_system l))) = 0"
proof -
  let ?l = "lifeStart 1 pendingSystem" and ?i = "Shard sampleLoopEnv RingError"
  define l1 where "l1 = ?l\<lparr>lf_shards := [Holding sampleLoopEnv RingError]\<rparr>"
  define l2 where "l2 = l1\<lparr>lf_shards := [Reading], lf_system := systemStep sampleH2 sampleRuntime sampleCapture ?i (lf_system l1)\<rparr>"
  have "lifeStep sampleH2 sampleRuntime sampleCapture ?l [] l1"
    using lifeStep.read [of ?l 0] by (simp add: l1_def lifeStart_def alive_def readerClosed_def)
  moreover have "lifeStep sampleH2 sampleRuntime sampleCapture l1 [?i] l2"
    using lifeStep.handled [of l1 0 sampleLoopEnv RingError]
    by (simp add: l2_def l1_def lifeStart_def alive_def eventChClosed_def)
  ultimately have run: "lifeRun sampleH2 sampleRuntime sampleCapture ?l ([] @ [?i]) l2"
    by (intro lifeRun.more run_quiet [OF lifeRun.none])
  have "atRest l2" using pending_rest [of 1] by (simp add: l2_def l1_def atRest_def lifeStart_def cap_shardStep_def)
  from quiet_end [OF run this] have e: "lifeRun sampleH2 sampleRuntime sampleCapture ?l [?i] (ended l2)" by simp
  have closed: "eventChClosed (ended l2)" "\<not> lf_processing (ended l2)" by (simp_all add: ended_def eventChClosed_def)
  with shutdown_orderly [OF pendingSystem_def e] show ?thesis using e by (auto simp: Let_def)
qed

theorem shutdown_ends_witness:
  "\<exists>l turn l'. lifeRun sampleH2 sampleRuntime sampleCapture (lifeStart 1 pendingSystem) [] l \<and> lifeLeft l = 7 \<and>
     lifeStep sampleH2 sampleRuntime sampleCapture l turn l' \<and> lifeLeft l' < 7"
proof -
  let ?l = "lifeStart 1 pendingSystem"
  define l1 where "l1 = ?l\<lparr>lf_signal := Some 1\<rparr>"
  have "lifeRun sampleH2 sampleRuntime sampleCapture ?l [] (?l\<lparr>lf_signal := Some 0\<rparr>)"
    by (rule run_quiet [OF lifeRun.none lifeStep.signal]) (simp_all add: lifeStart_def alive_def)
  from all_closed [OF _ _ _ this, of 0] have run: "lifeRun sampleH2 sampleRuntime sampleCapture ?l [] l1"
    by (simp add: l1_def lifeStart_def alive_def)
  have l1: "readersClosed l1" "lf_main l1 \<noteq> Exited" "lifeLeft l1 = 7"
    by (simp_all add: l1_def lifeStart_def readersClosed_def lifeLeft_def pendingSystem_def initialSystem_def newShardCaptureDeps_def)
  obtain turn l' where "lifeStep sampleH2 sampleRuntime sampleCapture l1 turn l'" "\<not> sweepTurn turn" "lifeLeft l' < lifeLeft l1"
    using shutdown_ends [OF run l1(1)] l1(2) by meson
  with run l1(3) show ?thesis by auto
qed

end
