(* ===== verification/AgentShutdown.thy ===== *)
theory AgentShutdown
  imports ProducerRuns
begin

text \<open>
  The end of the agent, \<^verbatim>\<open>main\<close> in \<^verbatim>\<open>cmd/agent/main.go\<close> after the shards have returned: \<open>Flush\<close> waits for Kafka's
  client, then the deferred calls close the producer's queue, which drains it into the client, and the client.
  The goroutine of the producer and the one that reads the delivery reports go on meanwhile. Of Kafka's client
  only this is used: a message it accepted is outstanding until its report has been read, \<open>Flush\<close> returns when
  nothing is outstanding or its time is over, and \<open>Close\<close> waits for no report.
\<close>

section \<open>The steps\<close>

text \<open>\<open>main\<close> is in \<open>Flush\<close>, has returned from it, has closed the queue, has closed the client.\<close>

datatype endAt = Flushing | Flushed | QueueClosed | ClientClosed

record agentEnd =
  ae_producer :: queuedProducer
  ae_outstanding :: "queuedKafkaMessage list"
  ae_main :: endAt

definition endStart :: "queuedProducer \<Rightarrow> queuedKafkaMessage list \<Rightarrow> agentEnd" where
  "endStart q outstanding = \<lparr>ae_producer = q, ae_outstanding = outstanding, ae_main = Flushing\<rparr>"

text \<open>What the client accepted in the passage from one state of the producer to the next is outstanding.\<close>

definition handOver :: "queuedProducer \<Rightarrow> agentEnd \<Rightarrow> agentEnd" where
  "handOver q' s = s\<lparr>ae_producer := q', ae_outstanding := ae_outstanding s @
     drop (length (qp_accepted (ae_producer s))) (qp_accepted q')\<rparr>"

inductive endStep :: "spoolLib \<Rightarrow> agentEnd \<Rightarrow> agentEnd \<Rightarrow> bool" for lib where
  produce_next: "ae_main s \<in> {Flushing, Flushed} \<Longrightarrow>
    endStep lib s (handOver (produceNext lib noFaults now outcome (ae_producer s)) s)"
| replay: "ae_main s \<in> {Flushing, Flushed} \<Longrightarrow>
    endStep lib s (handOver (replaySpool lib noFaults noFaults now (ae_producer s)) s)"
| report: "ae_main s \<noteq> ClientClosed \<Longrightarrow> ae_outstanding s = before @ msg # behind \<Longrightarrow>
    rep = Delivered \<or> rep = DeliveryFailed unavailable msg \<Longrightarrow>
    endStep lib s (s\<lparr>ae_producer := handleReport lib noFaults now rep (ae_producer s), ae_outstanding := before @ behind\<rparr>)"
| flush_done: "ae_main s = Flushing \<Longrightarrow> ae_outstanding s = [] \<Longrightarrow> endStep lib s (s\<lparr>ae_main := Flushed\<rparr>)"
| flush_timeout: "ae_main s = Flushing \<Longrightarrow> endStep lib s (s\<lparr>ae_main := Flushed\<rparr>)"
| close_queue: "ae_main s = Flushed \<Longrightarrow>
    endStep lib s ((handOver (drain lib noFaults outcomes deadline (ae_producer s)) s)\<lparr>ae_main := QueueClosed\<rparr>)"
| close_client: "ae_main s = QueueClosed \<Longrightarrow> endStep lib s (s\<lparr>ae_main := ClientClosed\<rparr>)"

inductive_cases endStepE: "endStep lib s s'"

text \<open>The steps in which \<open>Flush\<close> does not run out of time.\<close>

definition patientStep :: "spoolLib \<Rightarrow> agentEnd \<Rightarrow> agentEnd \<Rightarrow> bool" where
  "patientStep lib s s' \<longleftrightarrow> endStep lib s s' \<and> (ae_main s = Flushing \<and> ae_main s' = Flushed \<longrightarrow> ae_outstanding s = [])"

section \<open>What can be stranded\<close>

lemma produce_accepted:
  "\<not> brokerUnavailable now q \<Longrightarrow> qp_queue q = msg # rest \<Longrightarrow>
     qp_queue (produceNext lib f now Accepted q) = rest \<and>
     qp_accepted (produceNext lib f now Accepted q) = qp_accepted q @ [msg] \<and>
     qp_spool (produceNext lib f now Accepted q) = qp_spool q \<and>
     qp_brokerDownUntil (produceNext lib f now Accepted q) = qp_brokerDownUntil q"
  by (simp add: produceNext_def produce_def brokerUnavailable_def)

lemma drain_accepted:
  "\<not> brokerUnavailable now q \<Longrightarrow>
     qp_queue (drain lib f (replicate (length (qp_queue q)) (now, Accepted)) deadline q) = [] \<and>
     qp_accepted (drain lib f (replicate (length (qp_queue q)) (now, Accepted)) deadline q) = qp_accepted q @ qp_queue q \<and>
     qp_spool (drain lib f (replicate (length (qp_queue q)) (now, Accepted)) deadline q) = qp_spool q"
proof (induction "length (qp_queue q)" arbitrary: q)
  case (Suc n)
  then obtain msg rest where q: "qp_queue q = msg # rest" by (cases "qp_queue q") auto
  let ?q = "produceNext lib f now Accepted q"
  note p = produce_accepted [OF Suc.prems q, of lib f]
  have "\<not> brokerUnavailable now ?q" using Suc.prems p by (simp add: brokerUnavailable_def)
  moreover have "n = length (qp_queue ?q)" using Suc.hyps(2) p q by simp
  ultimately have ih: "qp_queue (drain lib f (replicate (length rest) (now, Accepted)) deadline ?q) = [] \<and>
      qp_accepted (drain lib f (replicate (length rest) (now, Accepted)) deadline ?q) = qp_accepted q @ msg # rest \<and>
      qp_spool (drain lib f (replicate (length rest) (now, Accepted)) deadline ?q) = qp_spool q"
    using Suc.hyps(1) [of ?q] p by simp
  have "drain lib f (replicate (length (qp_queue q)) (now, Accepted)) deadline q =
      drain lib f (replicate (length rest) (now, Accepted)) deadline ?q" using q by simp
  with ih q show ?case by (simp only: simp_thms)
qed simp

text \<open>C31. The agent flushes Kafka's client before it empties its own queue into it. With a client that works and is
  in no hurry - every message is accepted, nothing is outstanding when \<open>Flush\<close> returns, no time runs out -
  the shutdown can end with everything that was in the queue handed to a client that is then closed without
  waiting: outstanding, in no spool, and without a report, so that it is neither delivered nor replayed.\<close>

theorem agent_shutdown_strands_queue:
  assumes "\<not> brokerUnavailable now q"
  shows "\<exists>s. (patientStep lib)\<^sup>*\<^sup>* (endStart q []) s \<and> ae_main s = ClientClosed \<and>
    ae_outstanding s = qp_queue q \<and> qp_queue (ae_producer s) = [] \<and> qp_spool (ae_producer s) = qp_spool q"
proof -
  define q' where "q' = drain lib noFaults (replicate (length (qp_queue q)) (now, Accepted)) now q"
  note d = drain_accepted [OF assms, of lib noFaults now, folded q'_def]
  let ?s1 = "(endStart q [])\<lparr>ae_main := Flushed\<rparr>"
  let ?s2 = "(handOver q' ?s1)\<lparr>ae_main := QueueClosed\<rparr>"
  have "patientStep lib (endStart q []) ?s1"
    using endStep.flush_done [of "endStart q []" lib] by (simp add: patientStep_def endStart_def)
  moreover have "patientStep lib ?s1 ?s2"
    using endStep.close_queue [of ?s1 lib "replicate (length (qp_queue q)) (now, Accepted)" now]
    by (simp add: patientStep_def q'_def endStart_def)
  moreover have "patientStep lib ?s2 (?s2\<lparr>ae_main := ClientClosed\<rparr>)"
    using endStep.close_client [of ?s2 lib] by (simp add: patientStep_def)
  ultimately have "(patientStep lib)\<^sup>*\<^sup>* (endStart q []) (?s2\<lparr>ae_main := ClientClosed\<rparr>)"
    by (blast intro: rtranclp.rtrancl_into_rtrancl rtranclp.rtrancl_refl)
  then show ?thesis
    using d by (intro exI [of _ "?s2\<lparr>ae_main := ClientClosed\<rparr>"]) (simp add: handOver_def endStart_def)
qed

text \<open>A producer to which one event has been submitted.\<close>

definition busyProducer :: queuedProducer where
  "busyProducer = submitNow sampleLib 0 \<lparr>km_key = ''7-3-1'', km_value = ''event''\<rparr>
     (newQueuedProducer sampleLib noFaults noFaults 0 backpressureBestEffort 10 zeroAgentStats
       (Some \<lparr>ds_file = None, ds_maxBytes = 1000\<rparr>) 30)"

theorem agent_shutdown_strands_queue_witness:
  "\<exists>s. (patientStep sampleLib)\<^sup>*\<^sup>* (endStart busyProducer []) s \<and> ae_main s = ClientClosed \<and>
     ae_outstanding s = [\<lparr>km_key = ''7-3-1'', km_value = ''event''\<rparr>] \<and> qp_queue (ae_producer s) = []"
proof -
  have q: "qp_queue busyProducer = [\<lparr>km_key = ''7-3-1'', km_value = ''event''\<rparr>]" "qp_brokerDownUntil busyProducer = 0"
    by (simp_all add: busyProducer_def submitNow_def submit_def trySend_def newQueuedProducer_def replaySpool_def
        spool_drainAll_def spool_readAll_def)
  then have "\<not> brokerUnavailable 0 busyProducer" by (simp add: brokerUnavailable_def)
  from agent_shutdown_strands_queue [OF this, of sampleLib] q(1) show ?thesis by auto
qed

end
