(* ===== verification/Spec2Isabelle.thy ===== *)
theory Spec2Isabelle
  imports WorkerRuns WorkerFlows WorkerConfig ProducerRuns AgentCapture AgentMetrics CaptureTarget CaptureRuns CaptureDelivery CaptureMain AgentMain MetadataAgreement SessionRace CaptureShutdown AgentShutdown
begin

text \<open>
  A model of the HTTP traffic tracer: two Go processes around a Kafka topic, a third that does the work of both, and what is proved of them.

  \<^bold>\<open>The program.\<close> An eBPF program copies the payloads of traced system calls into ring
  buffers. The \<^emph>\<open>agent\<close> (\<^verbatim>\<open>cmd/agent\<close>) decides which processes are traced, labels each
  event with its connection, process and container, filters flows by port and direction, and
  produces JSON events to Kafka through a bounded queue, a circuit breaker and a disk spool. The
  \<^emph>\<open>worker\<close> (\<^verbatim>\<open>cmd/worker\<close>) consumes the events, reassembles the two byte streams of each
  flow, pairs HTTP requests with responses and emits conversations to stdout, to an HTTP endpoint or
  to Kafka. \<^verbatim>\<open>cmd/karaxys-capture\<close> is a single process that does both.

  \<^bold>\<open>Conventions.\<close> A struct is a record with a prefix per type, an enum a datatype, \<open>uintN\<close> an
  \<open>N word\<close>, \<open>int\<close> and \<open>int64\<close> an \<open>int\<close> (wrapped with \<open>int64\<close> where a computation can leave
  the range), a string or byte slice a list of the 256 characters, a Go map a map or an
  association list with distinct keys where its size or its order of iteration matters. A method that
  runs under a mutex is one atomic step; \<open>SessionRace\<close> has the worker's two goroutines at the grain of their mutexes. An error is a value of a sum or option type; what the operating
  system, Kafka, the kernel's maps and Go's library do to a call is an argument (\<open>runtime\<close>,
  \<open>world\<close>, \<open>sinkEnv\<close>, \<open>procfs\<close>, \<open>targetEnv\<close>, \<open>spoolFaults\<close>, \<open>kernelFaults\<close>, \<open>h2lib\<close>, \<open>sslFiles\<close>, \<open>startEnv\<close>). Logging is left out.

  \<^bold>\<open>Theories.\<close>
  \<^item> \<open>Prelude\<close>: types, collections of facts, the locales \<open>step_invariant\<close>, \<open>step_counter\<close> and
    \<open>step_simulation\<close> for runs of a step function.
  \<^item> \<open>GoLib\<close>, \<open>Base64\<close>: the functions of Go's library that the code calls on bytes.
  \<^item> \<open>Model\<close>, \<open>World\<close>: the worker's data (\<^verbatim>\<open>model.go\<close>), its clock, random source and output.
  \<^item> \<open>SessionStore\<close> (\<^verbatim>\<open>store.go\<close>): the sessions and the sweep; locale \<open>session_store\<close>.
  \<^item> \<open>Framing\<close>, \<open>HttpParse\<close>, \<open>Processing\<close> (\<^verbatim>\<open>processing.go\<close>): marker search and resynchronisation
    (locales \<open>marker_scan\<close>, \<open>stream_sync\<close>), one message off a buffer, routing and draining.
  \<^item> \<open>Output\<close> (\<^verbatim>\<open>output.go\<close>): the emitted records and lines.
  \<^item> \<open>Reassembly\<close>: the abstract specification of draining, \<open>extractRequests\<close> and
    \<open>matchResponses\<close>, the proof that the code's loops implement it, and independence of chunking.
  \<^item> \<open>Worker\<close>, \<open>WorkerRuns\<close>, \<open>WorkerFlows\<close> (\<^verbatim>\<open>main.go\<close>): the poll loop as a fold over inputs;
    bounds and accounting of every run; isolation of flows, closing, expiry, keys and loss tracking.
  \<^item> \<open>Sink\<close> (\<^verbatim>\<open>sink.go\<close>), \<open>WorkerConfig\<close> (\<^verbatim>\<open>config.go\<close>): retries and dead letters (locale
    \<open>conversation_sink\<close>), accepted configurations.
  \<^item> \<open>TtlCache\<close>: the locale \<open>ttl_cache\<close>; \<open>FlowFilter\<close> and \<open>AgentMetadata\<close> (\<^verbatim>\<open>metadata.go\<close>) interpret
    it with the filter's decisions and the resolver's entries. \<open>AgentContainers\<close>: what is asked of Docker and Kubernetes.
  \<^item> \<open>Target\<close> (\<^verbatim>\<open>target.go\<close>): target resolution, and the locale \<open>synced_set\<close> for the kernel's sets.
  \<^item> \<open>Producer\<close>, \<open>ProducerRuns\<close> (\<^verbatim>\<open>producer.go\<close>): queue, spool, breaker; bounded queue,
    conservation of messages, exactness of the breaker.
  \<^item> \<open>KernelConfig\<close> (\<^verbatim>\<open>main.go\<close> of the agent): capture configuration, port sets and socket tuples
    in the kernel's maps. \<open>RingRecord\<close>: the records of the ring buffers (locale \<open>field_codec\<close>).
  \<^item> \<open>AgentCapture\<close>: the agent's capture loop, its accounting, and its agreement with the worker
    on payloads and session keys.
  \<^item> \<open>AgentControl\<close> (\<^verbatim>\<open>control.go\<close>, \<^verbatim>\<open>health.go\<close>): heartbeats, the remote configuration and its
    poll loop, health. \<open>AgentMetrics\<close>: the drop counters and the metrics event.
  \<^item> \<open>StartUp\<close>, \<open>AgentMain\<close> (\<^verbatim>\<open>main.go\<close> of the agent): the flags, the order of start-up with its fatal errors, and
    the consistency of the kernel, the flow filter, the targets and the loop after it.
  \<^item> \<open>SessionRace\<close>: the poll loop and the session sweep as two step relations over shared state, one step
    per critical section; the sequential model is refined where they do not overlap, nothing deadlocks,
    and the window in which the sweep takes a session from under an event.
  \<^item> \<open>CaptureTypes\<close>, \<open>HttpTwo\<close>, \<open>CaptureParse\<close>, \<open>CaptureStream\<close> (\<^verbatim>\<open>types.go\<close>, \<^verbatim>\<open>h2.go\<close>, \<^verbatim>\<open>process.go\<close>, \<^verbatim>\<open>session.go\<close>,
    \<^verbatim>\<open>emit.go\<close> of karaxys-capture): its state, the frames of HTTP/2, its own text of the
    worker's functions, each proved equal, and the processing goroutine with the switch from ciphertext to plaintext. \<open>CaptureAgreement\<close>, \<open>CaptureFlows\<close>: agreement with the worker on
    plaintext HTTP/1, the TLS switch, and the flows of HTTP/2.
  \<^item> \<open>CaptureContainers\<close>, \<open>CaptureMetadata\<close>, \<open>MetadataAgreement\<close> (\<^verbatim>\<open>metadata.go\<close> of karaxys-capture): its own text of
    the flow filter, the resolver and the container metadata, held against the agent's: equal but for the role of a connection.
  \<^item> \<open>CaptureTarget\<close>, \<open>CaptureKernel\<close>, \<open>CaptureSSL\<close> (\<^verbatim>\<open>target.go\<close>, \<^verbatim>\<open>main.go\<close>, \<^verbatim>\<open>ssl.go\<close>): its targets and process
    tree, its kernel maps, and the TLS probes. Outside \<^verbatim>\<open>metadata.go\<close>, \<^verbatim>\<open>process.go\<close> and \<^verbatim>\<open>emit.go\<close> a function whose
    text is that of the agent's or the worker's is the definition made for that one.
  \<^item> \<open>CaptureLoop\<close>, \<open>CaptureRuns\<close>, \<open>CaptureSink\<close>, \<open>CaptureDelivery\<close>, \<open>CaptureMain\<close> (\<^verbatim>\<open>main.go\<close>, \<^verbatim>\<open>sink.go\<close>): the
    shards, the bounded channel and the composition of the goroutines; the HTTP sink; start-up. What becomes
    of every ring record and of every conversation, and what a start guarantees to every run.
  \<^item> \<open>CaptureShutdown\<close>, \<open>AgentShutdown\<close> (the ends of the two \<open>main\<close>s): signal, readers, channels and goroutines of
    karaxys-capture as a step relation over its system; Kafka's client, the queue and the order of the deferred
    calls of the agent. No send on a closed channel, no deadlock, and what each of them leaves behind.
  \<^item> \<open>SampleHttp\<close>: a small instance of Go's HTTP readers, JSON encoder and clock, on which the
    witnesses evaluate.

  \<^bold>\<open>Bounds and termination.\<close> No fuel is used. The draining loops terminate because a parsed message
  consumes a byte and a matched response a queued request; the breadth-first search of the process
  tree because each round marks a process or shortens the queue; the replay, retry and sweep loops
  recurse on a list or a count; a sweep that is interleaved with the poll loop has the measure \<open>sweepLeft\<close>. The 1024 hops
  of \<open>walk\<close> are the code's own bound.

  \<^bold>\<open>Not modelled.\<close> HTTP exchanges and JSON themselves; HPACK and the
  framing of \<^verbatim>\<open>golang.org/x/net/http2\<close>, of which \<open>h2lib\<close> is the interface; the eBPF programs but for the label
  they put on an event, and the generated bindings; the configuration of
  Kafka's client; the statistics that are only logged; the worker's end, where the loop stops after a signal and the
  sessions of the store are left as they are.
\<close>

end
